(* ===== verification/Lake_Prelude.thy ===== *)
theory Lake_Prelude
  imports Complex_Main "HOL-Library.Word"
begin

text \<open>
  Shared vocabulary of the development: the C++ and SQL integer types, the result type of
  fallible code, and the generic facts on bounded index loops that the component theories use.

  \<^item> \<open>u64\<close>, \<open>u32\<close>, \<open>u16\<close> are C++'s unsigned integers, kept at their width (\<open>+\<close> wraps);
    \<open>oid\<close> is PostgreSQL's 32-bit object id.
  \<^item> A fallible function returns \<open>'e + 'a\<close>, \<open>Inl\<close> for \<^verbatim>\<open>ereport(ERROR)\<close> or a thrown exception.
  \<^item> The array scans of shared memory (\<^verbatim>\<open>for (i = 0; i < QueueCapacity(); i++)\<close>) that keep the
    best candidate seen so far are \<open>scan_min\<close> and \<open>scan_max\<close>; loops that update slots
    in place are \<open>map_upto\<close>.
\<close>

type_synonym u64 = "64 word"
type_synonym u32 = "32 word"
type_synonym u16 = "16 word"
type_synonym oid = "32 word"

named_theorems lake_defs
named_theorems scan_facts

section \<open>Machine integers\<close>

definition INT64_MAX :: u64 where
  "INT64_MAX = 9223372036854775807"

definition UINT64_MAX :: u64 where
  "UINT64_MAX = 18446744073709551615"

definition InvalidOid :: oid where
  "InvalidOid = 0"

definition OidIsValid :: "oid \<Rightarrow> bool" where
  "OidIsValid v \<longleftrightarrow> v \<noteq> InvalidOid"

lemma unat_INT64_MAX: "unat INT64_MAX = 9223372036854775807"
  by (simp add: INT64_MAX_def)

lemma unat_UINT64_MAX: "unat UINT64_MAX = 18446744073709551615"
  by (simp add: UINT64_MAX_def)

text \<open>A guarded 64-bit addition does not wrap.\<close>

lemma unat_add_guarded:
  fixes a b :: u64
  assumes "b \<le> INT64_MAX" and "a \<le> INT64_MAX - b"
  shows "unat (a + b) = unat a + unat b" and "unat a + unat b \<le> unat INT64_MAX"
proof -
  have "unat (INT64_MAX - b) = unat INT64_MAX - unat b"
    using assms(1) by (simp add: unat_sub)
  then have le: "unat a + unat b \<le> unat INT64_MAX"
    using assms by (simp add: word_le_nat_alt)
  then show "unat a + unat b \<le> unat INT64_MAX" .
  show "unat (a + b) = unat a + unat b"
    using le by (simp add: unat_word_ariths unat_INT64_MAX)
qed

lemma unat_Suc_guarded:
  fixes a :: u64
  assumes "a < INT64_MAX"
  shows "unat (a + 1) = Suc (unat a)"
  using assms by (simp add: unat_word_ariths word_less_nat_alt unat_INT64_MAX)

lemma less_Suc_not_max:
  fixes w :: u64
  assumes "w \<noteq> UINT64_MAX"
  shows "w < w + 1"
proof -
  have "unat w \<noteq> unat UINT64_MAX" using assms unfolding word_unat_eq_iff .
  moreover have "unat w < 2 ^ 64" using unsigned_less [of w] by simp
  ultimately show ?thesis by (simp add: word_less_nat_alt unat_word_ariths unat_UINT64_MAX)
qed

lemma less_Suc_guarded:
  fixes a :: u64
  assumes "a < INT64_MAX"
  shows "a < a + 1"
  using assms by (simp add: word_less_nat_alt unat_Suc_guarded)

section \<open>Results\<close>

text \<open>Sequencing of fallible steps: the first error wins, as an \<^verbatim>\<open>ereport\<close> would.\<close>

definition andthen :: "'e + 'a \<Rightarrow> ('a \<Rightarrow> 'e + 'b) \<Rightarrow> 'e + 'b" where
  "andthen m f = (case m of Inl e \<Rightarrow> Inl e | Inr x \<Rightarrow> f x)"

definition guard_or :: "'e \<Rightarrow> bool \<Rightarrow> 'e + unit" where
  "guard_or e b = (if b then Inr () else Inl e)"

lemma andthen_simps [simp]:
  "andthen (Inl e) f = Inl e"
  "andthen (Inr x) f = f x"
  by (simp_all add: andthen_def)

lemma andthen_cong [fundef_cong]: "m = n \<Longrightarrow> (\<And>x. n = Inr x \<Longrightarrow> f x = g x) \<Longrightarrow> andthen m f = andthen n g"
  by (cases n) simp_all

lemma andthen_Inr_iff: "andthen m f = Inr y \<longleftrightarrow> (\<exists>x. m = Inr x \<and> f x = Inr y)"
  by (cases m) auto

lemma andthen_Inl_iff: "andthen m f = Inl e \<longleftrightarrow> m = Inl e \<or> (\<exists>x. m = Inr x \<and> f x = Inl e)"
  by (cases m) auto

text \<open>Loops over a list that may fail.\<close>

fun fold_err :: "('a \<Rightarrow> 'b \<Rightarrow> 'e + 'b) \<Rightarrow> 'a list \<Rightarrow> 'b \<Rightarrow> 'e + 'b" where
  "fold_err f [] b = Inr b"
| "fold_err f (x # xs) b = andthen (f x b) (fold_err f xs)"

fun map_err :: "('a \<Rightarrow> 'e + 'b) \<Rightarrow> 'a list \<Rightarrow> 'e + 'b list" where
  "map_err f [] = Inr []"
| "map_err f (x # xs) = andthen (f x) (\<lambda>y. andthen (map_err f xs) (\<lambda>ys. Inr (y # ys)))"

lemma fold_err_cong [fundef_cong]:
  "xs = ys \<Longrightarrow> b = c \<Longrightarrow> (\<And>x b. x \<in> set ys \<Longrightarrow> f x b = g x b) \<Longrightarrow> fold_err f xs b = fold_err g ys c"
proof (induction ys arbitrary: xs b c)
  case (Cons y ys)
  then show ?case by (cases "g y c") simp_all
qed simp

lemma map_err_cong [fundef_cong]:
  "xs = ys \<Longrightarrow> (\<And>x. x \<in> set ys \<Longrightarrow> f x = g x) \<Longrightarrow> map_err f xs = map_err g ys"
  by (induction xs arbitrary: ys) auto

lemma fold_err_append: "fold_err f (xs @ ys) b = andthen (fold_err f xs b) (fold_err f ys)"
proof (induction xs arbitrary: b)
  case (Cons x xs)
  then show ?case by (cases "f x b") simp_all
qed simp

lemma map_err_Inr: "map_err f xs = Inr ys \<longleftrightarrow> list_all2 (\<lambda>x y. f x = Inr y) xs ys"
  by (induction xs arbitrary: ys) (auto simp: andthen_Inr_iff list_all2_Cons1)

lemma guard_or_simps [simp]:
  "guard_or e b = Inr u \<longleftrightarrow> b"
  "guard_or e b = Inl e' \<longleftrightarrow> \<not> b \<and> e' = e"
  by (auto simp: guard_or_def)

section \<open>Options in lists\<close>

fun somes :: "'a option list \<Rightarrow> 'a list" where
  "somes [] = []"
| "somes (None # xs) = somes xs"
| "somes (Some x # xs) = x # somes xs"

lemma set_somes: "set (somes xs) = {x. Some x \<in> set xs}"
  by (induction xs rule: somes.induct) auto

lemma somes_map_Some [simp]: "somes (map Some xs) = xs"
  by (induction xs) auto

lemma length_somes: "length (somes xs) \<le> length xs"
  by (induction xs rule: somes.induct) auto

lemma somes_append [simp]: "somes (xs @ ys) = somes xs @ somes ys"
  by (induction xs rule: somes.induct) auto

lemma length_somes_eq: "length (somes xs) = length xs \<longleftrightarrow> None \<notin> set xs"
proof (induction xs rule: somes.induct)
  case (2 xs)
  then show ?case using length_somes [of xs] by auto
qed auto

section \<open>Decimal text\<close>

definition digit_char :: "nat \<Rightarrow> char" where
  "digit_char d = char_of (48 + d)"

fun dec_of_nat :: "nat \<Rightarrow> string" where
  "dec_of_nat n = (if n < 10 then [digit_char n] else dec_of_nat (n div 10) @ [digit_char (n mod 10)])"

declare dec_of_nat.simps [simp del]

definition dec_of_int :: "int \<Rightarrow> string" where
  "dec_of_int i = (if i < 0 then CHR ''-'' # dec_of_nat (nat (- i)) else dec_of_nat (nat i))"

section \<open>Loops over a prefix of an array\<close>

definition map_upto :: "nat \<Rightarrow> ('a \<Rightarrow> 'a) \<Rightarrow> 'a list \<Rightarrow> 'a list" where
  "map_upto n f xs = map f (take n xs) @ drop n xs"

lemma length_map_upto [simp]: "length (map_upto n f xs) = length xs"
  by (simp add: map_upto_def)

lemma nth_map_upto:
  "i < length xs \<Longrightarrow> map_upto n f xs ! i = (if i < n then f (xs ! i) else xs ! i)"
  by (auto simp: map_upto_def nth_append min_def)

lemma nth_update_in: "j < length xs \<Longrightarrow> xs[i := x] ! j = (if i = j then x else xs ! j)"
  by (cases "i < length xs") (simp_all add: nth_list_update)

lemma set_map_upto: "n \<le> length xs \<Longrightarrow> set (map_upto n f xs) = f ` set (take n xs) \<union> set (drop n xs)"
  by (simp add: map_upto_def)

text \<open>Keep the index with the least (greatest) key among those that satisfy \<open>P\<close>;
  the first one wins a tie, since the source replaces on strict comparison only.\<close>

definition scan_min :: "(nat \<Rightarrow> 'k::linorder) \<Rightarrow> (nat \<Rightarrow> bool) \<Rightarrow> nat \<Rightarrow> nat option" where
  "scan_min key P n = fold (\<lambda>i acc.
     if P i \<and> (case acc of None \<Rightarrow> True | Some j \<Rightarrow> key i < key j) then Some i else acc) [0..<n] None"

definition scan_max :: "(nat \<Rightarrow> 'k::linorder) \<Rightarrow> (nat \<Rightarrow> bool) \<Rightarrow> nat \<Rightarrow> nat option" where
  "scan_max key P n = fold (\<lambda>i acc.
     if P i \<and> (case acc of None \<Rightarrow> True | Some j \<Rightarrow> key j < key i) then Some i else acc) [0..<n] None"

definition find_index :: "(nat \<Rightarrow> bool) \<Rightarrow> nat \<Rightarrow> nat option" where
  "find_index P n = find P [0..<n]"

lemma scan_min_None [scan_facts]: "scan_min key P n = None \<longleftrightarrow> (\<forall>i<n. \<not> P i)"
  by (induction n) (auto simp: scan_min_def less_Suc_eq split: option.splits)

lemma scan_min_Some:
  "scan_min key P n = Some j \<Longrightarrow> j < n \<and> P j \<and> (\<forall>i<n. P i \<longrightarrow> key j \<le> key i)"
proof (induction n arbitrary: j)
  case 0
  then show ?case by (simp add: scan_min_def)
next
  case (Suc n)
  show ?case
  proof (cases "scan_min key P n")
    case None
    with Suc.prems have "j = n \<and> P n" by (auto simp: scan_min_def split: if_splits)
    moreover have "\<forall>i<n. \<not> P i" using None by (simp add: scan_min_None)
    ultimately show ?thesis by (auto simp: less_Suc_eq)
  next
    case (Some k)
    with Suc.IH have k: "k < n" "P k" "\<forall>i<n. P i \<longrightarrow> key k \<le> key i" by auto
    have "scan_min key P (Suc n) = (if P n \<and> key n < key k then Some n else Some k)"
      using Some by (simp add: scan_min_def)
    with Suc.prems k show ?thesis
      by (fastforce simp: less_Suc_eq split: if_splits intro: order_trans less_imp_le)
  qed
qed

lemma scan_max_None [scan_facts]: "scan_max key P n = None \<longleftrightarrow> (\<forall>i<n. \<not> P i)"
  by (induction n) (auto simp: scan_max_def less_Suc_eq split: option.splits)

lemma scan_max_Some:
  "scan_max key P n = Some j \<Longrightarrow> j < n \<and> P j \<and> (\<forall>i<n. P i \<longrightarrow> key i \<le> key j)"
proof (induction n arbitrary: j)
  case 0
  then show ?case by (simp add: scan_max_def)
next
  case (Suc n)
  show ?case
  proof (cases "scan_max key P n")
    case None
    with Suc.prems have "j = n \<and> P n" by (auto simp: scan_max_def split: if_splits)
    moreover have "\<forall>i<n. \<not> P i" using None by (simp add: scan_max_None)
    ultimately show ?thesis by (auto simp: less_Suc_eq)
  next
    case (Some k)
    with Suc.IH have k: "k < n" "P k" "\<forall>i<n. P i \<longrightarrow> key i \<le> key k" by auto
    have "scan_max key P (Suc n) = (if P n \<and> key k < key n then Some n else Some k)"
      using Some by (simp add: scan_max_def)
    with Suc.prems k show ?thesis
      by (fastforce simp: less_Suc_eq split: if_splits intro: order_trans less_imp_le)
  qed
qed

lemma find_index_None [scan_facts]: "find_index P n = None \<longleftrightarrow> (\<forall>i<n. \<not> P i)"
  by (auto simp: find_index_def find_None_iff)

lemma find_index_Some: "find_index P n = Some j \<Longrightarrow> j < n \<and> P j \<and> (\<forall>i<j. \<not> P i)"
  by (auto simp: find_index_def find_Some_iff)

lemma scan_min_cong [fundef_cong]:
  "n = m \<Longrightarrow> (\<And>i. i < m \<Longrightarrow> P i = Q i) \<Longrightarrow> (\<And>i. i < m \<Longrightarrow> f i = g i) \<Longrightarrow>
   scan_min f P n = scan_min g Q m"
proof (induction m arbitrary: n)
  case 0
  then show ?case by (simp add: scan_min_def)
next
  case (Suc m)
  then have IH: "scan_min f P m = scan_min g Q m" by simp
  have "\<And>k. scan_min g Q m = Some k \<Longrightarrow> k < m" using scan_min_Some by blast
  then show ?case using Suc.prems IH
    by (auto simp: scan_min_def split: option.splits)
qed

lemma scan_max_cong:
  "(\<And>i. i < n \<Longrightarrow> P i = Q i) \<Longrightarrow> scan_max f P n = scan_max f Q n"
proof (induction n)
  case (Suc n)
  then have "scan_max f P n = scan_max f Q n" by simp
  then show ?case using Suc.prems by (simp add: scan_max_def)
qed (simp add: scan_max_def)

section \<open>Reachable states\<close>

inductive reach :: "('s \<Rightarrow> bool) \<Rightarrow> ('s \<Rightarrow> 's \<Rightarrow> bool) \<Rightarrow> 's \<Rightarrow> bool"
  for init :: "'s \<Rightarrow> bool" and step :: "'s \<Rightarrow> 's \<Rightarrow> bool"
where
  reach_init: "init s \<Longrightarrow> reach init step s"
| reach_step: "reach init step s \<Longrightarrow> step s t \<Longrightarrow> reach init step t"

text \<open>The contract of a component with shared state: its initial states satisfy an invariant and
  every atomic step keeps it.\<close>

locale transition_system =
  fixes init :: "'s \<Rightarrow> bool" and step :: "'s \<Rightarrow> 's \<Rightarrow> bool" and inv :: "'s \<Rightarrow> bool"
  assumes init_inv: "init s \<Longrightarrow> inv s"
    and step_inv: "inv s \<Longrightarrow> step s t \<Longrightarrow> inv t"
begin

lemma reach_inv: "reach init step s \<Longrightarrow> inv s"
  by (induction rule: reach.induct) (auto intro: init_inv step_inv)

lemma steps_inv: "step\<^sup>*\<^sup>* s t \<Longrightarrow> inv s \<Longrightarrow> inv t"
  by (induction rule: rtranclp_induct) (auto intro: step_inv)

end

end
