(* ===== verification/Guc.thy ===== *)
theory Guc
  imports Lake_Prelude
begin

text \<open>
  The configuration variables of \<^verbatim>\<open>pg_ducklake/src/guc.cpp\<close>: the record holds the C++ globals,
  \<open>guc_boot\<close> their initial values, \<open>InitGUCs\<close> the variables registered with PostgreSQL, with their
  boot values and ranges, and \<open>SetConfig\<close> what PostgreSQL does with a setting of a registered
  variable. \<open>guc_in_range\<close> is what the other components may rely on. A \<^verbatim>\<open>double\<close> variable is a
  rational number here: the model computes with exact arithmetic where the code rounds.
\<close>

datatype NativeWriterTestFault =
    NATIVE_WRITER_TEST_FAULT_OFF
  | NATIVE_WRITER_TEST_FAULT_AFTER_PREWRITE
  | NATIVE_WRITER_TEST_FAULT_AFTER_CLAIM
  | NATIVE_WRITER_TEST_FAULT_AFTER_RETAG
  | NATIVE_WRITER_TEST_FAULT_AFTER_TABLE_STATS
  | NATIVE_WRITER_TEST_FAULT_AFTER_COLUMN_STATS
  | NATIVE_WRITER_TEST_FAULT_AFTER_CHANGE_RECORD
  | NATIVE_WRITER_TEST_FAULT_AFTER_PUBLICATION

record guc =
  default_table_path :: string
  azure_transport_option_type :: string
  vacuum_delete_threshold :: rat
  enable_direct_insert :: bool
  ctas_skip_data :: bool
  native_writer_reservation_queue :: bool
  native_writer_reservation_queue_capacity :: int
  native_writer_reservation_queue_wait_ms :: int
  native_writer_max_retry_count :: int
  native_writer_retry_wait_ms :: int
  native_writer_retry_backoff :: rat
  test_native_writer_force_client_retry_before_rebase :: bool
  native_writer_test_fault :: NativeWriterTestFault
  enable_metadata_sync :: bool
  threads :: int
  superuser_role :: string
  writer_role :: string
  reader_role :: string
  maintenance_enabled :: bool
  maintenance_naptime :: int
  maintenance_max_workers :: int
  maintenance_flush_inlined_data :: bool
  maintenance_expire_snapshots :: bool
  maintenance_cleanup_old_files :: bool

definition guc_boot :: guc where
  "guc_boot = \<lparr>
     default_table_path = '''',
     azure_transport_option_type = '''',
     vacuum_delete_threshold = 1 / 10,
     enable_direct_insert = True,
     ctas_skip_data = False,
     native_writer_reservation_queue = True,
     native_writer_reservation_queue_capacity = 256,
     native_writer_reservation_queue_wait_ms = 10,
     native_writer_max_retry_count = 10,
     native_writer_retry_wait_ms = 1,
     native_writer_retry_backoff = 3 / 2,
     test_native_writer_force_client_retry_before_rebase = False,
     native_writer_test_fault = NATIVE_WRITER_TEST_FAULT_OFF,
     enable_metadata_sync = True,
     threads = - 1,
     superuser_role = ''ducklake_superuser'',
     writer_role = ''ducklake_writer'',
     reader_role = ''ducklake_reader'',
     maintenance_enabled = True,
     maintenance_naptime = 60,
     maintenance_max_workers = 3,
     maintenance_flush_inlined_data = True,
     maintenance_expire_snapshots = True,
     maintenance_cleanup_old_files = False\<rparr>"

definition native_writer_test_fault_options :: "(string \<times> NativeWriterTestFault) list" where
  "native_writer_test_fault_options =
    [(''off'', NATIVE_WRITER_TEST_FAULT_OFF),
     (''after_prewrite'', NATIVE_WRITER_TEST_FAULT_AFTER_PREWRITE),
     (''after_claim'', NATIVE_WRITER_TEST_FAULT_AFTER_CLAIM),
     (''after_retag'', NATIVE_WRITER_TEST_FAULT_AFTER_RETAG),
     (''after_table_stats'', NATIVE_WRITER_TEST_FAULT_AFTER_TABLE_STATS),
     (''after_column_stats'', NATIVE_WRITER_TEST_FAULT_AFTER_COLUMN_STATS),
     (''after_change_record'', NATIVE_WRITER_TEST_FAULT_AFTER_CHANGE_RECORD),
     (''after_publication'', NATIVE_WRITER_TEST_FAULT_AFTER_PUBLICATION)]"

text \<open>\<^verbatim>\<open>DUCKLAKE_MAX_MAINTENANCE_WORKERS\<close> of \<^verbatim>\<open>maintenance_worker.hpp\<close>.\<close>

definition DUCKLAKE_MAX_MAINTENANCE_WORKERS :: nat where
  "DUCKLAKE_MAX_MAINTENANCE_WORKERS = 8"

section \<open>The registered variables\<close>

datatype guc_context = PGC_POSTMASTER | PGC_SIGHUP | PGC_SUSET | PGC_USERSET

text \<open>A registered variable: its name, the pointer to the C++ global as its getter and setter, its boot
  value, its range and who may set it.\<close>

datatype guc_def =
    CustomString string "guc \<Rightarrow> string" "string \<Rightarrow> guc \<Rightarrow> guc" string guc_context
  | CustomBool string "guc \<Rightarrow> bool" "bool \<Rightarrow> guc \<Rightarrow> guc" bool guc_context
  | CustomInt string "guc \<Rightarrow> int" "int \<Rightarrow> guc \<Rightarrow> guc" int int int guc_context
  | CustomReal string "guc \<Rightarrow> rat" "rat \<Rightarrow> guc \<Rightarrow> guc" rat rat rat guc_context
  | CustomEnum string "guc \<Rightarrow> NativeWriterTestFault" "NativeWriterTestFault \<Rightarrow> guc \<Rightarrow> guc" NativeWriterTestFault
      "(string \<times> NativeWriterTestFault) list" guc_context

definition InitGUCs :: "guc_def list" where
  "InitGUCs =
    [CustomString ''ducklake.default_table_path'' default_table_path (\<lambda>v g. g\<lparr>default_table_path := v\<rparr>) '''' PGC_USERSET,
     CustomString ''ducklake.azure_transport_option_type'' azure_transport_option_type
       (\<lambda>v g. g\<lparr>azure_transport_option_type := v\<rparr>) '''' PGC_SUSET,
     CustomReal ''ducklake.vacuum_delete_threshold'' vacuum_delete_threshold (\<lambda>v g. g\<lparr>vacuum_delete_threshold := v\<rparr>)
       (1 / 10) 0 1 PGC_USERSET,
     CustomBool ''ducklake.enable_direct_insert'' enable_direct_insert (\<lambda>v g. g\<lparr>enable_direct_insert := v\<rparr>) True PGC_USERSET,
     CustomBool ''ducklake.native_writer_reservation_queue'' native_writer_reservation_queue
       (\<lambda>v g. g\<lparr>native_writer_reservation_queue := v\<rparr>) True PGC_USERSET,
     CustomInt ''ducklake.native_writer_reservation_queue_capacity'' native_writer_reservation_queue_capacity
       (\<lambda>v g. g\<lparr>native_writer_reservation_queue_capacity := v\<rparr>) 256 1 256 PGC_POSTMASTER,
     CustomInt ''ducklake.native_writer_reservation_queue_wait_ms'' native_writer_reservation_queue_wait_ms
       (\<lambda>v g. g\<lparr>native_writer_reservation_queue_wait_ms := v\<rparr>) 10 0 60000 PGC_USERSET,
     CustomInt ''ducklake.native_writer_max_retry_count'' native_writer_max_retry_count
       (\<lambda>v g. g\<lparr>native_writer_max_retry_count := v\<rparr>) 10 0 1000 PGC_USERSET,
     CustomInt ''ducklake.native_writer_retry_wait_ms'' native_writer_retry_wait_ms
       (\<lambda>v g. g\<lparr>native_writer_retry_wait_ms := v\<rparr>) 1 0 60000 PGC_USERSET,
     CustomReal ''ducklake.native_writer_retry_backoff'' native_writer_retry_backoff
       (\<lambda>v g. g\<lparr>native_writer_retry_backoff := v\<rparr>) (3 / 2) 1 100 PGC_USERSET,
     CustomBool ''ducklake.test_native_writer_force_client_retry_before_rebase''
       test_native_writer_force_client_retry_before_rebase
       (\<lambda>v g. g\<lparr>test_native_writer_force_client_retry_before_rebase := v\<rparr>) False PGC_SUSET,
     CustomEnum ''ducklake.test_native_writer_fault'' native_writer_test_fault
       (\<lambda>v g. g\<lparr>native_writer_test_fault := v\<rparr>) NATIVE_WRITER_TEST_FAULT_OFF native_writer_test_fault_options PGC_SUSET,
     CustomInt ''ducklake.threads'' threads (\<lambda>v g. g\<lparr>threads := v\<rparr>) (- 1) (- 1) 1024 PGC_USERSET,
     CustomBool ''ducklake.enable_metadata_sync'' enable_metadata_sync (\<lambda>v g. g\<lparr>enable_metadata_sync := v\<rparr>) True PGC_USERSET,
     CustomString ''ducklake.superuser_role'' superuser_role (\<lambda>v g. g\<lparr>superuser_role := v\<rparr>) ''ducklake_superuser'' PGC_POSTMASTER,
     CustomString ''ducklake.writer_role'' writer_role (\<lambda>v g. g\<lparr>writer_role := v\<rparr>) ''ducklake_writer'' PGC_POSTMASTER,
     CustomString ''ducklake.reader_role'' reader_role (\<lambda>v g. g\<lparr>reader_role := v\<rparr>) ''ducklake_reader'' PGC_POSTMASTER,
     CustomBool ''ducklake.maintenance_enabled'' maintenance_enabled (\<lambda>v g. g\<lparr>maintenance_enabled := v\<rparr>) True PGC_SIGHUP,
     CustomInt ''ducklake.maintenance_naptime'' maintenance_naptime (\<lambda>v g. g\<lparr>maintenance_naptime := v\<rparr>) 60 1 86400 PGC_SIGHUP,
     CustomInt ''ducklake.maintenance_max_workers'' maintenance_max_workers (\<lambda>v g. g\<lparr>maintenance_max_workers := v\<rparr>)
       3 1 (int DUCKLAKE_MAX_MAINTENANCE_WORKERS) PGC_POSTMASTER,
     CustomBool ''ducklake.maintenance_flush_inlined_data'' maintenance_flush_inlined_data
       (\<lambda>v g. g\<lparr>maintenance_flush_inlined_data := v\<rparr>) True PGC_SIGHUP,
     CustomBool ''ducklake.maintenance_expire_snapshots'' maintenance_expire_snapshots
       (\<lambda>v g. g\<lparr>maintenance_expire_snapshots := v\<rparr>) True PGC_SIGHUP,
     CustomBool ''ducklake.maintenance_cleanup_old_files'' maintenance_cleanup_old_files
       (\<lambda>v g. g\<lparr>maintenance_cleanup_old_files := v\<rparr>) False PGC_SIGHUP]"

text \<open>What a user may write as the value of a variable, and PostgreSQL's answer: a value of the
  variable's type, within its range, is assigned to the global; anything else is refused. An enum is
  set by the name of one of its options.\<close>

datatype guc_value = SetString string | SetBool bool | SetInt int | SetReal rat

fun guc_name :: "guc_def \<Rightarrow> string" where
  "guc_name (CustomString n _ _ _ _) = n"
| "guc_name (CustomBool n _ _ _ _) = n"
| "guc_name (CustomInt n _ _ _ _ _ _) = n"
| "guc_name (CustomReal n _ _ _ _ _ _) = n"
| "guc_name (CustomEnum n _ _ _ _ _) = n"

fun guc_assign :: "guc_def \<Rightarrow> guc_value \<Rightarrow> guc \<Rightarrow> guc option" where
  "guc_assign (CustomString _ _ set_var _ _) (SetString v) g = Some (set_var v g)"
| "guc_assign (CustomBool _ _ set_var _ _) (SetBool v) g = Some (set_var v g)"
| "guc_assign (CustomInt _ _ set_var _ lo hi _) (SetInt v) g = (if lo \<le> v \<and> v \<le> hi then Some (set_var v g) else None)"
| "guc_assign (CustomReal _ _ set_var _ lo hi _) (SetReal v) g = (if lo \<le> v \<and> v \<le> hi then Some (set_var v g) else None)"
| "guc_assign (CustomEnum _ _ set_var _ options _) (SetString v) g = map_option (\<lambda>f. set_var f g) (map_of options v)"
| "guc_assign _ _ _ = None"

definition SetConfig :: "string \<Rightarrow> guc_value \<Rightarrow> guc \<Rightarrow> guc option" where
  "SetConfig name v g = Option.bind (find (\<lambda>d. guc_name d = name) InitGUCs) (\<lambda>d. guc_assign d v g)"

text \<open>What a registration promises of the value its global has before any setting.\<close>

fun boot_agrees :: "guc_def \<Rightarrow> guc \<Rightarrow> bool" where
  "boot_agrees (CustomString _ get_var _ b _) g \<longleftrightarrow> get_var g = b"
| "boot_agrees (CustomBool _ get_var _ b _) g \<longleftrightarrow> get_var g = b"
| "boot_agrees (CustomInt _ get_var _ b lo hi _) g \<longleftrightarrow> get_var g = b \<and> lo \<le> b \<and> b \<le> hi"
| "boot_agrees (CustomReal _ get_var _ b lo hi _) g \<longleftrightarrow> get_var g = b \<and> lo \<le> b \<and> b \<le> hi"
| "boot_agrees (CustomEnum _ get_var _ b options _) g \<longleftrightarrow> get_var g = b \<and> b \<in> snd ` set options"

section \<open>The ranges\<close>

definition guc_in_range :: "guc \<Rightarrow> bool" where
  "guc_in_range g \<longleftrightarrow>
     0 \<le> vacuum_delete_threshold g \<and> vacuum_delete_threshold g \<le> 1 \<and>
     1 \<le> native_writer_reservation_queue_capacity g \<and> native_writer_reservation_queue_capacity g \<le> 256 \<and>
     0 \<le> native_writer_reservation_queue_wait_ms g \<and> native_writer_reservation_queue_wait_ms g \<le> 60000 \<and>
     0 \<le> native_writer_max_retry_count g \<and> native_writer_max_retry_count g \<le> 1000 \<and>
     0 \<le> native_writer_retry_wait_ms g \<and> native_writer_retry_wait_ms g \<le> 60000 \<and>
     1 \<le> native_writer_retry_backoff g \<and> native_writer_retry_backoff g \<le> 100 \<and>
     - 1 \<le> threads g \<and> threads g \<le> 1024 \<and>
     1 \<le> maintenance_naptime g \<and> maintenance_naptime g \<le> 86400 \<and>
     1 \<le> maintenance_max_workers g \<and>
     maintenance_max_workers g \<le> int DUCKLAKE_MAX_MAINTENANCE_WORKERS"

lemma guc_boot_in_range: "guc_in_range guc_boot"
  by (simp add: guc_in_range_def guc_boot_def DUCKLAKE_MAX_MAINTENANCE_WORKERS_def)

lemma guc_boot_agrees: "\<forall>d \<in> set InitGUCs. boot_agrees d guc_boot"
  by (simp add: InitGUCs_def guc_boot_def native_writer_test_fault_options_def DUCKLAKE_MAX_MAINTENANCE_WORKERS_def)

definition keeps_range :: "guc_def \<Rightarrow> bool" where
  "keeps_range d \<longleftrightarrow> (\<forall>v g g'. guc_in_range g \<longrightarrow> guc_assign d v g = Some g' \<longrightarrow> guc_in_range g')"

lemma keeps_range_intros:
  "(\<And>v g. guc_in_range g \<Longrightarrow> guc_in_range (f1 v g)) \<Longrightarrow> keeps_range (CustomString n g1 f1 b1 c)"
  "(\<And>v g. guc_in_range g \<Longrightarrow> guc_in_range (f2 v g)) \<Longrightarrow> keeps_range (CustomBool n g2 f2 b2 c)"
  "(\<And>v g. guc_in_range g \<Longrightarrow> lo \<le> v \<Longrightarrow> v \<le> hi \<Longrightarrow> guc_in_range (f3 v g)) \<Longrightarrow> keeps_range (CustomInt n g3 f3 b3 lo hi c)"
  "(\<And>v g. guc_in_range g \<Longrightarrow> rlo \<le> v \<Longrightarrow> v \<le> rhi \<Longrightarrow> guc_in_range (f4 v g)) \<Longrightarrow> keeps_range (CustomReal n g4 f4 b4 rlo rhi c)"
  "(\<And>v g. guc_in_range g \<Longrightarrow> guc_in_range (f5 v g)) \<Longrightarrow> keeps_range (CustomEnum n g5 f5 b5 opts c)"
  unfolding keeps_range_def by (intro allI impI; case_tac v; auto split: if_splits)+

lemma guc_assign_in_range: "\<forall>d \<in> set InitGUCs. keeps_range d"
  unfolding InitGUCs_def list.set ball_simps
  by (intro conjI ballI keeps_range_intros; simp add: guc_in_range_def)

lemma SetConfig_in_range: "SetConfig name v g = Some g' \<Longrightarrow> guc_in_range g \<Longrightarrow> guc_in_range g'"
  using guc_assign_in_range
  by (force simp: SetConfig_def Option.bind_eq_Some_conv find_Some_iff keeps_range_def)

text \<open>The settings that a server process has seen, refused ones included.\<close>

fun apply_settings :: "(string \<times> guc_value) list \<Rightarrow> guc \<Rightarrow> guc" where
  "apply_settings [] g = g"
| "apply_settings ((name, v) # rest) g = apply_settings rest (case SetConfig name v g of None \<Rightarrow> g | Some g' \<Rightarrow> g')"

lemma apply_settings_in_range: "guc_in_range g \<Longrightarrow> guc_in_range (apply_settings settings g)"
proof (induction settings arbitrary: g)
  case (Cons s settings)
  have "guc_in_range (case SetConfig (fst s) (snd s) g of None \<Rightarrow> g | Some g' \<Rightarrow> g')"
    using Cons.prems SetConfig_in_range by (auto split: option.splits)
  from Cons.IH [OF this] show ?case by (cases s) simp
qed simp

text \<open>The settings stay in range. The C++ initialisers of the globals are the registered boot values
  and lie in the registered ranges, and whatever settings users try one after the other, in any
  order, every variable stays in the range that the rest of the extension relies on.\<close>

theorem settings_in_range:
  "list_all (\<lambda>d. boot_agrees d guc_boot) InitGUCs \<and> guc_in_range (apply_settings settings guc_boot)"
  using guc_boot_agrees guc_boot_in_range apply_settings_in_range by (simp add: list_all_iff)

end
