(* ===== verification/Maintenance.thy ===== *)
theory Maintenance
  imports Guc
begin

text \<open>
  The maintenance launcher and its workers, \<^verbatim>\<open>pg_ducklake/src/maintenance_worker.cpp\<close>. The launcher claims
  a slot of shared memory for a database before it registers a worker; the worker flushes inlined data,
  expires snapshots and compacts files, each operation in a transaction of its own, and releases the
  slot when it is done.

  The queries go to DuckLake: \<open>run\<close> says what a query makes of the database and how it ends, and
  \<open>Q\<close> is DuckDB's \<^verbatim>\<open>KeywordHelper::WriteQuoted\<close>.
\<close>

section \<open>Slots\<close>

record MaintenanceWorkerSlot =
  database_oid :: oid
  worker_pid :: int
  slot_in_use :: bool

type_synonym MaintenanceShmem = "MaintenanceWorkerSlot list"

definition MaintenanceShmemStartup :: MaintenanceShmem where
  "MaintenanceShmemStartup = replicate DUCKLAKE_MAX_MAINTENANCE_WORKERS \<lparr>database_oid = 0, worker_pid = 0, slot_in_use = False\<rparr>"

definition slot_of :: "oid \<Rightarrow> MaintenanceShmem \<Rightarrow> nat option" where
  "slot_of db_oid ws = find_index (\<lambda>i. slot_in_use (ws ! i) \<and> database_oid (ws ! i) = db_oid) DUCKLAKE_MAX_MAINTENANCE_WORKERS"

definition HasWorkerForDatabase :: "oid \<Rightarrow> MaintenanceShmem \<Rightarrow> bool" where
  "HasWorkerForDatabase db_oid ws \<longleftrightarrow> slot_of db_oid ws \<noteq> None"

definition CountActiveWorkers :: "MaintenanceShmem \<Rightarrow> nat" where
  "CountActiveWorkers ws = fold (\<lambda>i n. if slot_in_use (ws ! i) then Suc n else n) [0..<DUCKLAKE_MAX_MAINTENANCE_WORKERS] 0"

definition ClaimSlot :: "oid \<Rightarrow> int \<Rightarrow> MaintenanceShmem \<Rightarrow> MaintenanceShmem \<times> nat option" where
  "ClaimSlot db_oid pid ws =
     (case find_index (\<lambda>i. \<not> slot_in_use (ws ! i)) DUCKLAKE_MAX_MAINTENANCE_WORKERS of
        None \<Rightarrow> (ws, None)
      | Some i \<Rightarrow> (ws[i := \<lparr>database_oid = db_oid, worker_pid = pid, slot_in_use = True\<rparr>], Some i))"

definition ReleaseSlot :: "oid \<Rightarrow> MaintenanceShmem \<Rightarrow> MaintenanceShmem" where
  "ReleaseSlot db_oid ws = (case slot_of db_oid ws of None \<Rightarrow> ws | Some i \<Rightarrow> ws[i := (ws ! i)\<lparr>slot_in_use := False\<rparr>])"

text \<open>The worker writes its process id into the slot that the launcher has claimed.\<close>

definition set_worker_pid :: "oid \<Rightarrow> int \<Rightarrow> MaintenanceShmem \<Rightarrow> MaintenanceShmem" where
  "set_worker_pid db_oid MyProcPid ws = (case slot_of db_oid ws of None \<Rightarrow> ws | Some i \<Rightarrow> ws[i := (ws ! i)\<lparr>worker_pid := MyProcPid\<rparr>])"

section \<open>The operations of a worker\<close>

datatype query_end = QueryOk | QueryThrew | PgRaised | ProcDied

text \<open>What a helper returns: true, false after a caught exception; or a PostgreSQL error or the end of the
  process while it ran. The database carries whatever the queries have written until then.\<close>

datatype op_end = OpTrue | OpFalse | OpRaised | OpDied

fun end_of :: "query_end \<Rightarrow> op_end" where
  "end_of QueryOk = OpTrue"
| "end_of QueryThrew = OpFalse"
| "end_of PgRaised = OpRaised"
| "end_of ProcDied = OpDied"

definition run_one :: "(string \<Rightarrow> 'db \<Rightarrow> 'db \<times> query_end) \<Rightarrow> string \<Rightarrow> 'db \<Rightarrow> 'db \<times> op_end" where
  "run_one run query db = (case run query db of (db', e) \<Rightarrow> (db', end_of e))"

definition PGDUCKLAKE_DUCKDB_CATALOG :: string where
  "PGDUCKLAKE_DUCKDB_CATALOG = ''pgducklake''"

definition MaintainTableInProcess ::
  "guc \<Rightarrow> (string \<Rightarrow> 'db \<Rightarrow> 'db \<times> query_end) \<Rightarrow> (string \<Rightarrow> string) \<Rightarrow> string \<times> string \<Rightarrow> 'db \<Rightarrow> 'db \<times> op_end" where
  "MaintainTableInProcess g run Q st db =
     (if \<not> maintenance_flush_inlined_data g then (db, OpTrue)
      else run_one run (''SELECT * FROM ducklake_flush_inlined_data('' @ Q PGDUCKLAKE_DUCKDB_CATALOG @
             '', schema_name='' @ Q (fst st) @ '', table_name='' @ Q (snd st) @ '')'') db)"

definition MaintainCatalogInProcess ::
  "guc \<Rightarrow> (string \<Rightarrow> 'db \<Rightarrow> 'db \<times> query_end) \<Rightarrow> (string \<Rightarrow> string) \<Rightarrow> 'db \<Rightarrow> 'db \<times> op_end" where
  "MaintainCatalogInProcess g run Q db =
     (if \<not> maintenance_expire_snapshots g then (db, OpTrue)
      else run_one run (''SELECT * FROM ducklake_expire_snapshots('' @ Q PGDUCKLAKE_DUCKDB_CATALOG @ '')'') db)"

text \<open>\<^verbatim>\<open>std::to_string\<close> of a non-negative \<^verbatim>\<open>double\<close>: six digits after the point, rounded to the nearest, ties to
  even.\<close>

definition round_even :: "rat \<Rightarrow> int" where
  "round_even x = (let f = \<lfloor>x\<rfloor>; r = x - of_int f in if r < 1 / 2 \<or> (r = 1 / 2 \<and> even f) then f else f + 1)"

definition to_string_double :: "rat \<Rightarrow> string" where
  "to_string_double x = (let n = nat (round_even (x * 1000000)); d = dec_of_nat (n mod 1000000) in
     dec_of_nat (n div 1000000) @ ''.'' @ replicate (6 - length d) (CHR ''0'') @ d)"

definition CompactTable ::
  "guc \<Rightarrow> (string \<Rightarrow> 'db \<Rightarrow> 'db \<times> query_end) \<Rightarrow> (string \<Rightarrow> string) \<Rightarrow> string \<times> string \<Rightarrow> 'db \<Rightarrow> 'db \<times> op_end" where
  "CompactTable g run Q st db =
     (case run_one run (''SELECT * FROM ducklake_rewrite_data_files('' @ Q PGDUCKLAKE_DUCKDB_CATALOG @ '', '' @ Q (snd st) @
             '', schema='' @ Q (fst st) @ '', delete_threshold => '' @ to_string_double (vacuum_delete_threshold g) @ '')'') db of
        (db1, OpTrue) \<Rightarrow>
          run_one run (''SELECT * FROM ducklake_merge_adjacent_files('' @ Q PGDUCKLAKE_DUCKDB_CATALOG @ '', '' @ Q (snd st) @
             '', schema='' @ Q (fst st) @ '')'') db1
      | r \<Rightarrow> r)"

definition CompactCatalog ::
  "guc \<Rightarrow> (string \<Rightarrow> 'db \<Rightarrow> 'db \<times> query_end) \<Rightarrow> (string \<Rightarrow> string) \<Rightarrow> 'db \<Rightarrow> 'db \<times> op_end" where
  "CompactCatalog g run Q db =
     (if \<not> maintenance_cleanup_old_files g then (db, OpTrue)
      else run_one run (''SELECT * FROM ducklake_cleanup_old_files('' @ Q PGDUCKLAKE_DUCKDB_CATALOG @ '', cleanup_all => true)'') db)"

section \<open>The worker\<close>

datatype worker_end = Cleanup | ProcExit

text \<open>One operation: \<^verbatim>\<open>PG_TRY\<close>, and the commit or the abort.\<close>

definition in_transaction :: "('db \<Rightarrow> 'db \<times> op_end) \<Rightarrow> 'db \<Rightarrow> 'db \<times> worker_end" where
  "in_transaction op db =
     (case op db of
        (db', OpTrue) \<Rightarrow> (db', Cleanup)
      | (_, OpFalse) \<Rightarrow> (db, Cleanup)
      | (_, OpRaised) \<Rightarrow> (db, Cleanup)
      | (_, OpDied) \<Rightarrow> (db, ProcExit))"

text \<open>The operations in their order, each after \<^verbatim>\<open>CHECK_FOR_INTERRUPTS\<close>: \<open>irq k\<close> says whether a termination
  request is pending at the \<open>k\<close>-th one.\<close>

fun run_ops :: "(nat \<Rightarrow> bool) \<Rightarrow> nat \<Rightarrow> ('db \<Rightarrow> 'db \<times> op_end) list \<Rightarrow> 'db \<Rightarrow> 'db \<times> worker_end" where
  "run_ops irq k [] db = (db, Cleanup)"
| "run_ops irq k (op # ops) db =
     (if irq k then (db, ProcExit)
      else case in_transaction op db of
             (db', Cleanup) \<Rightarrow> run_ops irq (Suc k) ops db'
           | (db', ProcExit) \<Rightarrow> (db', ProcExit))"

record class_row =
  c_relname :: string
  c_relnamespace :: oid
  c_relam :: oid
  c_relkind :: char

text \<open>PostgreSQL's catalogs as the worker reads them; \<open>None\<close>: the query raised an error.\<close>

record maint_catalog =
  mc_extensions :: "string list"
  mc_class :: "class_row list"
  mc_namespace :: "(oid \<times> string) list"
  mc_am :: "(oid \<times> string) list"

definition ducklake_tables :: "maint_catalog \<Rightarrow> (string \<times> string) list" where
  "ducklake_tables mc =
     concat (map (\<lambda>c. map (\<lambda>n. (snd n, c_relname c)) (filter (\<lambda>n. c_relnamespace c = fst n) (mc_namespace mc)))
       (filter (\<lambda>c. (case filter (\<lambda>a. snd a = ''ducklake'') (mc_am mc) of [] \<Rightarrow> False | a # _ \<Rightarrow> c_relam c = fst a) \<and>
                    c_relkind c = CHR ''r'') (mc_class mc)))"

definition worker_ops ::
  "guc \<Rightarrow> (string \<Rightarrow> 'db \<Rightarrow> 'db \<times> query_end) \<Rightarrow> (string \<Rightarrow> string) \<Rightarrow> (string \<times> string) list \<Rightarrow> ('db \<Rightarrow> 'db \<times> op_end) list" where
  "worker_ops g run Q ts = map (MaintainTableInProcess g run Q) ts @ [MaintainCatalogInProcess g run Q] @
     map (CompactTable g run Q) ts @ [CompactCatalog g run Q]"

text \<open>The work, and what becomes of the slot: only the end of the function releases it.\<close>

definition worker_work ::
  "guc \<Rightarrow> (string \<Rightarrow> 'db \<Rightarrow> 'db \<times> query_end) \<Rightarrow> (string \<Rightarrow> string) \<Rightarrow> (nat \<Rightarrow> bool) \<Rightarrow> maint_catalog option \<Rightarrow> 'db \<Rightarrow> 'db \<times> worker_end" where
  "worker_work g run Q irq cat db =
     (case cat of
        None \<Rightarrow> (db, ProcExit)
      | Some mc \<Rightarrow>
          if ''pg_ducklake'' \<notin> set (mc_extensions mc) then (db, Cleanup)
          else run_ops irq 0 (worker_ops g run Q (ducklake_tables mc)) db)"

definition ducklake_maintenance_worker_main ::
  "guc \<Rightarrow> (string \<Rightarrow> 'db \<Rightarrow> 'db \<times> query_end) \<Rightarrow> (string \<Rightarrow> string) \<Rightarrow> (nat \<Rightarrow> bool) \<Rightarrow> maint_catalog option \<Rightarrow> oid \<Rightarrow> int \<Rightarrow>
   'db \<times> MaintenanceShmem \<Rightarrow> 'db \<times> MaintenanceShmem" where
  "ducklake_maintenance_worker_main g run Q irq cat db_oid MyProcPid s =
     (case s of (db, ws) \<Rightarrow>
        let ws1 = set_worker_pid db_oid MyProcPid ws in
        case worker_work g run Q irq cat db of
          (db', Cleanup) \<Rightarrow> (db', ReleaseSlot db_oid ws1)
        | (db', ProcExit) \<Rightarrow> (db', ws1))"

section \<open>The launcher\<close>

record BackgroundWorker =
  bgw_function_name :: string
  bgw_name :: string
  bgw_type :: string
  bgw_restart_time :: "nat option"
  bgw_main_arg :: oid

definition maintenance_worker :: "oid \<Rightarrow> BackgroundWorker" where
  "maintenance_worker db_oid = \<lparr>bgw_function_name = ''ducklake_maintenance_worker_main'',
     bgw_name = ''ducklake maintenance worker (db '' @ dec_of_nat (unat db_oid) @ '')'', bgw_type = ''ducklake maintenance worker'',
     bgw_restart_time = None, bgw_main_arg = db_oid\<rparr>"

definition InitMaintenanceWorker :: BackgroundWorker where
  "InitMaintenanceWorker = \<lparr>bgw_function_name = ''ducklake_maintenance_launcher_main'', bgw_name = ''ducklake maintenance launcher'',
     bgw_type = ''ducklake maintenance launcher'', bgw_restart_time = Some 60, bgw_main_arg = 0\<rparr>"

text \<open>The critical section for one database.\<close>

definition launcher_claim :: "guc \<Rightarrow> oid \<Rightarrow> MaintenanceShmem \<Rightarrow> MaintenanceShmem \<times> nat option" where
  "launcher_claim g db_oid ws =
     (if \<not> HasWorkerForDatabase db_oid ws \<and> int (CountActiveWorkers ws) < maintenance_max_workers g
      then ClaimSlot db_oid 0 ws else (ws, None))"

text \<open>One turn of the loop over the databases; \<open>others\<close> is what the workers do to the slots while the lock is
  free.\<close>

definition launcher_visit ::
  "guc \<Rightarrow> (BackgroundWorker \<Rightarrow> bool) \<Rightarrow> (MaintenanceShmem \<Rightarrow> MaintenanceShmem) \<Rightarrow> oid \<Rightarrow> MaintenanceShmem \<Rightarrow> MaintenanceShmem" where
  "launcher_visit g RegisterDynamicBackgroundWorker others db_oid ws =
     (case launcher_claim g db_oid ws of
        (ws1, None) \<Rightarrow> ws1
      | (ws1, Some _) \<Rightarrow>
          if RegisterDynamicBackgroundWorker (maintenance_worker db_oid) then ws1 else ReleaseSlot db_oid (others ws1))"

record database_row =
  d_oid :: oid
  datallowconn :: bool
  datistemplate :: bool

definition launcher_pass ::
  "guc \<Rightarrow> (BackgroundWorker \<Rightarrow> bool) \<Rightarrow> (MaintenanceShmem \<Rightarrow> MaintenanceShmem) \<Rightarrow> database_row list \<Rightarrow> MaintenanceShmem \<Rightarrow> MaintenanceShmem" where
  "launcher_pass g reg others dbs ws =
     (if \<not> maintenance_enabled g then ws
      else fold (\<lambda>d ws. launcher_visit g reg others (d_oid d) (others ws)) (filter (\<lambda>d. datallowconn d \<and> \<not> datistemplate d) dbs) ws)"

end
