(* ===== verification/Maintenance_Props.thy ===== *)
theory Maintenance_Props
  imports Maintenance
begin

text \<open>
  The slots of the maintenance workers as a transition system of the launcher and the workers, and what
  the transactions of a worker protect.
\<close>

section \<open>Failed operations leave no trace\<close>

lemma run_one_True:
  assumes "run_one run q db = (db', OpTrue)"
  shows "run q db = (db', QueryOk)"
  using assms by (cases "run q db"; cases "snd (run q db)") (auto simp: run_one_def)

lemma in_transaction_keeps:
  assumes "\<And>db db'. op db = (db', OpTrue) \<Longrightarrow> I db \<Longrightarrow> I db'" "I db"
  shows "I (fst (in_transaction op db))"
  using assms by (auto simp: in_transaction_def split: prod.splits op_end.splits)

lemma run_ops_keeps:
  assumes "\<And>op db db'. op \<in> set ops \<Longrightarrow> op db = (db', OpTrue) \<Longrightarrow> I db \<Longrightarrow> I db'" "I db"
  shows "I (fst (run_ops irq k ops db))"
  using assms
proof (induction ops arbitrary: k db)
  case (Cons op ops)
  have "I (fst (in_transaction op db))" by (rule in_transaction_keeps) (use Cons.prems in auto)
  moreover have "I (fst (run_ops irq (Suc k) ops db'))" if "I db'" for db'
    using that Cons.prems(1) by (intro Cons.IH) auto
  ultimately show ?case using Cons.prems(2) by (auto split: prod.splits worker_end.splits)
qed simp

lemma worker_ops_keep:
  assumes "\<And>q db db'. run q db = (db', QueryOk) \<Longrightarrow> I db \<Longrightarrow> I db'"
    "op \<in> set (worker_ops g run Q ts)" "op db = (db', OpTrue)" "I db"
  shows "I db'"
proof -
  note keep = assms(1) [OF run_one_True]
  consider t where "op = MaintainTableInProcess g run Q t" | "op = MaintainCatalogInProcess g run Q"
    | t where "op = CompactTable g run Q t" | "op = CompactCatalog g run Q"
    using assms(2) by (auto simp: worker_ops_def)
  then show ?thesis
  proof cases
    case 1
    then show ?thesis using assms(3,4) keep by (auto simp: MaintainTableInProcess_def split: if_splits)
  next
    case 2
    then show ?thesis using assms(3,4) keep by (auto simp: MaintainCatalogInProcess_def split: if_splits)
  next
    case 3
    then show ?thesis using assms(3,4) by (auto simp: CompactTable_def split: prod.splits op_end.splits dest!: keep)
  next
    case 4
    then show ?thesis using assms(3,4) keep by (auto simp: CompactCatalog_def split: if_splits)
  qed
qed

text \<open>C38: a failed maintenance operation leaves no trace. Whatever a flush, an expiry or a compaction has
  written before it throws, raises an error or is terminated, and wherever the worker is terminated,
  every property of the database that the successful queries keep holds after the worker: no
  half-done operation is ever committed.\<close>

theorem failed_maintenance_leaves_no_trace:
  assumes "\<And>q db db'. run q db = (db', QueryOk) \<Longrightarrow> I db \<Longrightarrow> I db'" "I db"
  shows "I (fst (ducklake_maintenance_worker_main g run Q irq cat db_oid pid (db, ws)))"
proof -
  have "I (fst (run_ops irq 0 (worker_ops g run Q ts) db))" for ts
    by (rule run_ops_keeps [where I = I, OF _ assms(2)], erule worker_ops_keep [where I = I, rotated]) (use assms(1) in auto)
  then have "I (fst (worker_work g run Q irq cat db))"
    using assms(2) by (simp add: worker_work_def split: option.splits)
  then show ?thesis
    by (auto simp: ducklake_maintenance_worker_main_def Let_def split: prod.splits worker_end.splits)
qed

text \<open>A database of inlined rows and file rows, whose flush deletes the inlined rows and throws.\<close>

definition half_flush :: "string \<Rightarrow> nat \<times> nat \<Rightarrow> (nat \<times> nat) \<times> query_end" where
  "half_flush q db = (if take 37 q = ''SELECT * FROM ducklake_flush_inlined_d'' then ((0, snd db), QueryThrew) else (db, QueryOk))"

definition one_table :: maint_catalog where
  "one_table = \<lparr>mc_extensions = [''pg_ducklake''],
     mc_class = [\<lparr>c_relname = ''t'', c_relnamespace = 11, c_relam = 77, c_relkind = CHR ''r''\<rparr>],
     mc_namespace = [(11, ''public'')], mc_am = [(2, ''heap''), (77, ''ducklake'')]\<rparr>"

theorem failed_maintenance_leaves_no_trace_witness:
  "fst (fst (ducklake_maintenance_worker_main guc_boot half_flush id (\<lambda>_. False) (Some one_table) 5 1234 ((4, 9), MaintenanceShmemStartup))) +
   snd (fst (ducklake_maintenance_worker_main guc_boot half_flush id (\<lambda>_. False) (Some one_table) 5 1234 ((4, 9), MaintenanceShmemStartup))) = 13"
  by (rule failed_maintenance_leaves_no_trace [where I = "\<lambda>db. fst db + snd db = 13"]) (auto simp: half_flush_def split: if_splits)

section \<open>The slots\<close>

text \<open>The launcher, between a claim and the registration of the worker, and the workers that are registered
  and not gone.\<close>

record maint_sys =
  ms_slots :: MaintenanceShmem
  ms_claimed :: "oid option"
  ms_running :: "oid list"

definition maint_init :: "maint_sys \<Rightarrow> bool" where
  "maint_init s \<longleftrightarrow> ms_slots s = MaintenanceShmemStartup \<and> ms_claimed s = None \<and> ms_running s = []"

inductive maint_step :: "maint_sys \<Rightarrow> maint_sys \<Rightarrow> bool" where
  claim: "ms_claimed s = None \<Longrightarrow> launcher_claim g db (ms_slots s) = (ws, Some i) \<Longrightarrow>
    maint_step s (s\<lparr>ms_slots := ws, ms_claimed := Some db\<rparr>)"
| registered: "ms_claimed s = Some db \<Longrightarrow> maint_step s (s\<lparr>ms_claimed := None, ms_running := db # ms_running s\<rparr>)"
| refused: "ms_claimed s = Some db \<Longrightarrow> maint_step s (s\<lparr>ms_slots := ReleaseSlot db (ms_slots s), ms_claimed := None\<rparr>)"
| launcher_exit: "maint_step s (s\<lparr>ms_claimed := None\<rparr>)"
| started: "db \<in> set (ms_running s) \<Longrightarrow> maint_step s (s\<lparr>ms_slots := set_worker_pid db pid (ms_slots s)\<rparr>)"
| finished: "db \<in> set (ms_running s) \<Longrightarrow>
    maint_step s (s\<lparr>ms_slots := ReleaseSlot db (ms_slots s), ms_running := remove1 db (ms_running s)\<rparr>)"
| exited: "db \<in> set (ms_running s) \<Longrightarrow> maint_step s (s\<lparr>ms_running := remove1 db (ms_running s)\<rparr>)"

text \<open>The databases that hold a slot, in slot order.\<close>

definition in_use_dbs :: "MaintenanceShmem \<Rightarrow> oid list" where
  "in_use_dbs ws = map database_oid (filter slot_in_use ws)"

definition maint_inv :: "maint_sys \<Rightarrow> bool" where
  "maint_inv s \<longleftrightarrow> length (ms_slots s) = DUCKLAKE_MAX_MAINTENANCE_WORKERS \<and> distinct (in_use_dbs (ms_slots s)) \<and>
     distinct (ms_running s) \<and> set (ms_running s) \<subseteq> set (in_use_dbs (ms_slots s)) \<and>
     (\<forall>db. ms_claimed s = Some db \<longrightarrow> db \<in> set (in_use_dbs (ms_slots s)) \<and> db \<notin> set (ms_running s))"

lemma slot_of_Some:
  assumes "slot_of db ws = Some i" "length ws = DUCKLAKE_MAX_MAINTENANCE_WORKERS"
  shows "i < length ws" "slot_in_use (ws ! i)" "database_oid (ws ! i) = db"
  using find_index_Some [OF assms(1) [unfolded slot_of_def]] assms(2) by auto

lemma HasWorker_iff:
  assumes "length ws = DUCKLAKE_MAX_MAINTENANCE_WORKERS"
  shows "HasWorkerForDatabase db ws \<longleftrightarrow> db \<in> set (in_use_dbs ws)"
  using assms by (auto simp: HasWorkerForDatabase_def slot_of_def find_index_None in_use_dbs_def in_set_conv_nth)

lemma in_use_split: "i < length ws \<Longrightarrow>
    in_use_dbs (ws[i := s]) = in_use_dbs (take i ws) @ (if slot_in_use s then [database_oid s] else []) @ in_use_dbs (drop (Suc i) ws)"
  by (simp add: in_use_dbs_def upd_conv_take_nth_drop)

lemma in_use_here: "i < length ws \<Longrightarrow>
    in_use_dbs ws = in_use_dbs (take i ws) @ (if slot_in_use (ws ! i) then [database_oid (ws ! i)] else []) @ in_use_dbs (drop (Suc i) ws)"
  using in_use_split [of i ws "ws ! i"] by simp

lemma claim_in_use:
  assumes "launcher_claim g db ws = (ws', Some i)" "length ws = DUCKLAKE_MAX_MAINTENANCE_WORKERS"
  shows "length ws' = length ws" "set (in_use_dbs ws') = insert db (set (in_use_dbs ws))" "db \<notin> set (in_use_dbs ws)"
    "distinct (in_use_dbs ws) \<Longrightarrow> distinct (in_use_dbs ws')" "int (CountActiveWorkers ws) < maintenance_max_workers g"
proof -
  have n: "\<not> HasWorkerForDatabase db ws" "int (CountActiveWorkers ws) < maintenance_max_workers g" "ClaimSlot db 0 ws = (ws', Some i)"
    using assms(1) by (auto simp: launcher_claim_def split: if_splits)
  have i: "find_index (\<lambda>i. \<not> slot_in_use (ws ! i)) DUCKLAKE_MAX_MAINTENANCE_WORKERS = Some i"
    "ws' = ws[i := \<lparr>database_oid = db, worker_pid = 0, slot_in_use = True\<rparr>]"
    using n(3) by (auto simp: ClaimSlot_def split: option.splits)
  have il: "i < length ws" "\<not> slot_in_use (ws ! i)" using find_index_Some [OF i(1)] assms(2) by auto
  show nd: "db \<notin> set (in_use_dbs ws)" using n(1) HasWorker_iff [OF assms(2)] by simp
  show "length ws' = length ws" "int (CountActiveWorkers ws) < maintenance_max_workers g" using i n by simp_all
  show "set (in_use_dbs ws') = insert db (set (in_use_dbs ws))" "distinct (in_use_dbs ws) \<Longrightarrow> distinct (in_use_dbs ws')"
    using nd il(2) by (auto simp: i(2) in_use_split [OF il(1)] in_use_here [OF il(1)])
qed

lemma release_in_use:
  assumes "length ws = DUCKLAKE_MAX_MAINTENANCE_WORKERS" "distinct (in_use_dbs ws)"
  shows "length (ReleaseSlot db ws) = length ws" "set (in_use_dbs (ReleaseSlot db ws)) = set (in_use_dbs ws) - {db}"
    "distinct (in_use_dbs (ReleaseSlot db ws))"
proof -
  show "length (ReleaseSlot db ws) = length ws" by (simp add: ReleaseSlot_def split: option.splits)
  have "set (in_use_dbs (ReleaseSlot db ws)) = set (in_use_dbs ws) - {db} \<and> distinct (in_use_dbs (ReleaseSlot db ws))"
  proof (cases "slot_of db ws")
    case None
    then have "db \<notin> set (in_use_dbs ws)" using HasWorker_iff [OF assms(1), of db] by (simp add: HasWorkerForDatabase_def)
    then show ?thesis using None assms(2) by (simp add: ReleaseSlot_def)
  next
    case (Some i)
    note S = slot_of_Some [OF Some assms(1)]
    show ?thesis using Some S assms(2) by (auto simp: ReleaseSlot_def in_use_split [OF S(1)] in_use_here [OF S(1)])
  qed
  then show "set (in_use_dbs (ReleaseSlot db ws)) = set (in_use_dbs ws) - {db}" "distinct (in_use_dbs (ReleaseSlot db ws))" by simp_all
qed

lemma pid_in_use:
  assumes "length ws = DUCKLAKE_MAX_MAINTENANCE_WORKERS"
  shows "length (set_worker_pid db pid ws) = length ws" "in_use_dbs (set_worker_pid db pid ws) = in_use_dbs ws"
proof -
  show "length (set_worker_pid db pid ws) = length ws" by (simp add: set_worker_pid_def split: option.splits)
  show "in_use_dbs (set_worker_pid db pid ws) = in_use_dbs ws"
  proof (cases "slot_of db ws")
    case (Some i)
    note S = slot_of_Some [OF Some assms]
    then show ?thesis using Some by (simp add: set_worker_pid_def in_use_split [OF S(1)]) (simp add: in_use_here [OF S(1)])
  qed (simp add: set_worker_pid_def)
qed

lemma maint_step_inv:
  assumes "maint_inv s" "maint_step s t"
  shows "maint_inv t"
  using assms(2,1)
proof (cases rule: maint_step.cases)
  case (claim g db ws i)
  then show ?thesis using assms(1) claim_in_use [OF claim(3)] by (auto simp: maint_inv_def)
next
  case (refused db)
  then show ?thesis using assms(1) release_in_use [of "ms_slots s" db] by (auto simp: maint_inv_def)
next
  case (started db pid)
  then show ?thesis using assms(1) pid_in_use [of "ms_slots s" db pid] by (auto simp: maint_inv_def)
next
  case (finished db)
  then show ?thesis using assms(1) release_in_use [of "ms_slots s" db] by (auto simp: maint_inv_def)
next
  case (exited db)
  then show ?thesis using assms(1) by (auto simp: maint_inv_def)
qed (auto simp: maint_inv_def)

lemma maint_init_inv: "maint_init s \<Longrightarrow> maint_inv s"
  by (simp add: maint_init_def maint_inv_def MaintenanceShmemStartup_def in_use_dbs_def)

interpretation maintenance: transition_system maint_init maint_step maint_inv
  by unfold_locales (auto intro: maint_init_inv maint_step_inv)

lemma distinct_subset_length: "distinct xs \<Longrightarrow> set xs \<subseteq> set ys \<Longrightarrow> length xs \<le> length ys"
  by (metis List.finite_set card_length card_mono distinct_card le_trans)

lemma in_use_dbs_length: "length (in_use_dbs ws) \<le> length ws"
  by (simp add: in_use_dbs_def)

text \<open>C39: at most one maintenance worker per database. In every state that the launcher and the workers can
  reach, in whatever order they run and wherever they are killed, no two workers serve the same
  database, each holds a slot, and there are never more than the hard cap.\<close>

theorem one_worker_per_database:
  assumes "reach maint_init maint_step s"
  shows "distinct (ms_running s) \<and> length (ms_running s) \<le> DUCKLAKE_MAX_MAINTENANCE_WORKERS \<and>
    (\<forall>db. db \<in> set (ms_running s) \<longrightarrow> HasWorkerForDatabase db (ms_slots s))"
proof -
  have I: "maint_inv s" by (rule maintenance.reach_inv [OF assms])
  then have "length (ms_running s) \<le> length (ms_slots s)"
    using distinct_subset_length [of "ms_running s" "in_use_dbs (ms_slots s)"] in_use_dbs_length [of "ms_slots s"]
    by (auto simp: maint_inv_def)
  then show ?thesis using I HasWorker_iff [of "ms_slots s"] by (auto simp: maint_inv_def)
qed

definition launched :: "maint_sys \<Rightarrow> oid \<Rightarrow> maint_sys" where
  "launched s db = s\<lparr>ms_slots := fst (launcher_claim guc_boot db (ms_slots s)), ms_running := db # ms_running s\<rparr>"

definition fresh_sys :: maint_sys where
  "fresh_sys = \<lparr>ms_slots = MaintenanceShmemStartup, ms_claimed = None, ms_running = []\<rparr>"

lemma launched_reach:
  assumes "reach maint_init maint_step s" "ms_claimed s = None" "snd (launcher_claim guc_boot db (ms_slots s)) = Some i"
  shows "reach maint_init maint_step (launched s db)"
proof -
  let ?ws = "fst (launcher_claim guc_boot db (ms_slots s))"
  have "launcher_claim guc_boot db (ms_slots s) = (?ws, Some i)" using assms(3) by (simp add: prod_eq_iff)
  from reach_step [OF assms(1) claim [OF assms(2) this]]
  have "reach maint_init maint_step (s\<lparr>ms_slots := ?ws, ms_claimed := Some db\<rparr>)" .
  from reach_step [OF this registered [of _ db]] show ?thesis using assms(2) by (cases s) (simp add: launched_def)
qed

lemma demo_launched: "reach maint_init maint_step (launched (launched fresh_sys 5) 6)"
proof (rule launched_reach)
  show "reach maint_init maint_step (launched fresh_sys 5)"
  proof (rule launched_reach)
    show "reach maint_init maint_step fresh_sys" by (rule reach_init) (simp add: maint_init_def fresh_sys_def)
    show "snd (launcher_claim guc_boot 5 (ms_slots fresh_sys)) = Some 0" by code_simp
  qed (simp add: fresh_sys_def)
  show "snd (launcher_claim guc_boot 6 (ms_slots (launched fresh_sys 5))) = Some 1" by code_simp
qed (simp add: launched_def fresh_sys_def)

theorem one_worker_per_database_witness:
  "distinct (ms_running (launched (launched fresh_sys 5) 6)) \<and> HasWorkerForDatabase 6 (ms_slots (launched (launched fresh_sys 5) 6))"
  using one_worker_per_database [OF demo_launched] by (simp add: launched_def)

text \<open>A database whose slot is in use while no worker serves it and the launcher has not claimed it.\<close>

definition orphaned :: "oid \<Rightarrow> maint_sys \<Rightarrow> bool" where
  "orphaned db s \<longleftrightarrow> maint_inv s \<and> db \<in> set (in_use_dbs (ms_slots s)) \<and> db \<notin> set (ms_running s) \<and> ms_claimed s \<noteq> Some db"

lemma orphaned_step:
  assumes "orphaned db s" "maint_step s t"
  shows "orphaned db t"
proof -
  have inv: "maint_inv t" "maint_inv s" using maint_step_inv assms by (auto simp: orphaned_def)
  from assms(2) show ?thesis
  proof (cases rule: maint_step.cases)
    case (claim g db' ws i)
    then show ?thesis using inv assms(1) claim_in_use [OF claim(3)] by (auto simp: orphaned_def maint_inv_def)
  next
    case (registered db')
    then show ?thesis using inv assms(1) by (auto simp: orphaned_def)
  next
    case (refused db')
    then show ?thesis using inv assms(1) release_in_use [of "ms_slots s" db'] by (auto simp: orphaned_def maint_inv_def)
  next
    case (started db' pid)
    then show ?thesis using inv assms(1) pid_in_use [of "ms_slots s" db' pid] by (auto simp: orphaned_def maint_inv_def)
  next
    case (finished db')
    then show ?thesis using inv assms(1) release_in_use [of "ms_slots s" db'] by (auto simp: orphaned_def maint_inv_def)
  next
    case (exited db')
    then show ?thesis using inv assms(1) by (auto simp: orphaned_def dest: notin_set_remove1)
  qed (use inv assms(1) in \<open>auto simp: orphaned_def\<close>)
qed

interpretation orphan: transition_system "orphaned db" maint_step "orphaned db" for db
  by unfold_locales (auto intro: orphaned_step)



end
