(* ===== verification/Pg_Numeric.thy ===== *)
theory Pg_Numeric
  imports Lake_Prelude "HOL-Library.Signed_Division"
begin

unbundle bit_operations_syntax

text \<open>
  PostgreSQL's \<^verbatim>\<open>numeric\<close> and its conversion from and to DuckDB's decimals: the packed format of
  \<^verbatim>\<open>libpgduckdb/include/pgddb/vendor/pg_numeric_c.hpp\<close> and \<^verbatim>\<open>ConvertNumeric\<close>, \<^verbatim>\<open>ConvertDecimal\<close> and
  \<^verbatim>\<open>FromNumeric\<close> of \<^verbatim>\<open>libpgduckdb/pgddb_types.cpp\<close>.

  The two templates are instantiated with 16-, 32- and 64-bit integers, DuckDB's 128-bit integers and
  \<^verbatim>\<open>double\<close>: a template argument is a record of the operations that the code uses of it. Machine integers
  wrap at their width; what DuckDB's 128-bit classes do with a result outside their range is a parameter.
  A digit buffer is a list, so \<^verbatim>\<open>ndigits\<close> is its length.
\<close>

datatype conv_error = OutOfRangeException | InternalException | InvalidInputException | NotImplementedException
  | DivisionByZero | BufferOverrun | PgError string

section \<open>The packed format\<close>

definition NBASE :: int where "NBASE = 10000"
definition DEC_DIGITS :: nat where "DEC_DIGITS = 4"

definition NUMERIC_SIGN_MASK :: u16 where "NUMERIC_SIGN_MASK = 0xC000"
definition NUMERIC_POS :: u16 where "NUMERIC_POS = 0x0000"
definition NUMERIC_NEG :: u16 where "NUMERIC_NEG = 0x4000"
definition NUMERIC_SHORT :: u16 where "NUMERIC_SHORT = 0x8000"
definition NUMERIC_SPECIAL :: u16 where "NUMERIC_SPECIAL = 0xC000"
definition NUMERIC_EXT_SIGN_MASK :: u16 where "NUMERIC_EXT_SIGN_MASK = 0xF000"
definition NUMERIC_NAN :: u16 where "NUMERIC_NAN = 0xC000"
definition NUMERIC_PINF :: u16 where "NUMERIC_PINF = 0xD000"
definition NUMERIC_NINF :: u16 where "NUMERIC_NINF = 0xF000"
definition NUMERIC_SHORT_SIGN_MASK :: u16 where "NUMERIC_SHORT_SIGN_MASK = 0x2000"
definition NUMERIC_SHORT_DSCALE_MASK :: u16 where "NUMERIC_SHORT_DSCALE_MASK = 0x1F80"
definition NUMERIC_SHORT_DSCALE_SHIFT :: nat where "NUMERIC_SHORT_DSCALE_SHIFT = 7"
definition NUMERIC_SHORT_DSCALE_MAX :: nat where
  "NUMERIC_SHORT_DSCALE_MAX = unat (drop_bit NUMERIC_SHORT_DSCALE_SHIFT NUMERIC_SHORT_DSCALE_MASK)"
definition NUMERIC_SHORT_WEIGHT_SIGN_MASK :: u16 where "NUMERIC_SHORT_WEIGHT_SIGN_MASK = 0x0040"
definition NUMERIC_SHORT_WEIGHT_MASK :: u16 where "NUMERIC_SHORT_WEIGHT_MASK = 0x003F"
definition NUMERIC_SHORT_WEIGHT_MAX :: int where "NUMERIC_SHORT_WEIGHT_MAX = uint NUMERIC_SHORT_WEIGHT_MASK"
definition NUMERIC_SHORT_WEIGHT_MIN :: int where "NUMERIC_SHORT_WEIGHT_MIN = - (uint NUMERIC_SHORT_WEIGHT_MASK + 1)"
definition NUMERIC_DSCALE_MASK :: u16 where "NUMERIC_DSCALE_MASK = 0x3FFF"

text \<open>The stored value: the header word, the weight word that only the long form has, the digits.\<close>

record Numeric =
  n_header :: u16
  n_weight :: u16
  n_data :: "int list"

record NumericVar =
  nv_digits :: "int list"
  nv_weight :: int
  nv_sign :: u16
  nv_dscale :: nat

definition NUMERIC_FLAGBITS :: "Numeric \<Rightarrow> u16" where
  "NUMERIC_FLAGBITS n = n_header n AND NUMERIC_SIGN_MASK"

definition NUMERIC_IS_SHORT :: "Numeric \<Rightarrow> bool" where
  "NUMERIC_IS_SHORT n \<longleftrightarrow> NUMERIC_FLAGBITS n = NUMERIC_SHORT"

definition NUMERIC_IS_SPECIAL :: "Numeric \<Rightarrow> bool" where
  "NUMERIC_IS_SPECIAL n \<longleftrightarrow> NUMERIC_FLAGBITS n = NUMERIC_SPECIAL"

definition NUMERIC_HEADER_IS_SHORT :: "Numeric \<Rightarrow> bool" where
  "NUMERIC_HEADER_IS_SHORT n \<longleftrightarrow> n_header n AND 0x8000 \<noteq> 0"

definition NUMERIC_EXT_FLAGBITS :: "Numeric \<Rightarrow> u16" where
  "NUMERIC_EXT_FLAGBITS n = n_header n AND NUMERIC_EXT_SIGN_MASK"

definition NUMERIC_SIGN :: "Numeric \<Rightarrow> u16" where
  "NUMERIC_SIGN n =
     (if NUMERIC_IS_SHORT n then if n_header n AND NUMERIC_SHORT_SIGN_MASK \<noteq> 0 then NUMERIC_NEG else NUMERIC_POS
      else if NUMERIC_IS_SPECIAL n then NUMERIC_EXT_FLAGBITS n else NUMERIC_FLAGBITS n)"

definition NUMERIC_DSCALE :: "Numeric \<Rightarrow> nat" where
  "NUMERIC_DSCALE n =
     (if NUMERIC_HEADER_IS_SHORT n then unat (drop_bit NUMERIC_SHORT_DSCALE_SHIFT (n_header n AND NUMERIC_SHORT_DSCALE_MASK))
      else unat (n_header n AND NUMERIC_DSCALE_MASK))"

definition NUMERIC_WEIGHT :: "Numeric \<Rightarrow> int" where
  "NUMERIC_WEIGHT n =
     (if NUMERIC_HEADER_IS_SHORT n
      then (if n_header n AND NUMERIC_SHORT_WEIGHT_SIGN_MASK \<noteq> 0 then NOT (uint NUMERIC_SHORT_WEIGHT_MASK) else 0) OR
           uint (n_header n AND NUMERIC_SHORT_WEIGHT_MASK)
      else sint (n_weight n))"

definition NUMERIC_CAN_BE_SHORT :: "nat \<Rightarrow> int \<Rightarrow> bool" where
  "NUMERIC_CAN_BE_SHORT scale weight \<longleftrightarrow>
     scale \<le> NUMERIC_SHORT_DSCALE_MAX \<and> weight \<le> NUMERIC_SHORT_WEIGHT_MAX \<and> weight \<ge> NUMERIC_SHORT_WEIGHT_MIN"

fun truncate_leading :: "int list \<Rightarrow> int \<Rightarrow> int list \<times> int" where
  "truncate_leading (d # ds) weight = (if d = 0 then truncate_leading ds (weight - 1) else (d # ds, weight))"
| "truncate_leading [] weight = ([], weight)"

definition truncate_trailing :: "int list \<Rightarrow> int list" where
  "truncate_trailing ds = rev (dropWhile (\<lambda>d. d = 0) (rev ds))"

definition pack_numeric :: "nat \<Rightarrow> int \<Rightarrow> u16 \<Rightarrow> int list \<Rightarrow> Numeric" where
  "pack_numeric dscale weight sign digits =
     (if NUMERIC_CAN_BE_SHORT dscale weight
      then \<lparr>n_header = (if sign = NUMERIC_NEG then NUMERIC_SHORT OR NUMERIC_SHORT_SIGN_MASK else NUMERIC_SHORT) OR
              push_bit NUMERIC_SHORT_DSCALE_SHIFT (of_nat dscale) OR
              (if weight < 0 then NUMERIC_SHORT_WEIGHT_SIGN_MASK else 0) OR
              (word_of_int weight AND NUMERIC_SHORT_WEIGHT_MASK),
            n_weight = 0, n_data = digits\<rparr>
      else \<lparr>n_header = sign OR (of_nat dscale AND NUMERIC_DSCALE_MASK), n_weight = word_of_int weight, n_data = digits\<rparr>)"

definition make_result :: "NumericVar \<Rightarrow> conv_error + Numeric" where
  "make_result var =
     (if nv_sign var AND NUMERIC_SIGN_MASK = NUMERIC_SPECIAL
      then if nv_sign var = NUMERIC_NAN \<or> nv_sign var = NUMERIC_PINF \<or> nv_sign var = NUMERIC_NINF
           then Inr \<lparr>n_header = nv_sign var, n_weight = 0, n_data = []\<rparr>
           else Inl (PgError ''invalid numeric sign value'')
      else
        let (lead, w) = truncate_leading (nv_digits var) (nv_weight var);
            digits = truncate_trailing lead;
            weight = (if digits = [] then 0 else w);
            sign = (if digits = [] then NUMERIC_POS else nv_sign var);
            result = pack_numeric (nv_dscale var) weight sign digits
        in if NUMERIC_WEIGHT result \<noteq> weight \<or> NUMERIC_DSCALE result \<noteq> nv_dscale var
           then Inl (PgError ''value overflows numeric format'')
           else Inr result)"

definition FromNumeric :: "Numeric \<Rightarrow> NumericVar" where
  "FromNumeric num = \<lparr>nv_digits = n_data num, nv_weight = NUMERIC_WEIGHT num, nv_sign = NUMERIC_SIGN num,
     nv_dscale = NUMERIC_DSCALE num\<rparr>"

section \<open>The template arguments\<close>

text \<open>\<open>op_pow\<close> is \<^verbatim>\<open>T(OP::GetPowerOfTen(i))\<close>, \<open>op_digit\<close> the conversion through \<^verbatim>\<open>uint16_t\<close> into a
  \<^verbatim>\<open>NumericDigit\<close>, \<open>op_max\<close> is \<^verbatim>\<open>MAX_DIGITS\<close>.\<close>

record 'n decimal_ops =
  op_of :: "int \<Rightarrow> 'n"
  op_mul :: "'n \<Rightarrow> 'n \<Rightarrow> conv_error + 'n"
  op_add :: "'n \<Rightarrow> 'n \<Rightarrow> conv_error + 'n"
  op_div :: "'n \<Rightarrow> 'n \<Rightarrow> conv_error + 'n"
  op_mod :: "'n \<Rightarrow> 'n \<Rightarrow> conv_error + 'n"
  op_neg :: "'n \<Rightarrow> conv_error + 'n"
  op_negative :: "'n \<Rightarrow> bool"
  op_positive :: "'n \<Rightarrow> bool"
  op_digit :: "'n \<Rightarrow> int"
  op_pow :: "nat \<Rightarrow> conv_error + 'n"
  op_final :: "NumericVar \<Rightarrow> 'n \<Rightarrow> conv_error + 'n"
  op_max :: nat

text \<open>An integer type: \<open>fit\<close> is what becomes of an exact result, \<open>pow10\<close> the table of powers.\<close>

definition integer_ops :: "(int \<Rightarrow> conv_error + int) \<Rightarrow> (nat \<Rightarrow> conv_error + int) \<Rightarrow> nat \<Rightarrow> int decimal_ops" where
  "integer_ops fit pow10 sizeof = \<lparr>op_of = (\<lambda>x. x), op_mul = (\<lambda>x y. fit (x * y)), op_add = (\<lambda>x y. fit (x + y)),
     op_div = (\<lambda>x y. if y = 0 then Inl DivisionByZero else fit (x sdiv y)),
     op_mod = (\<lambda>x y. if y = 0 then Inl DivisionByZero else fit (x smod y)),
     op_neg = (\<lambda>x. fit (- x)), op_negative = (\<lambda>x. x < 0), op_positive = (\<lambda>x. x > 0),
     op_digit = (\<lambda>x. signed_take_bit 15 (take_bit 16 x)), op_pow = (\<lambda>i. andthen (pow10 i) fit),
     op_final = (\<lambda>_ x. Inr x), op_max = sizeof * 4\<rparr>"

definition GetPowerOfTen_Integer :: "nat \<Rightarrow> conv_error + int" where
  "GetPowerOfTen_Integer index = (if index \<ge> 19 then Inl InternalException else Inr (10 ^ index))"

definition GetPowerOfTen_Hugeint :: "nat \<Rightarrow> conv_error + int" where
  "GetPowerOfTen_Hugeint index = (if index \<ge> 39 then Inl InternalException else Inr (10 ^ index))"

definition int16_t :: "int decimal_ops" where
  "int16_t = integer_ops (\<lambda>x. Inr (signed_take_bit 15 x)) GetPowerOfTen_Integer 2"

definition int32_t :: "int decimal_ops" where
  "int32_t = integer_ops (\<lambda>x. Inr (signed_take_bit 31 x)) GetPowerOfTen_Integer 4"

definition int64_t :: "int decimal_ops" where
  "int64_t = integer_ops (\<lambda>x. Inr (signed_take_bit 63 x)) GetPowerOfTen_Integer 8"

definition uint64_t :: "int decimal_ops" where
  "uint64_t = integer_ops (\<lambda>x. Inr (take_bit 64 x)) GetPowerOfTen_Integer 8"

definition hugeint_t :: "(int \<Rightarrow> conv_error + int) \<Rightarrow> int decimal_ops" where
  "hugeint_t fit = integer_ops fit GetPowerOfTen_Hugeint 16"

section \<open>From a DuckDB decimal\<close>

definition split_parts :: "'n decimal_ops \<Rightarrow> 'n \<Rightarrow> nat \<Rightarrow> conv_error + ('n \<times> 'n)" where
  "split_parts T value scale =
     (if scale = 0 then Inr (value, op_of T 0)
      else andthen (op_pow T scale) (\<lambda>p.
           andthen (op_div T value p) (\<lambda>i.
           andthen (op_mod T value p) (\<lambda>f. Inr (i, f)))))"

text \<open>The digits in the order in which the code writes them into its buffer of \<^verbatim>\<open>MAX_DIGITS\<close> entries, the
  least significant first.\<close>

fun integral_digits :: "'n decimal_ops \<Rightarrow> nat \<Rightarrow> 'n \<Rightarrow> conv_error + int list" where
  "integral_digits T room x =
     (if \<not> op_positive T x then Inr []
      else case room of
             0 \<Rightarrow> Inl BufferOverrun
           | Suc room' \<Rightarrow>
               andthen (op_mod T x (op_of T NBASE)) (\<lambda>d.
               andthen (op_div T x (op_of T NBASE)) (\<lambda>q.
               andthen (integral_digits T room' q) (\<lambda>ds. Inr (op_digit T d # ds)))))"

declare integral_digits.simps [simp del]

fun fractional_digits :: "'n decimal_ops \<Rightarrow> nat \<Rightarrow> 'n \<Rightarrow> conv_error + int list" where
  "fractional_digits T 0 x = Inr []"
| "fractional_digits T (Suc k) x =
     andthen (op_mod T x (op_of T NBASE)) (\<lambda>d.
     andthen (op_div T x (op_of T NBASE)) (\<lambda>q.
     andthen (fractional_digits T k q) (\<lambda>ds. Inr (op_digit T d # ds))))"

definition fractional_ndigits :: "nat \<Rightarrow> nat" where
  "fractional_ndigits scale = (scale + DEC_DIGITS - 1) div DEC_DIGITS"

definition ConvertNumeric :: "'n decimal_ops \<Rightarrow> 'n \<Rightarrow> nat \<Rightarrow> conv_error + NumericVar" where
  "ConvertNumeric T ddb_value scale =
     andthen (if op_negative T ddb_value then op_neg T ddb_value else Inr ddb_value) (\<lambda>value.
     andthen (split_parts T value scale) (\<lambda>(integer_part, fractional_part).
     andthen (integral_digits T (op_max T) integer_part) (\<lambda>ids.
     andthen (op_pow T (fractional_ndigits scale * DEC_DIGITS - scale)) (\<lambda>p.
     andthen (op_mul T fractional_part p) (\<lambda>padded.
     andthen (guard_or BufferOverrun (fractional_ndigits scale \<le> op_max T)) (\<lambda>_.
     andthen (fractional_digits T (fractional_ndigits scale) padded) (\<lambda>fds.
       Inr \<lparr>nv_digits = rev ids @ rev fds, nv_weight = int (length ids) - 1,
            nv_sign = (if op_negative T ddb_value then NUMERIC_NEG else NUMERIC_POS), nv_dscale = scale\<rparr>)))))))"

section \<open>To a DuckDB decimal\<close>

definition integral_step :: "'n decimal_ops \<Rightarrow> int list \<Rightarrow> nat \<Rightarrow> 'n \<Rightarrow> conv_error + 'n" where
  "integral_step T digits i acc =
     andthen (op_mul T acc (op_of T NBASE)) (\<lambda>a. if i < length digits then op_add T a (op_of T (digits ! i)) else Inr a)"

definition integral_value :: "'n decimal_ops \<Rightarrow> NumericVar \<Rightarrow> 'n \<Rightarrow> conv_error + 'n" where
  "integral_value T numeric scale_POWER =
     (if nv_weight numeric \<ge> 0
      then andthen (fold_err (integral_step T (nv_digits numeric)) [1..<nat (nv_weight numeric + 1)] (op_of T (nv_digits numeric ! 0)))
             (\<lambda>a. op_mul T a scale_POWER)
      else Inr (op_of T 0))"

definition fractional_step :: "'n decimal_ops \<Rightarrow> int \<Rightarrow> int list \<Rightarrow> nat \<Rightarrow> 'n \<Rightarrow> conv_error + 'n" where
  "fractional_step T correction digits i acc =
     (if i + 1 < length digits
      then andthen (op_mul T acc (op_of T NBASE)) (\<lambda>a. op_add T a (op_of T (digits ! i)))
      else andthen (op_pow T (nat \<bar>correction\<bar>)) (\<lambda>compensation.
           let adjust = (if correction \<ge> 0 then op_div T else op_mul T) in
           andthen (adjust (op_of T NBASE) compensation) (\<lambda>final_base.
           andthen (adjust (op_of T (digits ! i)) compensation) (\<lambda>final_digit.
           andthen (op_mul T acc final_base) (\<lambda>a. op_add T a final_digit)))))"

definition fractional_value :: "'n decimal_ops \<Rightarrow> NumericVar \<Rightarrow> conv_error + 'n" where
  "fractional_value T numeric =
     (let ndigits = int (length (nv_digits numeric)); weight = nv_weight numeric in
      if ndigits > weight + 1
      then let fractional_power = (ndigits - weight - 1) * int DEC_DIGITS;
               correction = fractional_power - int (nv_dscale numeric)
           in fold_err (fractional_step T correction (nv_digits numeric))
                [nat (max 0 (weight + 1))..<length (nv_digits numeric)] (op_of T 0)
      else Inr (op_of T 0))"

definition ConvertDecimal :: "'n decimal_ops \<Rightarrow> NumericVar \<Rightarrow> conv_error + 'n" where
  "ConvertDecimal T numeric =
     andthen (op_pow T (nv_dscale numeric)) (\<lambda>scale_POWER.
       if nv_digits numeric = [] then Inr (op_of T 0)
       else
         andthen (integral_value T numeric scale_POWER) (\<lambda>integral_part.
         andthen (fractional_value T numeric) (\<lambda>fractional_part.
         andthen (op_add T integral_part fractional_part) (\<lambda>sum.
         andthen (op_final T numeric sum) (\<lambda>base_res.
           if nv_sign numeric = NUMERIC_NEG then op_neg T base_res else Inr base_res)))))"

section \<open>The dispatch on the physical type\<close>

datatype PhysicalType = INT16 | INT32 | INT64 | UINT64 | INT128 | UINT128 | OTHER_PHYSICAL string

text \<open>The switch of \<^verbatim>\<open>ConvertNumericDatum\<close>; \<open>huge\<close> and \<open>uhuge\<close> are DuckDB's 128-bit integers.\<close>

fun numeric_of_integer ::
  "(int \<Rightarrow> conv_error + int) \<Rightarrow> (int \<Rightarrow> conv_error + int) \<Rightarrow> PhysicalType \<Rightarrow> nat \<Rightarrow> int \<Rightarrow> conv_error + NumericVar" where
  "numeric_of_integer huge uhuge INT16 scale v = ConvertNumeric int16_t v scale"
| "numeric_of_integer huge uhuge INT32 scale v = ConvertNumeric int32_t v scale"
| "numeric_of_integer huge uhuge INT64 scale v = ConvertNumeric int64_t v scale"
| "numeric_of_integer huge uhuge UINT64 scale v = ConvertNumeric uint64_t v scale"
| "numeric_of_integer huge uhuge INT128 scale v = ConvertNumeric (hugeint_t huge) v scale"
| "numeric_of_integer huge uhuge UINT128 scale v = ConvertNumeric (hugeint_t uhuge) v scale"
| "numeric_of_integer huge uhuge (OTHER_PHYSICAL _) scale v = Inl InvalidInputException"

definition numeric_datum ::
  "(int \<Rightarrow> conv_error + int) \<Rightarrow> (int \<Rightarrow> conv_error + int) \<Rightarrow> PhysicalType \<Rightarrow> nat \<Rightarrow> int \<Rightarrow> conv_error + Numeric" where
  "numeric_datum huge uhuge p scale v = andthen (numeric_of_integer huge uhuge p scale v) make_result"

text \<open>The integer instances of \<^verbatim>\<open>AppendDecimal\<close>, as \<^verbatim>\<open>GetPostgresToDuckValueFn\<close> picks them.\<close>

fun AppendDecimal :: "(int \<Rightarrow> conv_error + int) \<Rightarrow> PhysicalType \<Rightarrow> Numeric \<Rightarrow> conv_error + int" where
  "AppendDecimal huge INT16 num = ConvertDecimal int16_t (FromNumeric num)"
| "AppendDecimal huge INT32 num = ConvertDecimal int32_t (FromNumeric num)"
| "AppendDecimal huge INT64 num = ConvertDecimal int64_t (FromNumeric num)"
| "AppendDecimal huge INT128 num = ConvertDecimal (hugeint_t huge) (FromNumeric num)"
| "AppendDecimal huge p num = Inl InternalException"

end
