(* ===== verification/Pg_Types.thy ===== *)
theory Pg_Types
  imports Pg_Numeric
begin

text \<open>
  The mapping between PostgreSQL's and DuckDB's types and values, \<^verbatim>\<open>libpgduckdb/pgddb_types.cpp\<close> and the
  constants of \<^verbatim>\<open>libpgduckdb/include/pgddb/pgddb_types.hpp\<close>: the types both ways, the type modifier of a
  \<^verbatim>\<open>numeric\<close>, and the conversion of scalar values both ways. Arrays are in \<^verbatim>\<open>Pg_Arrays\<close>.

  A built-in type's object id is a constructor, any other id is \<open>OtherOid\<close>. DuckDB's value accessors and the
  PostgreSQL functions that print and parse bit strings and numbers are fields of \<open>duck_env\<close>. 32- and 64-bit
  additions wrap.
\<close>

section \<open>Types\<close>

datatype Oid =
    BOOLOID | CHAROID | INT2OID | INT4OID | INT8OID | BPCHAROID | TEXTOID | VARCHAROID | DATEOID | TIMESTAMPOID
  | TIMESTAMPTZOID | INTERVALOID | BITOID | VARBITOID | TIMEOID | TIMETZOID | FLOAT4OID | FLOAT8OID | NUMERICOID
  | UUIDOID | JSONOID | JSONBOID | REGCLASSOID | BYTEAOID
  | BOOLARRAYOID | CHARARRAYOID | INT2ARRAYOID | INT4ARRAYOID | INT8ARRAYOID | BPCHARARRAYOID | TEXTARRAYOID
  | VARCHARARRAYOID | DATEARRAYOID | TIMESTAMPARRAYOID | TIMESTAMPTZARRAYOID | INTERVALARRAYOID | BITARRAYOID
  | VARBITARRAYOID | TIMEARRAYOID | TIMETZARRAYOID | FLOAT4ARRAYOID | FLOAT8ARRAYOID | NUMERICARRAYOID
  | UUIDARRAYOID | JSONARRAYOID | JSONBARRAYOID | REGCLASSARRAYOID | BYTEAARRAYOID
  | NoOid | OtherOid nat

text \<open>A DuckDB type with the extra information that the code attaches or looks at: the JSON alias, the mark of a
  \<^verbatim>\<open>DOUBLE\<close> that stands for a \<^verbatim>\<open>numeric\<close>, and the message of an unsupported type.\<close>

datatype LogicalType =
    BOOLEAN | TINYINT | SMALLINT | INTEGER | BIGINT | HUGEINT | UTINYINT | USMALLINT | UINTEGER | UBIGINT | UHUGEINT
  | VARCHAR bool | GEOMETRY | DATE | TIMESTAMP | TIMESTAMP_SEC | TIMESTAMP_MS | TIMESTAMP_NS | TIMESTAMP_TZ | INTERVAL
  | BIT | TIME | TIME_TZ | FLOAT | DOUBLE bool | DECIMAL nat nat | UUID | BLOB | BIGNUM | ENUM
  | LIST LogicalType | ARRAY LogicalType nat | INVALID "string option" | OTHER_TYPE string

fun IsNestedType :: "LogicalType \<Rightarrow> bool" where
  "IsNestedType (LIST _) = True" | "IsNestedType (ARRAY _ _) = True" | "IsNestedType _ = False"

fun GetChildType :: "LogicalType \<Rightarrow> conv_error + LogicalType" where
  "GetChildType (LIST t) = Inr t" | "GetChildType (ARRAY t _) = Inr t" | "GetChildType _ = Inl InvalidInputException"

definition CreateUnsupportedPostgresType :: "string \<Rightarrow> LogicalType" where
  "CreateUnsupportedPostgresType msg = INVALID (Some msg)"

text \<open>Hooks are tried in the order of their registration.\<close>

fun try_hooks :: "('a \<Rightarrow> 'b option) list \<Rightarrow> 'a \<Rightarrow> 'b option" where
  "try_hooks [] x = None"
| "try_hooks (fn # fns) x = (case fn x of Some out \<Rightarrow> Some out | None \<Rightarrow> try_hooks fns x)"

section \<open>The type modifier of a numeric\<close>

definition VARHDRSZ :: u32 where "VARHDRSZ = 4"

definition make_numeric_typmod :: "u32 \<Rightarrow> u32 \<Rightarrow> u32" where
  "make_numeric_typmod precision scale = (push_bit 16 precision OR (scale AND 0x7ff)) + VARHDRSZ"

definition numeric_typmod_precision :: "u32 \<Rightarrow> int" where
  "numeric_typmod_precision typmod = sint (signed_drop_bit 16 (typmod - VARHDRSZ) AND 0xffff)"

definition numeric_typmod_scale :: "u32 \<Rightarrow> int" where
  "numeric_typmod_scale typmod = sint ((((typmod - VARHDRSZ) AND 0x7ff) XOR 1024) - 1024)"

section \<open>From PostgreSQL's types\<close>

text \<open>The column as the code reads it: \<open>base_type\<close> is \<^verbatim>\<open>GetBaseTypeAndTypmod\<close>, which looks through domains;
  \<open>is_array\<close> and \<open>is_array_domain\<close> are the catalog's answers for the declared type.\<close>

record pg_attribute =
  atttypid :: Oid
  base_type :: Oid
  base_typmod :: u32
  is_array :: bool
  is_array_domain :: bool
  attndims :: nat

definition numeric_column_type :: "bool \<Rightarrow> u32 \<Rightarrow> LogicalType" where
  "numeric_column_type convert_unsupported_numeric_to_double typmod =
     (let precision = numeric_typmod_precision typmod; scale = numeric_typmod_scale typmod in
      if typmod = - 1 \<or> precision < 1 \<or> precision > 38 \<or> scale < 0 \<or> scale > 38 \<or> scale > precision
      then if convert_unsupported_numeric_to_double then DOUBLE True
           else CreateUnsupportedPostgresType
             (if typmod = - 1 then ''DuckDB requires the precision of a NUMERIC to be set''
              else if precision < 1 \<or> precision > 38 then ''DuckDB only supports NUMERIC with a precision of 1-38''
              else if scale < 0 \<or> scale > 38 then ''DuckDB only supports NUMERIC with a scale of 0-38''
              else ''DuckDB does not support NUMERIC with a scale that is larger than the precision'')
      else DECIMAL (nat precision) (nat scale))"

fun builtin_column_type :: "bool \<Rightarrow> u32 \<Rightarrow> Oid \<Rightarrow> LogicalType option" where
  "builtin_column_type c m BOOLOID = Some BOOLEAN" | "builtin_column_type c m BOOLARRAYOID = Some BOOLEAN"
| "builtin_column_type c m CHAROID = Some TINYINT" | "builtin_column_type c m CHARARRAYOID = Some TINYINT"
| "builtin_column_type c m INT2OID = Some SMALLINT" | "builtin_column_type c m INT2ARRAYOID = Some SMALLINT"
| "builtin_column_type c m INT4OID = Some INTEGER" | "builtin_column_type c m INT4ARRAYOID = Some INTEGER"
| "builtin_column_type c m INT8OID = Some BIGINT" | "builtin_column_type c m INT8ARRAYOID = Some BIGINT"
| "builtin_column_type c m BPCHAROID = Some (VARCHAR False)" | "builtin_column_type c m BPCHARARRAYOID = Some (VARCHAR False)"
| "builtin_column_type c m TEXTOID = Some (VARCHAR False)" | "builtin_column_type c m TEXTARRAYOID = Some (VARCHAR False)"
| "builtin_column_type c m VARCHAROID = Some (VARCHAR False)" | "builtin_column_type c m VARCHARARRAYOID = Some (VARCHAR False)"
| "builtin_column_type c m DATEOID = Some DATE" | "builtin_column_type c m DATEARRAYOID = Some DATE"
| "builtin_column_type c m TIMESTAMPOID = Some TIMESTAMP" | "builtin_column_type c m TIMESTAMPARRAYOID = Some TIMESTAMP"
| "builtin_column_type c m TIMESTAMPTZOID = Some TIMESTAMP_TZ"
| "builtin_column_type c m INTERVALOID = Some INTERVAL" | "builtin_column_type c m INTERVALARRAYOID = Some INTERVAL"
| "builtin_column_type c m BITOID = Some BIT" | "builtin_column_type c m BITARRAYOID = Some BIT"
| "builtin_column_type c m VARBITOID = Some BIT" | "builtin_column_type c m VARBITARRAYOID = Some BIT"
| "builtin_column_type c m TIMEOID = Some TIME" | "builtin_column_type c m TIMEARRAYOID = Some TIME"
| "builtin_column_type c m TIMETZOID = Some TIME_TZ" | "builtin_column_type c m TIMETZARRAYOID = Some TIME_TZ"
| "builtin_column_type c m FLOAT4OID = Some FLOAT" | "builtin_column_type c m FLOAT4ARRAYOID = Some FLOAT"
| "builtin_column_type c m FLOAT8OID = Some (DOUBLE False)" | "builtin_column_type c m FLOAT8ARRAYOID = Some (DOUBLE False)"
| "builtin_column_type c m NUMERICOID = Some (numeric_column_type c m)"
| "builtin_column_type c m NUMERICARRAYOID = Some (numeric_column_type c m)"
| "builtin_column_type c m UUIDOID = Some UUID" | "builtin_column_type c m UUIDARRAYOID = Some UUID"
| "builtin_column_type c m JSONOID = Some (VARCHAR True)" | "builtin_column_type c m JSONARRAYOID = Some (VARCHAR True)"
| "builtin_column_type c m JSONBOID = Some (VARCHAR True)" | "builtin_column_type c m JSONBARRAYOID = Some (VARCHAR True)"
| "builtin_column_type c m REGCLASSOID = Some UINTEGER" | "builtin_column_type c m REGCLASSARRAYOID = Some UINTEGER"
| "builtin_column_type c m BYTEAOID = Some BLOB" | "builtin_column_type c m BYTEAARRAYOID = Some BLOB"
| "builtin_column_type c m _ = None"

definition ConvertPostgresToBaseDuckColumnType :: "bool \<Rightarrow> (Oid \<Rightarrow> LogicalType option) list \<Rightarrow> pg_attribute \<Rightarrow> LogicalType" where
  "ConvertPostgresToBaseDuckColumnType convert_unsupported hooks attr =
     (case builtin_column_type convert_unsupported (base_typmod attr) (base_type attr) of
        Some t \<Rightarrow> t
      | None \<Rightarrow> (case try_hooks hooks (base_type attr) of Some t \<Rightarrow> t | None \<Rightarrow> CreateUnsupportedPostgresType ''Oid=''))"

definition ConvertPostgresToDuckColumnType :: "bool \<Rightarrow> (Oid \<Rightarrow> LogicalType option) list \<Rightarrow> pg_attribute \<Rightarrow> LogicalType" where
  "ConvertPostgresToDuckColumnType convert_unsupported hooks attr =
     (let base = ConvertPostgresToBaseDuckColumnType convert_unsupported hooks attr in
      case base of
        INVALID _ \<Rightarrow> base
      | _ \<Rightarrow> if \<not> is_array attr \<and> \<not> is_array_domain attr then base
             else (LIST ^^ (if attndims attr = 0 then 1 else attndims attr)) base)"

section \<open>To PostgreSQL's types\<close>

fun scalar_pg_type :: "LogicalType \<Rightarrow> Oid option" where
  "scalar_pg_type BOOLEAN = Some BOOLOID" | "scalar_pg_type TINYINT = Some INT2OID" | "scalar_pg_type SMALLINT = Some INT2OID"
| "scalar_pg_type INTEGER = Some INT4OID" | "scalar_pg_type BIGINT = Some INT8OID" | "scalar_pg_type UBIGINT = Some NUMERICOID"
| "scalar_pg_type HUGEINT = Some NUMERICOID" | "scalar_pg_type UHUGEINT = Some NUMERICOID" | "scalar_pg_type UTINYINT = Some INT2OID"
| "scalar_pg_type USMALLINT = Some INT4OID" | "scalar_pg_type UINTEGER = Some INT8OID"
| "scalar_pg_type (VARCHAR json) = Some (if json then JSONOID else TEXTOID)" | "scalar_pg_type GEOMETRY = Some TEXTOID"
| "scalar_pg_type DATE = Some DATEOID" | "scalar_pg_type TIMESTAMP = Some TIMESTAMPOID" | "scalar_pg_type TIMESTAMP_SEC = Some TIMESTAMPOID"
| "scalar_pg_type TIMESTAMP_MS = Some TIMESTAMPOID" | "scalar_pg_type TIMESTAMP_NS = Some TIMESTAMPOID"
| "scalar_pg_type TIMESTAMP_TZ = Some TIMESTAMPTZOID" | "scalar_pg_type INTERVAL = Some INTERVALOID" | "scalar_pg_type BIT = Some VARBITOID"
| "scalar_pg_type TIME = Some TIMEOID" | "scalar_pg_type TIME_TZ = Some TIMETZOID" | "scalar_pg_type FLOAT = Some FLOAT4OID"
| "scalar_pg_type (DOUBLE _) = Some FLOAT8OID" | "scalar_pg_type (DECIMAL _ _) = Some NUMERICOID" | "scalar_pg_type UUID = Some UUIDOID"
| "scalar_pg_type BIGNUM = Some NUMERICOID" | "scalar_pg_type BLOB = Some BYTEAOID" | "scalar_pg_type ENUM = Some VARCHAROID"
| "scalar_pg_type _ = None"

fun builtin_array_type :: "LogicalType \<Rightarrow> Oid option" where
  "builtin_array_type BOOLEAN = Some BOOLARRAYOID" | "builtin_array_type TINYINT = Some INT2ARRAYOID"
| "builtin_array_type SMALLINT = Some INT2ARRAYOID" | "builtin_array_type INTEGER = Some INT4ARRAYOID"
| "builtin_array_type BIGINT = Some INT8ARRAYOID" | "builtin_array_type HUGEINT = Some NUMERICARRAYOID"
| "builtin_array_type UTINYINT = Some INT2ARRAYOID" | "builtin_array_type USMALLINT = Some INT4ARRAYOID"
| "builtin_array_type UINTEGER = Some INT8ARRAYOID" | "builtin_array_type (VARCHAR json) = Some (if json then JSONARRAYOID else TEXTARRAYOID)"
| "builtin_array_type GEOMETRY = Some TEXTARRAYOID" | "builtin_array_type DATE = Some DATEARRAYOID"
| "builtin_array_type TIMESTAMP = Some TIMESTAMPARRAYOID" | "builtin_array_type TIMESTAMP_TZ = Some TIMESTAMPTZARRAYOID"
| "builtin_array_type INTERVAL = Some INTERVALARRAYOID" | "builtin_array_type BIT = Some VARBITARRAYOID"
| "builtin_array_type TIME = Some TIMEARRAYOID" | "builtin_array_type TIME_TZ = Some TIMETZARRAYOID"
| "builtin_array_type FLOAT = Some FLOAT4ARRAYOID" | "builtin_array_type (DOUBLE _) = Some FLOAT8ARRAYOID"
| "builtin_array_type (DECIMAL _ _) = Some NUMERICARRAYOID" | "builtin_array_type UUID = Some UUIDARRAYOID"
| "builtin_array_type BLOB = Some BYTEAARRAYOID" | "builtin_array_type BIGNUM = Some NUMERICARRAYOID"
| "builtin_array_type _ = None"

definition or_unsupported :: "bool \<Rightarrow> Oid option \<Rightarrow> conv_error + Oid" where
  "or_unsupported throw_error r = (case r of Some oid \<Rightarrow> Inr oid | None \<Rightarrow> if throw_error then Inl NotImplementedException else Inr NoOid)"

definition GetPostgresArrayDuckDBType :: "(LogicalType \<Rightarrow> Oid option) list \<Rightarrow> bool \<Rightarrow> LogicalType \<Rightarrow> conv_error + Oid" where
  "GetPostgresArrayDuckDBType hooks throw_error t =
     or_unsupported throw_error (case builtin_array_type t of Some oid \<Rightarrow> Some oid | None \<Rightarrow> try_hooks hooks t)"

fun CheckForUnsupportedPostgresType :: "LogicalType \<Rightarrow> conv_error + unit" where
  "CheckForUnsupportedPostgresType (INVALID (Some msg)) = Inl NotImplementedException"
| "CheckForUnsupportedPostgresType _ = Inr ()"

fun element_type :: "LogicalType \<Rightarrow> LogicalType" where
  "element_type (LIST t) = element_type t" | "element_type (ARRAY t _) = element_type t" | "element_type t = t"

definition GetPostgresDuckDBType ::
  "(LogicalType \<Rightarrow> Oid option) list \<Rightarrow> (LogicalType \<Rightarrow> Oid option) list \<Rightarrow> bool \<Rightarrow> LogicalType \<Rightarrow> conv_error + Oid" where
  "GetPostgresDuckDBType hooks array_hooks throw_error t =
     andthen (CheckForUnsupportedPostgresType t) (\<lambda>_.
       if IsNestedType t then GetPostgresArrayDuckDBType array_hooks throw_error (element_type t)
       else or_unsupported throw_error (case scalar_pg_type t of Some oid \<Rightarrow> Some oid | None \<Rightarrow> try_hooks hooks t))"

definition GetPostgresDuckDBTypemod :: "LogicalType \<Rightarrow> u32" where
  "GetPostgresDuckDBTypemod t = (case t of DECIMAL width scale \<Rightarrow> make_numeric_typmod (of_nat width) (of_nat scale) | _ \<Rightarrow> - 1)"

section \<open>Dates and timestamps\<close>

text \<open>What DuckDB's date library says of its sentinels, and the first and the last date of PostgreSQL as DuckDB counts
  days.\<close>

record duck_limits =
  date_infinity :: int
  date_ninfinity :: int
  timestamp_infinity :: int
  timestamp_ninfinity :: int
  PGDUCKDB_PG_MIN_DATE_VALUE :: int
  PGDUCKDB_PG_MAX_DATE_VALUE :: int

definition PGDUCKDB_DUCK_DATE_OFFSET :: int where "PGDUCKDB_DUCK_DATE_OFFSET = 10957"
definition PGDUCKDB_DUCK_TIMESTAMP_OFFSET :: int where "PGDUCKDB_DUCK_TIMESTAMP_OFFSET = PGDUCKDB_DUCK_DATE_OFFSET * 86400000000"
definition PGDUCKDB_MAX_TIMESTAMP_VALUE :: int where "PGDUCKDB_MAX_TIMESTAMP_VALUE = 9223371244800000000"
definition PGDUCKDB_MIN_TIMESTAMP_VALUE :: int where "PGDUCKDB_MIN_TIMESTAMP_VALUE = - 210866803200000000"

definition DATEVAL_NOBEGIN :: int where "DATEVAL_NOBEGIN = - 2147483648"
definition DATEVAL_NOEND :: int where "DATEVAL_NOEND = 2147483647"
definition DT_NOBEGIN :: int where "DT_NOBEGIN = - 9223372036854775808"
definition DT_NOEND :: int where "DT_NOEND = 9223372036854775807"

abbreviation wrap32 :: "int \<Rightarrow> int" where "wrap32 \<equiv> signed_take_bit 31"
abbreviation wrap64 :: "int \<Rightarrow> int" where "wrap64 \<equiv> signed_take_bit 63"

definition ValidDate :: "duck_limits \<Rightarrow> int \<Rightarrow> bool" where
  "ValidDate L dt \<longleftrightarrow> dt = date_infinity L \<or> dt = date_ninfinity L \<or>
     (dt \<ge> PGDUCKDB_PG_MIN_DATE_VALUE L \<and> dt \<le> PGDUCKDB_PG_MAX_DATE_VALUE L)"

definition ValidTimestampOrTimestampTz :: "int \<Rightarrow> bool" where
  "ValidTimestampOrTimestampTz ts \<longleftrightarrow> ts \<ge> PGDUCKDB_MIN_TIMESTAMP_VALUE \<and> ts < PGDUCKDB_MAX_TIMESTAMP_VALUE"

definition ConvertDateDatum :: "duck_limits \<Rightarrow> int \<Rightarrow> conv_error + int" where
  "ConvertDateDatum L date =
     (if \<not> ValidDate L date then Inl OutOfRangeException
      else if date = date_ninfinity L then Inr DATEVAL_NOBEGIN
      else if date = date_infinity L then Inr DATEVAL_NOEND
      else Inr (wrap32 (date - PGDUCKDB_DUCK_DATE_OFFSET)))"

definition AppendDate :: "duck_limits \<Rightarrow> int \<Rightarrow> int" where
  "AppendDate L date =
     (if date = DATEVAL_NOBEGIN then date_ninfinity L
      else if date = DATEVAL_NOEND then date_infinity L
      else wrap32 (date + PGDUCKDB_DUCK_DATE_OFFSET))"

text \<open>The microseconds of a timestamp in the unit of its type.\<close>

definition to_micros :: "LogicalType \<Rightarrow> int \<Rightarrow> int" where
  "to_micros t raw = (case t of
       TIMESTAMP_MS \<Rightarrow> wrap64 (raw * 1000)
     | TIMESTAMP_NS \<Rightarrow> raw sdiv 1000
     | TIMESTAMP_SEC \<Rightarrow> wrap64 (raw * 1000000)
     | _ \<Rightarrow> raw)"

definition ConvertTimestampDatum :: "duck_limits \<Rightarrow> LogicalType \<Rightarrow> int \<Rightarrow> conv_error + int" where
  "ConvertTimestampDatum L t raw =
     (if raw = timestamp_ninfinity L then Inr DT_NOBEGIN
      else if raw = timestamp_infinity L then Inr DT_NOEND
      else if \<not> ValidTimestampOrTimestampTz (to_micros t raw) then Inl OutOfRangeException
      else Inr (wrap64 (to_micros t raw - PGDUCKDB_DUCK_TIMESTAMP_OFFSET)))"

definition ConvertTimestampTzDatum :: "duck_limits \<Rightarrow> int \<Rightarrow> conv_error + int" where
  "ConvertTimestampTzDatum L raw =
     (if raw = timestamp_ninfinity L then Inr DT_NOBEGIN
      else if raw = timestamp_infinity L then Inr DT_NOEND
      else if \<not> ValidTimestampOrTimestampTz raw then Inl OutOfRangeException
      else Inr (wrap64 (raw - PGDUCKDB_DUCK_TIMESTAMP_OFFSET)))"

definition AppendTimestamp :: "duck_limits \<Rightarrow> int \<Rightarrow> conv_error + int" where
  "AppendTimestamp L ts =
     (if ts = DT_NOBEGIN then Inr (timestamp_ninfinity L)
      else if ts = DT_NOEND then Inr (timestamp_infinity L)
      else if \<not> ValidTimestampOrTimestampTz (wrap64 (ts + PGDUCKDB_DUCK_TIMESTAMP_OFFSET)) then Inl OutOfRangeException
      else Inr (wrap64 (ts + PGDUCKDB_DUCK_TIMESTAMP_OFFSET)))"

definition AppendTimestampTz :: "duck_limits \<Rightarrow> int \<Rightarrow> conv_error + int" where
  "AppendTimestampTz L ts =
     (if ts = DT_NOBEGIN then Inr (timestamp_ninfinity L)
      else if ts = DT_NOEND then Inr (timestamp_infinity L)
      else if \<not> ValidTimestampOrTimestampTz (wrap64 (ts + PGDUCKDB_DUCK_TIMESTAMP_OFFSET)) then Inl OutOfRangeException
      else Inr (wrap64 (ts + PGDUCKDB_DUCK_TIMESTAMP_OFFSET)))"

section \<open>UUIDs\<close>

text \<open>The memory of integers on a little-endian machine.\<close>

fun le_val :: "8 word list \<Rightarrow> int" where
  "le_val [] = 0" | "le_val (b # bs) = uint b + 256 * le_val bs"

definition le_bytes :: "nat \<Rightarrow> int \<Rightarrow> 8 word list" where
  "le_bytes n x = map (\<lambda>i. word_of_int (x div 256 ^ i)) [0..<n]"

text \<open>\<^verbatim>\<open>hugeint_t\<close>: the lower half comes first in memory.\<close>

record hugeint =
  huge_lower :: u64
  huge_upper :: u64

definition huge_memory :: "hugeint \<Rightarrow> 8 word list" where
  "huge_memory h = le_bytes 8 (uint (huge_lower h)) @ le_bytes 8 (uint (huge_upper h))"

definition huge_of_memory :: "8 word list \<Rightarrow> hugeint" where
  "huge_of_memory bs = \<lparr>huge_lower = word_of_int (le_val (take 8 bs)), huge_upper = word_of_int (le_val (drop 8 bs))\<rparr>"

definition flip_top :: "hugeint \<Rightarrow> hugeint" where
  "flip_top h = h\<lparr>huge_upper := huge_upper h XOR push_bit 63 1\<rparr>"

definition ConvertUUIDDatum :: "hugeint \<Rightarrow> 8 word list" where
  "ConvertUUIDDatum duckdb_uuid = rev (huge_memory (flip_top duckdb_uuid))"

definition DatumGetUUID :: "8 word list \<Rightarrow> hugeint" where
  "DatumGetUUID pg_uuid = flip_top (huge_of_memory (rev pg_uuid))"

section \<open>Scalar values\<close>

text \<open>A datum of a built-in type and the payload of a DuckDB value. Characters, integers, dates, times and object ids
  are \<open>DInt\<close> and \<open>PInt\<close>.\<close>

datatype ('f, 'b) pg_datum = DBool bool | DInt int | DFloat 'f | DText string | DBytea string | DInterval int int int
  | DTimeTz int int | DUuid "8 word list" | DNumeric Numeric | DVarbit 'b | DJsonb string

datatype 'f payload = PBool bool | PInt int | PFloat 'f | PStr string | PInterval int int int | PTimeTz int int
  | PUuid hugeint

text \<open>DuckDB and PostgreSQL code that the conversions call: \<open>get_int lo hi\<close> is \<^verbatim>\<open>Value::GetValue<T>\<close> for the integer type of
  that range, \<open>internal_type\<close> is \<^verbatim>\<open>LogicalType::InternalType\<close>.\<close>

record ('f, 'b) duck_env =
  limits :: duck_limits
  get_int :: "int \<Rightarrow> int \<Rightarrow> LogicalType \<Rightarrow> 'f payload \<Rightarrow> conv_error + int"
  get_bool :: "LogicalType \<Rightarrow> 'f payload \<Rightarrow> conv_error + bool"
  get_float :: "LogicalType \<Rightarrow> 'f payload \<Rightarrow> conv_error + 'f"
  get_interval :: "LogicalType \<Rightarrow> 'f payload \<Rightarrow> conv_error + int \<times> int \<times> int"
  get_timetz :: "LogicalType \<Rightarrow> 'f payload \<Rightarrow> conv_error + int \<times> int"
  get_uuid :: "LogicalType \<Rightarrow> 'f payload \<Rightarrow> conv_error + hugeint"
  value_to_string :: "LogicalType \<Rightarrow> 'f payload \<Rightarrow> string"
  value_blob :: "LogicalType \<Rightarrow> 'f payload \<Rightarrow> conv_error + string"
  internal_type :: "LogicalType \<Rightarrow> PhysicalType"
  StringToVarbit :: "string \<Rightarrow> conv_error + 'b"
  VarbitToString :: "'b \<Rightarrow> string"
  ToBit :: "string \<Rightarrow> conv_error + string"
  StringToNumeric :: "string \<Rightarrow> conv_error + Numeric"
  bpchartruelen :: "string \<Rightarrow> nat"
  JsonbToCString :: "string \<Rightarrow> string"
  double_ops :: "'f decimal_ops"
  huge_fit :: "int \<Rightarrow> conv_error + int"
  uhuge_fit :: "int \<Rightarrow> conv_error + int"

definition ConvertBoolDatum :: "('f, 'b) duck_env \<Rightarrow> LogicalType \<Rightarrow> 'f payload \<Rightarrow> conv_error + ('f, 'b) pg_datum" where
  "ConvertBoolDatum E t p = andthen (get_bool E t p) (\<lambda>b. Inr (DBool b))"

definition ConvertCharDatum :: "('f, 'b) duck_env \<Rightarrow> LogicalType \<Rightarrow> 'f payload \<Rightarrow> conv_error + ('f, 'b) pg_datum" where
  "ConvertCharDatum E t p = andthen (get_int E (- 128) 127 t p) (\<lambda>x. Inr (DInt x))"

definition ConvertInt2Datum :: "('f, 'b) duck_env \<Rightarrow> LogicalType \<Rightarrow> 'f payload \<Rightarrow> conv_error + ('f, 'b) pg_datum" where
  "ConvertInt2Datum E t p =
     (if t = UTINYINT then andthen (get_int E 0 255 t p) (\<lambda>x. Inr (DInt x))
      else andthen (get_int E (- 32768) 32767 t p) (\<lambda>x. Inr (DInt x)))"

definition ConvertInt4Datum :: "('f, 'b) duck_env \<Rightarrow> LogicalType \<Rightarrow> 'f payload \<Rightarrow> conv_error + ('f, 'b) pg_datum" where
  "ConvertInt4Datum E t p =
     (if t = USMALLINT then andthen (get_int E 0 65535 t p) (\<lambda>x. Inr (DInt x))
      else andthen (get_int E (- 2147483648) 2147483647 t p) (\<lambda>x. Inr (DInt x)))"

definition get_int64 :: "('f, 'b) duck_env \<Rightarrow> LogicalType \<Rightarrow> 'f payload \<Rightarrow> conv_error + int" where
  "get_int64 E = get_int E (- 9223372036854775808) 9223372036854775807"

definition ConvertInt8Datum :: "('f, 'b) duck_env \<Rightarrow> LogicalType \<Rightarrow> 'f payload \<Rightarrow> conv_error + ('f, 'b) pg_datum" where
  "ConvertInt8Datum E t p =
     (if t = UINTEGER then andthen (get_int E 0 4294967295 t p) (\<lambda>x. Inr (DInt x))
      else andthen (get_int64 E t p) (\<lambda>x. Inr (DInt x)))"

definition ConvertToStringDatum :: "('f, 'b) duck_env \<Rightarrow> LogicalType \<Rightarrow> 'f payload \<Rightarrow> conv_error + ('f, 'b) pg_datum" where
  "ConvertToStringDatum E t p = Inr (DText (value_to_string E t p))"

definition ConvertVarbitDatum :: "('f, 'b) duck_env \<Rightarrow> LogicalType \<Rightarrow> 'f payload \<Rightarrow> conv_error + ('f, 'b) pg_datum" where
  "ConvertVarbitDatum E t p = andthen (StringToVarbit E (value_to_string E t p)) (\<lambda>b. Inr (DVarbit b))"

definition ConvertBinaryDatum :: "('f, 'b) duck_env \<Rightarrow> LogicalType \<Rightarrow> 'f payload \<Rightarrow> conv_error + ('f, 'b) pg_datum" where
  "ConvertBinaryDatum E t p = andthen (value_blob E t p) (\<lambda>s. Inr (DBytea s))"

definition ConvertIntervalDatum :: "('f, 'b) duck_env \<Rightarrow> LogicalType \<Rightarrow> 'f payload \<Rightarrow> conv_error + ('f, 'b) pg_datum" where
  "ConvertIntervalDatum E t p = andthen (get_interval E t p) (\<lambda>(months, days, micros). Inr (DInterval months days micros))"

definition ConvertTimeTzDatum :: "('f, 'b) duck_env \<Rightarrow> LogicalType \<Rightarrow> 'f payload \<Rightarrow> conv_error + ('f, 'b) pg_datum" where
  "ConvertTimeTzDatum E t p = andthen (get_timetz E t p) (\<lambda>(micros, tz_offset). Inr (DTimeTz micros (wrap32 (- tz_offset))))"

definition ConvertNumericDatum :: "('f, 'b) duck_env \<Rightarrow> LogicalType \<Rightarrow> 'f payload \<Rightarrow> conv_error + ('f, 'b) pg_datum" where
  "ConvertNumericDatum E t p =
     (case t of
        BIGNUM \<Rightarrow> andthen (StringToNumeric E (value_to_string E t p)) (\<lambda>n. Inr (DNumeric n))
      | DOUBLE _ \<Rightarrow> andthen (get_float E t p) (\<lambda>f. Inr (DFloat f))
      | _ \<Rightarrow>
          let scale = (case t of DECIMAL _ s \<Rightarrow> s | _ \<Rightarrow> 0) in
          (case p of
             PInt v \<Rightarrow> andthen (numeric_datum (huge_fit E) (uhuge_fit E) (internal_type E t) scale v) (\<lambda>n. Inr (DNumeric n))
           | _ \<Rightarrow> Inl InvalidInputException))"

text \<open>The scalar cases of the switch of \<^verbatim>\<open>ConvertDuckToPostgresValue\<close>; \<open>None\<close>: not a scalar built-in type.\<close>

definition int_datum :: "conv_error + int \<Rightarrow> conv_error + ('f, 'b) pg_datum" where
  "int_datum r = andthen r (\<lambda>x. Inr (DInt x))"

fun scalar_datum :: "('f, 'b) duck_env \<Rightarrow> Oid \<Rightarrow> LogicalType \<Rightarrow> 'f payload \<Rightarrow> (conv_error + ('f, 'b) pg_datum) option" where
  "scalar_datum E BITOID t p = Some (ConvertVarbitDatum E t p)"
| "scalar_datum E VARBITOID t p = Some (ConvertVarbitDatum E t p)"
| "scalar_datum E BOOLOID t p = Some (ConvertBoolDatum E t p)"
| "scalar_datum E CHAROID t p = Some (ConvertCharDatum E t p)"
| "scalar_datum E INT2OID t p = Some (ConvertInt2Datum E t p)"
| "scalar_datum E INT4OID t p = Some (ConvertInt4Datum E t p)"
| "scalar_datum E INT8OID t p = Some (ConvertInt8Datum E t p)"
| "scalar_datum E BPCHAROID t p = Some (ConvertToStringDatum E t p)"
| "scalar_datum E TEXTOID t p = Some (ConvertToStringDatum E t p)"
| "scalar_datum E JSONOID t p = Some (ConvertToStringDatum E t p)"
| "scalar_datum E VARCHAROID t p = Some (ConvertToStringDatum E t p)"
| "scalar_datum E DATEOID t p = Some (int_datum (andthen (get_int E (- 2147483648) 2147483647 t p) (ConvertDateDatum (limits E))))"
| "scalar_datum E TIMESTAMPOID t p = Some (int_datum (andthen (get_int64 E t p) (ConvertTimestampDatum (limits E) t)))"
| "scalar_datum E TIMESTAMPTZOID t p = Some (int_datum (andthen (get_int64 E t p) (ConvertTimestampTzDatum (limits E))))"
| "scalar_datum E INTERVALOID t p = Some (ConvertIntervalDatum E t p)"
| "scalar_datum E TIMEOID t p = Some (int_datum (get_int64 E t p))"
| "scalar_datum E TIMETZOID t p = Some (ConvertTimeTzDatum E t p)"
| "scalar_datum E FLOAT4OID t p = Some (andthen (get_float E t p) (\<lambda>f. Inr (DFloat f)))"
| "scalar_datum E FLOAT8OID t p = Some (andthen (get_float E t p) (\<lambda>f. Inr (DFloat f)))"
| "scalar_datum E NUMERICOID t p = Some (ConvertNumericDatum E t p)"
| "scalar_datum E UUIDOID t p = Some (andthen (get_uuid E t p) (\<lambda>u. Inr (DUuid (ConvertUUIDDatum u))))"
| "scalar_datum E BYTEAOID t p = Some (ConvertBinaryDatum E t p)"
| "scalar_datum E oid t p = None"

section \<open>Reading a datum\<close>

text \<open>\<^verbatim>\<open>DatumGet<T>\<close>; a datum whose shape is not that of the type does not occur.\<close>

fun datum_int :: "nat \<Rightarrow> ('f, 'b) pg_datum \<Rightarrow> conv_error + int" where
  "datum_int bits (DInt x) = Inr (signed_take_bit (bits - 1) x)" | "datum_int bits _ = Inl InternalException"

fun datum_uint :: "nat \<Rightarrow> ('f, 'b) pg_datum \<Rightarrow> conv_error + int" where
  "datum_uint bits (DInt x) = Inr (take_bit bits x)" | "datum_uint bits _ = Inl InternalException"

fun AppendString :: "('f, 'b) duck_env \<Rightarrow> bool \<Rightarrow> ('f, 'b) pg_datum \<Rightarrow> conv_error + 'f payload" where
  "AppendString E IS_BPCHAR (DText s) = Inr (PStr (if IS_BPCHAR then take (bpchartruelen E s) s else s))"
| "AppendString E IS_BPCHAR _ = Inl InternalException"

fun AppendJsonb :: "('f, 'b) duck_env \<Rightarrow> ('f, 'b) pg_datum \<Rightarrow> conv_error + 'f payload" where
  "AppendJsonb E (DJsonb j) = Inr (PStr (JsonbToCString E j))" | "AppendJsonb E _ = Inl InternalException"

fun AppendBit :: "('f, 'b) duck_env \<Rightarrow> ('f, 'b) pg_datum \<Rightarrow> conv_error + 'f payload" where
  "AppendBit E (DVarbit b) = andthen (ToBit E (VarbitToString E b)) (\<lambda>s. Inr (PStr s))" | "AppendBit E _ = Inl InternalException"

fun AppendBlob :: "('f, 'b) pg_datum \<Rightarrow> conv_error + 'f payload" where
  "AppendBlob (DBytea s) = Inr (PStr s)" | "AppendBlob _ = Inl InternalException"

fun datum_numeric :: "('f, 'b) pg_datum \<Rightarrow> conv_error + Numeric" where
  "datum_numeric (DNumeric n) = Inr n" | "datum_numeric _ = Inl InternalException"

fun datum_fixed :: "('f, 'b) pg_datum \<Rightarrow> conv_error + 'f payload" where
  "datum_fixed (DBool b) = Inr (PBool b)" | "datum_fixed (DFloat f) = Inr (PFloat f)"
| "datum_fixed (DInterval m d u) = Inr (PInterval m d u)"
| "datum_fixed (DTimeTz micros zone) = Inr (PTimeTz micros (wrap32 (- zone)))"
| "datum_fixed (DUuid bs) = Inr (PUuid (DatumGetUUID bs))" | "datum_fixed _ = Inl InternalException"

definition int_payload :: "conv_error + int \<Rightarrow> conv_error + 'f payload" where
  "int_payload r = andthen r (\<lambda>x. Inr (PInt x))"

text \<open>\<^verbatim>\<open>Append<T>\<close>: the vector's memory as an array of elements of the size of \<open>T\<close>.\<close>

definition Append :: "nat \<Rightarrow> int \<Rightarrow> nat \<Rightarrow> 8 word list \<Rightarrow> 8 word list" where
  "Append width v offset bytes = take (offset * width) bytes @ le_bytes width v @ drop ((offset + 1) * width) bytes"

text \<open>The converter that \<^verbatim>\<open>GetPostgresToDuckValueFn\<close> picks for a column; \<open>None\<close>: none of the built-in scalar cases.\<close>

fun scalar_converter :: "('f, 'b) duck_env \<Rightarrow> Oid \<Rightarrow> LogicalType \<Rightarrow> (('f, 'b) pg_datum \<Rightarrow> conv_error + 'f payload) option" where
  "scalar_converter E a BOOLEAN = Some datum_fixed"
| "scalar_converter E a TINYINT = Some (\<lambda>d. int_payload (datum_int 16 d))"
| "scalar_converter E a SMALLINT = Some (\<lambda>d. int_payload (datum_int 16 d))"
| "scalar_converter E a INTEGER = Some (\<lambda>d. int_payload (datum_int 32 d))"
| "scalar_converter E a UINTEGER = Some (\<lambda>d. int_payload (datum_uint 32 d))"
| "scalar_converter E a BIGINT = Some (\<lambda>d. int_payload (datum_int 64 d))"
| "scalar_converter E a (VARCHAR json) = Some (if a = JSONBOID then AppendJsonb E else AppendString E (a = BPCHAROID))"
| "scalar_converter E a DATE = Some (\<lambda>d. int_payload (andthen (datum_int 32 d) (\<lambda>x. Inr (AppendDate (limits E) x))))"
| "scalar_converter E a TIMESTAMP_SEC = Some (\<lambda>d. int_payload (andthen (datum_int 64 d) (AppendTimestamp (limits E))))"
| "scalar_converter E a TIMESTAMP_MS = Some (\<lambda>d. int_payload (andthen (datum_int 64 d) (AppendTimestamp (limits E))))"
| "scalar_converter E a TIMESTAMP_NS = Some (\<lambda>d. int_payload (andthen (datum_int 64 d) (AppendTimestamp (limits E))))"
| "scalar_converter E a TIMESTAMP = Some (\<lambda>d. int_payload (andthen (datum_int 64 d) (AppendTimestamp (limits E))))"
| "scalar_converter E a TIMESTAMP_TZ = Some (\<lambda>d. int_payload (andthen (datum_int 64 d) (AppendTimestampTz (limits E))))"
| "scalar_converter E a INTERVAL = Some datum_fixed"
| "scalar_converter E a BIT = Some (AppendBit E)"
| "scalar_converter E a TIME = Some (\<lambda>d. int_payload (datum_int 64 d))"
| "scalar_converter E a TIME_TZ = Some datum_fixed"
| "scalar_converter E a FLOAT = Some datum_fixed"
| "scalar_converter E a (DOUBLE as_numeric) = Some (if a = NUMERICOID \<and> as_numeric
     then \<lambda>d. andthen (datum_numeric d) (\<lambda>n. andthen (ConvertDecimal (double_ops E) (FromNumeric n)) (\<lambda>f. Inr (PFloat f)))
     else datum_fixed)"
| "scalar_converter E a (DECIMAL w s) = Some (\<lambda>d. int_payload (andthen (datum_numeric d) (AppendDecimal (huge_fit E) (internal_type E (DECIMAL w s)))))"
| "scalar_converter E a UUID = Some datum_fixed"
| "scalar_converter E a BLOB = Some AppendBlob"
| "scalar_converter E a t = None"

text \<open>The value of a parameter of a prepared statement.\<close>

fun ConvertPostgresParameterToDuckValue ::
  "('f, 'b) duck_env \<Rightarrow> Oid \<Rightarrow> ('f, 'b) pg_datum \<Rightarrow> conv_error + LogicalType \<times> 'f payload" where
  "ConvertPostgresParameterToDuckValue E BOOLOID d = andthen (datum_fixed d) (\<lambda>p. Inr (BOOLEAN, p))"
| "ConvertPostgresParameterToDuckValue E INT2OID d = andthen (datum_int 16 d) (\<lambda>x. Inr (SMALLINT, PInt x))"
| "ConvertPostgresParameterToDuckValue E INT4OID d = andthen (datum_int 32 d) (\<lambda>x. Inr (INTEGER, PInt x))"
| "ConvertPostgresParameterToDuckValue E INT8OID d = andthen (datum_int 64 d) (\<lambda>x. Inr (BIGINT, PInt x))"
| "ConvertPostgresParameterToDuckValue E BPCHAROID d = andthen (AppendString E False d) (\<lambda>p. Inr (VARCHAR False, p))"
| "ConvertPostgresParameterToDuckValue E TEXTOID d = andthen (AppendString E False d) (\<lambda>p. Inr (VARCHAR False, p))"
| "ConvertPostgresParameterToDuckValue E JSONOID d = andthen (AppendString E False d) (\<lambda>p. Inr (VARCHAR False, p))"
| "ConvertPostgresParameterToDuckValue E VARCHAROID d = andthen (AppendString E False d) (\<lambda>p. Inr (VARCHAR False, p))"
| "ConvertPostgresParameterToDuckValue E DATEOID d =
     andthen (datum_int 32 d) (\<lambda>x. Inr (DATE, PInt (wrap32 (x + PGDUCKDB_DUCK_DATE_OFFSET))))"
| "ConvertPostgresParameterToDuckValue E TIMESTAMPOID d =
     andthen (datum_int 64 d) (\<lambda>x. Inr (TIMESTAMP, PInt (wrap64 (x + PGDUCKDB_DUCK_TIMESTAMP_OFFSET))))"
| "ConvertPostgresParameterToDuckValue E TIMESTAMPTZOID d =
     andthen (datum_int 64 d) (\<lambda>x. Inr (TIMESTAMP_TZ, PInt (wrap64 (x + PGDUCKDB_DUCK_TIMESTAMP_OFFSET))))"
| "ConvertPostgresParameterToDuckValue E INTERVALOID d = andthen (datum_fixed d) (\<lambda>p. Inr (INTERVAL, p))"
| "ConvertPostgresParameterToDuckValue E BITOID d = andthen (AppendBit E d) (\<lambda>p. Inr (BIT, p))"
| "ConvertPostgresParameterToDuckValue E VARBITOID d = andthen (AppendBit E d) (\<lambda>p. Inr (BIT, p))"
| "ConvertPostgresParameterToDuckValue E TIMEOID d = andthen (datum_int 64 d) (\<lambda>x. Inr (TIME, PInt x))"
| "ConvertPostgresParameterToDuckValue E TIMETZOID d = andthen (datum_fixed d) (\<lambda>p. Inr (TIME_TZ, p))"
| "ConvertPostgresParameterToDuckValue E FLOAT4OID d = andthen (datum_fixed d) (\<lambda>p. Inr (FLOAT, p))"
| "ConvertPostgresParameterToDuckValue E FLOAT8OID d = andthen (datum_fixed d) (\<lambda>p. Inr (DOUBLE False, p))"
| "ConvertPostgresParameterToDuckValue E UUIDOID d = andthen (datum_fixed d) (\<lambda>p. Inr (UUID, p))"
| "ConvertPostgresParameterToDuckValue E oid d = Inl (PgError ''Could not convert Postgres parameter'')"

end
