(* ===== verification/Pg_Arrays.thy ===== *)
theory Pg_Arrays
  imports Pg_Types
begin

text \<open>
  Arrays: \<^verbatim>\<open>libpgduckdb/include/pgddb/pgddb_types_array.hpp\<close> and \<^verbatim>\<open>AppendList\<close> of
  \<^verbatim>\<open>libpgduckdb/pgddb_types.cpp\<close>.

  A nested DuckDB value is a tree; a PostgreSQL array is the list of its dimensions and its elements in
  row-major order, \<open>None\<close> for a null. \<open>palloc_ok\<close> says which request PostgreSQL's allocator grants.
\<close>

section \<open>From a nested list to an array\<close>

datatype 'f dvalue = VNull | VScalar "'f payload" | VList "'f dvalue list"

record 'd append_state =
  expected_values :: u64
  st_dimensions :: "int list"
  allocated :: "nat option"
  written :: "'d option list"

definition PG_INT32_MAX :: nat where
  "PG_INT32_MAX = nat 2147483647"

definition append_state_init :: "nat \<Rightarrow> 'd append_state" where
  "append_state_init number_of_dimensions = \<lparr>expected_values = 1, st_dimensions = replicate number_of_dimensions (- 1),
     allocated = None, written = []\<rparr>"

text \<open>The first list at a dimension fixes its length.\<close>

definition pg_mul_u64_overflow :: "u64 \<Rightarrow> u64 \<Rightarrow> bool" where
  "pg_mul_u64_overflow a b \<longleftrightarrow> uint a * uint b \<ge> 2 ^ 64"

definition set_dimension :: "nat \<Rightarrow> nat \<Rightarrow> 'd append_state \<Rightarrow> conv_error + 'd append_state" where
  "set_dimension dimension to_append st =
     (let st1 = (if st_dimensions st ! dimension = - 1
                 then st\<lparr>st_dimensions := (st_dimensions st)[dimension := int to_append],
                         expected_values := expected_values st * of_nat to_append\<rparr>
                 else st) in
      if st_dimensions st ! dimension = - 1 \<and> pg_mul_u64_overflow (expected_values st1) (of_nat to_append)
      then Inl InvalidInputException
      else let st2 = (if st_dimensions st ! dimension = - 1
                      then st1\<lparr>expected_values := expected_values st1 * of_nat to_append\<rparr> else st1) in
           if st_dimensions st2 ! dimension \<noteq> int to_append then Inl InvalidInputException else Inr st2)"

definition alloc_leaf :: "(u64 \<Rightarrow> bool) \<Rightarrow> 'd append_state \<Rightarrow> conv_error + 'd append_state" where
  "alloc_leaf palloc_ok st =
     (case allocated st of
        Some _ \<Rightarrow> Inr st
      | None \<Rightarrow> if palloc_ok (expected_values st * 8) \<and> palloc_ok (expected_values st)
                then Inr (st\<lparr>allocated := Some (unat (expected_values st))\<rparr>)
                else Inl (PgError ''invalid memory alloc request size''))"

definition write_leaf :: "(LogicalType \<Rightarrow> 'f dvalue \<Rightarrow> conv_error + 'd) \<Rightarrow> LogicalType \<Rightarrow> 'f dvalue \<Rightarrow> 'd append_state \<Rightarrow> conv_error + 'd append_state" where
  "write_leaf OP child_type v st =
     (if length (written st) \<ge> (case allocated st of Some n \<Rightarrow> n | None \<Rightarrow> 0) then Inl BufferOverrun
      else if v = VNull then Inr (st\<lparr>written := written st @ [None]\<rparr>)
      else andthen (OP child_type v) (\<lambda>d. Inr (st\<lparr>written := written st @ [Some d]\<rparr>)))"

fun is_list_type :: "LogicalType \<Rightarrow> bool" where
  "is_list_type (LIST _) = True" | "is_list_type _ = False"

fun AppendValueAtDimension ::
    "(u64 \<Rightarrow> bool) \<Rightarrow> (LogicalType \<Rightarrow> 'f dvalue \<Rightarrow> conv_error + 'd) \<Rightarrow> LogicalType \<Rightarrow> nat \<Rightarrow> 'f dvalue \<Rightarrow> 'd append_state \<Rightarrow> conv_error + 'd append_state"
  and append_children ::
    "(u64 \<Rightarrow> bool) \<Rightarrow> (LogicalType \<Rightarrow> 'f dvalue \<Rightarrow> conv_error + 'd) \<Rightarrow> LogicalType \<Rightarrow> nat \<Rightarrow> 'f dvalue list \<Rightarrow> 'd append_state \<Rightarrow> conv_error + 'd append_state" where
  "AppendValueAtDimension pa OP t dimension (VList values) st =
     (if length values > PG_INT32_MAX then Inl InvalidInputException
      else andthen (set_dimension dimension (length values) st) (\<lambda>st1.
           andthen (GetChildType t) (\<lambda>child_type.
             if is_list_type child_type then append_children pa OP child_type (dimension + 1) values st1
             else andthen (alloc_leaf pa st1) (fold_err (write_leaf OP child_type) values))))"
| "AppendValueAtDimension pa OP t dimension v st = Inl InvalidInputException"
| "append_children pa OP t dimension [] st = Inr st"
| "append_children pa OP t dimension (v # vs) st =
     (if v = VNull then Inl InvalidInputException
      else andthen (AppendValueAtDimension pa OP t dimension v st) (append_children pa OP t dimension vs))"

fun nesting_depth :: "LogicalType \<Rightarrow> nat" where
  "nesting_depth (LIST t) = Suc (nesting_depth t)" | "nesting_depth (ARRAY t _) = Suc (nesting_depth t)" | "nesting_depth _ = 0"

text \<open>The arguments of \<^verbatim>\<open>OP::ConstructArray\<close>: the dimensions, and the datums that have been written.\<close>

record 'd pg_array =
  arr_dims :: "int list"
  arr_elems :: "'d option list"

definition ConvertDuckToPostgresArray ::
  "(u64 \<Rightarrow> bool) \<Rightarrow> (LogicalType \<Rightarrow> 'f dvalue \<Rightarrow> conv_error + 'd) \<Rightarrow> LogicalType \<Rightarrow> 'f dvalue \<Rightarrow> conv_error + 'd pg_array" where
  "ConvertDuckToPostgresArray pa OP t v =
     andthen (AppendValueAtDimension pa OP t 0 v (append_state_init (nesting_depth t))) (\<lambda>st.
       Inr \<lparr>arr_dims = map (\<lambda>d. if d = - 1 then 0 else d) (st_dimensions st), arr_elems = written st\<rparr>)"

section \<open>From an array to list vectors\<close>

text \<open>The vectors of a nested list type, the outermost first: the entries \<^verbatim>\<open>(offset, length)\<close> of each level and the size of
  its child; then the leaf vector, \<open>Some None\<close> for an invalid row.\<close>

record list_level =
  entries :: "nat \<Rightarrow> nat \<times> nat"
  list_size :: nat

record 'c list_vectors =
  levels :: "list_level list"
  leaf :: "nat \<Rightarrow> 'c option option"

definition write_entries :: "nat \<Rightarrow> nat \<Rightarrow> nat \<Rightarrow> list_level \<Rightarrow> list_level" where
  "write_entries write_offset previous_dimension dimension lv =
     \<lparr>entries = (\<lambda>i. if write_offset \<le> i \<and> i < write_offset + previous_dimension
                     then (list_size lv + dimension * (i - write_offset), dimension) else entries lv i),
      list_size = list_size lv + dimension * previous_dimension\<rparr>"

text \<open>The loop over the dimensions, with the one before the current one; it returns the offset in the next vector.\<close>

fun append_dims :: "nat list \<Rightarrow> nat \<Rightarrow> nat \<Rightarrow> list_level list \<Rightarrow> conv_error + (list_level list \<times> nat \<times> list_level list)" where
  "append_dims [] previous write_offset lvs = Inr ([], write_offset, lvs)"
| "append_dims (d # ds) previous write_offset [] = Inl InvalidInputException"
| "append_dims (d # ds) previous write_offset (lv # lvs) =
     andthen (append_dims ds d (list_size lv) lvs) (\<lambda>(done, off, rest). Inr (write_entries write_offset previous d lv # done, off, rest))"

definition write_elems :: "('d \<Rightarrow> conv_error + 'c) \<Rightarrow> nat \<Rightarrow> 'd option list \<Rightarrow> (nat \<Rightarrow> 'c option option) \<Rightarrow> conv_error + (nat \<Rightarrow> 'c option option)" where
  "write_elems conv write_offset elems lf =
     fold_err (\<lambda>(i, e) f. case e of None \<Rightarrow> Inr (f(write_offset + i := Some None))
                          | Some d \<Rightarrow> andthen (conv d) (\<lambda>c. Inr (f(write_offset + i := Some (Some c)))))
       (enumerate 0 elems) lf"

definition AppendList :: "('d \<Rightarrow> conv_error + 'c) \<Rightarrow> nat list \<Rightarrow> 'd option list \<Rightarrow> nat \<Rightarrow> 'c list_vectors \<Rightarrow> conv_error + 'c list_vectors" where
  "AppendList conv dims elems offset vec =
     (if dims = []
      then case levels vec of
             [] \<Rightarrow> Inl InternalException
           | lv # lvs \<Rightarrow> Inr (vec\<lparr>levels := lv\<lparr>entries := (entries lv)(offset := (list_size lv, 0))\<rparr> # lvs\<rparr>)
      else andthen (append_dims dims 1 offset (levels vec)) (\<lambda>(done, write_offset, rest).
           if rest \<noteq> [] then Inl InvalidInputException
           else andthen (write_elems conv write_offset elems (leaf vec)) (\<lambda>lf. Inr \<lparr>levels = done, leaf = lf\<rparr>)))"

end
