(* ===== verification/Pg_Numeric_Props.thy ===== *)
theory Pg_Numeric_Props
  imports Pg_Numeric
begin

text \<open>
  What the conversions between decimals and \<^verbatim>\<open>numeric\<close> keep. \<open>nval\<close> is the number that a digit buffer and
  a weight denote; packing and unpacking keep it, and each direction of the conversion relates it to the
  scaled integer of the decimal. \<open>exact_fit\<close> collects the facts for an integer type whose arithmetic is
  exact up to a bound; the machine types and, by hypothesis, DuckDB's 128-bit integers are instances.
\<close>

section \<open>The number a digit buffer denotes\<close>

definition hv :: "int list \<Rightarrow> int" where
  "hv ds = foldl (\<lambda>a d. a * 10000 + d) 0 ds"

definition nval :: "int list \<Rightarrow> int \<Rightarrow> rat" where
  "nval ds w = of_int (hv ds) * 10000 powi (w + 1 - int (length ds))"

definition digits_ok :: "int list \<Rightarrow> bool" where
  "digits_ok ds \<longleftrightarrow> list_all (\<lambda>d. 0 \<le> d \<and> d < 10000) ds"

lemma foldl_horner: "foldl (\<lambda>a d. a * 10000 + d) c ds = c * 10000 ^ length ds + hv ds" for c :: int
proof (induction ds arbitrary: c)
  case Nil
  then show ?case by (simp add: hv_def)
next
  case (Cons d ds)
  have "hv (d # ds) = d * 10000 ^ length ds + hv ds"
    unfolding hv_def by (simp add: Cons [of d, simplified hv_def])
  then show ?case using Cons [of "c * 10000 + d"] by (simp add: distrib_right)
qed

lemma hv_append: "hv (xs @ ys) = hv xs * 10000 ^ length ys + hv ys"
  using foldl_horner [of "hv xs" ys] by (simp add: hv_def)

lemma hv_simps [simp]: "hv [] = 0" "hv (d # ds) = d * 10000 ^ length ds + hv ds"
  using foldl_horner [of d ds] by (simp_all add: hv_def)

lemma digits_ok_simps [simp]:
  "digits_ok []" "digits_ok (d # ds) \<longleftrightarrow> 0 \<le> d \<and> d < 10000 \<and> digits_ok ds"
  "digits_ok (xs @ ys) \<longleftrightarrow> digits_ok xs \<and> digits_ok ys" "digits_ok (rev xs) \<longleftrightarrow> digits_ok xs"
  by (auto simp: digits_ok_def list_all_iff)

lemma digits_ok_nth: "digits_ok ds \<Longrightarrow> i < length ds \<Longrightarrow> 0 \<le> ds ! i \<and> ds ! i < 10000"
  by (auto simp: digits_ok_def list_all_length)

lemma digits_ok_take: "digits_ok ds \<Longrightarrow> digits_ok (take n ds)"
  and digits_ok_drop: "digits_ok ds \<Longrightarrow> digits_ok (drop n ds)"
  by (auto simp: digits_ok_def list_all_iff dest: in_set_takeD in_set_dropD)

lemma hv_nonneg: "digits_ok ds \<Longrightarrow> 0 \<le> hv ds"
  by (induction ds) auto

lemma hv_less: "digits_ok ds \<Longrightarrow> hv ds < 10000 ^ length ds"
proof (induction ds)
  case (Cons d ds)
  then have "d * 10000 ^ length ds \<le> 9999 * 10000 ^ length ds" by (intro mult_right_mono) auto
  moreover have "hv ds < 10000 ^ length ds" using Cons by simp
  ultimately have "hv (d # ds) < 9999 * 10000 ^ length ds + 10000 ^ length ds" unfolding hv_simps by (rule add_le_less_mono)
  then show ?case by simp
qed simp

section \<open>Stripping zeros\<close>

lemma nval_leading_zero: "nval (0 # ds) w = nval ds (w - 1)"
  by (simp add: nval_def)

lemma nval_trailing_zero: "nval (ds @ [0]) w = nval ds w"
proof -
  have "(10000 :: rat) powi (w + 1 - int (length ds)) = 10000 * 10000 powi (w - int (length ds))"
    using power_int_add_1 [of "10000 :: rat" "w - int (length ds)"] by (simp add: algebra_simps)
  then show ?thesis by (simp add: nval_def hv_append)
qed

lemma truncate_leading_nval: "truncate_leading ds w = (ds', w') \<Longrightarrow> nval ds' w' = nval ds w"
  by (induction ds w rule: truncate_leading.induct) (auto simp: nval_leading_zero split: if_splits)

lemma truncate_leading_suffix: "truncate_leading ds w = (ds', w') \<Longrightarrow> \<exists>xs. ds = xs @ ds' \<and> w' = w - int (length xs)"
proof (induction ds w rule: truncate_leading.induct)
  case (1 d ds w)
  show ?case
  proof (cases "d = 0")
    case True
    then obtain xs where "ds = xs @ ds'" "w' = w - 1 - int (length xs)" using 1 by auto
    then have "d # ds = (d # xs) @ ds' \<and> w' = w - int (length (d # xs))" by simp
    then show ?thesis by blast
  next
    case False
    then show ?thesis using 1 by (intro exI [of _ "[]"]) auto
  qed
qed auto

lemma truncate_trailing_nval: "nval (truncate_trailing ds) w = nval ds w"
proof (induction ds rule: rev_induct)
  case (snoc d ds)
  then show ?case by (cases "d = 0") (auto simp: truncate_trailing_def nval_trailing_zero)
qed (simp add: truncate_trailing_def)

lemma truncate_trailing_last: "truncate_trailing ds \<noteq> [] \<Longrightarrow> last (truncate_trailing ds) \<noteq> 0"
  unfolding truncate_trailing_def using hd_dropWhile [of "\<lambda>d. d = 0" "rev ds"] by (auto simp: last_rev)

lemma truncate_trailing_prefix: "\<exists>ys. ds = truncate_trailing ds @ ys"
proof -
  have "rev ds = takeWhile (\<lambda>d. d = 0) (rev ds) @ dropWhile (\<lambda>d. d = 0) (rev ds)" by simp
  then have "ds = truncate_trailing ds @ rev (takeWhile (\<lambda>d. d = 0) (rev ds))"
    unfolding truncate_trailing_def by (metis rev_append rev_rev_ident)
  then show ?thesis by blast
qed

section \<open>Packing\<close>

lemma header_bit15: "(h :: u16) AND 0x8000 = 0 \<longleftrightarrow> \<not> bit h 15"
  and header_bit6: "(h :: u16) AND 0x40 = 0 \<longleftrightarrow> \<not> bit h 6"
  and header_bit13: "(h :: u16) AND 0x2000 = 0 \<longleftrightarrow> \<not> bit h 13"
proof -
  have "(h AND 2 ^ n = 0) = (\<not> bit h n)" for n
    by (rule and_exp_eq_0_iff_not_bit)
  from this [of 15] this [of 6] this [of 13] show
    "(h AND 0x8000 = 0) = (\<not> bit h 15)" "(h AND 0x40 = 0) = (\<not> bit h 6)" "(h AND 0x2000 = 0) = (\<not> bit h 13)"
    by simp_all
qed

lemma and_exp_bit: "bit (h :: u16) n \<Longrightarrow> h AND 2 ^ n = 2 ^ n"
  by (rule bit_word_eqI) (auto simp: bit_and_iff bit_exp_iff)

lemma flag_mask: "(h :: u16) AND 0xC000 = (if bit h 15 then 0x8000 else 0) OR (if bit h 14 then 0x4000 else 0)"
proof -
  have "(0xC000 :: u16) = 2 ^ 15 OR 2 ^ 14" by simp
  then have "h AND 0xC000 = (h AND 2 ^ 15) OR (h AND 2 ^ 14)" by (simp only: bit.conj_disj_distrib)
  then show ?thesis
    using and_exp_bit [of h 15] and_exp_bit [of h 14] and_exp_eq_0_iff_not_bit [of h 15] and_exp_eq_0_iff_not_bit [of h 14]
    by (cases "bit h 15"; cases "bit h 14") simp_all
qed

lemmas numeric_masks = NUMERIC_SIGN_MASK_def NUMERIC_POS_def NUMERIC_NEG_def NUMERIC_SHORT_def NUMERIC_SPECIAL_def
  NUMERIC_EXT_SIGN_MASK_def NUMERIC_NAN_def NUMERIC_PINF_def NUMERIC_NINF_def NUMERIC_SHORT_SIGN_MASK_def
  NUMERIC_SHORT_DSCALE_MASK_def NUMERIC_SHORT_DSCALE_SHIFT_def NUMERIC_SHORT_WEIGHT_SIGN_MASK_def NUMERIC_SHORT_WEIGHT_MASK_def
  NUMERIC_DSCALE_MASK_def NUMERIC_SHORT_DSCALE_MAX_def NUMERIC_SHORT_WEIGHT_MAX_def NUMERIC_SHORT_WEIGHT_MIN_def

lemma small_scale_bits: "d < 64 \<Longrightarrow> 6 \<le> k \<Longrightarrow> \<not> bit (of_nat d :: u16) k"
proof -
  assume d: "d < 64" and k: "6 \<le> k"
  have "(2 :: nat) ^ 6 \<le> 2 ^ k" using k by (rule power_increasing) simp
  then have "d div 2 ^ k = 0" using d by simp
  then have "\<not> bit d k" by (simp add: bit_iff_odd)
  then show ?thesis by (simp add: bit_of_nat_iff)
qed

lemma pack_sign:
  assumes "sign = NUMERIC_POS \<or> sign = NUMERIC_NEG"
  shows "NUMERIC_SIGN (pack_numeric dscale weight sign digits) = sign"
proof (cases "NUMERIC_CAN_BE_SHORT dscale weight")
  case True
  then have d: "dscale < 64" by (simp add: NUMERIC_CAN_BE_SHORT_def numeric_masks)
  define h where "h = n_header (pack_numeric dscale weight sign digits)"
  have "bit h 15" "\<not> bit h 14" "bit h 13 \<longleftrightarrow> sign = NUMERIC_NEG"
    using True small_scale_bits [OF d]
    by (simp_all add: h_def pack_numeric_def numeric_masks bit_or_iff bit_and_iff bit_push_bit_iff)
  then show ?thesis
    using assms by (auto simp: NUMERIC_SIGN_def NUMERIC_IS_SHORT_def NUMERIC_FLAGBITS_def numeric_masks flag_mask
        header_bit13 simp flip: h_def)
next
  case False
  define h where "h = n_header (pack_numeric dscale weight sign digits)"
  have "\<not> bit h 15" "bit h 14 \<longleftrightarrow> sign = NUMERIC_NEG"
    using False assms by (auto simp: h_def pack_numeric_def numeric_masks bit_or_iff bit_and_iff)
  then show ?thesis
    using assms by (auto simp: NUMERIC_SIGN_def NUMERIC_IS_SHORT_def NUMERIC_IS_SPECIAL_def NUMERIC_FLAGBITS_def numeric_masks
        flag_mask simp flip: h_def)
qed

lemma pack_digits: "n_data (pack_numeric dscale weight sign digits) = digits"
  by (simp add: pack_numeric_def)

lemma make_result_unpacks:
  assumes "make_result var = Inr n" and "nv_sign var = NUMERIC_POS \<or> nv_sign var = NUMERIC_NEG"
    and "truncate_leading (nv_digits var) (nv_weight var) = (lead, w)"
  shows "FromNumeric n = (if truncate_trailing lead = []
    then \<lparr>nv_digits = [], nv_weight = 0, nv_sign = NUMERIC_POS, nv_dscale = nv_dscale var\<rparr>
    else \<lparr>nv_digits = truncate_trailing lead, nv_weight = w, nv_sign = nv_sign var, nv_dscale = nv_dscale var\<rparr>)"
proof -
  have ns: "nv_sign var AND NUMERIC_SIGN_MASK \<noteq> NUMERIC_SPECIAL"
    using assms(2) by (auto simp: numeric_masks)
  show ?thesis
    using assms(1) ns pack_sign [OF assms(2)] pack_sign [of NUMERIC_POS]
    by (auto simp: make_result_def Let_def assms(3) FromNumeric_def pack_digits split: if_splits)
qed

lemma pack_short_header_is_short: "NUMERIC_CAN_BE_SHORT d w \<Longrightarrow> NUMERIC_HEADER_IS_SHORT (pack_numeric d w sign digits)"
  by (simp add: NUMERIC_HEADER_IS_SHORT_def header_bit15 pack_numeric_def numeric_masks bit_or_iff)

lemma pack_dscale:
  assumes "NUMERIC_CAN_BE_SHORT d w"
  shows "NUMERIC_DSCALE (pack_numeric d w sign digits) = d"
proof -
  have d: "d < 64" using assms by (simp add: NUMERIC_CAN_BE_SHORT_def numeric_masks)
  define h where "h = n_header (pack_numeric d w sign digits)"
  have low: "bit h (k + 7) = bit (of_nat d :: u16) k" if "k < 6" for k
  proof -
    have "k = 0 \<or> k = 1 \<or> k = 2 \<or> k = 3 \<or> k = 4 \<or> k = 5" using that by arith
    then show ?thesis
      using assms by (elim disjE) (simp_all add: h_def pack_numeric_def numeric_masks bit_or_iff bit_and_iff bit_push_bit_iff)
  qed
  have "(0x1F80 :: u16) = push_bit 7 (mask 6)" by (simp add: mask_eq_exp_minus_1 push_bit_eq_mult)
  moreover have "drop_bit 7 (h AND push_bit 7 (mask 6)) = drop_bit 7 h AND mask 6"
    by (rule bit_word_eqI) (auto simp: bit_and_iff bit_drop_bit_eq bit_push_bit_iff bit_mask_iff)
  ultimately have "drop_bit 7 (h AND 0x1F80) = drop_bit 7 h AND mask 6" by simp
  also have "\<dots> = of_nat d"
  proof (rule bit_word_eqI)
    fix k assume "k < LENGTH(16)"
    show "bit (drop_bit 7 h AND mask 6) k = bit (of_nat d :: u16) k"
      using low [of k] small_scale_bits [OF d, of k]
      by (cases "k < 6") (simp_all add: bit_and_iff bit_mask_iff bit_drop_bit_eq add.commute)
  qed
  finally show ?thesis
    using d pack_short_header_is_short [OF assms, of sign digits]
    by (simp add: NUMERIC_DSCALE_def numeric_masks unat_of_nat flip: h_def)
qed

lemma or_minus_64: "(- 64) OR (w mod 64) = w mod 64 - 64" for w :: int
proof -
  have "(- 64 :: int) = NOT (mask 6)" by (simp add: mask_eq_exp_minus_1 not_int_def)
  then have "(- 64) AND take_bit 6 w = 0" by (auto simp: bit_eq_iff bit_simps)
  from disjunctive_add_eq_or [OF this] show ?thesis by (simp add: take_bit_eq_mod)
qed

lemma pack_weight:
  assumes "NUMERIC_CAN_BE_SHORT d w"
  shows "NUMERIC_WEIGHT (pack_numeric d w sign digits) = w"
proof -
  have d: "d < 64" and w: "- 64 \<le> w" "w \<le> 63" using assms by (simp_all add: NUMERIC_CAN_BE_SHORT_def numeric_masks)
  define h where "h = n_header (pack_numeric d w sign digits)"
  have b6: "bit h 6 \<longleftrightarrow> w < 0"
    using assms by (simp add: h_def pack_numeric_def numeric_masks bit_or_iff bit_and_iff bit_push_bit_iff)
  have low: "bit h k = bit (word_of_int w :: u16) k" if "k < 6" for k
  proof -
    have "k = 0 \<or> k = 1 \<or> k = 2 \<or> k = 3 \<or> k = 4 \<or> k = 5" using that by arith
    then show ?thesis
      using assms by (elim disjE) (simp_all add: h_def pack_numeric_def numeric_masks bit_or_iff bit_and_iff bit_push_bit_iff)
  qed
  have "(0x3F :: u16) = mask 6" by (simp add: mask_eq_exp_minus_1)
  then have "h AND 0x3F = take_bit 6 (word_of_int w)"
    by (auto simp: bit_eq_iff bit_simps low)
  then have "uint (h AND 0x3F) = take_bit 6 w" by (simp add: unsigned_take_bit_eq uint_word_of_int_eq)
  moreover have m: "w < 0 \<Longrightarrow> w mod 64 = w + 64" using w by presburger
  moreover have "w < 0 \<Longrightarrow> (- 64) OR (w + 64) = w" using or_minus_64 [of w] m by simp
  ultimately show ?thesis
    using w b6 pack_short_header_is_short [OF assms, of sign digits]
    by (auto simp: NUMERIC_WEIGHT_def numeric_masks header_bit6 or_minus_64 take_bit_eq_mod simp flip: h_def)
qed

section \<open>Integers with exact arithmetic up to a bound\<close>

locale exact_fit =
  fixes fit :: "int \<Rightarrow> conv_error + int" and pow10 :: "nat \<Rightarrow> conv_error + int" and sizeof :: nat
    and lim :: int and pmax :: nat
  assumes fit: "0 \<le> x \<Longrightarrow> x \<le> lim \<Longrightarrow> fit x = Inr x"
    and pow10: "i \<le> pmax \<Longrightarrow> pow10 i = Inr (10 ^ i)"
    and lim: "10000 \<le> lim" and room: "lim < 10000 ^ (sizeof * 4)" and pmax: "4 \<le> pmax"
begin

abbreviation T :: "int decimal_ops" where
  "T \<equiv> integer_ops fit pow10 sizeof"

lemma T_pow: "i \<le> pmax \<Longrightarrow> 10 ^ i \<le> lim \<Longrightarrow> op_pow T i = Inr (10 ^ i)"
  by (simp add: integer_ops_def pow10 fit)

lemma T_mul: "0 \<le> x * y \<Longrightarrow> x * y \<le> lim \<Longrightarrow> op_mul T x y = Inr (x * y)"
  and T_add: "0 \<le> x + y \<Longrightarrow> x + y \<le> lim \<Longrightarrow> op_add T x y = Inr (x + y)"
  by (simp_all add: integer_ops_def fit)

lemma T_div: "0 \<le> x \<Longrightarrow> x \<le> lim \<Longrightarrow> 0 < y \<Longrightarrow> op_div T x y = Inr (x div y)"
proof -
  assume a: "0 \<le> x" "x \<le> lim" "0 < y"
  then have "x sdiv y = x div y" by (cases "x = 0") (simp_all add: signed_divide_int_def sgn_if)
  moreover have "x div y \<le> x" using a by (simp add: zdiv_mono2 [of x 1 y, simplified])
  ultimately show ?thesis using a by (simp add: integer_ops_def fit pos_imp_zdiv_nonneg_iff)
qed

lemma T_mod: "0 \<le> x \<Longrightarrow> x \<le> lim \<Longrightarrow> 0 < y \<Longrightarrow> op_mod T x y = Inr (x mod y)"
proof -
  assume a: "0 \<le> x" "x \<le> lim" "0 < y"
  then have "x smod y = x mod y"
    by (cases "x = 0") (simp_all add: signed_modulo_int_def signed_divide_int_def sgn_if minus_div_mult_eq_mod)
  moreover have "x mod y \<le> x" using a by (simp add: zmod_le_nonneg_dividend)
  ultimately show ?thesis using a by (simp add: integer_ops_def fit)
qed

lemma T_digit: "0 \<le> d \<Longrightarrow> d < 10000 \<Longrightarrow> op_digit T d = d"
  by (simp add: integer_ops_def take_bit_int_eq_self signed_take_bit_int_eq_self)

lemma T_of [simp]: "op_of T x = x" "op_positive T x = (0 < x)" "op_negative T x = (x < 0)" "op_max T = sizeof * 4"
  "op_final T nv x = Inr x"
  by (simp_all add: integer_ops_def)

lemma div_NBASE: "0 \<le> x \<Longrightarrow> x \<le> lim \<Longrightarrow> op_div T x NBASE = Inr (x div 10000)"
  and mod_NBASE: "0 \<le> x \<Longrightarrow> x \<le> lim \<Longrightarrow> op_mod T x NBASE = Inr (x mod 10000)"
  by (simp_all add: T_div T_mod NBASE_def)

lemma integral_digits_correct:
  "0 \<le> x \<Longrightarrow> x \<le> lim \<Longrightarrow> x < 10000 ^ r \<Longrightarrow>
    \<exists>ds. integral_digits T r x = Inr ds \<and> digits_ok ds \<and> hv (rev ds) = x \<and> length ds \<le> r"
proof (induction r arbitrary: x)
  case 0
  then show ?case by (simp add: integral_digits.simps [of T 0])
next
  case (Suc r)
  show ?case
  proof (cases "x = 0")
    case True
    then show ?thesis by (simp add: integral_digits.simps [of T "Suc r"])
  next
    case False
    have "x div 10000 \<le> x" using Suc.prems by simp
    then have "0 \<le> x div 10000 \<and> x div 10000 \<le> lim \<and> x div 10000 < 10000 ^ r"
      using Suc.prems by auto
    then obtain ds where ds: "integral_digits T r (x div 10000) = Inr ds" "digits_ok ds" "hv (rev ds) = x div 10000" "length ds \<le> r"
      using Suc.IH [of "x div 10000"] by blast
    have "integral_digits T (Suc r) x = Inr (x mod 10000 # ds)"
      using False Suc.prems ds(1) by (simp add: integral_digits.simps [of T "Suc r"] mod_NBASE div_NBASE T_digit)
    then show ?thesis using ds by (simp add: hv_append)
  qed
qed

lemma fractional_digits_correct:
  "0 \<le> x \<Longrightarrow> x \<le> lim \<Longrightarrow> x < 10000 ^ k \<Longrightarrow>
    \<exists>ds. fractional_digits T k x = Inr ds \<and> digits_ok ds \<and> hv (rev ds) = x \<and> length ds = k"
proof (induction k arbitrary: x)
  case (Suc k)
  have "x div 10000 \<le> x" using Suc.prems by simp
  then have "0 \<le> x div 10000 \<and> x div 10000 \<le> lim \<and> x div 10000 < 10000 ^ k"
    using Suc.prems by auto
  then obtain ds where "fractional_digits T k (x div 10000) = Inr ds" "digits_ok ds" "hv (rev ds) = x div 10000" "length ds = k"
    using Suc.IH [of "x div 10000"] by blast
  then show ?case using Suc.prems by (simp add: mod_NBASE div_NBASE T_digit hv_append)
qed simp

end

context exact_fit
begin

text \<open>The digits that \<^verbatim>\<open>ConvertNumeric\<close> writes denote the decimal, as long as the padded fraction fits.\<close>

lemma ConvertNumeric_denotes:
  assumes v: "(if v < 0 then op_neg T v else Inr v) = Inr m" "0 \<le> m" "m \<le> lim"
    and s: "s \<le> pmax" "10 ^ s \<le> lim" "fractional_ndigits s \<le> sizeof * 4"
    and padded: "m mod 10 ^ s * 10 ^ (fractional_ndigits s * DEC_DIGITS - s) \<le> lim"
  shows "\<exists>ds w. ConvertNumeric T v s = Inr \<lparr>nv_digits = ds, nv_weight = w,
            nv_sign = (if v < 0 then NUMERIC_NEG else NUMERIC_POS), nv_dscale = s\<rparr> \<and>
          digits_ok ds \<and> nval ds w = of_int m / 10 ^ s \<and> w < int (sizeof * 4) \<and> int (length ds) = w + 1 + int (fractional_ndigits s)"
proof -
  define k where "k = fractional_ndigits s"
  define c where "c = k * DEC_DIGITS - s"
  have kc: "s + c = 4 * k" "c < 4" by (auto simp: c_def k_def fractional_ndigits_def DEC_DIGITS_def)
  have pw: "(10 :: int) ^ s * 10 ^ c = 10000 ^ k" using kc(1) by (simp add: power_mult flip: power_add)
  have split: "split_parts T m s = Inr (m div 10 ^ s, m mod 10 ^ s)"
    using v s by (simp add: split_parts_def T_pow T_div T_mod)
  have ds: "0 \<le> m div 10 ^ s" "m div 10 ^ s \<le> lim"
    using v by (simp_all add: pos_imp_zdiv_nonneg_iff order_trans [OF _ v(3)] zdiv_mono2 [of m 1 "10 ^ s", simplified])
  then obtain ids where ids: "integral_digits T (sizeof * 4) (m div 10 ^ s) = Inr ids" "digits_ok ids" "hv (rev ids) = m div 10 ^ s"
      "length ids \<le> sizeof * 4"
    using integral_digits_correct [of "m div 10 ^ s" "sizeof * 4"] room by auto
  have pad: "op_mul T (m mod 10 ^ s) (10 ^ c) = Inr (m mod 10 ^ s * 10 ^ c)"
    using padded by (simp add: T_mul c_def k_def)
  have "m mod 10 ^ s < 10 ^ s" by simp
  then have "m mod 10 ^ s * 10 ^ c < 10 ^ s * 10 ^ c" by (rule mult_strict_right_mono) simp
  then have "m mod 10 ^ s * 10 ^ c < 10000 ^ k" unfolding pw .
  then obtain fds where fds: "fractional_digits T k (m mod 10 ^ s * 10 ^ c) = Inr fds" "digits_ok fds"
      "hv (rev fds) = m mod 10 ^ s * 10 ^ c" "length fds = k"
    using fractional_digits_correct [of "m mod 10 ^ s * 10 ^ c" k] padded by (auto simp: c_def k_def)
  have "(10 :: int) ^ c \<le> 10 ^ 4" using kc(2) by (intro power_increasing) auto
  then have pc: "op_pow T c = Inr (10 ^ c)" using kc(2) lim pmax by (intro T_pow) auto
  have conv: "ConvertNumeric T v s = Inr \<lparr>nv_digits = rev ids @ rev fds, nv_weight = int (length ids) - 1,
      nv_sign = (if v < 0 then NUMERIC_NEG else NUMERIC_POS), nv_dscale = s\<rparr>"
    using v(1) s(3) split ids(1) pc pad fds(1) by (simp add: ConvertNumeric_def c_def k_def guard_or_def)
  have pr: "(10 :: rat) ^ s * 10 ^ c = 10000 ^ k" using kc(1) by (simp add: power_mult flip: power_add)
  have "nval (rev ids @ rev fds) (int (length ids) - 1)
      = of_int (m div 10 ^ s * 10000 ^ k + m mod 10 ^ s * 10 ^ c) / 10000 ^ k"
    using ids fds by (simp add: nval_def hv_append power_int_minus divide_inverse)
  also have "m div 10 ^ s * 10000 ^ k + m mod 10 ^ s * 10 ^ c = m * 10 ^ c"
  proof -
    have "m * 10 ^ c = (m div 10 ^ s * 10 ^ s + m mod 10 ^ s) * 10 ^ c" by (simp only: div_mult_mod_eq)
    then show ?thesis using pw by (simp only: distrib_right mult.assoc)
  qed
  also have "of_int (m * 10 ^ c) / (10000 :: rat) ^ k = of_int m / 10 ^ s"
    using pr by (simp flip: pr)
  finally show ?thesis
    using conv ids fds by (intro exI [of _ "rev ids @ rev fds"] exI [of _ "int (length ids) - 1"]) (auto simp: k_def)
qed

end

definition digit_at :: "int list \<Rightarrow> nat \<Rightarrow> int" where
  "digit_at ds i = (if i < length ds then ds ! i else 0)"

text \<open>The first \<open>n\<close> digits, filled up with zeros.\<close>

definition head_value :: "int list \<Rightarrow> nat \<Rightarrow> int" where
  "head_value ds n = hv (map (digit_at ds) [0..<n])"

lemma head_value_Suc: "head_value ds (Suc n) = head_value ds n * 10000 + digit_at ds n"
  by (simp add: head_value_def hv_append)

lemma digit_at_bounds: "digits_ok ds \<Longrightarrow> 0 \<le> digit_at ds i \<and> digit_at ds i < 10000"
  using digits_ok_nth by (auto simp: digit_at_def)

lemma head_value_nonneg: "digits_ok ds \<Longrightarrow> 0 \<le> head_value ds n"
  unfolding head_value_def by (rule hv_nonneg) (auto simp: digits_ok_def list_all_iff digit_at_bounds [unfolded digits_ok_def list_all_iff])

lemma head_value_take: "n \<le> length ds \<Longrightarrow> head_value ds n = hv (take n ds)"
  unfolding head_value_def by (rule arg_cong [of _ _ hv]) (auto simp: digit_at_def intro: nth_equalityI)

lemma head_value_beyond: "length ds \<le> n \<Longrightarrow> head_value ds n = hv ds * 10000 ^ (n - length ds)"
proof (induction n)
  case (Suc n)
  show ?case
  proof (cases "length ds = Suc n")
    case False
    then have "Suc n - length ds = Suc (n - length ds)" using Suc.prems by simp
    then show ?thesis using Suc False by (simp add: head_value_Suc digit_at_def)
  qed (simp add: head_value_take)
qed (simp add: head_value_def)

context exact_fit
begin

lemma integral_loop:
  assumes "digits_ok ds" and "ds \<noteq> []"
  shows "head_value ds (Suc n) \<le> lim \<Longrightarrow> fold_err (integral_step T ds) [1..<Suc n] (ds ! 0) = Inr (head_value ds (Suc n))"
proof (induction n)
  case 0
  show ?case using assms(2) by (simp add: head_value_def digit_at_def)
next
  case (Suc n)
  let ?h = "head_value ds (Suc n)"
  have h: "0 \<le> ?h" "0 \<le> digit_at ds (Suc n)" using assms head_value_nonneg digit_at_bounds by blast+
  have le: "?h * 10000 + digit_at ds (Suc n) \<le> lim" using Suc.prems by (simp add: head_value_Suc [of _ "Suc n"])
  then have "?h \<le> lim" "?h * 10000 \<le> lim" using h by linarith+
  then have "integral_step T ds (Suc n) ?h = Inr (?h * 10000 + digit_at ds (Suc n))"
    using h le by (auto simp: integral_step_def NBASE_def T_mul T_add digit_at_def)
  then show ?case using Suc.IH \<open>?h \<le> lim\<close> by (simp add: fold_err_append head_value_Suc [of _ "Suc n"])
qed

lemma fractional_loop:
  assumes "digits_ok ds"
  shows "st + n < length ds \<Longrightarrow> hv (take n (drop st ds)) \<le> lim \<Longrightarrow>
    fold_err (fractional_step T c ds) [st..<st + n] 0 = Inr (hv (take n (drop st ds)))"
proof (induction n)
  case (Suc n)
  let ?h = "hv (take n (drop st ds))"
  have hv: "hv (take (Suc n) (drop st ds)) = ?h * 10000 + ds ! (st + n)"
    using Suc.prems by (simp add: take_Suc_conv_app_nth hv_append)
  have h: "0 \<le> ?h" "0 \<le> ds ! (st + n)"
    using assms Suc.prems digits_ok_nth by (auto intro: hv_nonneg digits_ok_take digits_ok_drop)
  have le: "?h * 10000 + ds ! (st + n) \<le> lim" using Suc.prems hv by simp
  then have "?h \<le> lim" "?h * 10000 \<le> lim" using h by linarith+
  then have "fractional_step T c ds (st + n) ?h = Inr (?h * 10000 + ds ! (st + n))"
    using Suc.prems h le by (simp add: fractional_step_def NBASE_def T_mul T_add)
  then show ?case using Suc.IH Suc.prems hv \<open>?h \<le> lim\<close> by (simp add: fold_err_append)
qed simp

lemma final_step_div:
  assumes l: "0 < l" "l < 10000" and P: "0 \<le> P"
    and y: "y * 10 ^ c = P * 10000 + l" "y \<le> lim" and i: "\<not> i + 1 < length ds" "ds ! i = l"
  shows "fractional_step T (int c) ds i P = Inr y" and "P \<le> y"
proof -
  have "c < 4"
  proof (rule ccontr)
    assume "\<not> c < 4"
    then have "(10 :: int) ^ 4 dvd 10 ^ c" by (intro le_imp_power_dvd) simp
    then have "10000 dvd y * 10 ^ c" by simp
    then have "10000 dvd l" unfolding y by (simp add: dvd_add_right_iff)
    then show False using l zdvd_imp_le by fastforce
  qed
  then have b: "10 ^ (4 - c) * 10 ^ c = (10000 :: int)" by (simp flip: power_add)
  have lc: "l = (y - P * 10 ^ (4 - c)) * 10 ^ c" using y b by (simp add: left_diff_distrib)
  then have fd: "l div 10 ^ c = y - P * 10 ^ (4 - c)" by simp
  have "0 < y - P * 10 ^ (4 - c)" using l(1) unfolding lc by (simp add: zero_less_mult_iff)
  moreover have "(1 :: int) \<le> 10 ^ (4 - c)" by simp
  then have "P * 1 \<le> P * 10 ^ (4 - c)" using P by (intro mult_left_mono) auto
  ultimately have Py: "P * 10 ^ (4 - c) \<le> y" "P \<le> y" by linarith+
  have "(10 :: int) ^ c \<le> 10 ^ 4" using \<open>c < 4\<close> by (intro power_increasing) auto
  then have pc: "op_pow T c = Inr (10 ^ c)" using \<open>c < 4\<close> lim pmax by (intro T_pow) auto
  have "(10 ^ (4 - c) * 10 ^ c) div (10 ^ c) = (10 :: int) ^ (4 - c)" by simp
  then have "op_div T NBASE (10 ^ c) = Inr (10 ^ (4 - c))" unfolding b using lim by (simp add: NBASE_def T_div)
  moreover have "op_div T l (10 ^ c) = Inr (y - P * 10 ^ (4 - c))" using l lim fd by (simp add: T_div)
  ultimately show "fractional_step T (int c) ds i P = Inr y"
    using i pc P Py y(2) by (simp add: fractional_step_def Let_def T_mul T_add)
  show "P \<le> y" by (rule Py)
qed

lemma final_step_mul:
  assumes l: "0 < l" and P: "0 \<le> P" and b: "0 < b" "b \<le> pmax" "10 ^ (4 + b) \<le> lim"
    and y: "y = (P * 10000 + l) * 10 ^ b" "y \<le> lim" and i: "\<not> i + 1 < length ds" "ds ! i = l"
  shows "fractional_step T (- int b) ds i P = Inr y" and "P \<le> y"
proof -
  have "(10 :: int) ^ b \<le> 10 ^ (4 + b)" by (intro power_increasing) auto
  then have pc: "op_pow T b = Inr (10 ^ b)" using b by (intro T_pow) linarith+
  have pos: "0 \<le> P * (10000 * 10 ^ b)" "0 \<le> l * 10 ^ b" using P l by auto
  have sum: "P * (10000 * 10 ^ b) + l * 10 ^ b = y" by (simp add: y(1) algebra_simps)
  then have le: "P * (10000 * 10 ^ b) \<le> lim" "l * 10 ^ b \<le> lim" using pos y(2) by linarith+
  show "fractional_step T (- int b) ds i P = Inr y"
    using i pc pos le sum b y(2) by (simp add: fractional_step_def Let_def NBASE_def T_mul T_add power_add)
  have "(1 :: int) \<le> 10 ^ b" by simp
  then have "(1 :: int) \<le> 10000 * 10 ^ b" by linarith
  then have "P * 1 \<le> P * (10000 * 10 ^ b)" using P by (intro mult_left_mono) auto
  then show "P \<le> y" using sum pos by linarith
qed

lemma final_step:
  assumes l: "0 < l" "l < 10000" and P: "0 \<le> P" and e: "1 \<le> e" and s: "s \<le> pmax" "10 ^ s \<le> lim"
    and y: "y * 10000 ^ e = (P * 10000 + l) * 10 ^ s" "y \<le> lim" and i: "\<not> i + 1 < length ds" "ds ! i = l"
  shows "fractional_step T (int (4 * e) - int s) ds i P = Inr y \<and> P \<le> y"
proof -
  have p4: "(10000 :: int) ^ e = 10 ^ (4 * e)" by (simp add: power_mult)
  show ?thesis
  proof (cases "s \<le> 4 * e")
    case True
    then have "(10 :: int) ^ (4 * e) = 10 ^ (4 * e - s) * 10 ^ s" by (simp flip: power_add)
    then have "y * 10 ^ (4 * e - s) = P * 10000 + l" using y(1) unfolding p4 by simp
    from final_step_div [OF l P this y(2) i] show ?thesis using True by (simp add: of_nat_diff)
  next
    case False
    define b where "b = s - 4 * e"
    have bs: "4 + b \<le> s" "s = 4 * e + b" "0 < b" using False e by (auto simp: b_def)
    have yb: "y = (P * 10000 + l) * 10 ^ b"
      using y(1) by (simp add: p4 bs(2) power_add)
    have "(10 :: int) ^ (4 + b) \<le> 10 ^ s" using bs(1) by (intro power_increasing) auto
    then have "10 ^ (4 + b) \<le> lim" using s(2) by linarith
    from final_step_mul [OF l(1) P bs(3) _ this yb y(2) i] show ?thesis
      using bs s by simp
  qed
qed

text \<open>The digits after the point.\<close>

lemma fraction_loop_correct:
  assumes ok: "digits_ok ds" and st: "st < length ds" "ds ! (length ds - 1) \<noteq> 0" and e: "1 \<le> e"
    and s: "s \<le> pmax" "10 ^ s \<le> lim" and y: "y * 10000 ^ e = hv (drop st ds) * 10 ^ s" "y \<le> lim"
  shows "fold_err (fractional_step T (int (4 * e) - int s) ds) [st..<length ds] 0 = Inr y"
proof -
  define n where "n = length ds - 1 - st"
  have n: "st + n = length ds - 1" "length ds = Suc (st + n)" using st by (auto simp: n_def)
  define P where "P = hv (take n (drop st ds))"
  define l where "l = ds ! (st + n)"
  have dl: "drop st ds = take n (drop st ds) @ [l]"
    using n take_Suc_conv_app_nth [of n "drop st ds"] by (simp add: l_def)
  have hv: "hv (drop st ds) = P * 10000 + l" by (subst dl) (simp add: hv_append P_def)
  have l: "0 < l" "l < 10000" using digits_ok_nth [OF ok, of "st + n"] st(2) n(2) by (auto simp: l_def)
  have P: "0 \<le> P" unfolding P_def using ok by (intro hv_nonneg digits_ok_take digits_ok_drop)
  have f: "fractional_step T (int (4 * e) - int s) ds (st + n) P = Inr y \<and> P \<le> y"
    by (rule final_step [OF l P e s y(1) [unfolded hv] y(2)]) (simp_all add: n(2) l_def)
  then have "P \<le> lim" using y(2) by linarith
  then have "fold_err (fractional_step T (int (4 * e) - int s) ds) [st..<st + n] 0 = Inr P"
    using fractional_loop [OF ok, of st n] n(2) by (simp add: P_def)
  then show ?thesis using f by (simp add: n(2) fold_err_append)
qed

end

lemma nval_short: "int (length ds) \<le> w + 1 \<Longrightarrow> nval ds w = of_int (head_value ds (nat (w + 1)))"
proof -
  assume a: "int (length ds) \<le> w + 1"
  then have e: "w + 1 - int (length ds) = int (nat (w + 1) - length ds)" by simp
  have "length ds \<le> nat (w + 1)" using a by simp
  then show ?thesis unfolding nval_def e power_int_of_nat head_value_beyond [OF \<open>length ds \<le> nat (w + 1)\<close>] by simp
qed

lemma nval_split:
  assumes "w + 1 < int (length ds)"
  shows "nval ds w = of_int (head_value ds (nat (w + 1))) +
    of_int (hv (drop (nat (w + 1)) ds)) / 10000 ^ nat (int (length ds) - w - 1)"
proof -
  define n where "n = nat (w + 1)"
  define e where "e = nat (int (length ds) - w - 1)"
  have "hv ds = hv (take n ds) * 10000 ^ (length ds - n) + hv (drop n ds)"
    using hv_append [of "take n ds" "drop n ds"] by simp
  moreover have "w + 1 - int (length ds) = - int e" using assms by (simp add: e_def)
  ultimately have "nval ds w = of_int (hv (take n ds) * 10000 ^ (length ds - n) + hv (drop n ds)) / 10000 ^ e"
    by (simp add: nval_def power_int_minus divide_inverse)
  also have "\<dots> = of_int (head_value ds n) + of_int (hv (drop n ds)) / 10000 ^ e"
  proof (cases "0 \<le> w + 1")
    case True
    then have "length ds - n = e" "n \<le> length ds" using assms by (auto simp: n_def e_def)
    then show ?thesis by (simp add: head_value_take add_divide_distrib)
  qed (simp add: n_def head_value_def)
  finally show ?thesis by (simp add: n_def e_def)
qed

context exact_fit
begin

text \<open>The integer that \<^verbatim>\<open>ConvertDecimal\<close> computes before the sign.\<close>

definition magnitude :: "NumericVar \<Rightarrow> conv_error + int" where
  "magnitude nv = andthen (op_pow T (nv_dscale nv)) (\<lambda>p. if nv_digits nv = [] then Inr 0
     else andthen (integral_value T nv p) (\<lambda>i. andthen (fractional_value T nv) (op_add T i)))"

lemma ConvertDecimal_magnitude: "magnitude nv = Inr x \<Longrightarrow>
  ConvertDecimal T nv = (if nv_digits nv = [] then Inr 0 else if nv_sign nv = NUMERIC_NEG then op_neg T x else Inr x)"
  by (auto simp: magnitude_def ConvertDecimal_def andthen_Inr_iff)

lemma integral_value_correct:
  assumes "digits_ok (nv_digits nv)" "nv_digits nv \<noteq> []" and "head_value (nv_digits nv) (nat (nv_weight nv + 1)) * p \<le> lim" "1 \<le> p"
  shows "integral_value T nv p = Inr (head_value (nv_digits nv) (nat (nv_weight nv + 1)) * p)"
proof (cases "0 \<le> nv_weight nv")
  case True
  then obtain n where n: "nat (nv_weight nv + 1) = Suc n" by (metis Suc_as_int int_nat_eq nat_0_le add.commute nat_int of_nat_Suc)
  let ?h = "head_value (nv_digits nv) (Suc n)"
  have h: "0 \<le> ?h" by (rule head_value_nonneg [OF assms(1)])
  then have "?h * 1 \<le> ?h * p" using assms(4) by (rule mult_left_mono [rotated])
  then have "?h \<le> lim" using assms(3) n by simp
  then show ?thesis
    using True n h assms integral_loop [OF assms(1,2), of n] by (simp add: integral_value_def T_mul)
qed (simp add: integral_value_def head_value_def)

lemma magnitude_correct:
  assumes ok: "digits_ok (nv_digits nv)" "nv_digits nv \<noteq> [] \<Longrightarrow> last (nv_digits nv) \<noteq> 0"
    and s: "nv_dscale nv \<le> pmax" "10 ^ nv_dscale nv \<le> lim"
    and x: "of_int x = nval (nv_digits nv) (nv_weight nv) * 10 ^ nv_dscale nv" "x \<le> lim"
  shows "magnitude nv = Inr x"
proof (cases "nv_digits nv = []")
  case True
  then show ?thesis using x(1) s by (simp add: magnitude_def T_pow nval_def)
next
  case False
  define ds where "ds = nv_digits nv"
  define w where "w = nv_weight nv"
  define p where "p = (10 :: int) ^ nv_dscale nv"
  define h where "h = head_value ds (nat (w + 1))"
  have dsok: "digits_ok ds" "ds \<noteq> []" "last ds \<noteq> 0" using ok False by (simp_all add: ds_def)
  have h: "0 \<le> h" unfolding h_def by (rule head_value_nonneg [OF dsok(1)])
  have p1: "1 \<le> p" by (simp add: p_def)
  have hp: "0 \<le> h * p" using h p1 by simp
  have y: "0 \<le> x - h * p \<and> fractional_value T nv = Inr (x - h * p)"
  proof (cases "w + 1 < int (length ds)")
    case True
    define e where "e = nat (int (length ds) - w - 1)"
    define st where "st = nat (max 0 (w + 1))"
    have st: "st = nat (w + 1)" "st < length ds" using True dsok(2) by (auto simp: st_def max_def)
    have e: "1 \<le> e" "int e = int (length ds) - w - 1" using True by (simp_all add: e_def)
    have rx: "of_int x = (of_int h + of_int (hv (drop st ds)) / 10000 ^ e) * (of_int p :: rat)"
      using x(1) nval_split [OF True] by (simp add: ds_def w_def h_def e_def st p_def)
    then have "of_int ((x - h * p) * 10000 ^ e) = (of_int (hv (drop st ds) * p) :: rat)"
      by (simp add: field_simps)
    then have eq: "(x - h * p) * 10000 ^ e = hv (drop st ds) * p" by (simp only: of_int_eq_iff)
    have "0 \<le> hv (drop st ds) * p" using hv_nonneg [OF digits_ok_drop [OF dsok(1)]] p1 by simp
    then have "0 \<le> (x - h * p) * 10000 ^ e" unfolding eq .
    moreover have "(0 :: int) < 10000 ^ e" by simp
    ultimately have pos: "0 \<le> x - h * p" by (simp only: zero_le_mult_iff) linarith
    have le: "x - h * p \<le> lim" using x(2) hp by linarith
    have "ds ! (length ds - 1) \<noteq> 0" using dsok by (simp add: last_conv_nth)
    from fraction_loop_correct [OF dsok(1) st(2) this e(1) s eq [unfolded p_def] le [unfolded p_def]]
    show ?thesis
      using True pos e(2) by (simp add: fractional_value_def Let_def DEC_DIGITS_def p_def st_def algebra_simps flip: ds_def w_def)
  next
    case no: False
    then have "of_int x = (of_int (h * p) :: rat)" using x(1) nval_short [of ds w] by (simp add: ds_def w_def h_def p_def)
    then have "x = h * p" by (simp only: of_int_eq_iff)
    then show ?thesis using no by (simp add: fractional_value_def ds_def w_def)
  qed
  have "integral_value T nv p = Inr (h * p)"
    using integral_value_correct [of nv p] ok False y x(2) p1 by (simp add: h_def ds_def w_def)
  moreover have "0 \<le> x" using y hp by linarith
  ultimately show ?thesis using y x(2) s False by (simp add: magnitude_def T_pow T_add p_def)
qed

end

section \<open>The round trip\<close>

lemma digits_ok_truncate:
  assumes "digits_ok ds" and "truncate_leading ds w = (lead, w')"
  shows "digits_ok (truncate_trailing lead)"
proof -
  obtain xs where "ds = xs @ lead" using truncate_leading_suffix [OF assms(2)] by blast
  moreover obtain ys where "lead = truncate_trailing lead @ ys" using truncate_trailing_prefix by blast
  ultimately show ?thesis using assms(1) by (metis digits_ok_simps(3))
qed

text \<open>What a reader of the packed value finds: the same number, with neither leading nor trailing zero digits.\<close>

lemma make_result_denotes:
  assumes var: "nv_sign var = NUMERIC_POS \<or> nv_sign var = NUMERIC_NEG" "nv_dscale var < 64" "digits_ok (nv_digits var)"
    and w: "nv_weight var \<le> 63" "int (length (nv_digits var)) - nv_weight var \<le> 64"
  shows "\<exists>n. make_result var = Inr n \<and> nv_dscale (FromNumeric n) = nv_dscale var \<and> digits_ok (nv_digits (FromNumeric n)) \<and>
    nval (nv_digits (FromNumeric n)) (nv_weight (FromNumeric n)) = nval (nv_digits var) (nv_weight var) \<and>
    (nv_digits (FromNumeric n) \<noteq> [] \<longrightarrow> last (nv_digits (FromNumeric n)) \<noteq> 0 \<and> nv_sign (FromNumeric n) = nv_sign var)"
proof -
  obtain lead w' where tl: "truncate_leading (nv_digits var) (nv_weight var) = (lead, w')" by fastforce
  define ds where "ds = truncate_trailing lead"
  define wt where "wt = (if ds = [] then 0 else w')"
  define sg where "sg = (if ds = [] then NUMERIC_POS else nv_sign var)"
  obtain xs where xs: "nv_digits var = xs @ lead" "w' = nv_weight var - int (length xs)"
    using truncate_leading_suffix [OF tl] by blast
  have "NUMERIC_CAN_BE_SHORT (nv_dscale var) wt"
    using var(2) w xs by (auto simp: NUMERIC_CAN_BE_SHORT_def numeric_masks wt_def)
  note pk = pack_weight [OF this] pack_dscale [OF this]
  have ns: "nv_sign var AND NUMERIC_SIGN_MASK \<noteq> NUMERIC_SPECIAL" using var(1) by (auto simp: numeric_masks)
  have mr: "make_result var = Inr (pack_numeric (nv_dscale var) wt sg ds)"
    using ns pk by (simp add: make_result_def Let_def tl wt_def sg_def ds_def)
  have nv: "nval ds w' = nval (nv_digits var) (nv_weight var)"
    using truncate_leading_nval [OF tl] by (simp add: ds_def truncate_trailing_nval)
  have "nval ds wt = nval ds w'" by (simp add: wt_def nval_def)
  moreover have "digits_ok ds" using digits_ok_truncate [OF var(3) tl] by (simp add: ds_def)
  moreover have "ds \<noteq> [] \<Longrightarrow> last ds \<noteq> 0" using truncate_trailing_last by (simp add: ds_def)
  ultimately show ?thesis
    using make_result_unpacks [OF mr var(1) tl] nv mr by (auto simp: ds_def [symmetric] nval_def)
qed

locale exact_signed = exact_fit +
  assumes fit_neg: "- lim \<le> x \<Longrightarrow> x \<le> 0 \<Longrightarrow> fit x = Inr x"
    and sizeof: "sizeof \<le> 16" and pmax_small: "pmax < 64"
begin

lemma T_neg: "\<bar>x\<bar> \<le> lim \<Longrightarrow> op_neg T x = Inr (- x)"
  using fit [of "- x"] fit_neg [of "- x"] by (cases "x \<le> 0") (simp_all add: integer_ops_def)

theorem roundtrip:
  assumes v: "\<bar>v\<bar> \<le> lim" and s: "s \<le> pmax" "10 ^ s \<le> lim" "fractional_ndigits s \<le> sizeof * 4"
    and padded: "\<bar>v\<bar> mod 10 ^ s * 10 ^ (fractional_ndigits s * DEC_DIGITS - s) \<le> lim"
  shows "\<exists>n. andthen (ConvertNumeric T v s) make_result = Inr n \<and> ConvertDecimal T (FromNumeric n) = Inr v"
proof -
  have "(if v < 0 then op_neg T v else Inr v) = Inr \<bar>v\<bar>" using T_neg [OF v] by simp
  then obtain ds w where cv: "ConvertNumeric T v s = Inr \<lparr>nv_digits = ds, nv_weight = w,
      nv_sign = (if v < 0 then NUMERIC_NEG else NUMERIC_POS), nv_dscale = s\<rparr>" (is "_ = Inr ?var")
    and ds: "digits_ok ds" "nval ds w = of_int \<bar>v\<bar> / 10 ^ s" "w < int (sizeof * 4)" "int (length ds) = w + 1 + int (fractional_ndigits s)"
    using ConvertNumeric_denotes [of v "\<bar>v\<bar>" s] v s padded by fastforce
  have "fractional_ndigits s \<le> 16"
    using s(1) pmax_small by (simp add: fractional_ndigits_def DEC_DIGITS_def)
  then have sz: "nv_dscale ?var < 64" "digits_ok (nv_digits ?var)" "nv_weight ?var \<le> 63" "int (length (nv_digits ?var)) - nv_weight ?var \<le> 64"
    using ds sizeof s(1) pmax_small by auto
  have "nv_sign ?var = NUMERIC_POS \<or> nv_sign ?var = NUMERIC_NEG" by simp
  from make_result_denotes [OF this sz]
  obtain n where n: "make_result ?var = Inr n" "nv_dscale (FromNumeric n) = s" "digits_ok (nv_digits (FromNumeric n))"
      "nval (nv_digits (FromNumeric n)) (nv_weight (FromNumeric n)) = nval ds w"
      "nv_digits (FromNumeric n) \<noteq> [] \<longrightarrow> last (nv_digits (FromNumeric n)) \<noteq> 0 \<and> nv_sign (FromNumeric n) = nv_sign ?var"
    by (auto simp del: of_int_abs)
  have mag: "magnitude (FromNumeric n) = Inr \<bar>v\<bar>"
    using n ds(2) s v by (intro magnitude_correct) auto
  have "ConvertDecimal T (FromNumeric n) = Inr v"
  proof (cases "nv_digits (FromNumeric n) = []")
    case True
    then have "nval ds w = 0" using n(4) by (simp add: nval_def)
    then show ?thesis using ConvertDecimal_magnitude [OF mag] True ds(2) by simp
  next
    case False
    then show ?thesis using ConvertDecimal_magnitude [OF mag] n(5) T_neg [of "\<bar>v\<bar>"] v
      by (auto simp: numeric_masks split: if_splits)
  qed
  then show ?thesis using cv n(1) by auto
qed

end

section \<open>The machine types\<close>

lemma fit_signed: "- (2 ^ n) \<le> x \<Longrightarrow> x < 2 ^ n \<Longrightarrow> signed_take_bit n x = x" for x :: int
  by (rule signed_take_bit_int_eq_self)

interpretation i16: exact_signed "\<lambda>x. Inr (signed_take_bit 15 x)" GetPowerOfTen_Integer 2 32767 18
  by unfold_locales (simp_all add: fit_signed GetPowerOfTen_Integer_def)

interpretation i32: exact_signed "\<lambda>x. Inr (signed_take_bit 31 x)" GetPowerOfTen_Integer 4 2147483647 18
  by unfold_locales (simp_all add: fit_signed GetPowerOfTen_Integer_def)

interpretation i64: exact_signed "\<lambda>x. Inr (signed_take_bit 63 x)" GetPowerOfTen_Integer 8 9223372036854775807 18
  by unfold_locales (simp_all add: fit_signed GetPowerOfTen_Integer_def)

interpretation u64: exact_fit "\<lambda>x. Inr (take_bit 64 x)" GetPowerOfTen_Integer 8 18446744073709551615 18
  by unfold_locales (simp_all add: take_bit_int_eq_self GetPowerOfTen_Integer_def)

definition hugeint_max :: int where
  "hugeint_max = 170141183460469231731687303715884105727"

lemma hugeint_exact: "\<forall>x. \<bar>x\<bar> \<le> hugeint_max \<longrightarrow> huge x = Inr x \<Longrightarrow> exact_signed huge GetPowerOfTen_Hugeint 16 hugeint_max 38"
  by unfold_locales (simp_all add: GetPowerOfTen_Hugeint_def hugeint_max_def)

text \<open>The largest width of a decimal that DuckDB stores in a physical type, and the largest scale for which the
  fraction can be padded to whole digits.\<close>

fun max_width :: "PhysicalType \<Rightarrow> nat" where
  "max_width INT16 = 4" | "max_width INT32 = 9" | "max_width INT64 = 18" | "max_width INT128 = 38" | "max_width _ = 0"

fun max_padded :: "PhysicalType \<Rightarrow> nat" where
  "max_padded INT16 = 4" | "max_padded INT32 = 8" | "max_padded INT64 = 16" | "max_padded INT128 = 36" | "max_padded _ = 0"

lemma padded_bound:
  fixes m :: int
  assumes "s \<le> 4 * k"
  shows "m mod 10 ^ s * 10 ^ (fractional_ndigits s * DEC_DIGITS - s) < 10000 ^ k"
proof -
  define c where "c = fractional_ndigits s * DEC_DIGITS - s"
  have "s + c \<le> 4 * k" using assms by (simp add: c_def fractional_ndigits_def DEC_DIGITS_def)
  then have le: "(10 :: int) ^ s * 10 ^ c \<le> 10 ^ (4 * k)" unfolding power_add [symmetric] by (intro power_increasing) auto
  have "m mod 10 ^ s < 10 ^ s" by simp
  then have "m mod 10 ^ s * 10 ^ c < 10 ^ s * 10 ^ c" by (rule mult_strict_right_mono) simp
  from less_le_trans [OF this le] show ?thesis by (simp add: c_def power_mult)
qed

lemma power_bound: "s \<le> w \<Longrightarrow> (10 :: int) ^ w \<le> L \<Longrightarrow> 10 ^ s \<le> L"
  by (rule order_trans [OF power_increasing]) auto

lemma integer_roundtrip:
  assumes huge: "\<forall>x. \<bar>x\<bar> \<le> hugeint_max \<longrightarrow> huge x = Inr x"
    and v: "\<bar>v\<bar> < 10 ^ w" and w: "1 \<le> w" "w \<le> max_width p" and s: "s \<le> w" "s \<le> max_padded p"
  shows "\<exists>n. numeric_datum huge uhuge p s v = Inr n \<and> AppendDecimal huge p n = Inr v"
proof -
  have "s \<le> max_width p" using w s by simp
  note le = power_increasing [OF w(2), of "10 :: int"] power_increasing [OF this, of "10 :: int"]
  have k: "fractional_ndigits s \<le> s" by (simp add: fractional_ndigits_def DEC_DIGITS_def)
  consider "p = INT16" | "p = INT32" | "p = INT64" | "p = INT128" using w by (cases p) auto
  then show ?thesis
  proof cases
    case 1
    then show ?thesis using i16.roundtrip [of v s] padded_bound [of s 1 "\<bar>v\<bar>"] le v w s k
      by (simp add: numeric_datum_def int16_t_def)
  next
    case 2
    then show ?thesis using i32.roundtrip [of v s] padded_bound [of s 2 "\<bar>v\<bar>"] le v w s k
      by (simp add: numeric_datum_def int32_t_def)
  next
    case 3
    then show ?thesis using i64.roundtrip [of v s] padded_bound [of s 4 "\<bar>v\<bar>"] le v w s k
      by (simp add: numeric_datum_def int64_t_def)
  next
    case 4
    then show ?thesis using exact_signed.roundtrip [OF hugeint_exact [OF huge], of v s] padded_bound [of s 9 "\<bar>v\<bar>"] le v w s k
      by (simp add: numeric_datum_def hugeint_t_def hugeint_max_def)
  qed
qed

text \<open>C13: a decimal of any width that DuckDB has, written to PostgreSQL as a packed \<^verbatim>\<open>numeric\<close> and read back into the
  same physical type, is the decimal that was written, leading and trailing zero digits and the sign
  included, as long as the scale is at most 4, 8, 16 or 36 for 16-, 32-, 64- and 128-bit storage. DuckDB's
  128-bit arithmetic is assumed to be exact within its range.\<close>

theorem decimal_roundtrip:
  assumes "\<forall>x. \<bar>x\<bar> \<le> hugeint_max \<longrightarrow> huge x = Inr x"
    and "\<bar>v\<bar> < 10 ^ w" and "1 \<le> w" and "w \<le> max_width p" and "s \<le> w" and "s \<le> max_padded p"
  shows "\<exists>n. numeric_datum huge uhuge p s v = Inr n \<and> AppendDecimal huge p n = Inr v"
  using assms by (rule integer_roundtrip)

theorem decimal_roundtrip_witness:
  "\<exists>n. numeric_datum (\<lambda>x. Inr x) (\<lambda>x. Inr x) INT64 6 (- 1203004500) = Inr n \<and> AppendDecimal (\<lambda>x. Inr x) INT64 n = Inr (- 1203004500)"
  using decimal_roundtrip [of "\<lambda>x. Inr x" "- 1203004500" 12 INT64 6 "\<lambda>x. Inr x"] by simp

section \<open>Where the conversions lose the value\<close>

context exact_signed
begin

text \<open>A fraction that has become negative yields negative digits.\<close>

lemma fractional_digits_negative:
  assumes "0 \<le> m" and "m \<le> lim"
  shows "fractional_digits T (Suc k) (- m) =
    andthen (fractional_digits T k (- (m div 10000))) (\<lambda>ds. Inr (- (m mod 10000) # ds))"
proof -
  have "m div 10000 \<le> m" using assms(1) by simp
  moreover have "m mod 10000 < 10000" "0 \<le> m mod 10000" by simp_all
  moreover have "(- m) sdiv 10000 = - (m div 10000)" using assms(1) by (simp add: signed_divide_int_def sgn_if)
  moreover have "(- m) smod 10000 = - (m mod 10000)"
    using assms(1) by (simp add: signed_modulo_int_def signed_divide_int_def sgn_if minus_mult_div_eq_mod flip: minus_mult_div_eq_mod)
  ultimately have "op_mod T (- m) NBASE = Inr (- (m mod 10000))" "op_div T (- m) NBASE = Inr (- (m div 10000))"
      "op_digit T (- (m mod 10000)) = - (m mod 10000)"
    using assms lim fit_neg [of "- (m mod 10000)"] fit_neg [of "- (m div 10000)"]
    by (simp_all add: integer_ops_def NBASE_def pos_imp_zdiv_nonneg_iff signed_take_bit_take_bit fit_signed)
  then show ?thesis by simp
qed

end

lemma signed_take_bit_mod: "signed_take_bit n k = (k + 2 ^ n) mod (2 * 2 ^ n) - 2 ^ n" for k :: int
  by (simp add: signed_take_bit_eq_take_bit_shift take_bit_eq_mod)

lemma full_scale_32:
  "ConvertNumeric int32_t 123456789 9 = Inr \<lparr>nv_digits = [- 10, - 9726, - 2584], nv_weight = - 1, nv_sign = NUMERIC_POS, nv_dscale = 9\<rparr>"
proof -
  have "op_mul i32.T 123456789 1000 = Inr (- 1097262584)"
    by (simp add: integer_ops_def signed_take_bit_mod)
  moreover have "fractional_digits i32.T 3 (- 1097262584) = Inr [- 2584, - 9726, - 10]"
    unfolding numeral_3_eq_3 by (simp add: i32.fractional_digits_negative del: fractional_digits.simps(2))
  ultimately show ?thesis
    by (simp add: int32_t_def ConvertNumeric_def split_parts_def i32.T_pow i32.T_div i32.T_mod integral_digits.simps
        fractional_ndigits_def DEC_DIGITS_def guard_or_def)
qed

lemma full_scale_64:
  "ConvertNumeric int64_t 123456789012345678 18 =
     Inr \<lparr>nv_digits = [- 610, - 1065, - 1724, - 7498, - 3816], nv_weight = - 1, nv_sign = NUMERIC_POS, nv_dscale = 18\<rparr>"
proof -
  have "op_mul i64.T 123456789012345678 100 = Inr (- 6101065172474983816)"
    by (simp add: integer_ops_def signed_take_bit_mod)
  moreover have five: "(5 :: nat) = Suc (Suc (Suc (Suc (Suc 0))))" by simp
  have "fractional_digits i64.T 5 (- 6101065172474983816) = Inr [- 3816, - 7498, - 1724, - 1065, - 610]"
    unfolding five by (simp add: i64.fractional_digits_negative del: fractional_digits.simps(2))
  ultimately show ?thesis
    by (simp add: int64_t_def ConvertNumeric_def split_parts_def i64.T_pow i64.T_div i64.T_mod integral_digits.simps
        fractional_ndigits_def DEC_DIGITS_def guard_or_def)
qed

lemma full_scale_packed:
  "make_result \<lparr>nv_digits = [- 10, - 9726, - 2584], nv_weight = - 1, nv_sign = NUMERIC_POS, nv_dscale = 9\<rparr> =
     Inr \<lparr>n_header = 34047, n_weight = 0, n_data = [- 10, - 9726, - 2584]\<rparr>"
  "make_result \<lparr>nv_digits = [- 610, - 1065, - 1724, - 7498, - 3816], nv_weight = - 1, nv_sign = NUMERIC_POS, nv_dscale = 18\<rparr> =
     Inr \<lparr>n_header = 35199, n_weight = 0, n_data = [- 610, - 1065, - 1724, - 7498, - 3816]\<rparr>"
  by code_simp+

text \<open>With the full scale of its storage the padded fraction of a decimal overflows. The \<^verbatim>\<open>numeric\<close> written for
  the \<^verbatim>\<open>DECIMAL(9,9)\<close> value 0.123456789, and the one for the \<^verbatim>\<open>DECIMAL(18,18)\<close> value 0.123456789012345678, has negative
  digits, which no \<^verbatim>\<open>numeric\<close> may have.\<close>

theorem full_scale_decimal_corrupted:
  "\<exists>n m. numeric_datum huge uhuge INT32 9 123456789 = Inr n \<and> \<not> digits_ok (n_data n) \<and>
     numeric_datum huge uhuge INT64 18 123456789012345678 = Inr m \<and> \<not> digits_ok (n_data m)"
  by (simp add: numeric_datum_def full_scale_32 full_scale_64 full_scale_packed)

text \<open>A \<^verbatim>\<open>NaN\<close> has no digits, so that it reads as zero.\<close>

lemma nan_reads_as_zero:
  assumes "p \<in> {INT16, INT32, INT64}"
  shows "AppendDecimal huge p \<lparr>n_header = NUMERIC_NAN, n_weight = 0, n_data = []\<rparr> = Inr 0"
proof -
  have "FromNumeric \<lparr>n_header = NUMERIC_NAN, n_weight = 0, n_data = []\<rparr> =
      \<lparr>nv_digits = [], nv_weight = 0, nv_sign = NUMERIC_NAN, nv_dscale = 0\<rparr>"
    by code_simp
  then show ?thesis
    using assms i16.T_pow [of 0] i32.T_pow [of 0] i64.T_pow [of 0]
    by (auto simp: ConvertDecimal_def int16_t_def int32_t_def int64_t_def)
qed

end
