(* ===== verification/Pg_Types_Props.thy ===== *)
theory Pg_Types_Props
  imports Pg_Types Pg_Numeric_Props
begin

text \<open>
  What the type and value mappings of \<^verbatim>\<open>pgddb_types.cpp\<close> keep: dates and timestamps with their infinities and
  ranges, UUIDs with their order, type modifiers, and, over all built-in scalar types, that a datum read into
  DuckDB and returned to PostgreSQL is the same datum.
\<close>

section \<open>Dates and timestamps\<close>

text \<open>The values that DuckDB documents: its sentinels, and the days from 1970 to PostgreSQL's first and last date.\<close>

definition limits_ok :: "duck_limits \<Rightarrow> bool" where
  "limits_ok L \<longleftrightarrow> date_infinity L = 2147483647 \<and> date_ninfinity L = - 2147483647 \<and>
     timestamp_infinity L = 9223372036854775807 \<and> timestamp_ninfinity L = - 9223372036854775807 \<and>
     PGDUCKDB_PG_MIN_DATE_VALUE L = - 2440588 \<and> PGDUCKDB_PG_MAX_DATE_VALUE L = 2145042905"

lemmas conv_constants = PGDUCKDB_DUCK_DATE_OFFSET_def PGDUCKDB_DUCK_TIMESTAMP_OFFSET_def PGDUCKDB_MAX_TIMESTAMP_VALUE_def
  PGDUCKDB_MIN_TIMESTAMP_VALUE_def DATEVAL_NOBEGIN_def DATEVAL_NOEND_def DT_NOBEGIN_def DT_NOEND_def

definition pg_date_ok :: "int \<Rightarrow> bool" where
  "pg_date_ok x \<longleftrightarrow> x = DATEVAL_NOBEGIN \<or> x = DATEVAL_NOEND \<or> (- 2451545 \<le> x \<and> x \<le> 2145031948)"

definition int64_ok :: "int \<Rightarrow> bool" where
  "int64_ok x \<longleftrightarrow> - 9223372036854775808 \<le> x \<and> x \<le> 9223372036854775807"

lemma wrap32_id: "- 2147483648 \<le> x \<Longrightarrow> x \<le> 2147483647 \<Longrightarrow> wrap32 x = x"
  and wrap64_id: "int64_ok x \<Longrightarrow> wrap64 x = x"
  by (simp_all add: fit_signed int64_ok_def)

lemma date_roundtrip:
  assumes "limits_ok L" and "pg_date_ok x"
  shows "ConvertDateDatum L (AppendDate L x) = Inr x"
  using assms
  by (auto simp: ConvertDateDatum_def AppendDate_def ValidDate_def limits_ok_def pg_date_ok_def conv_constants wrap32_id)

text \<open>The sum of an in-range 64-bit integer and the offset: either exact, or wrapped to a value below the range.\<close>

lemma wrapped_sum:
  assumes "int64_ok x"
  shows "ValidTimestampOrTimestampTz (wrap64 (x + PGDUCKDB_DUCK_TIMESTAMP_OFFSET)) \<longleftrightarrow>
      ValidTimestampOrTimestampTz (x + PGDUCKDB_DUCK_TIMESTAMP_OFFSET)"
    and "ValidTimestampOrTimestampTz (x + PGDUCKDB_DUCK_TIMESTAMP_OFFSET) \<Longrightarrow>
      wrap64 (x + PGDUCKDB_DUCK_TIMESTAMP_OFFSET) = x + PGDUCKDB_DUCK_TIMESTAMP_OFFSET"
proof -
  let ?s = "x + PGDUCKDB_DUCK_TIMESTAMP_OFFSET"
  have "wrap64 ?s = (if ?s \<le> 9223372036854775807 then ?s else ?s - 18446744073709551616)"
  proof (cases "?s \<le> 9223372036854775807")
    case True
    then show ?thesis using assms by (simp add: fit_signed int64_ok_def conv_constants)
  next
    case False
    have "(?s + 2 ^ 63) mod (2 * 2 ^ 63) = (?s + 2 ^ 63 - 2 * 2 ^ 63) mod (2 * 2 ^ 63)" by (simp only: minus_mod_self2)
    also have "\<dots> = ?s + 2 ^ 63 - 2 * 2 ^ 63"
      using assms False by (intro mod_pos_pos_trivial) (simp_all add: int64_ok_def conv_constants)
    finally show ?thesis using False by (simp add: signed_take_bit_mod)
  qed
  then show "ValidTimestampOrTimestampTz (wrap64 ?s) \<longleftrightarrow> ValidTimestampOrTimestampTz ?s"
    and "ValidTimestampOrTimestampTz ?s \<Longrightarrow> wrap64 ?s = ?s"
    using assms by (auto simp: ValidTimestampOrTimestampTz_def int64_ok_def conv_constants)
qed

lemma AppendTimestamp_exact:
  assumes "int64_ok x"
  shows "AppendTimestamp L x =
    (if x = DT_NOBEGIN then Inr (timestamp_ninfinity L) else if x = DT_NOEND then Inr (timestamp_infinity L)
     else if ValidTimestampOrTimestampTz (x + PGDUCKDB_DUCK_TIMESTAMP_OFFSET) then Inr (x + PGDUCKDB_DUCK_TIMESTAMP_OFFSET)
     else Inl OutOfRangeException)"
  using wrapped_sum [OF assms] by (simp add: AppendTimestamp_def)

lemma AppendTimestampTz_same: "AppendTimestampTz L x = AppendTimestamp L x"
  by (simp add: AppendTimestampTz_def AppendTimestamp_def)

lemma timestamp_back:
  assumes "limits_ok L" and "AppendTimestamp L x = Inr y" and "int64_ok x"
  shows "ConvertTimestampTzDatum L y = Inr x \<and> ConvertTimestampDatum L TIMESTAMP y = Inr x"
  using assms(1,2) AppendTimestamp_exact [OF assms(3), of L] assms(3)
  by (auto simp: ConvertTimestampTzDatum_def ConvertTimestampDatum_def to_micros_def ValidTimestampOrTimestampTz_def limits_ok_def
      conv_constants wrap64_id int64_ok_def split: if_splits)

text \<open>C17: reading a PostgreSQL timestamp into DuckDB never returns a wrapped value, although the code adds the offset
  before it checks the range: for every 64-bit timestamp the result is the infinity of the same sign, or the
  exact number of microseconds since 1970, which writes back as the same timestamp, or the out-of-range error,
  and the error comes only for instants outside the range that both systems share.\<close>

theorem timestamp_read_exact:
  assumes "limits_ok L" and "int64_ok x"
  shows "case AppendTimestamp L x of
      Inl e \<Rightarrow> e = OutOfRangeException \<and> \<not> ValidTimestampOrTimestampTz (x + PGDUCKDB_DUCK_TIMESTAMP_OFFSET)
    | Inr y \<Rightarrow> ConvertTimestampDatum L TIMESTAMP y = Inr x \<and>
        (x = DT_NOBEGIN \<and> y = timestamp_ninfinity L \<or> x = DT_NOEND \<and> y = timestamp_infinity L \<or> y = x + PGDUCKDB_DUCK_TIMESTAMP_OFFSET)"
proof (cases "AppendTimestamp L x")
  case (Inl e)
  then show ?thesis using AppendTimestamp_exact [OF assms(2), of L] by (auto split: if_splits)
next
  case (Inr y)
  then show ?thesis using AppendTimestamp_exact [OF assms(2), of L] timestamp_back [OF assms(1) Inr assms(2)]
    by (auto split: if_splits)
qed

definition documented_limits :: duck_limits where
  "documented_limits = \<lparr>date_infinity = 2147483647, date_ninfinity = - 2147483647, timestamp_infinity = 9223372036854775807,
     timestamp_ninfinity = - 9223372036854775807, PGDUCKDB_PG_MIN_DATE_VALUE = - 2440588, PGDUCKDB_PG_MAX_DATE_VALUE = 2145042905\<rparr>"

lemma documented_limits_ok: "limits_ok documented_limits"
  by (simp add: limits_ok_def documented_limits_def)

theorem timestamp_read_exact_witness:
  "case AppendTimestamp documented_limits 9223371331199999999 of
      Inl e \<Rightarrow> e = OutOfRangeException \<and> \<not> ValidTimestampOrTimestampTz (9223371331199999999 + PGDUCKDB_DUCK_TIMESTAMP_OFFSET)
    | Inr y \<Rightarrow> ConvertTimestampDatum documented_limits TIMESTAMP y = Inr 9223371331199999999 \<and>
        (9223371331199999999 = DT_NOBEGIN \<and> y = timestamp_ninfinity documented_limits \<or>
         9223371331199999999 = DT_NOEND \<and> y = timestamp_infinity documented_limits \<or>
         y = 9223371331199999999 + PGDUCKDB_DUCK_TIMESTAMP_OFFSET)"
  by (rule timestamp_read_exact) (simp_all add: documented_limits_ok int64_ok_def)

text \<open>The unit of a timestamp in seconds is converted before the range is checked: 2^58 seconds wrap to zero and are
  accepted as the first instant of 1970.\<close>

lemma seconds_wrap_into_range:
  assumes "limits_ok L"
  shows "ConvertTimestampDatum L TIMESTAMP_SEC 288230376151711744 = Inr (- 946684800000000)"
  using assms by (simp add: ConvertTimestampDatum_def to_micros_def signed_take_bit_mod ValidTimestampOrTimestampTz_def limits_ok_def conv_constants)

text \<open>A parameter of a prepared statement keeps neither infinity: the date \<^verbatim>\<open>infinity\<close> becomes a finite date long ago,
  and the timestamp \<^verbatim>\<open>infinity\<close> a finite timestamp.\<close>

lemma parameter_infinity_lost:
  "ConvertPostgresParameterToDuckValue E DATEOID (DInt DATEVAL_NOEND) = Inr (DATE, PInt (- 2147472692))"
  "ConvertPostgresParameterToDuckValue E TIMESTAMPOID (DInt DT_NOEND) = Inr (TIMESTAMP, PInt (- 9222425352054775809))"
  by (simp_all add: conv_constants signed_take_bit_mod)

section \<open>UUIDs\<close>

text \<open>The number whose bytes, the most significant first, are those of the UUID; and the value of a \<^verbatim>\<open>hugeint_t\<close>.\<close>

definition uuid_number :: "8 word list \<Rightarrow> int" where
  "uuid_number bs = le_val (rev bs)"

definition huge_value :: "hugeint \<Rightarrow> int" where
  "huge_value h = sint (huge_upper h) * 2 ^ 64 + uint (huge_lower h)"

lemma le_val_bounds: "0 \<le> le_val bs \<and> le_val bs < 256 ^ length bs"
proof (induction bs)
  case (Cons b bs)
  have "uint b < 256" "0 \<le> uint b" using uint_bounded [of b] by simp_all
  then show ?case using Cons by auto
qed simp

lemma le_val_append: "le_val (xs @ ys) = le_val xs + 256 ^ length xs * le_val ys"
  by (induction xs) (simp_all add: algebra_simps)

lemma le_bytes_val: "le_bytes (length bs) (le_val bs) = bs"
proof (induction bs)
  case (Cons b bs)
  have b: "0 \<le> uint b" "uint b < 256" using uint_bounded [of b] by simp_all
  have "uint (word_of_int (uint b + 256 * le_val bs) :: 8 word) = uint b" using b by (subst uint_word_of_int) simp
  then have hd: "word_of_int (uint b + 256 * le_val bs) = b" by (simp only: word_uint_eq_iff)
  have "(uint b + 256 * le_val bs) div 256 ^ Suc i = le_val bs div 256 ^ i" for i
    using b by (simp add: zdiv_zmult2_eq)
  then have "map (\<lambda>i. word_of_int ((uint b + 256 * le_val bs) div 256 ^ i) :: 8 word) (map Suc [0..<length bs]) = bs"
    using Cons by (simp add: le_bytes_def comp_def)
  moreover have "[0..<length (b # bs)] = 0 # map Suc [0..<length bs]" by (simp add: map_Suc_upt upt_conv_Cons del: upt_Suc)
  ultimately show ?case using hd by (simp only: le_bytes_def le_val.simps list.map power_0 div_by_1)
qed (simp add: le_bytes_def)

lemma xor_top_int: "(k :: int) XOR 2 ^ n = (if bit k n then k - 2 ^ n else k + 2 ^ n)"
proof -
  have "k XOR 2 ^ n = flip_bit n k" by (simp add: flip_bit_eq_xor push_bit_eq_mult)
  then show ?thesis by (simp add: flip_bit_eq_if set_bit_eq unset_bit_eq)
qed

lemma sint_flip: "sint ((w :: u64) XOR 9223372036854775808) = uint w - 9223372036854775808"
proof -
  have "w XOR 9223372036854775808 = word_of_int (uint w XOR 2 ^ 63)"
    using uint_bounded [of w] by (simp add: word_uint_eq_iff uint_xor uint_word_of_int_eq take_bit_int_eq_self)
  then have "sint (w XOR 9223372036854775808) = ((uint w XOR 2 ^ 63) + 2 ^ 63) mod 2 ^ 64 - 2 ^ 63"
    by (simp only: int_word_sint) simp
  also have "((uint w XOR 2 ^ 63) + 2 ^ 63) mod 2 ^ 64 = uint w"
    using uint_bounded [of w] unfolding xor_top_int by (cases "bit (uint w) 63") (simp_all add: add.assoc)
  finally show ?thesis by simp
qed

lemma uint_le_val: "length bs = 8 \<Longrightarrow> uint (word_of_int (le_val bs) :: u64) = le_val bs"
  using le_val_bounds [of bs] by (simp add: uint_word_of_int)

lemma flip_top_twice: "flip_top (flip_top h) = h"
  by (simp add: flip_top_def xor.assoc)

lemma uuid_value:
  assumes "length bs = 16"
  shows "huge_value (DatumGetUUID bs) = uuid_number bs - 2 ^ 127"
proof -
  have "uuid_number bs = le_val (take 8 (rev bs)) + 2 ^ 64 * le_val (drop 8 (rev bs))"
    using assms le_val_append [of "take 8 (rev bs)" "drop 8 (rev bs)"] by (simp add: uuid_number_def)
  then show ?thesis
    using assms by (simp add: huge_value_def DatumGetUUID_def flip_top_def huge_of_memory_def sint_flip uint_le_val algebra_simps)
qed

lemma uuid_roundtrip:
  assumes "length bs = 16"
  shows "ConvertUUIDDatum (DatumGetUUID bs) = bs"
proof -
  have "huge_memory (huge_of_memory (rev bs)) = rev bs"
    using assms le_bytes_val [of "take 8 (rev bs)"] le_bytes_val [of "drop 8 (rev bs)"]
    by (simp add: huge_memory_def huge_of_memory_def uint_le_val)
  then show ?thesis by (simp add: ConvertUUIDDatum_def DatumGetUUID_def flip_top_twice)
qed

text \<open>C18: a UUID read into DuckDB keeps its place in PostgreSQL's order, which compares bytes from the first to the
  last, although DuckDB compares signed 128-bit integers; and it is written back with the same bytes.\<close>

theorem uuid_order_kept:
  assumes "length as = 16" and "length bs = 16"
  shows "(huge_value (DatumGetUUID as) < huge_value (DatumGetUUID bs) \<longleftrightarrow> uuid_number as < uuid_number bs) \<and>
    ConvertUUIDDatum (DatumGetUUID as) = as"
  using assms by (simp add: uuid_value uuid_roundtrip)

theorem uuid_order_kept_witness:
  "(huge_value (DatumGetUUID (replicate 16 1)) < huge_value (DatumGetUUID (255 # replicate 15 0)) \<longleftrightarrow>
     uuid_number (replicate 16 1) < uuid_number (255 # replicate 15 0)) \<and>
   ConvertUUIDDatum (DatumGetUUID (replicate 16 1)) = replicate 16 1"
  by (rule uuid_order_kept) simp_all

section \<open>Type modifiers\<close>

lemma small_bits32: "d < 64 \<Longrightarrow> 6 \<le> k \<Longrightarrow> \<not> bit (of_nat d :: u32) k"
proof -
  assume d: "d < 64" and k: "6 \<le> k"
  have "(2 :: nat) ^ 6 \<le> 2 ^ k" using k by (rule power_increasing) simp
  then have "d div 2 ^ k = 0" using d by simp
  then have "\<not> bit d k" by (simp add: bit_iff_odd)
  then show ?thesis by (simp add: bit_of_nat_iff)
qed

lemma mask_bits: "bit (2047 :: int) k \<longleftrightarrow> k < 11" "bit (65535 :: int) k \<longleftrightarrow> k < 16"
proof -
  have "(2047 :: int) = mask 11" "(65535 :: int) = mask 16" by (simp_all add: mask_eq_exp_minus_1)
  moreover have "bit (mask 11 :: int) k \<longleftrightarrow> k < 11" "bit (mask 16 :: int) k \<longleftrightarrow> k < 16" by (auto simp: bit_mask_iff)
  ultimately show "bit (2047 :: int) k \<longleftrightarrow> k < 11" "bit (65535 :: int) k \<longleftrightarrow> k < 16" by (simp_all only:)
qed

lemma sint_small32: "d < 64 \<Longrightarrow> sint (of_nat d :: u32) = int d"
  using int_word_sint [where 'a = 32, of "int d"] by simp

lemma typmod_precision:
  assumes "w < 64" and "s < 64"
  shows "numeric_typmod_precision (make_numeric_typmod (of_nat w) (of_nat s)) = int w"
proof -
  let ?x = "push_bit 16 (of_nat w :: u32) OR (of_nat s AND 0x7ff)"
  have "signed_drop_bit 16 ?x AND 0xffff = (of_nat w :: u32)"
  proof (rule bit_word_eqI)
    fix k assume "k < LENGTH(32)"
    then show "bit (signed_drop_bit 16 ?x AND 0xffff) k = bit (of_nat w :: u32) k"
      using small_bits32 [OF assms(1), of k]
      by (cases "k < 16") (auto simp: bit_and_iff bit_or_iff mask_bits bit_signed_drop_bit_iff bit_push_bit_iff)
  qed
  then show ?thesis
    using assms(1) by (simp add: numeric_typmod_precision_def make_numeric_typmod_def sint_small32)
qed

lemma typmod_scale:
  assumes "s < 64"
  shows "numeric_typmod_scale (make_numeric_typmod (of_nat w) (of_nat s)) = int s"
proof -
  let ?x = "push_bit 16 (of_nat w :: u32) OR (of_nat s AND 0x7ff)"
  have "?x AND 0x7ff = (of_nat s :: u32)"
  proof (rule bit_word_eqI)
    fix k assume "k < LENGTH(32)"
    then show "bit (?x AND 0x7ff) k = bit (of_nat s :: u32) k"
      using small_bits32 [OF assms, of k]
      by (cases "k < 11") (auto simp: bit_and_iff bit_or_iff mask_bits bit_push_bit_iff)
  qed
  moreover have "(of_nat s :: u32) AND 1024 = 0"
    using small_bits32 [OF assms, of 10] and_exp_eq_0_iff_not_bit [of "of_nat s :: u32" 10] by simp
  then have "(of_nat s :: u32) XOR 1024 = of_nat s + 1024" using disjunctive_add_eq_xor by metis
  ultimately show ?thesis
    using assms by (simp add: numeric_typmod_scale_def make_numeric_typmod_def sint_small32)
qed

lemma decimal_typmod: "1 \<le> w \<Longrightarrow> w \<le> 38 \<Longrightarrow> s \<le> w \<Longrightarrow>
    numeric_column_type c (GetPostgresDuckDBTypemod (DECIMAL w s)) = DECIMAL w s"
proof -
  assume a: "1 \<le> w" "w \<le> 38" "s \<le> w"
  have "make_numeric_typmod (of_nat w) (of_nat s) \<noteq> - 1"
  proof
    assume "make_numeric_typmod (of_nat w) (of_nat s) = - 1"
    then have "int s = numeric_typmod_scale (- 1)" using typmod_scale [of s w] a by simp
    moreover have "numeric_typmod_scale (- 1) = - 5" by code_simp
    ultimately show False by simp
  qed
  then show ?thesis
    using a typmod_precision [of w s] typmod_scale [of s w] by (simp add: numeric_column_type_def GetPostgresDuckDBTypemod_def Let_def)
qed

section \<open>Scalar values\<close>

text \<open>What the code relies on of DuckDB's accessors and of the two systems' bit strings: a value of the right type is
  returned as it is, a string prints as itself, a bit string survives printing and parsing, decimals are stored
  in the integer type that their width asks for.\<close>

definition decimal_storage :: "nat \<Rightarrow> PhysicalType" where
  "decimal_storage w = (if w \<le> 4 then INT16 else if w \<le> 9 then INT32 else if w \<le> 18 then INT64 else INT128)"

definition env_ok :: "('f, 'b) duck_env \<Rightarrow> bool" where
  "env_ok E \<longleftrightarrow> limits_ok (limits E) \<and>
     (\<forall>lo hi t x. lo \<le> x \<and> x \<le> hi \<longrightarrow> get_int E lo hi t (PInt x) = Inr x) \<and>
     (\<forall>t b. get_bool E t (PBool b) = Inr b) \<and> (\<forall>t f. get_float E t (PFloat f) = Inr f) \<and>
     (\<forall>t m d u. get_interval E t (PInterval m d u) = Inr (m, d, u)) \<and> (\<forall>t u z. get_timetz E t (PTimeTz u z) = Inr (u, z)) \<and>
     (\<forall>t h. get_uuid E t (PUuid h) = Inr h) \<and> (\<forall>j s. value_to_string E (VARCHAR j) (PStr s) = s) \<and>
     (\<forall>s. value_blob E BLOB (PStr s) = Inr s) \<and> (\<forall>w s. internal_type E (DECIMAL w s) = decimal_storage w) \<and>
     (\<forall>b s. ToBit E (VarbitToString E b) = Inr s \<longrightarrow> StringToVarbit E (value_to_string E BIT (PStr s)) = Inr b) \<and>
     (\<forall>x. \<bar>x\<bar> \<le> hugeint_max \<longrightarrow> huge_fit E x = Inr x)"

text \<open>The values of a PostgreSQL type. A \<^verbatim>\<open>numeric\<close> of a declared precision and scale is stored in the form that
  \<^verbatim>\<open>make_result\<close> builds.\<close>

definition int_range :: "Oid \<Rightarrow> (int \<times> int) option" where
  "int_range oid =
     (if oid = INT2OID then Some (- 32768, 32767) else if oid = INT4OID then Some (- 2147483648, 2147483647)
      else if oid = REGCLASSOID then Some (0, 4294967295)
      else if oid \<in> {INT8OID, TIMESTAMPOID, TIMESTAMPTZOID, TIMEOID} then Some (- 9223372036854775808, 9223372036854775807)
      else None)"

definition stored_numeric :: "('f, 'b) duck_env \<Rightarrow> nat \<Rightarrow> nat \<Rightarrow> int \<Rightarrow> Numeric \<Rightarrow> bool" where
  "stored_numeric E w s v n \<longleftrightarrow> 1 \<le> w \<and> w \<le> 38 \<and> s \<le> w \<and> s \<le> max_padded (decimal_storage w) \<and> \<bar>v\<bar> < 10 ^ w \<and>
     numeric_datum (huge_fit E) (uhuge_fit E) (decimal_storage w) s v = Inr n"

definition datum_ok :: "('f, 'b) duck_env \<Rightarrow> u32 \<Rightarrow> Oid \<Rightarrow> ('f, 'b) pg_datum \<Rightarrow> bool" where
  "datum_ok E m oid d \<longleftrightarrow> (case d of
       DBool b \<Rightarrow> oid = BOOLOID
     | DInt x \<Rightarrow> oid = DATEOID \<and> pg_date_ok x \<or> (\<exists>lo hi. int_range oid = Some (lo, hi) \<and> lo \<le> x \<and> x \<le> hi)
     | DFloat f \<Rightarrow> oid = FLOAT4OID \<or> oid = FLOAT8OID
     | DText s \<Rightarrow> oid = TEXTOID \<or> oid = VARCHAROID \<or> oid = JSONOID
     | DBytea s \<Rightarrow> oid = BYTEAOID
     | DInterval months days micros \<Rightarrow> oid = INTERVALOID
     | DTimeTz micros zone \<Rightarrow> oid = TIMETZOID \<and> \<bar>zone\<bar> < 2147483648
     | DUuid bs \<Rightarrow> oid = UUIDOID \<and> length bs = 16
     | DNumeric n \<Rightarrow> oid = NUMERICOID \<and> (\<exists>w s v. m = GetPostgresDuckDBTypemod (DECIMAL w s) \<and> stored_numeric E w s v n)
     | DVarbit b \<Rightarrow> oid = BITOID \<or> oid = VARBITOID
     | DJsonb j \<Rightarrow> False)"

lemma decimal_storage_width: "1 \<le> w \<Longrightarrow> w \<le> 38 \<Longrightarrow> w \<le> max_width (decimal_storage w)"
  by (simp add: decimal_storage_def)

lemma signed_id: "- (2 ^ (n - 1)) \<le> x \<Longrightarrow> x < 2 ^ (n - 1) \<Longrightarrow> datum_int n (DInt x) = Inr x"
  by (simp add: fit_signed)

lemma numeric_back:
  assumes E: "env_ok E" and n: "stored_numeric E w s v n" and rd: "AppendDecimal (huge_fit E) (decimal_storage w) n = Inr x"
  shows "ConvertNumericDatum E (DECIMAL w s) (PInt x) = Inr (DNumeric n)"
proof -
  have "x = v"
    using integer_roundtrip [of "huge_fit E" v w "decimal_storage w" s "uhuge_fit E"] E n rd
    by (auto simp: env_ok_def stored_numeric_def decimal_storage_width)
  then show ?thesis using E n by (simp add: ConvertNumericDatum_def env_ok_def stored_numeric_def)
qed

lemma env_okD:
  assumes "env_ok E"
  shows "limits_ok (limits E)" and "lo \<le> x \<Longrightarrow> x \<le> hi \<Longrightarrow> get_int E lo hi t (PInt x) = Inr x"
    and "get_bool E t (PBool b) = Inr b" and "get_float E t (PFloat f) = Inr f"
    and "get_interval E t (PInterval mo d u) = Inr (mo, d, u)" and "get_timetz E t (PTimeTz u z) = Inr (u, z)"
    and "get_uuid E t (PUuid h) = Inr h" and "value_to_string E (VARCHAR j) (PStr s) = s" and "value_blob E BLOB (PStr s) = Inr s"
    and "internal_type E (DECIMAL w sc) = decimal_storage w"
    and "ToBit E (VarbitToString E vb) = Inr s \<Longrightarrow> StringToVarbit E (value_to_string E BIT (PStr s)) = Inr vb"
  using assms by (auto simp: env_ok_def)

lemmas converter_defs = ConvertBoolDatum_def ConvertCharDatum_def ConvertInt2Datum_def ConvertInt4Datum_def ConvertInt8Datum_def
  ConvertToStringDatum_def ConvertVarbitDatum_def ConvertBinaryDatum_def ConvertIntervalDatum_def ConvertTimeTzDatum_def
  int_datum_def int_payload_def get_int64_def GetPostgresDuckDBType_def or_unsupported_def andthen_Inr_iff

lemma int_back:
  assumes E: "env_ok E" and x: "int_range oid = Some (lo, hi)" "lo \<le> x" "x \<le> hi"
    and t: "builtin_column_type c m oid = Some t" and rd: "scalar_converter E oid t = Some f" "f (DInt x) = Inr p"
    and pg: "GetPostgresDuckDBType hooks array_hooks throw_error t = Inr oid'"
  shows "scalar_datum E oid' t p = Some (Inr (DInt x))"
proof -
  note E' = env_okD [OF E]
  consider "oid = INT2OID" | "oid = INT4OID" | "oid = REGCLASSOID" | "oid = INT8OID" | "oid = TIMEOID"
      | "oid = TIMESTAMPOID" | "oid = TIMESTAMPTZOID"
    using x(1) by (auto simp: int_range_def split: if_splits)
  then show ?thesis
  proof cases
    case 6
    then have x64: "int64_ok x" using x by (simp add: int_range_def int64_ok_def)
    then obtain y where y: "AppendTimestamp (limits E) x = Inr y" "t = TIMESTAMP" "p = PInt y" "oid' = TIMESTAMPOID"
      using 6 t rd pg by (auto simp: converter_defs wrap64_id)
    have "int64_ok y" using AppendTimestamp_exact [OF x64, of "limits E"] y(1) E'(1)
      by (auto simp: int64_ok_def limits_ok_def ValidTimestampOrTimestampTz_def conv_constants split: if_splits)
    then show ?thesis using y timestamp_back [OF E'(1) y(1) x64] by (simp add: converter_defs E' int64_ok_def)
  next
    case 7
    then have x64: "int64_ok x" using x by (simp add: int_range_def int64_ok_def)
    then obtain y where y: "AppendTimestamp (limits E) x = Inr y" "t = TIMESTAMP_TZ" "p = PInt y" "oid' = TIMESTAMPTZOID"
      using 7 t rd pg by (auto simp: converter_defs wrap64_id AppendTimestampTz_same)
    have "int64_ok y" using AppendTimestamp_exact [OF x64, of "limits E"] y(1) E'(1)
      by (auto simp: int64_ok_def limits_ok_def ValidTimestampOrTimestampTz_def conv_constants split: if_splits)
    then show ?thesis using y timestamp_back [OF E'(1) y(1) x64] by (simp add: converter_defs E' int64_ok_def)
  qed (use x t rd pg in \<open>auto simp: converter_defs E' int_range_def fit_signed take_bit_int_eq_self\<close>)
qed

lemma scalar_back:
  assumes E: "env_ok E" and ok: "datum_ok E m oid d"
    and t: "builtin_column_type c m oid = Some t" and rd: "scalar_converter E oid t = Some f" "f d = Inr p"
    and pg: "GetPostgresDuckDBType hooks array_hooks throw_error t = Inr oid'"
  shows "scalar_datum E oid' t p = Some (Inr d)"
proof (cases d)
  case (DInt x)
  note E' = env_okD [OF E]
  show ?thesis
  proof (cases "oid = DATEOID")
    case True
    then have x: "pg_date_ok x" using ok DInt by (simp add: datum_ok_def int_range_def)
    then have "- 2147483648 \<le> x" "x \<le> 2147483647" by (auto simp: pg_date_ok_def conv_constants)
    then have p: "p = PInt (AppendDate (limits E) x)" "t = DATE" "oid' = DATEOID"
      using True t rd pg DInt by (auto simp: converter_defs wrap32_id)
    have "- 2147483648 \<le> AppendDate (limits E) x \<and> AppendDate (limits E) x \<le> 2147483647"
      using x E'(1) by (auto simp: AppendDate_def pg_date_ok_def limits_ok_def conv_constants wrap32_id)
    then show ?thesis using p date_roundtrip [OF E'(1) x] DInt by (simp add: converter_defs E')
  next
    case False
    then obtain lo hi where "int_range oid = Some (lo, hi)" "lo \<le> x" "x \<le> hi" using ok DInt by (auto simp: datum_ok_def)
    from int_back [OF E this t rd(1) _ pg] rd(2) DInt show ?thesis by simp
  qed
next
  case (DNumeric n)
  then obtain w s v where m: "oid = NUMERICOID" "m = GetPostgresDuckDBTypemod (DECIMAL w s)" and n: "stored_numeric E w s v n"
    using ok by (auto simp: datum_ok_def)
  then have "t = DECIMAL w s" using t decimal_typmod [of w s c] by (simp add: stored_numeric_def)
  then obtain x where "AppendDecimal (huge_fit E) (decimal_storage w) n = Inr x" "p = PInt x" "oid' = NUMERICOID"
    using rd pg DNumeric by (auto simp: converter_defs env_okD [OF E])
  then show ?thesis using numeric_back [OF E n] \<open>t = DECIMAL w s\<close> DNumeric by simp
next
  case (DUuid bs)
  then show ?thesis using ok t rd pg by (auto simp: datum_ok_def converter_defs env_okD [OF E] uuid_roundtrip)
next
  case (DTimeTz u z)
  then show ?thesis using ok t rd pg by (auto simp: datum_ok_def converter_defs env_okD [OF E] wrap32_id)
qed (use ok t rd pg in \<open>auto simp: datum_ok_def converter_defs env_okD [OF E]\<close>)


definition plain_env :: "(int, string) duck_env" where
  "plain_env = \<lparr>limits = documented_limits,
     get_int = (\<lambda>lo hi t p. case p of PInt x \<Rightarrow> if lo \<le> x \<and> x \<le> hi then Inr x else Inl OutOfRangeException | _ \<Rightarrow> Inl InvalidInputException),
     get_bool = (\<lambda>t p. case p of PBool b \<Rightarrow> Inr b | _ \<Rightarrow> Inl InvalidInputException),
     get_float = (\<lambda>t p. case p of PFloat f \<Rightarrow> Inr f | _ \<Rightarrow> Inl InvalidInputException),
     get_interval = (\<lambda>t p. case p of PInterval m d u \<Rightarrow> Inr (m, d, u) | _ \<Rightarrow> Inl InvalidInputException),
     get_timetz = (\<lambda>t p. case p of PTimeTz u z \<Rightarrow> Inr (u, z) | _ \<Rightarrow> Inl InvalidInputException),
     get_uuid = (\<lambda>t p. case p of PUuid h \<Rightarrow> Inr h | _ \<Rightarrow> Inl InvalidInputException),
     value_to_string = (\<lambda>t p. case p of PStr s \<Rightarrow> s | _ \<Rightarrow> []),
     value_blob = (\<lambda>t p. case p of PStr s \<Rightarrow> Inr s | _ \<Rightarrow> Inl InvalidInputException),
     internal_type = (\<lambda>t. case t of DECIMAL w s \<Rightarrow> decimal_storage w | _ \<Rightarrow> OTHER_PHYSICAL ''''),
     StringToVarbit = Inr, VarbitToString = (\<lambda>b. b), ToBit = Inr, StringToNumeric = (\<lambda>_. Inl InvalidInputException),
     bpchartruelen = length, JsonbToCString = (\<lambda>j. j), double_ops = int64_t, huge_fit = Inr, uhuge_fit = Inr\<rparr>"

lemma plain_env_ok: "env_ok plain_env"
  by (simp add: env_ok_def plain_env_def documented_limits_ok)


section \<open>Where the two type mappings disagree\<close>

text \<open>Arrays of \<^verbatim>\<open>timestamptz\<close> can be written but not read.\<close>

lemma timestamptz_array_not_readable:
  "builtin_column_type c m TIMESTAMPTZARRAYOID = None"
  "GetPostgresDuckDBType hooks array_hooks throw_error (LIST TIMESTAMP_TZ) = Inr TIMESTAMPTZARRAYOID"
  by (simp_all add: GetPostgresDuckDBType_def GetPostgresArrayDuckDBType_def or_unsupported_def)

text \<open>Columns of type \<^verbatim>\<open>"char"\<close>: the converter writes 16-bit elements into the memory of a vector of 8-bit elements.
  \<open>element_at\<close> is what a reader of elements of a given width finds.\<close>

definition element_at :: "nat \<Rightarrow> nat \<Rightarrow> 8 word list \<Rightarrow> int" where
  "element_at width offset bytes = le_val (take width (drop (offset * width) bytes))"

lemma le_bytes_Suc: "le_bytes (Suc n) x = word_of_int x # le_bytes n (x div 256)"
proof -
  have "[0..<Suc n] = 0 # map Suc [0..<n]" by (simp add: map_Suc_upt upt_conv_Cons del: upt_Suc)
  then show ?thesis by (simp add: le_bytes_def comp_def zdiv_zmult2_eq del: upt_Suc)
qed

lemma le_val_bytes: "0 \<le> x \<Longrightarrow> x < 256 ^ n \<Longrightarrow> le_val (le_bytes n x) = x"
proof (induction n arbitrary: x)
  case (Suc n)
  have "uint (word_of_int x :: 8 word) = x mod 256" by (simp add: uint_word_of_int)
  then show ?case using Suc.IH [of "x div 256"] Suc.prems by (simp add: le_bytes_Suc)
qed (simp add: le_bytes_def)

lemma append_then_read:
  assumes "(offset + 1) * width \<le> length bytes" and "0 \<le> v" and "v < 256 ^ width"
  shows "element_at width offset (Append width v offset bytes) = v"
proof -
  have "offset * width \<le> length bytes" using assms(1) by simp
  then have "take width (drop (offset * width) (Append width v offset bytes)) = le_bytes width v"
    by (simp add: Append_def le_bytes_def)
  then show ?thesis using assms(2,3) by (simp add: element_at_def le_val_bytes)
qed

lemma char_column_misread:
  "map (\<lambda>i. element_at 1 i (Append 2 98 1 (Append 2 97 0 (replicate 8 0)))) [0, 1, 2, 3] = [97, 0, 98, 0]"
  by code_simp

end
