(* ===== verification/Pg_Arrays_Props.thy ===== *)
theory Pg_Arrays_Props
  imports Pg_Arrays Pg_Types_Props
begin

text \<open>
  The array conversions. A rectangular nested list becomes the array of its shape with the elements in row-major
  order, but the buffer is requested for the square of their number, so that long lists are refused. Reading an
  array into list vectors is right for one and two dimensions and wrong for three.
\<close>

section \<open>Rectangular nested lists\<close>

fun rect :: "nat list \<Rightarrow> 'f dvalue \<Rightarrow> bool" where
  "rect [] v = (\<forall>vs. v \<noteq> VList vs)"
| "rect (n # ns) (VList vs) = (length vs = n \<and> list_all (rect ns) vs)"
| "rect (n # ns) v = False"

fun flat :: "nat list \<Rightarrow> 'f dvalue \<Rightarrow> 'f dvalue list" where
  "flat [] v = [v]"
| "flat (n # ns) (VList vs) = concat (map (flat ns) vs)"
| "flat (n # ns) v = []"

definition leaf_datum :: "(LogicalType \<Rightarrow> 'f dvalue \<Rightarrow> 'd) \<Rightarrow> LogicalType \<Rightarrow> 'f dvalue \<Rightarrow> 'd option" where
  "leaf_datum g b v = (if v = VNull then None else Some (g b v))"

lemma length_flat: "rect ns v \<Longrightarrow> length (flat ns v) = prod_list ns"
proof (induction ns v rule: rect.induct)
  case (2 n ns vs)
  then have "map (\<lambda>v. length (flat ns v)) vs = replicate n (prod_list ns)"
    by (auto simp: list_all_iff intro: nth_equalityI)
  then show ?case by (simp add: length_concat comp_def sum_list_replicate)
qed simp_all

lemma write_leaves:
  assumes OP: "\<And>v. v \<noteq> VNull \<Longrightarrow> OP b v = Inr (g b v)"
  shows "allocated st = Some N \<Longrightarrow> length (written st) + length vs \<le> N \<Longrightarrow>
    fold_err (write_leaf OP b) vs st = Inr (st\<lparr>written := written st @ map (leaf_datum g b) vs\<rparr>)"
proof (induction vs arbitrary: st)
  case (Cons v vs)
  have "write_leaf OP b v st = Inr (st\<lparr>written := written st @ [leaf_datum g b v]\<rparr>)"
    using Cons.prems OP by (simp add: write_leaf_def leaf_datum_def)
  then show ?case using Cons.IH [of "st\<lparr>written := written st @ [leaf_datum g b v]\<rparr>"] Cons.prems by simp
qed simp

lemma flat_leaves: "concat (map (flat []) vs) = vs"
  by (induction vs) simp_all

lemma list_power_child: "GetChildType ((LIST ^^ Suc k) b) = Inr ((LIST ^^ k) b)"
  by simp

lemma is_list_power: "nesting_depth b = 0 \<Longrightarrow> is_list_type ((LIST ^^ k) b) \<longleftrightarrow> 0 < k"
  by (cases k; cases b) simp_all

lemma nesting_depth_power: "nesting_depth b = 0 \<Longrightarrow> nesting_depth ((LIST ^^ k) b) = k"
  by (induction k) simp_all

section \<open>Appending\<close>

lemma set_dimension_known: "st_dimensions st ! k = int n \<Longrightarrow> set_dimension k n st = Inr st"
  by (simp add: set_dimension_def)

lemma children_fold:
  assumes step: "\<And>u st. rect ns u \<Longrightarrow> I st \<Longrightarrow> length (written st) + prod_list ns \<le> N \<Longrightarrow>
      AppendValueAtDimension pa OP t k u st = Inr (st\<lparr>written := written st @ map L (flat ns u)\<rparr>)"
    and inv: "\<And>st xs. I st \<Longrightarrow> I (st\<lparr>written := xs\<rparr>)" and ne: "ns \<noteq> []"
  shows "list_all (rect ns) us \<Longrightarrow> I st \<Longrightarrow> length (written st) + length us * prod_list ns \<le> N \<Longrightarrow>
    append_children pa OP t k us st = Inr (st\<lparr>written := written st @ map L (concat (map (flat ns) us))\<rparr>)"
proof (induction us arbitrary: st)
  case (Cons u us)
  let ?st = "st\<lparr>written := written st @ map L (flat ns u)\<rparr>"
  have "u \<noteq> VNull" using Cons.prems(1) ne by (cases ns; cases u) auto
  moreover have "AppendValueAtDimension pa OP t k u st = Inr ?st" using step Cons.prems by simp
  moreover have "I ?st" using inv Cons.prems by blast
  moreover have "length (flat ns u) = prod_list ns" using length_flat Cons.prems(1) by auto
  ultimately show ?case using Cons.IH [of ?st] Cons.prems by simp
qed simp

definition dims_known :: "nat \<Rightarrow> nat list \<Rightarrow> 'd append_state \<Rightarrow> bool" where
  "dims_known k ns st \<longleftrightarrow> (\<forall>i < length ns. st_dimensions st ! (k + i) = int (ns ! i))"

lemma dims_known_Cons: "dims_known k (n # ns) st \<longleftrightarrow> st_dimensions st ! k = int n \<and> dims_known (Suc k) ns st"
  by (auto simp: dims_known_def less_Suc_eq_0_disj nth_Cons split: nat.splits)

lemma append_known:
  assumes OP: "\<And>v. v \<noteq> VNull \<Longrightarrow> OP b v = Inr (g b v)" and b: "nesting_depth b = 0"
  shows "ns \<noteq> [] \<Longrightarrow> rect ns v \<Longrightarrow> list_all (\<lambda>n. n \<le> PG_INT32_MAX) ns \<Longrightarrow> dims_known k ns st \<Longrightarrow> allocated st = Some N \<Longrightarrow>
      length (written st) + prod_list ns \<le> N \<Longrightarrow>
      AppendValueAtDimension pa OP ((LIST ^^ length ns) b) k v st =
        Inr (st\<lparr>written := written st @ map (leaf_datum g b) (flat ns v)\<rparr>)"
proof (induction ns arbitrary: k v st)
  case (Cons n ns)
  obtain vs where v: "v = VList vs" "length vs = n" "list_all (rect ns) vs" using Cons.prems(2) by (cases v) auto
  have sd: "set_dimension k (length vs) st = Inr st"
    using Cons.prems(4) v(2) by (intro set_dimension_known) (simp add: dims_known_Cons)
  show ?case
  proof (cases "ns = []")
    case True
    then show ?thesis
      using v sd Cons.prems write_leaves [where OP = OP and b = b and g = g and st = st and N = N and vs = vs] OP is_list_power [OF b, of 0]
      by (simp add: alloc_leaf_def flat_leaves)
  next
    case False
    have "append_children pa OP ((LIST ^^ length ns) b) (Suc k) vs st =
        Inr (st\<lparr>written := written st @ map (leaf_datum g b) (concat (map (flat ns) vs))\<rparr>)"
    proof (rule children_fold [where I = "\<lambda>st. dims_known (Suc k) ns st \<and> allocated st = Some N" and N = N])
      show "AppendValueAtDimension pa OP ((LIST ^^ length ns) b) (Suc k) u st' = Inr (st'\<lparr>written := written st' @ map (leaf_datum g b) (flat ns u)\<rparr>)"
        if "rect ns u" "dims_known (Suc k) ns st' \<and> allocated st' = Some N" "length (written st') + prod_list ns \<le> N" for u st'
        using Cons.IH [of u "Suc k" st'] that False Cons.prems(3) by simp
    qed (use False v Cons.prems in \<open>simp_all add: dims_known_def [of "Suc k"] dims_known_Cons\<close>)
    then show ?thesis
      using v sd Cons.prems is_list_power [OF b, of "length ns"] False by simp
  qed
qed simp


section \<open>The first list of each dimension\<close>

lemma mul_overflow_iff: "pg_mul_u64_overflow a b \<longleftrightarrow> 2 ^ 64 \<le> unat a * unat b"
proof -
  have "uint a * uint b = int (unat a * unat b)" by simp
  moreover have "(2 :: int) ^ 64 = int (2 ^ 64)" by simp
  ultimately show ?thesis unfolding pg_mul_u64_overflow_def by (simp only: of_nat_le_iff)
qed

lemma set_dimension_first:
  assumes "st_dimensions st ! k = - 1" and "k < length (st_dimensions st)"
    and "unat (expected_values st) * (n * n) < 2 ^ 64"
  shows "set_dimension k n st = Inr (st\<lparr>st_dimensions := (st_dimensions st)[k := int n],
    expected_values := of_nat (unat (expected_values st) * (n * n))\<rparr>)"
proof -
  let ?E = "unat (expected_values st)"
  have "?E * n \<le> ?E * (n * n)" by (cases n) simp_all
  then have small: "?E * n < 2 ^ 64" using assms(3) by linarith
  then have "unat (expected_values st * of_nat n) = ?E * n"
    by (simp add: unat_word_ariths unat_of_nat mod_mult_right_eq)
  moreover have "unat (of_nat n :: u64) \<le> n" by (simp add: unat_of_nat)
  ultimately have "unat (expected_values st * of_nat n) * unat (of_nat n :: u64) \<le> ?E * n * n" by simp
  then have "unat (expected_values st * of_nat n) * unat (of_nat n :: u64) < 2 ^ 64" using assms(3) by (simp only: mult.assoc)
  then have no: "\<not> pg_mul_u64_overflow (expected_values st * of_nat n) (of_nat n)"
    unfolding mul_overflow_iff by simp
  show ?thesis
    using assms no by (simp add: set_dimension_def Let_def mult.assoc)
qed


definition put_dims :: "nat \<Rightarrow> nat list \<Rightarrow> int list \<Rightarrow> int list" where
  "put_dims k ns dims = take k dims @ map int ns @ drop (k + length ns) dims"

lemma put_dims_Cons: "k < length dims \<Longrightarrow> put_dims (Suc k) ns (dims[k := int n]) = put_dims k (n # ns) dims"
  by (simp add: put_dims_def take_Suc_conv_app_nth)

lemma put_dims_nth: "k + length ns \<le> length dims \<Longrightarrow> i < length ns \<Longrightarrow> put_dims k ns dims ! (k + i) = int (ns ! i)"
  by (simp add: put_dims_def nth_append)

definition unset_dims :: "nat \<Rightarrow> nat \<Rightarrow> 'd append_state \<Rightarrow> bool" where
  "unset_dims k m st \<longleftrightarrow> k + m \<le> length (st_dimensions st) \<and> (\<forall>i < m. st_dimensions st ! (k + i) = - 1) \<and>
     allocated st = None \<and> written st = []"

lemma put_dims_Nil: "put_dims k [] dims = dims"
  by (simp add: put_dims_def)

lemma prod_list_pos: "list_all (\<lambda>n. 1 \<le> n \<and> P n) ns \<Longrightarrow> 1 \<le> prod_list ns" for ns :: "nat list"
  by (induction ns) auto

lemma unset_dims_next:
  assumes "unset_dims k (Suc m) st"
  shows "unset_dims (Suc k) m (st\<lparr>st_dimensions := (st_dimensions st)[k := x], expected_values := e\<rparr>)"
    and "st_dimensions st ! k = - 1" and "k < length (st_dimensions st)"
proof -
  have d: "st_dimensions st ! (k + i) = - 1" if "i < Suc m" for i using assms that by (simp add: unset_dims_def)
  show "st_dimensions st ! k = - 1" using d [of 0] by simp
  have "st_dimensions st ! (Suc k + i) = - 1" if "i < m" for i using d [of "Suc i"] that by simp
  then show "unset_dims (Suc k) m (st\<lparr>st_dimensions := (st_dimensions st)[k := x], expected_values := e\<rparr>)"
    and "k < length (st_dimensions st)"
    using assms by (auto simp: unset_dims_def)
qed

text \<open>After the first list of each dimension the buffer has room for the square of the number of elements.\<close>

lemma append_first:
  assumes OP: "\<And>v. v \<noteq> VNull \<Longrightarrow> OP b v = Inr (g b v)" and b: "nesting_depth b = 0"
  shows "ns \<noteq> [] \<Longrightarrow> rect ns v \<Longrightarrow> list_all (\<lambda>n. 1 \<le> n \<and> n \<le> PG_INT32_MAX) ns \<Longrightarrow> unset_dims k (length ns) st \<Longrightarrow>
      1 \<le> unat (expected_values st) \<Longrightarrow> N = unat (expected_values st) * (prod_list ns * prod_list ns) \<Longrightarrow> N < 2 ^ 64 \<Longrightarrow>
      pa (of_nat N * 8) \<Longrightarrow> pa (of_nat N) \<Longrightarrow>
      AppendValueAtDimension pa OP ((LIST ^^ length ns) b) k v st =
        Inr (st\<lparr>expected_values := of_nat N, st_dimensions := put_dims k ns (st_dimensions st), allocated := Some N,
               written := map (leaf_datum g b) (flat ns v)\<rparr>)"
proof (induction ns arbitrary: k v st)
  case (Cons n ns)
  obtain vs where v: "v = VList vs" "length vs = n" "list_all (rect ns) vs" using Cons.prems(2) by (cases v) auto
  let ?E = "unat (expected_values st)"
  define M where "M = ?E * (n * n)"
  let ?st1 = "st\<lparr>st_dimensions := (st_dimensions st)[k := int n], expected_values := of_nat M\<rparr>"
  have un: "unset_dims k (Suc (length ns)) st" using Cons.prems(4) by simp
  note nx = unset_dims_next [OF un]
  have ns: "1 \<le> n" "1 \<le> prod_list ns" using Cons.prems(3) prod_list_pos [of _ ns] by auto
  then have pos: "1 \<le> n" "1 \<le> prod_list ns * prod_list ns" by (auto simp: Suc_le_eq)
  have N: "N = M * (prod_list ns * prod_list ns)" using Cons.prems(6) by (simp add: M_def mult.assoc mult.left_commute)
  then have le: "M \<le> N" using pos(2) by simp
  then have E: "M < 2 ^ 64" using Cons.prems(7) by linarith
  have uE: "unat (expected_values ?st1) = M" using E by (simp add: unat_of_nat)
  have "1 \<le> M" using Cons.prems(5) pos(1) by (simp add: M_def Suc_le_eq)
  have sd: "set_dimension k (length vs) st = Inr ?st1"
    using set_dimension_first [OF nx(2,3) E [unfolded M_def]] v(2) by (simp only: M_def)
  show ?case
  proof (cases "ns = []")
    case True
    have "n * 1 \<le> n * n" using pos(1) by (intro mult_le_mono) auto
    also have "\<dots> \<le> M" using Cons.prems(5) by (simp add: M_def)
    finally have "n \<le> N" using True N by simp
    moreover have "M = N" using True N by simp
    ultimately show ?thesis
      using True v sd un nx Cons.prems(3,8,9) is_list_power [OF b, of 0] put_dims_Cons [OF nx(3), of "[]" n] E
        write_leaves [where OP = OP and b = b and g = g and N = N and vs = vs and st = "?st1\<lparr>allocated := Some N\<rparr>"] OP
      by (simp add: alloc_leaf_def flat_leaves unset_dims_def put_dims_Nil unat_of_nat)
  next
    case False
    obtain u us where vs: "vs = u # us" using v(2) pos(1) by (cases vs) auto
    let ?st2 = "?st1\<lparr>expected_values := of_nat N, st_dimensions := put_dims (Suc k) ns (st_dimensions ?st1), allocated := Some N,
       written := map (leaf_datum g b) (flat ns u)\<rparr>"
    have first: "AppendValueAtDimension pa OP ((LIST ^^ length ns) b) (Suc k) u ?st1 = Inr ?st2"
    proof (rule Cons.IH)
      show "N = unat (expected_values ?st1) * (prod_list ns * prod_list ns)" unfolding uE by (rule N)
      show "1 \<le> unat (expected_values ?st1)" unfolding uE by (rule \<open>1 \<le> M\<close>)
    qed (use False v vs Cons.prems(3,7,8,9) nx(1) in \<open>simp_all\<close>)
    have len: "Suc k + length ns \<le> length (st_dimensions ?st1)" using un by (simp add: unset_dims_def)
    have known: "dims_known (Suc k) ns ?st2" using put_dims_nth [OF len] by (simp add: dims_known_def)
    have "n * prod_list ns * 1 \<le> n * prod_list ns * (n * prod_list ns)" using ns by (intro mult_le_mono) auto
    also have "\<dots> \<le> ?E * (n * prod_list ns * (n * prod_list ns))" using Cons.prems(5) by simp
    also have "\<dots> = N" using Cons.prems(6) by simp
    finally have "n * prod_list ns \<le> N" by simp
    moreover have "n = Suc (length us)" "length (flat ns u) = prod_list ns" using length_flat [of ns u] v vs by simp_all
    ultimately have room: "length (flat ns u) + length us * prod_list ns \<le> N" by simp
    have "append_children pa OP ((LIST ^^ length ns) b) (Suc k) us ?st2 =
        Inr (?st2\<lparr>written := written ?st2 @ map (leaf_datum g b) (concat (map (flat ns) us))\<rparr>)"
    proof (rule children_fold [where I = "\<lambda>st. dims_known (Suc k) ns st \<and> allocated st = Some N" and N = N])
      show "AppendValueAtDimension pa OP ((LIST ^^ length ns) b) (Suc k) w st' = Inr (st'\<lparr>written := written st' @ map (leaf_datum g b) (flat ns w)\<rparr>)"
        if "rect ns w" "dims_known (Suc k) ns st' \<and> allocated st' = Some N" "length (written st') + prod_list ns \<le> N" for w st'
        by (rule append_known [where OP = OP and b = b and g = g])
          (use that False Cons.prems(3) OP b in \<open>simp_all add: list_all_iff\<close>)
    qed (use False v vs known room in \<open>simp_all add: dims_known_def [of "Suc k"]\<close>)
    moreover have "u \<noteq> VNull" using v vs False by (cases ns; cases u) auto
    ultimately show ?thesis
      using False v vs sd first Cons.prems(3) is_list_power [OF b, of "length ns"] put_dims_Cons [OF nx(3), of ns n] by simp
  qed
qed simp


section \<open>Arrays of rectangular lists\<close>

lemma array_of_rect:
  fixes OP :: "LogicalType \<Rightarrow> 'f dvalue \<Rightarrow> conv_error + 'd"
  assumes OP: "\<And>v. v \<noteq> VNull \<Longrightarrow> OP b v = Inr (g b v)" and b: "nesting_depth b = 0"
    and ns: "ns \<noteq> []" "list_all (\<lambda>n. 1 \<le> n \<and> n \<le> PG_INT32_MAX) ns" and v: "rect ns v"
    and room: "prod_list ns * prod_list ns < 2 ^ 64"
      "pa (of_nat (prod_list ns * prod_list ns) * 8)" "pa (of_nat (prod_list ns * prod_list ns))"
  shows "ConvertDuckToPostgresArray pa OP ((LIST ^^ length ns) b) v =
    Inr \<lparr>arr_dims = map int ns, arr_elems = map (leaf_datum g b) (flat ns v)\<rparr>"
proof -
  define N where "N = prod_list ns * prod_list ns"
  let ?st = "append_state_init (length ns) :: 'd append_state"
  have "AppendValueAtDimension pa OP ((LIST ^^ length ns) b) 0 v ?st =
      Inr (?st\<lparr>expected_values := of_nat N, st_dimensions := put_dims 0 ns (st_dimensions ?st), allocated := Some N,
               written := map (leaf_datum g b) (flat ns v)\<rparr>)"
    by (rule append_first [where OP = OP and b = b and g = g, OF _ b ns(1) v ns(2)])
      (use OP room in \<open>simp_all add: N_def unset_dims_def append_state_init_def\<close>)
  then show ?thesis
    using nesting_depth_power [OF b, of "length ns"]
    by (simp add: ConvertDuckToPostgresArray_def append_state_init_def put_dims_def map_idI)
qed

text \<open>A list of \<open>n\<close> elements asks for \<open>n\<^sup>2\<close> datums.\<close>

lemma list_requests_square:
  fixes OP :: "LogicalType \<Rightarrow> 'f dvalue \<Rightarrow> conv_error + 'd"
  assumes b: "nesting_depth b = 0" and vs: "length vs \<le> PG_INT32_MAX" "length vs * length vs < 2 ^ 64"
    and no: "\<not> pa (of_nat (length vs * length vs) * 8)"
  shows "ConvertDuckToPostgresArray pa OP (LIST b) (VList vs) = Inl (PgError ''invalid memory alloc request size'')"
proof -
  have "set_dimension 0 (length vs) (append_state_init 1 :: 'd append_state) =
      Inr (append_state_init 1\<lparr>st_dimensions := [int (length vs)], expected_values := of_nat (length vs * length vs)\<rparr>)"
    using set_dimension_first [of "append_state_init 1" 0 "length vs"] vs(2) by (simp add: append_state_init_def)
  moreover have "\<not> is_list_type b" using b by (cases b) simp_all
  ultimately show ?thesis
    using b vs no by (simp add: ConvertDuckToPostgresArray_def alloc_leaf_def append_state_init_def)
qed


text \<open>C14: a rectangular list of lists becomes the PostgreSQL array of its shape: the dimensions are the lengths of the
  lists at each level, the elements are those of the list in row-major order with nulls kept, and no element is
  written past the buffer, as long as the allocator grants a buffer of the square of the number of elements.\<close>

theorem nested_list_becomes_array:
  assumes "\<forall>v. v \<noteq> VNull \<longrightarrow> OP b v = Inr (g b v)" and "nesting_depth b = 0"
    and "ns \<noteq> []" and "list_all (\<lambda>n. 1 \<le> n \<and> n \<le> PG_INT32_MAX) ns" and "rect ns v"
    and "prod_list ns * prod_list ns < 2 ^ 64"
    and "pa (of_nat (prod_list ns * prod_list ns) * 8)" and "pa (of_nat (prod_list ns * prod_list ns))"
  shows "ConvertDuckToPostgresArray pa OP ((LIST ^^ length ns) b) v =
    Inr \<lparr>arr_dims = map int ns, arr_elems = map (leaf_datum g b) (flat ns v)\<rparr>"
  using assms by (intro array_of_rect) simp_all

definition two_rows :: "int dvalue" where
  "two_rows = VList [VList [VScalar (PInt 1), VNull, VScalar (PInt 3)], VList [VScalar (PInt 4), VScalar (PInt 5), VScalar (PInt 6)]]"

theorem nested_list_becomes_array_witness:
  "ConvertDuckToPostgresArray (\<lambda>n. unat n \<le> 1073741823) (\<lambda>_ v. Inr v) ((LIST ^^ length [2 :: nat, 3]) INTEGER) two_rows =
     Inr \<lparr>arr_dims = map int [2, 3], arr_elems = map (leaf_datum (\<lambda>_ v. v) INTEGER) (flat [2, 3] two_rows)\<rparr>"
  by (rule nested_list_becomes_array) (simp_all add: two_rows_def PG_INT32_MAX_def)

text \<open>C19: the size is multiplied twice: a list of 11586 up to a billion elements is refused, because the buffer that the
  code requests for it has the square of this number of entries, more than one allocation of PostgreSQL may have,
  although a buffer for the elements would be small.\<close>

theorem long_list_refused:
  assumes "\<forall>n. pa n \<longleftrightarrow> unat n \<le> 1073741823" and "nesting_depth b = 0" and "11586 \<le> length vs" and "length vs \<le> 1000000000"
  shows "ConvertDuckToPostgresArray pa OP (LIST b) (VList vs) = Inl (PgError ''invalid memory alloc request size'')"
proof (rule list_requests_square [OF assms(2)])
  let ?n = "length vs"
  show "?n \<le> PG_INT32_MAX" using assms(4) by (simp add: PG_INT32_MAX_def)
  have le: "?n * ?n \<le> 1000000000 * 1000000000" using assms(4) by (intro mult_le_mono) auto
  then show "?n * ?n < 2 ^ 64" by simp
  have "11586 * 11586 \<le> ?n * ?n" using assms(3) by (intro mult_le_mono) auto
  moreover have "unat (of_nat (?n * ?n * 8) :: u64) = ?n * ?n * 8" using le by (simp add: unat_of_nat del: of_nat_mult)
  ultimately show "\<not> pa (of_nat (?n * ?n) * 8)" using assms(1) by simp
qed


theorem long_list_refused_witness:
  "ConvertDuckToPostgresArray (\<lambda>n. unat n \<le> 1073741823) (\<lambda>_ v. Inr v) (LIST INTEGER) (VList (replicate 20000 (VScalar (PInt 7)) :: int dvalue list)) =
     Inl (PgError ''invalid memory alloc request size'')"
  by (rule long_list_refused) simp_all


section \<open>Reading an array into list vectors\<close>

text \<open>The value that a reader of the vectors finds in a row, and the value that the array has.\<close>

datatype 'c nested = NLeaf "'c option" | NList "'c nested list"

fun decode :: "list_level list \<Rightarrow> (nat \<Rightarrow> 'c option option) \<Rightarrow> nat \<Rightarrow> 'c nested" where
  "decode [] lf i = NLeaf (case lf i of Some c \<Rightarrow> c | None \<Rightarrow> None)"
| "decode (lv # lvs) lf i = (case entries lv i of (start, n) \<Rightarrow> NList (map (decode lvs lf) [start..<start + n]))"

fun reshape :: "nat list \<Rightarrow> 'c option list \<Rightarrow> 'c nested" where
  "reshape [] es = NLeaf (hd es)"
| "reshape (d # ds) es = NList (map (\<lambda>r. reshape ds (take (prod_list ds) (drop (r * prod_list ds) es))) [0..<d])"

text \<open>A row that has been written before: its lists lie within the child vectors.\<close>

fun row_ok :: "list_level list \<Rightarrow> nat \<Rightarrow> bool" where
  "row_ok [] i = True"
| "row_ok (lv # lvs) i = (case entries lv i of (start, n) \<Rightarrow> start + n \<le> list_size lv \<and> list_all (row_ok lvs) [start..<start + n])"

definition leaf_written :: "('d \<Rightarrow> 'c) \<Rightarrow> nat \<Rightarrow> 'd option list \<Rightarrow> (nat \<Rightarrow> 'c option option) \<Rightarrow> nat \<Rightarrow> 'c option option" where
  "leaf_written h start es lf i = (if start \<le> i \<and> i < start + length es then Some (map_option h (es ! (i - start))) else lf i)"

lemma write_elems_loop:
  assumes "\<And>d. Some d \<in> set es \<Longrightarrow> conv d = Inr (h d)"
  shows "fold_err (\<lambda>(i, e) f. case e of None \<Rightarrow> Inr (f(start + i := Some None))
                          | Some d \<Rightarrow> andthen (conv d) (\<lambda>c. Inr (f(start + i := Some (Some c)))))
       (enumerate k es) lf = Inr (leaf_written h (start + k) es lf)"
  using assms
proof (induction es arbitrary: k lf)
  case Nil
  have "leaf_written h (start + k) [] lf = lf" by (rule ext) (auto simp: leaf_written_def)
  then show ?case by simp
next
  case (Cons e es)
  have upd: "leaf_written h (start + Suc k) es (lf(start + k := Some (map_option h e))) = leaf_written h (start + k) (e # es) lf"
    by (auto simp: leaf_written_def fun_eq_iff nth_Cons')
  show ?case
  proof (cases e)
    case None
    then show ?thesis using upd by (simp add: Cons fun_upd_def)
  next
    case (Some d)
    then show ?thesis using upd by (simp add: Cons fun_upd_def)
  qed
qed

lemma write_elems_all:
  assumes "\<And>d. Some d \<in> set es \<Longrightarrow> conv d = Inr (h d)"
  shows "write_elems conv start es lf = Inr (leaf_written h start es lf)"
  using write_elems_loop [where k = 0, of es conv h start lf] assms by (simp add: write_elems_def)

lemma decode_leaves:
  "start \<le> s \<Longrightarrow> s + n \<le> start + length es \<Longrightarrow>
    map (decode [] (leaf_written h start es lf)) [s..<s + n] = map NLeaf (take n (drop (s - start) (map (map_option h) es)))"
  by (rule nth_equalityI) (auto simp: leaf_written_def)

lemma reshape_row: "length es = n \<Longrightarrow> reshape [n] es = NList (map NLeaf es)"
  by (auto simp: hd_take hd_drop_conv_nth intro!: nth_equalityI)

lemma append_list_1:
  assumes "\<And>d. Some d \<in> set es \<Longrightarrow> conv d = Inr (h d)" and "length es = n"
  shows "AppendList conv [n] es i \<lparr>levels = [lv], leaf = lf\<rparr> =
    Inr \<lparr>levels = [write_entries i 1 n lv], leaf = leaf_written h (list_size lv) es lf\<rparr>"
  using assms by (simp add: AppendList_def write_elems_all [where h = h])

lemma append_list_2:
  assumes "\<And>d. Some d \<in> set es \<Longrightarrow> conv d = Inr (h d)"
  shows "AppendList conv [m, n] es i \<lparr>levels = [lv, lv'], leaf = lf\<rparr> =
    Inr \<lparr>levels = [write_entries i 1 m lv, write_entries (list_size lv) m n lv'], leaf = leaf_written h (list_size lv') es lf\<rparr>"
  using assms by (simp add: AppendList_def write_elems_all [where h = h])

lemma decode_1:
  assumes "length es = n"
  shows "decode [write_entries i 1 n lv] (leaf_written h (list_size lv) es lf) i = reshape [n] (map (map_option h) es)"
  using decode_leaves [of "list_size lv" "list_size lv" n es h lf] assms
  by (simp add: write_entries_def reshape_row del: decode.simps(1) reshape.simps)

lemma decode_2:
  assumes "length es = m * n"
  shows "decode [write_entries i 1 m lv, write_entries (list_size lv) m n lv'] (leaf_written h (list_size lv') es lf) i =
    reshape [m, n] (map (map_option h) es)"
proof -
  let ?lf = "leaf_written h (list_size lv') es lf"
  let ?es = "map (map_option h) es"
  have row: "decode [write_entries (list_size lv) m n lv'] ?lf (list_size lv + r) = reshape [n] (take n (drop (r * n) ?es))" if "r < m" for r
  proof -
    have "(r + 1) * n \<le> m * n" using that by (intro mult_le_mono) auto
    then have le: "r * n + n \<le> length es" using assms by simp
    then show ?thesis
      using that decode_leaves [of "list_size lv'" "list_size lv' + r * n" n es h lf]
      by (simp add: write_entries_def reshape_row mult.commute del: decode.simps(1) reshape.simps)
  qed
  have "map (decode [write_entries (list_size lv) m n lv'] ?lf) [list_size lv..<list_size lv + m] =
      map (\<lambda>r. reshape [n] (take n (drop (r * n) ?es))) [0..<m]"
    by (rule nth_equalityI) (simp_all add: row del: decode.simps reshape.simps)
  then show ?thesis by (simp add: write_entries_def [of i] del: reshape.simps(1) decode.simps(1))
qed

lemma decode_leaf_kept: "k < start \<Longrightarrow> decode [] (leaf_written h start es lf) k = decode [] lf k"
  by (simp add: leaf_written_def)

lemma decode_kept_1:
  assumes "row_ok [lv] j" and "j < off \<or> off + p \<le> j"
  shows "decode [write_entries off p n lv] (leaf_written h (list_size lv) es lf) j = decode [lv] lf j"
  using assms by (auto simp: write_entries_def decode_leaf_kept simp del: decode.simps(1) split: prod.splits)

lemma decode_kept_2:
  assumes "row_ok [lv, lv'] j" and "j \<noteq> i"
  shows "decode [write_entries i 1 m lv, write_entries (list_size lv) m n lv'] (leaf_written h (list_size lv') es lf) j =
    decode [lv, lv'] lf j"
proof -
  obtain a k where e: "entries lv j = (a, k)" by fastforce
  have e': "entries (write_entries i 1 m lv) j = (a, k)" using assms(2) e by (simp add: write_entries_def)
  have "decode [write_entries (list_size lv) m n lv'] (leaf_written h (list_size lv') es lf) r = decode [lv'] lf r"
    if "r \<in> set [a..<a + k]" for r
    using that assms(1) e by (intro decode_kept_1) (auto simp: list_all_iff)
  then show ?thesis unfolding decode.simps(2) e e' by (simp del: decode.simps)
qed

text \<open>C15: reading an array of one or two dimensions into the nested list vectors of a column
  (\<^verbatim>\<open>AppendList\<close>), each of whose elements converts, stores in its row exactly the array with its shape and its
  nulls, whatever the rows before it have put into the child vectors, and leaves every row written before as it was.\<close>

theorem array_read_into_list:
  assumes "dims \<noteq> []" and "length dims \<le> 2" and "length (levels vec) = length dims" and "length es = prod_list dims"
    and "\<And>d. Some d \<in> set es \<Longrightarrow> conv d = Inr (h d)"
  shows "\<exists>vec'. AppendList conv dims es i vec = Inr vec' \<and>
    decode (levels vec') (leaf vec') i = reshape dims (map (map_option h) es) \<and>
    (\<forall>j. j \<noteq> i \<and> row_ok (levels vec) j \<longrightarrow> decode (levels vec') (leaf vec') j = decode (levels vec) (leaf vec) j)"
proof -
  obtain lvs lf where vec: "vec = \<lparr>levels = lvs, leaf = lf\<rparr>" by (cases vec)
  consider n lv where "dims = [n]" "lvs = [lv]" | m n lv lv' where "dims = [m, n]" "lvs = [lv, lv']"
    using assms(1-3) vec by (cases dims; cases lvs; cases "tl dims"; cases "tl lvs") auto
  then show ?thesis
  proof cases
    case 1
    have kept: "decode [write_entries i 1 n lv] (leaf_written h (list_size lv) es lf) j = decode [lv] lf j"
      if "j \<noteq> i" "row_ok [lv] j" for j using that by (intro decode_kept_1) auto
    show ?thesis
      using assms(4) 1 append_list_1 [of es conv h n i lv lf] assms(5) decode_1 [of es n i lv h lf] kept
      unfolding vec 1 by (intro exI [of _ "\<lparr>levels = [write_entries i 1 n lv], leaf = leaf_written h (list_size lv) es lf\<rparr>"])
        (simp del: decode.simps reshape.simps row_ok.simps)
  next
    case 2
    show ?thesis
      using assms(4) append_list_2 [of es conv h m n i lv lv' lf] assms(5) decode_2 [of es m n i lv lv' h lf] decode_kept_2
      unfolding vec 2 by (intro exI [of _ "\<lparr>levels = [write_entries i 1 m lv, write_entries (list_size lv) m n lv'],
          leaf = leaf_written h (list_size lv') es lf\<rparr>"])
        (auto simp del: decode.simps reshape.simps row_ok.simps)
  qed
qed

definition empty_level :: list_level where
  "empty_level = \<lparr>entries = (\<lambda>_. (0, 0)), list_size = 0\<rparr>"

theorem array_read_into_list_witness:
  "\<exists>vec'. AppendList Inr [2, 2] [Some 1, None, Some 3, Some (4 :: int)] 5 \<lparr>levels = [empty_level, empty_level], leaf = (\<lambda>_. None)\<rparr> = Inr vec' \<and>
    decode (levels vec') (leaf vec') 5 = NList [NList [NLeaf (Some 1), NLeaf None], NList [NLeaf (Some 3), NLeaf (Some 4)]]"
  using array_read_into_list [of "[2, 2]" "\<lparr>levels = [empty_level, empty_level], leaf = (\<lambda>_. None)\<rparr>"
    "[Some 1, None, Some 3, Some (4 :: int)]" Inr "\<lambda>d. d" 5]
  by (auto simp: upt_rec numeral_2_eq_2 option.map_ident)

text \<open>An array of three dimensions is not stored with its shape: for the two-by-one-by-two array
  \<^verbatim>\<open>{{{1,2}},{{3,4}}}\<close> the second sublist of the row reads an entry of the innermost list vector that was never
  written, because each level writes as many entries as the dimension before it has, not as many as there are
  sublists.\<close>

theorem third_dimension_lost:
  "\<exists>vec'. AppendList Inr [2, 1, 2] [Some 1, Some 2, Some 3, Some (4 :: int)] 0
      \<lparr>levels = [empty_level, empty_level, empty_level], leaf = (\<lambda>_. None)\<rparr> = Inr vec' \<and>
    decode (levels vec') (leaf vec') 0 = NList [NList [NList [NLeaf (Some 1), NLeaf (Some 2)]], NList [NList []]] \<and>
    reshape [2, 1, 2] [Some 1, Some 2, Some 3, Some (4 :: int)] =
      NList [NList [NList [NLeaf (Some 1), NLeaf (Some 2)]], NList [NList [NLeaf (Some 3), NLeaf (Some 4)]]]"
  by (simp add: AppendList_def write_elems_def write_entries_def empty_level_def upt_rec numeral_2_eq_2)

end
