(* ===== verification/Lake_Db.thy ===== *)
theory Lake_Db
  imports Guc "HOL-Library.Product_Lexorder"
begin

text \<open>
  The DuckLake metadata tables that the native writer reads and writes over SPI, and the inline heap
  of a table. Each table is a list of rows, in no particular order; the SQL statements of the
  source are functions on these lists. A \<^verbatim>\<open>bigint\<close> is an \<open>int\<close>, a nullable column an option.
  What PostgreSQL does not show to a reader (dead tuples, rows of other open transactions) is not in
  the lists.
\<close>

section \<open>Rows\<close>

record snapshot_row =
  sr_id :: int
  sr_schema_version :: "int option"
  sr_next_catalog_id :: "int option"
  sr_next_file_id :: "int option"

record change_row =
  cr_snapshot :: int
  cr_changes :: "string option"

record table_row =
  tr_table :: int
  tr_end :: "int option"

record inlined_row =
  ir_table :: int
  ir_schema :: "int option"

record stats_row =
  st_table :: int
  st_record_count :: "int option"
  st_next_row_id :: "int option"
  st_file_size :: int

record column_row =
  co_table :: int
  co_column :: "int option"
  co_end :: "int option"
  co_type :: "string option"
  co_parent :: "int option"
  co_order :: "int option"

record colstat_row =
  cs_table :: int
  cs_column :: "int option"
  cs_min :: "string option"
  cs_max :: "string option"
  cs_contains_null :: "bool option"
  cs_contains_nan :: "bool option"
  cs_extra :: "string option"

text \<open>A tuple of an inline heap: its physical address, the transaction and command that wrote it,
  the system columns of DuckLake, and the user columns.\<close>

type_synonym tid = "u32 \<times> u16"

record 'p heap_row =
  h_tid :: tid
  h_xmin :: u32
  h_cmin :: u32
  h_row_id :: "int option"
  h_begin :: "int option"
  h_end :: "int option"
  h_payload :: 'p

record 'p lake_db =
  db_metadata :: "(string \<times> string option) list"
  db_snapshots :: "snapshot_row list"
  db_changes :: "change_row list"
  db_tables :: "table_row list"
  db_inlined :: "inlined_row list"
  db_stats :: "stats_row list"
  db_columns :: "column_row list"
  db_colstats :: "colstat_row list"
  db_heap :: "oid \<Rightarrow> 'p heap_row list"

section \<open>Aggregates and scalar subqueries\<close>

text \<open>A sort key of \<^verbatim>\<open>ORDER BY\<close> over a nullable column: nulls come last.\<close>

definition nulls_last :: "int option \<Rightarrow> bool \<times> int" where
  "nulls_last v = (case v of None \<Rightarrow> (True, 0) | Some n \<Rightarrow> (False, n))"

text \<open>\<^verbatim>\<open>MAX\<close> over a nullable column: nulls do not count, and an empty input gives null.\<close>

definition sql_max :: "int option list \<Rightarrow> int option" where
  "sql_max xs = (case somes xs of [] \<Rightarrow> None | y # ys \<Rightarrow> Some (fold max ys y))"

lemma sql_max_None: "sql_max xs = None \<longleftrightarrow> (\<forall>x. Some x \<notin> set xs)"
  using set_somes [of xs] by (auto simp: sql_max_def split: list.splits)

lemma sql_max_Some:
  assumes "sql_max xs = Some m"
  shows "Some m \<in> set xs" "\<And>x. Some x \<in> set xs \<Longrightarrow> x \<le> m"
proof -
  obtain y ys where l: "somes xs = y # ys" and m: "m = fold max ys y"
    using assms by (auto simp: sql_max_def split: list.splits)
  have s: "insert y (set ys) = {x. Some x \<in> set xs}" using set_somes [of xs] l by simp
  have m': "m = Max {x. Some x \<in> set xs}" using m Max.set_eq_fold [of y ys] s by simp
  have fin: "finite {x. Some x \<in> set xs}" "{x. Some x \<in> set xs} \<noteq> {}" using s by (metis List.finite_set finite_insert, auto)
  show "Some m \<in> set xs" using Max_in [OF fin] m' by simp
  show "\<And>x. Some x \<in> set xs \<Longrightarrow> x \<le> m" using Max_ge [OF fin(1)] m' by simp
qed

lemma sql_max_eqI:
  assumes "Some m \<in> set xs" "\<And>x. Some x \<in> set xs \<Longrightarrow> x \<le> m"
  shows "sql_max xs = Some m"
proof (cases "sql_max xs")
  case None
  then show ?thesis using assms(1) by (auto simp: sql_max_None)
next
  case (Some k)
  then show ?thesis using sql_max_Some [OF Some] assms by (auto intro: antisym)
qed

text \<open>\<^verbatim>\<open>STRING_AGG(v, ',' ORDER BY k)\<close>: nulls are skipped; the result of no rows is null, which the
  query turns into the empty string.\<close>

fun join_commas :: "string list \<Rightarrow> string" where
  "join_commas [] = []"
| "join_commas [s] = s"
| "join_commas (s # t # ss) = s @ '','' @ join_commas (t # ss)"

definition string_agg :: "change_row list \<Rightarrow> string" where
  "string_agg rows = join_commas (somes (map cr_changes (sort_key cr_snapshot rows)))"

section \<open>Errors\<close>

text \<open>One constructor per \<^verbatim>\<open>ereport(ERROR)\<close> of the writer. A scalar subquery with two rows is
  PostgreSQL's own error.\<close>

datatype werror =
    ProtocolFieldNull string
  | ProtocolFieldNegative string
  | SubqueryMoreThanOneRow
  | CouldNotReadState
  | UnsupportedVersion string
  | TargetTableChanged
  | IncompleteChangeHistory
  | ForcedClientRetry
  | ConflictingChange
  | InvalidChangeRecord
  | OutOfMemory
  | ExhaustedIds
  | ExhaustedRowIds
  | TestFault NativeWriterTestFault
  | RowsNotBound
  | PrewrittenRowDisappeared
  | PrewrittenRowIdentityChanged
  | RetaggedRowCount
  | TableStatsRowDisappeared
  | ColumnStatsChangedConcurrently
  | RetriesExceeded
  | NotImplicitReadCommitted
  | InsideSubtransaction
  | PointersSpanRelations

text \<open>A non-negative \<^verbatim>\<open>bigint\<close> of the metadata as an unsigned word.\<close>

definition GetRequiredProtocolUInt64 :: "int option \<Rightarrow> string \<Rightarrow> werror + u64" where
  "GetRequiredProtocolUInt64 v field_name =
     (case v of
        None \<Rightarrow> Inl (ProtocolFieldNull field_name)
      | Some n \<Rightarrow> if n < 0 then Inl (ProtocolFieldNegative field_name) else Inr (word_of_int n))"

definition bigint :: "int \<Rightarrow> bool" where
  "bigint n \<longleftrightarrow> - (2 ^ 63) \<le> n \<and> n < 2 ^ 63"

lemma uint_of_bigint: "0 \<le> n \<Longrightarrow> bigint n \<Longrightarrow> uint (word_of_int n :: u64) = n"
  by (simp add: bigint_def uint_word_of_int_eq take_bit_int_eq_self)

lemma GetRequired_Inr:
  assumes "GetRequiredProtocolUInt64 v f = Inr w" "\<And>n. v = Some n \<Longrightarrow> bigint n"
  shows "v = Some (uint w)" "uint w < 2 ^ 63"
proof -
  obtain n where n: "v = Some n" "0 \<le> n" "w = word_of_int n"
    using assms(1) by (auto simp: GetRequiredProtocolUInt64_def split: option.splits if_splits)
  then have "uint w = n" using uint_of_bigint assms(2) by simp
  then show "v = Some (uint w)" "uint w < 2 ^ 63" using n assms(2) by (simp_all add: bigint_def)
qed

end
