(* ===== verification/C_Strings.thy ===== *)
theory C_Strings
  imports Lake_Prelude
begin

text \<open>
  The C string functions that the extension calls, on strings without their terminator, and the
  contract of a three-way comparison, which \<^verbatim>\<open>strcmp\<close> and the B-tree comparison functions of
  PostgreSQL share. \<open>widen\<close> is how both column-statistics accumulators extend a range by a value.
\<close>

section \<open>Three-way comparisons\<close>

text \<open>Extend the range \<open>(lo, hi)\<close> by a value: with two independent tests, or with \<^verbatim>\<open>else if\<close>.\<close>

fun widen :: "('d \<Rightarrow> 'd \<Rightarrow> int) \<Rightarrow> 'd \<Rightarrow> 'd \<times> 'd \<Rightarrow> 'd \<times> 'd" where
  "widen cmp v (lo, hi) = (if cmp v lo < 0 then v else lo, if cmp v hi > 0 then v else hi)"

fun widen_else :: "('d \<Rightarrow> 'd \<Rightarrow> int) \<Rightarrow> 'd \<Rightarrow> 'd \<times> 'd \<Rightarrow> 'd \<times> 'd" where
  "widen_else cmp v (lo, hi) = (if cmp v lo < 0 then (v, hi) else if cmp v hi > 0 then (lo, v) else (lo, hi))"

definition range_ok :: "('d \<Rightarrow> 'd \<Rightarrow> int) \<Rightarrow> 'd \<times> 'd \<Rightarrow> 'd set \<Rightarrow> bool" where
  "range_ok cmp r X \<longleftrightarrow> cmp (fst r) (snd r) \<le> 0 \<and> (\<forall>x \<in> X. cmp (fst r) x \<le> 0 \<and> cmp x (snd r) \<le> 0)"

locale three_way =
  fixes cmp :: "'d \<Rightarrow> 'd \<Rightarrow> int"
  assumes sign: "cmp x y < 0 \<longleftrightarrow> cmp y x > 0"
    and le_trans: "cmp x y \<le> 0 \<Longrightarrow> cmp y z \<le> 0 \<Longrightarrow> cmp x z \<le> 0"
begin

lemma le_refl: "cmp x x \<le> 0"
  using sign [of x x] by linarith

lemma not_less: "\<not> cmp x y < 0 \<Longrightarrow> cmp y x \<le> 0"
  using sign [of x y] by linarith

lemma not_greater: "\<not> cmp x y > 0 \<Longrightarrow> cmp x y \<le> 0"
  by linarith

text \<open>The range of \<open>widen\<close> holds every value seen, and so does the range of \<open>widen_else\<close>: once the range is in
  order, a value below it cannot also be above it.\<close>

lemma widen_else_eq: "cmp lo hi \<le> 0 \<Longrightarrow> widen_else cmp v (lo, hi) = widen cmp v (lo, hi)"
  using le_trans [of v lo hi] by auto

lemma widen_ordered: "cmp (fst r) (snd r) \<le> 0 \<Longrightarrow> cmp (fst (widen cmp v r)) (snd (widen cmp v r)) \<le> 0"
  using le_trans [of v "fst r" "snd r"] le_trans [of "fst r" "snd r" v] le_refl [of v] sign [of "snd r" v]
  by (cases r) (auto simp: le_refl)

lemma widen_covers_old:
  assumes "cmp (fst r) x \<le> 0" "cmp x (snd r) \<le> 0"
  shows "cmp (fst (widen cmp v r)) x \<le> 0" "cmp x (snd (widen cmp v r)) \<le> 0"
  using assms le_trans [of v "fst r" x] le_trans [of x "snd r" v] sign [of "snd r" v]
  by (cases r; auto)+

lemma widen_covers_new: "cmp (fst (widen cmp v r)) v \<le> 0" "cmp v (snd (widen cmp v r)) \<le> 0"
  using not_less [of v "fst r"] le_refl [of v] by (cases r; auto)+

lemma range_ok_single: "range_ok cmp (v, v) {v}"
  by (simp add: range_ok_def le_refl)

lemma range_ok_widen: "range_ok cmp r X \<Longrightarrow> range_ok cmp (widen cmp v r) (insert v X)"
  using widen_ordered widen_covers_old widen_covers_new by (auto simp: range_ok_def)

lemma range_ok_widen_else: "range_ok cmp r X \<Longrightarrow> range_ok cmp (widen_else cmp v r) (insert v X)"
  using range_ok_widen [of r X v] widen_else_eq [of "fst r" "snd r" v] by (cases r) (simp add: range_ok_def)

end

section \<open>Strings\<close>

fun strcmp :: "string \<Rightarrow> string \<Rightarrow> int" where
  "strcmp [] [] = 0"
| "strcmp [] (d # ds) = - 1"
| "strcmp (c # cs) [] = 1"
| "strcmp (c # cs) (d # ds) =
     (if c = d then strcmp cs ds else if (of_char c :: nat) < of_char d then - 1 else 1)"

lemma strcmp_eq_0 [simp]: "strcmp s t = 0 \<longleftrightarrow> s = t"
  by (induction s t rule: strcmp.induct) auto

lemma strcmp_neg: "strcmp s t < 0 \<longleftrightarrow> strcmp t s > 0"
  by (induction s t rule: strcmp.induct) (auto simp: not_less le_less)

lemma strcmp_trans: "strcmp s t \<le> 0 \<Longrightarrow> strcmp t u \<le> 0 \<Longrightarrow> strcmp s u \<le> 0"
proof (induction s t arbitrary: u rule: strcmp.induct)
  case (2 d ds)
  then show ?case by (cases u) auto
next
  case (4 c cs d ds)
  then show ?case by (cases u) (auto split: if_splits)
qed auto

interpretation strcmp_order: three_way strcmp
  by unfold_locales (use strcmp_neg strcmp_trans in auto)

text \<open>Comparison without regard to the case of ASCII letters, as \<^verbatim>\<open>pg_strcasecmp\<close> and
  \<^verbatim>\<open>pg_strncasecmp\<close> do in the C locale.\<close>

definition pg_tolower :: "char \<Rightarrow> char" where
  "pg_tolower c = (let n = of_char c :: nat in if 65 \<le> n \<and> n \<le> 90 then char_of (n + 32) else c)"

definition pg_strcasecmp :: "string \<Rightarrow> string \<Rightarrow> int" where
  "pg_strcasecmp s t = strcmp (map pg_tolower s) (map pg_tolower t)"

definition pg_strncasecmp :: "string \<Rightarrow> string \<Rightarrow> nat \<Rightarrow> int" where
  "pg_strncasecmp s t n = pg_strcasecmp (take n s) (take n t)"

definition strchr :: "string \<Rightarrow> char \<Rightarrow> bool" where
  "strchr s c = list_ex (\<lambda>d. d = c) s"

lemma pg_strcasecmp_eq_0: "pg_strcasecmp s t = 0 \<longleftrightarrow> map pg_tolower s = map pg_tolower t"
  by (simp add: pg_strcasecmp_def)

text \<open>Strings with a separator between them.\<close>

fun join_with :: "string \<Rightarrow> string list \<Rightarrow> string" where
  "join_with sep [] = ''''"
| "join_with sep [x] = x"
| "join_with sep (x # y # ys) = x @ sep @ join_with sep (y # ys)"

lemma join_with_snoc: "xs \<noteq> [] \<Longrightarrow> join_with sep (xs @ [x]) = join_with sep xs @ sep @ x"
  by (induction sep xs rule: join_with.induct) simp_all

end
