(* ===== verification/Pg_Nodes.thy ===== *)
theory Pg_Nodes
  imports Lake_Db C_Strings
begin

text \<open>
  The part of PostgreSQL's parse tree that the planner hooks inspect. Expressions, target entries,
  range-table entries and queries refer to each other; scalar fields of a query or of a range-table
  entry are records. A clause that the extension only tests for presence is a flag of the record, and
  its expressions are in \<open>q_clauses\<close>. Node types that no function of the extension distinguishes are
  \<open>OtherExpr\<close> with their result type and their arguments. The first two fields of an operator expression are
  \<^verbatim>\<open>opfuncid\<close> and \<^verbatim>\<open>opresulttype\<close>; those of a function call \<^verbatim>\<open>funcid\<close>, \<^verbatim>\<open>funcretset\<close> and \<^verbatim>\<open>funcresulttype\<close>.
\<close>

datatype cmd_type = CMD_SELECT | CMD_INSERT | CMD_UPDATE | CMD_DELETE | CMD_OTHER

datatype rte_kind = RTE_RELATION | RTE_SUBQUERY | RTE_VALUES | RTE_OTHER

record rte_head =
  rtekind :: rte_kind
  relid :: oid
  inh :: bool

record query_head =
  commandType :: cmd_type
  resultRelation :: int
  utilityStmt :: bool
  hasAggs :: bool
  hasWindowFuncs :: bool
  hasTargetSRFs :: bool
  hasSubLinks :: bool
  hasDistinctOn :: bool
  hasRecursive :: bool
  hasModifyingCTE :: bool
  hasForUpdate :: bool
  hasRowSecurity :: bool
  isReturn :: bool
  override_set :: bool
  onConflict :: bool
  returningList :: bool
  groupClause :: bool
  groupDistinct :: bool
  groupingSets :: bool
  havingQual :: bool
  windowClause :: bool
  distinctClause :: bool
  sortClause :: bool
  limitOffset :: bool
  limitCount :: bool
  rowMarks :: bool
  setOperations :: bool
  withCheckOptions :: bool

datatype expr =
    Var int int
  | Param bool int oid
  | Const oid "string option"
  | FuncExpr oid bool oid "expr list"
  | OpExpr oid oid "expr list"
  | DistinctExpr oid oid "expr list"
  | NullIfExpr oid oid "expr list"
  | ScalarArrayOpExpr oid "expr list"
  | Aggref oid "expr list"
  | GroupingFunc "expr list"
  | WindowFunc "expr list"
  | SubLink "expr list" query
  | SubPlan "expr list"
  | AlternativeSubPlan "expr list"
  | CurrentOfExpr
  | OtherExpr oid "expr list"
and tle = TargetEntry (te_expr: expr) (resno: int) (resjunk: bool)
and from_item = RangeTblRef int | JoinExpr "expr list" "from_item list"
and jointree = FromExpr (fromlist: "from_item list") (quals: "expr option")
and rte = RangeTblEntry (r_head: rte_head) (values_lists: "expr list list") (rte_exprs: "expr list") (subquery: "query option")
and query = Query (q_head: query_head) (cteList: "query list") (rtable: "rte list") (q_jointree: "jointree option")
    (targetList: "tle list") (q_clauses: "expr list")

section \<open>The tree walkers\<close>

text \<open>What \<^verbatim>\<open>expression_tree_walker\<close> visits below a node, with the sub-queries apart.\<close>

fun children :: "expr \<Rightarrow> expr list" where
  "children (FuncExpr _ _ _ args) = args"
| "children (OpExpr _ _ args) = args"
| "children (DistinctExpr _ _ args) = args"
| "children (NullIfExpr _ _ args) = args"
| "children (ScalarArrayOpExpr _ args) = args"
| "children (Aggref _ args) = args"
| "children (GroupingFunc args) = args"
| "children (WindowFunc args) = args"
| "children (SubLink args _) = args"
| "children (SubPlan args) = args"
| "children (AlternativeSubPlan args) = args"
| "children (OtherExpr _ args) = args"
| "children _ = []"

fun sub_query :: "expr \<Rightarrow> query list" where
  "sub_query (SubLink _ q) = [q]"
| "sub_query _ = []"

text \<open>What \<^verbatim>\<open>query_tree_walker\<close> visits in a query.\<close>

fun from_exprs :: "from_item \<Rightarrow> expr list" where
  "from_exprs (RangeTblRef _) = []"
| "from_exprs (JoinExpr es items) = es @ concat (map from_exprs items)"

fun jointree_exprs :: "jointree \<Rightarrow> expr list" where
  "jointree_exprs (FromExpr items qs) = concat (map from_exprs items) @ (case qs of None \<Rightarrow> [] | Some e \<Rightarrow> [e])"

fun rte_children :: "rte \<Rightarrow> expr list" where
  "rte_children (RangeTblEntry _ vs es _) = concat vs @ es"

fun rte_queries :: "rte \<Rightarrow> query list" where
  "rte_queries (RangeTblEntry _ _ _ sub) = (case sub of None \<Rightarrow> [] | Some q \<Rightarrow> [q])"

fun query_exprs :: "query \<Rightarrow> expr list" where
  "query_exprs (Query _ _ rt jt ts clauses) =
     map te_expr ts @ clauses @ (case jt of None \<Rightarrow> [] | Some j \<Rightarrow> jointree_exprs j) @ concat (map rte_children rt)"

fun query_queries :: "query \<Rightarrow> query list" where
  "query_queries (Query _ ctes rt _ _ _) = ctes @ concat (map rte_queries rt)"

lemma size_list_mem: "x \<in> set xs \<Longrightarrow> f x \<le> size_list f xs"
  by (induction xs) auto

lemma size_children: "x \<in> set (children e) \<Longrightarrow> size x < size e"
  by (cases e) (auto dest: size_list_mem [of _ _ size])

lemma size_sub_query: "q \<in> set (sub_query e) \<Longrightarrow> size q < size e"
  by (cases e) auto

lemma size_from_exprs: "x \<in> set (from_exprs i) \<Longrightarrow> size x < size i"
proof (induction i rule: from_exprs.induct)
  case (2 es items)
  from 2(2) consider "x \<in> set es" | i where "i \<in> set items" "x \<in> set (from_exprs i)" by auto
  then show ?case
  proof cases
    case 1
    then show ?thesis using size_list_mem [of x es size] by simp
  next
    case i: 2
    then show ?thesis using 2(1) [OF i] size_list_mem [OF i(1), of size] by simp
  qed
qed simp

lemma size_jointree_exprs: "x \<in> set (jointree_exprs j) \<Longrightarrow> size x < size j"
  by (cases j) (fastforce dest: size_from_exprs size_list_mem [of _ _ size] split: option.splits)

lemma size_te_expr: "size (te_expr t) < size t"
  by (cases t) simp

lemma size_rte_children: "x \<in> set (rte_children r) \<Longrightarrow> size x < size r"
  by (cases r) (fastforce dest: size_list_mem [of _ _ size] size_list_mem [of _ _ "size_list size"])

lemma size_rte_queries: "x \<in> set (rte_queries r) \<Longrightarrow> size x < size r"
  by (cases r) (auto split: option.splits)

lemma size_query_exprs: "x \<in> set (query_exprs q) \<Longrightarrow> size x < size q"
proof (cases q)
  case (Query h ctes rt jt ts clauses)
  moreover assume "x \<in> set (query_exprs q)"
  ultimately consider t where "t \<in> set ts" "x = te_expr t" | "x \<in> set clauses" | j where "jt = Some j" "x \<in> set (jointree_exprs j)"
    | r where "r \<in> set rt" "x \<in> set (rte_children r)"
    by (auto split: option.splits)
  then show ?thesis
  proof cases
    case (1 t)
    then show ?thesis using Query size_te_expr [of t] size_list_mem [of t ts size] by simp
  next
    case 2
    then show ?thesis using Query size_list_mem [of x clauses size] by simp
  next
    case (3 j)
    then show ?thesis using Query size_jointree_exprs [of x j] by simp
  next
    case (4 r)
    then show ?thesis using Query size_rte_children [of x r] size_list_mem [of r rt size] by simp
  qed
qed

lemma size_query_queries: "x \<in> set (query_queries q) \<Longrightarrow> size x < size q"
  by (cases q) (fastforce dest: size_list_mem [of _ _ size] size_rte_queries)

text \<open>A walker that looks for a node and does not enter sub-queries.\<close>

function tree_ex :: "(expr \<Rightarrow> bool) \<Rightarrow> expr \<Rightarrow> bool" where
  "tree_ex P e \<longleftrightarrow> P e \<or> list_ex (tree_ex P) (children e)"
  by pat_completeness auto
termination by (relation "measure (size \<circ> snd)") (auto dest: size_children)

declare tree_ex.simps [simp del]

text \<open>The nodes below an expression.\<close>

inductive below :: "expr \<Rightarrow> expr \<Rightarrow> bool" where
  "below e e"
| "c \<in> set (children e) \<Longrightarrow> below d c \<Longrightarrow> below d e"

lemma tree_ex_iff: "tree_ex P e \<longleftrightarrow> (\<exists>d. below d e \<and> P d)"
proof
  show "tree_ex P e \<Longrightarrow> \<exists>d. below d e \<and> P d"
  proof (induction P e rule: tree_ex.induct)
    case (1 P e)
    from 1(2) consider "P e" | c where "c \<in> set (children e)" "tree_ex P c"
      unfolding tree_ex.simps [of P e] list_ex_iff by blast
    then show ?case using 1(1) below.intros by cases blast+
  qed
  have "tree_ex P e" if "below d e" "P d" for d
    using that
  proof (induction rule: below.induct)
    case (1 e)
    then show ?case unfolding tree_ex.simps [of P e] by simp
  next
    case (2 c e d)
    then show ?case unfolding tree_ex.simps [of P e] list_ex_iff by blast
  qed
  then show "\<exists>d. below d e \<and> P d \<Longrightarrow> tree_ex P e" by blast
qed

end
