(* ===== verification/Native_Column_Stats.thy ===== *)
theory Native_Column_Stats
  imports Lake_Db
begin

text \<open>
  The column statistics of a publication, \<^verbatim>\<open>native_inline_writer.cpp\<close> from \<^verbatim>\<open>MergedColumnStat\<close> to
  \<^verbatim>\<open>ApplyMergedColumnStats\<close>: the batch's contribution is merged into the persisted row of each
  column, and the rows that changed are written back.

  DuckLake's own statistics classes are third-party code. They are the record \<open>ducklake_api\<close>, an
  argument of the definitions: parsing of a type name, decoding of a persisted row, the cast of a
  bound to its canonical text, and the merge.
\<close>

section \<open>Data\<close>

record NativeInlineColumnStat =
  in_column_id :: u64
  in_column_type :: string
  invalidate_all :: bool
  bounds_safe :: bool
  in_has_min :: bool
  in_has_max :: bool
  in_min_value :: string
  in_max_value :: string
  observed_null :: bool
  nan_known :: bool
  observed_nan :: bool

text \<open>The fields of DuckLake's statistics objects that the writer sets or reads.\<close>

record global_stats =
  gs_column_id :: u64
  gs_min :: "string option"
  gs_max :: "string option"
  gs_contains_null :: "bool option"
  gs_contains_nan :: "bool option"
  gs_extra :: "string option"

record column_stats =
  dc_min :: "string option"
  dc_max :: "string option"
  dc_any_valid :: bool
  dc_null_count :: "nat option"
  dc_contains_nan :: "bool option"

datatype dl_exn = DlOutOfMemory | DlOther

record 'ty ducklake_api =
  dl_FromString :: "string \<Rightarrow> dl_exn + 'ty"
  dl_FromGlobalStats :: "'ty \<Rightarrow> global_stats \<Rightarrow> dl_exn + column_stats"
  dl_DefaultCastToString :: "'ty \<Rightarrow> string \<Rightarrow> dl_exn + string"
  dl_MergeStats :: "'ty \<Rightarrow> column_stats \<Rightarrow> column_stats \<Rightarrow> dl_exn + column_stats"

text \<open>Whether \<^verbatim>\<open>malloc\<close> and \<^verbatim>\<open>MemoryContextAllocExtended\<close> succeed for a size.\<close>

record memory =
  malloc_ok :: "nat \<Rightarrow> bool"
  context_alloc_ok :: "nat \<Rightarrow> bool"

record MergedColumnStat =
  mc_column_id :: u64
  mc_changed :: bool
  mc_has_min :: bool
  mc_has_max :: bool
  mc_min_value :: "string option"
  mc_max_value :: "string option"
  mc_has_contains_null :: bool
  mc_contains_null :: bool
  mc_has_contains_nan :: bool
  mc_contains_nan :: bool

definition zero_merged :: "u64 \<Rightarrow> MergedColumnStat" where
  "zero_merged c = \<lparr>mc_column_id = c, mc_changed = False, mc_has_min = False, mc_has_max = False,
     mc_min_value = None, mc_max_value = None, mc_has_contains_null = False, mc_contains_null = False,
     mc_has_contains_nan = False, mc_contains_nan = False\<rparr>"

datatype ColumnStatMergeResult = MergeOK | MergeINVALID | MergeOUT_OF_MEMORY

section \<open>Merging one column\<close>

text \<open>A copy of a string with its terminator, outside every memory context.\<close>

definition SIZE_MAX :: int where
  "SIZE_MAX = 18446744073709551615"

definition CopyToMalloc :: "memory \<Rightarrow> string \<Rightarrow> string option" where
  "CopyToMalloc mem v =
     (if int (length v) = SIZE_MAX then None
      else if \<not> malloc_ok mem (length v + 1) then None else Some v)"

definition MaxAllocSize :: int where
  "MaxAllocSize = 1073741823"

definition context_copy :: "memory \<Rightarrow> string option \<Rightarrow> string option option" where
  "context_copy mem v =
     (case v of
        None \<Rightarrow> Some None
      | Some s \<Rightarrow> if int (length s) + 1 \<le> MaxAllocSize \<and> context_alloc_ok mem (length s + 1) then Some (Some s) else None)"

definition MoveMergedBoundsToContext :: "memory \<Rightarrow> MergedColumnStat \<Rightarrow> MergedColumnStat \<times> bool" where
  "MoveMergedBoundsToContext mem result =
     (case (context_copy mem (mc_min_value result), context_copy mem (mc_max_value result)) of
        (Some mn, Some mx) \<Rightarrow> (result\<lparr>mc_min_value := mn, mc_max_value := mx\<rparr>, True)
      | _ \<Rightarrow> (result\<lparr>mc_min_value := None, mc_max_value := None\<rparr>, False))"

text \<open>The \<^verbatim>\<open>try\<close> block of \<^verbatim>\<open>MergeColumnStat\<close> up to the merge: an exception of DuckLake ends it.\<close>

definition optional_cast :: "'ty ducklake_api \<Rightarrow> 'ty \<Rightarrow> bool \<Rightarrow> string \<Rightarrow> dl_exn + string option" where
  "optional_cast api ty present v =
     (if present then andthen (dl_DefaultCastToString api ty v) (\<lambda>s. Inr (Some s)) else Inr None)"

definition merge_in_ducklake :: "'ty ducklake_api \<Rightarrow> NativeInlineColumnStat \<Rightarrow> global_stats \<Rightarrow> dl_exn + column_stats" where
  "merge_in_ducklake api incoming persisted =
     andthen (dl_FromString api (in_column_type incoming)) (\<lambda>ty.
     andthen (dl_FromGlobalStats api ty persisted) (\<lambda>current.
     andthen (optional_cast api ty (in_has_min incoming) (in_min_value incoming)) (\<lambda>mn.
     andthen (optional_cast api ty (in_has_max incoming) (in_max_value incoming)) (\<lambda>mx.
       dl_MergeStats api ty current
         \<lparr>dc_min = mn, dc_max = mx, dc_any_valid = (mn \<noteq> None \<or> mx \<noteq> None),
          dc_null_count = Some (if observed_null incoming then 1 else 0),
          dc_contains_nan = (if nan_known incoming then Some (observed_nan incoming) else None)\<rparr>))))"

text \<open>The copies of the merged bounds, after the merge.\<close>

definition store_bounds :: "memory \<Rightarrow> MergedColumnStat \<Rightarrow> string option \<Rightarrow> string option \<Rightarrow> MergedColumnStat \<times> ColumnStatMergeResult" where
  "store_bounds mem result mn mx =
     (let r0 = result\<lparr>mc_has_min := mn \<noteq> None, mc_has_max := mx \<noteq> None\<rparr> in
      case (case mn of None \<Rightarrow> Some None | Some s \<Rightarrow> map_option Some (CopyToMalloc mem s)) of
        None \<Rightarrow> (r0, MergeOUT_OF_MEMORY)
      | Some mn' \<Rightarrow>
          (case (case mx of None \<Rightarrow> Some None | Some s \<Rightarrow> map_option Some (CopyToMalloc mem s)) of
             None \<Rightarrow> (r0, MergeOUT_OF_MEMORY)
           | Some mx' \<Rightarrow> (r0\<lparr>mc_min_value := mn', mc_max_value := mx'\<rparr>, MergeOK)))"

definition MergeColumnStat ::
  "'ty ducklake_api \<Rightarrow> memory \<Rightarrow> NativeInlineColumnStat \<Rightarrow> string option \<Rightarrow> string option \<Rightarrow> bool option \<Rightarrow> bool option \<Rightarrow>
   string option \<Rightarrow> bool \<Rightarrow> MergedColumnStat \<Rightarrow> MergedColumnStat \<times> ColumnStatMergeResult" where
  "MergeColumnStat api mem incoming min_value max_value contains_null contains_nan extra_stats initializing result =
     (if invalidate_all incoming then (result, MergeOK)
      else
        let r = result\<lparr>mc_has_contains_null := initializing \<or> contains_null \<noteq> None,
                       mc_contains_null := contains_null = Some True \<or> observed_null incoming,
                       mc_has_contains_nan := contains_nan \<noteq> None,
                       mc_contains_nan := contains_nan = Some True \<or> (nan_known incoming \<and> observed_nan incoming)\<rparr>
        in if \<not> bounds_safe incoming then (r, MergeOK)
           else case merge_in_ducklake api incoming
                  \<lparr>gs_column_id = in_column_id incoming, gs_min = min_value, gs_max = max_value,
                   gs_contains_null = contains_null, gs_contains_nan = contains_nan, gs_extra = extra_stats\<rparr> of
                  Inl DlOutOfMemory \<Rightarrow> (r, MergeOUT_OF_MEMORY)
                | Inl DlOther \<Rightarrow> (r\<lparr>mc_has_min := False, mc_has_max := False\<rparr>, MergeINVALID)
                | Inr current \<Rightarrow>
                    store_bounds mem r (if initializing \<or> min_value \<noteq> None then dc_min current else None)
                      (if initializing \<or> max_value \<noteq> None then dc_max current else None))"

section \<open>All columns of the table\<close>

definition FindIncomingColumnStat :: "NativeInlineColumnStat list \<Rightarrow> u64 \<Rightarrow> NativeInlineColumnStat option" where
  "FindIncomingColumnStat column_stats column_id = find (\<lambda>s. in_column_id s = column_id) column_stats"

definition ColumnStatsChanged ::
  "MergedColumnStat \<Rightarrow> string option \<Rightarrow> string option \<Rightarrow> bool option \<Rightarrow> bool option \<Rightarrow> string option \<Rightarrow> bool" where
  "ColumnStatsChanged merged min_value max_value contains_null contains_nan extra_stats \<longleftrightarrow>
     mc_has_min merged \<noteq> (min_value \<noteq> None) \<or> (mc_has_min merged \<and> mc_min_value merged \<noteq> min_value) \<or>
     mc_has_max merged \<noteq> (max_value \<noteq> None) \<or> (mc_has_max merged \<and> mc_max_value merged \<noteq> max_value) \<or>
     mc_has_contains_null merged \<noteq> (contains_null \<noteq> None) \<or>
     (mc_has_contains_null merged \<and> mc_contains_null merged \<noteq> (contains_null = Some True)) \<or>
     mc_has_contains_nan merged \<noteq> (contains_nan \<noteq> None) \<or>
     (mc_has_contains_nan merged \<and> mc_contains_nan merged \<noteq> (contains_nan = Some True)) \<or> extra_stats \<noteq> None"

text \<open>One turn of the loop: merge, move the bounds out of the heap, and note whether the row changes.\<close>

definition prepare_column ::
  "'ty ducklake_api \<Rightarrow> memory \<Rightarrow> NativeInlineColumnStat option \<Rightarrow> colstat_row \<Rightarrow> bool \<Rightarrow> u64 \<Rightarrow> werror + MergedColumnStat" where
  "prepare_column api mem incoming row initializing column_id =
     (let (merged, merge_result) =
            (case incoming of
               None \<Rightarrow> (zero_merged column_id, MergeOK)
             | Some inc \<Rightarrow> MergeColumnStat api mem inc (cs_min row) (cs_max row) (cs_contains_null row)
                             (cs_contains_nan row) (cs_extra row) initializing (zero_merged column_id));
          (moved, ok) = (if merge_result = MergeOK then MoveMergedBoundsToContext mem merged else (merged, True))
      in if merge_result = MergeOUT_OF_MEMORY \<or> \<not> ok then Inl OutOfMemory
         else Inr (moved\<lparr>mc_changed := ColumnStatsChanged moved (cs_min row) (cs_max row) (cs_contains_null row)
                                         (cs_contains_nan row) (cs_extra row)\<rparr>))"

definition no_colstat :: "int \<Rightarrow> colstat_row" where
  "no_colstat t = \<lparr>cs_table = t, cs_column = None, cs_min = None, cs_max = None, cs_contains_null = None,
     cs_contains_nan = None, cs_extra = None\<rparr>"

fun prepare_columns :: "('a \<Rightarrow> werror + MergedColumnStat) \<Rightarrow> 'a list \<Rightarrow> werror + MergedColumnStat list" where
  "prepare_columns f [] = Inr []"
| "prepare_columns f (x # xs) = andthen (f x) (\<lambda>m. andthen (prepare_columns f xs) (\<lambda>ms. Inr (m # ms)))"

definition PrepareMergedColumnStats ::
  "'ty ducklake_api \<Rightarrow> memory \<Rightarrow> u64 \<Rightarrow> NativeInlineColumnStat list \<Rightarrow> bool \<Rightarrow> colstat_row list \<Rightarrow> werror + MergedColumnStat list" where
  "PrepareMergedColumnStats api mem table_id column_stats initializing colstats =
     (if initializing
      then prepare_columns (\<lambda>inc. prepare_column api mem (Some inc) (no_colstat (uint table_id)) True (in_column_id inc)) column_stats
      else prepare_columns (\<lambda>row.
             andthen (GetRequiredProtocolUInt64 (cs_column row) ''column_id'') (\<lambda>cid.
               prepare_column api mem (FindIncomingColumnStat column_stats cid) row False cid))
             (filter (\<lambda>row. cs_table row = uint table_id) colstats))"

text \<open>The \<^verbatim>\<open>UPDATE ... FROM (VALUES ...)\<close>: a row takes the values of the changed entry with its
  column. A row joined by several entries is updated once, from one of them.\<close>

definition apply_merged :: "MergedColumnStat \<Rightarrow> colstat_row \<Rightarrow> colstat_row" where
  "apply_merged m row =
     row\<lparr>cs_min := (if mc_has_min m then mc_min_value m else None),
         cs_max := (if mc_has_max m then mc_max_value m else None),
         cs_contains_null := (if mc_has_contains_null m then Some (mc_contains_null m) else None),
         cs_contains_nan := (if mc_has_contains_nan m then Some (mc_contains_nan m) else None),
         cs_extra := None\<rparr>"

definition matching_update :: "u64 \<Rightarrow> MergedColumnStat list \<Rightarrow> colstat_row \<Rightarrow> MergedColumnStat option" where
  "matching_update table_id changed row =
     (if cs_table row = uint table_id then find (\<lambda>m. cs_column row = Some (uint (mc_column_id m))) changed else None)"

definition ApplyMergedColumnStats :: "u64 \<Rightarrow> MergedColumnStat list \<Rightarrow> colstat_row list \<Rightarrow> werror + colstat_row list" where
  "ApplyMergedColumnStats table_id prepared colstats =
     (let changed = filter mc_changed prepared in
      if changed = [] then Inr colstats
      else if length (filter (\<lambda>row. matching_update table_id changed row \<noteq> None) colstats) \<noteq> length changed
      then Inl ColumnStatsChangedConcurrently
      else Inr (map (\<lambda>row. case matching_update table_id changed row of None \<Rightarrow> row | Some m \<Rightarrow> apply_merged m row) colstats))"

end
