(* ===== verification/Native_Writer_Queue.thy ===== *)
theory Native_Writer_Queue
  imports Guc
begin

text \<open>
  The reservation queue of the native writer,
  \<^verbatim>\<open>pg_ducklake/src/direct_insert/native_writer_queue.cpp\<close>: a bounded array of slots in shared
  memory that hands out tickets, and predicts from the ticket order the snapshot id and the
  row-id range each writer will publish.

  A function of the source that runs under the spinlock is a function on the record \<open>queue\<close>; a
  function that takes and drops the lock several times is composed of such critical sections,
  with what other backends do in between as an argument. Slot pointers are indices into the
  array. The condition variable carries no data: a broadcast changes nothing in the model.
\<close>

section \<open>Data\<close>

definition MAX_RESERVATIONS :: nat where
  "MAX_RESERVATIONS = 256"

definition OWNER_CHECK_INTERVAL_MS :: int where
  "OWNER_CHECK_INTERVAL_MS = 100"

definition INVALID_SLOT :: u32 where
  "INVALID_SLOT = 4294967295"

record CatalogKey =
  database_oid :: oid
  snapshot_relation_oid :: oid

record OwnerIdentity =
  proc_number :: int
  vxid_id :: u32
  lxid :: u32
  xid :: u32
  pid :: int

record ReservationSlot =
  in_use :: bool
  valid :: bool
  committed :: bool
  row_assigned :: bool
  row_count_known :: bool
  catalog :: CatalogKey
  ticket :: u64
  owner :: OwnerIdentity
  owner_command_id :: u32
  slot_table_id :: u64
  candidate_snapshot_id :: u64
  candidate_row_id :: u64
  row_count :: u64
  queue_wait_blocker_ticket :: u64
  queue_wait_deadline :: int

record queue =
  next_ticket :: u64
  slots :: "ReservationSlot list"

record NativeWriterReservation =
  slot_no :: u32
  res_ticket :: u64
  active :: bool

record NativeWriterReservationResult =
  reservation :: NativeWriterReservation
  result_snapshot_id :: u64
  result_row_id :: u64

record LocalReservation =
  local_reservation :: NativeWriterReservation
  published :: bool

record BlockingReservation =
  blk_catalog :: CatalogKey
  blk_ticket :: u64
  blk_owner :: OwnerIdentity

text \<open>All-zero memory, as \<^verbatim>\<open>MemSet(&slot, 0, sizeof(slot))\<close> leaves it.\<close>

definition zero_catalog :: CatalogKey where
  "zero_catalog = \<lparr>database_oid = 0, snapshot_relation_oid = 0\<rparr>"

definition zero_owner :: OwnerIdentity where
  "zero_owner = \<lparr>proc_number = 0, vxid_id = 0, lxid = 0, xid = 0, pid = 0\<rparr>"

definition zero_slot :: ReservationSlot where
  "zero_slot = \<lparr>in_use = False, valid = False, committed = False, row_assigned = False,
     row_count_known = False, catalog = zero_catalog, ticket = 0, owner = zero_owner,
     owner_command_id = 0, slot_table_id = 0, candidate_snapshot_id = 0, candidate_row_id = 0,
     row_count = 0, queue_wait_blocker_ticket = 0, queue_wait_deadline = 0\<rparr>"

definition no_reservation :: NativeWriterReservation where
  "no_reservation = \<lparr>slot_no = INVALID_SLOT, res_ticket = 0, active = False\<rparr>"

definition zero_result :: NativeWriterReservationResult where
  "zero_result = \<lparr>reservation = \<lparr>slot_no = 0, res_ticket = 0, active = False\<rparr>,
     result_snapshot_id = 0, result_row_id = 0\<rparr>"

definition no_local :: LocalReservation where
  "no_local = \<lparr>local_reservation = no_reservation, published = False\<rparr>"

text \<open>\<^verbatim>\<open>QueueShmemStartup\<close> on a fresh segment.\<close>

definition QueueShmemStartup :: queue where
  "QueueShmemStartup = \<lparr>next_ticket = 1, slots = replicate MAX_RESERVATIONS zero_slot\<rparr>"

definition QueueCapacity :: "guc \<Rightarrow> nat" where
  "QueueCapacity g = nat (native_writer_reservation_queue_capacity g)"

definition SameCatalog :: "CatalogKey \<Rightarrow> CatalogKey \<Rightarrow> bool" where
  "SameCatalog left right \<longleftrightarrow> database_oid left = database_oid right \<and>
     snapshot_relation_oid left = snapshot_relation_oid right"

definition SameOwner :: "OwnerIdentity \<Rightarrow> OwnerIdentity \<Rightarrow> bool" where
  "SameOwner left right \<longleftrightarrow> proc_number left = proc_number right \<and> vxid_id left = vxid_id right \<and>
     lxid left = lxid right \<and> xid left = xid right \<and> pid left = pid right"

text \<open>Namespace and relation lookups are PostgreSQL's: their results are arguments.\<close>

definition CurrentCatalogKey :: "oid \<Rightarrow> oid \<Rightarrow> CatalogKey" where
  "CurrentCatalogKey MyDatabaseId snapshot_oid =
     (if \<not> OidIsValid snapshot_oid then \<lparr>database_oid = InvalidOid, snapshot_relation_oid = InvalidOid\<rparr>
      else \<lparr>database_oid = MyDatabaseId, snapshot_relation_oid = snapshot_oid\<rparr>)"

text \<open>The identity fields of a \<^verbatim>\<open>PGPROC\<close> that the queue reads.\<close>

record pgproc =
  proc_pid :: int
  proc_vxid :: u32
  proc_lxid :: u32

definition CurrentOwner :: "int \<Rightarrow> pgproc \<Rightarrow> u32 \<Rightarrow> OwnerIdentity" where
  "CurrentOwner MyProcNumber MyProc owner_xid =
     \<lparr>proc_number = MyProcNumber, vxid_id = proc_vxid MyProc, lxid = proc_lxid MyProc,
      xid = owner_xid, pid = proc_pid MyProc\<rparr>"

section \<open>Scans and updates of the slot array (lock held)\<close>

abbreviation slot_at :: "queue \<Rightarrow> nat \<Rightarrow> ReservationSlot" where
  "slot_at q i \<equiv> slots q ! i"

definition set_slot :: "nat \<Rightarrow> ReservationSlot \<Rightarrow> queue \<Rightarrow> queue" where
  "set_slot i s q = q\<lparr>slots := (slots q)[i := s]\<rparr>"

definition FindSlot :: "nat \<Rightarrow> queue \<Rightarrow> NativeWriterReservation \<Rightarrow> nat option" where
  "FindSlot cap q r =
     (if \<not> active r \<or> unat (slot_no r) \<ge> cap then None
      else let s = slot_at q (unat (slot_no r)) in
        if \<not> in_use s \<or> ticket s \<noteq> res_ticket r then None else Some (unat (slot_no r)))"

definition invalidates :: "CatalogKey \<Rightarrow> u64 \<Rightarrow> ReservationSlot \<Rightarrow> bool" where
  "invalidates cat t s \<longleftrightarrow> in_use s \<and> valid s \<and> SameCatalog (catalog s) cat \<and> t \<le> ticket s"

definition InvalidateFrom :: "nat \<Rightarrow> CatalogKey \<Rightarrow> u64 \<Rightarrow> queue \<Rightarrow> queue" where
  "InvalidateFrom cap cat t q =
     q\<lparr>slots := map_upto cap (\<lambda>s. if invalidates cat t s then s\<lparr>valid := False\<rparr> else s) (slots q)\<rparr>"

definition InvalidateCatalog :: "nat \<Rightarrow> CatalogKey \<Rightarrow> queue \<Rightarrow> queue" where
  "InvalidateCatalog cap cat q = InvalidateFrom cap cat 0 q"

definition ReclaimInvalidSlots :: "nat \<Rightarrow> queue \<Rightarrow> queue" where
  "ReclaimInvalidSlots cap q =
     q\<lparr>slots := map_upto cap (\<lambda>s. if in_use s \<and> \<not> valid s then zero_slot else s) (slots q)\<rparr>"

definition ReclaimOldestCommittedAnchor :: "nat \<Rightarrow> queue \<Rightarrow> queue \<times> bool" where
  "ReclaimOldestCommittedAnchor cap q =
     (case scan_min (\<lambda>i. ticket (slot_at q i)) (\<lambda>i. in_use (slot_at q i) \<and> committed (slot_at q i)) cap of
        None \<Rightarrow> (q, False)
      | Some i \<Rightarrow> (set_slot i zero_slot q, True))"

definition FirstPendingSlot :: "nat \<Rightarrow> queue \<Rightarrow> CatalogKey \<Rightarrow> nat option" where
  "FirstPendingSlot cap q cat =
     scan_min (\<lambda>i. ticket (slot_at q i))
       (\<lambda>i. let s = slot_at q i in in_use s \<and> valid s \<and> \<not> committed s \<and> SameCatalog (catalog s) cat) cap"

definition LastValidSlot :: "nat \<Rightarrow> queue \<Rightarrow> CatalogKey \<Rightarrow> u64 \<Rightarrow> bool \<Rightarrow> nat option" where
  "LastValidSlot cap q cat tid same_table =
     scan_max (\<lambda>i. ticket (slot_at q i))
       (\<lambda>i. let s = slot_at q i in
          \<not> (\<not> in_use s \<or> \<not> valid s \<or> \<not> SameCatalog (catalog s) cat \<or>
             (same_table \<and> slot_table_id s \<noteq> tid))) cap"

definition LastPriorSlot :: "nat \<Rightarrow> queue \<Rightarrow> ReservationSlot \<Rightarrow> bool \<Rightarrow> nat option" where
  "LastPriorSlot cap q current same_table =
     scan_max (\<lambda>i. ticket (slot_at q i))
       (\<lambda>i. let s = slot_at q i in
          \<not> (\<not> in_use s \<or> \<not> valid s \<or> \<not> SameCatalog (catalog s) (catalog current) \<or>
             ticket current \<le> ticket s \<or> (same_table \<and> slot_table_id s \<noteq> slot_table_id current))) cap"

definition FindBlocker :: "nat \<Rightarrow> queue \<Rightarrow> ReservationSlot \<Rightarrow> bool \<Rightarrow> BlockingReservation option" where
  "FindBlocker cap q current publication_wait =
     (case scan_min (\<lambda>i. ticket (slot_at q i))
        (\<lambda>i. let s = slot_at q i in
           \<not> (\<not> in_use s \<or> \<not> valid s \<or> committed s \<or> \<not> SameCatalog (catalog s) (catalog current) \<or>
              ticket current \<le> ticket s) \<and>
           \<not> (\<not> publication_wait \<and> (slot_table_id s \<noteq> slot_table_id current \<or> row_count_known s))) cap of
        None \<Rightarrow> None
      | Some i \<Rightarrow> Some \<lparr>blk_catalog = catalog (slot_at q i), blk_ticket = ticket (slot_at q i),
                         blk_owner = owner (slot_at q i)\<rparr>)"

section \<open>Dead owners\<close>

text \<open>The process array is PostgreSQL's state: the list \<open>procs\<close> is what it holds when it is read.\<close>

definition OwnerTransactionIsActive :: "pgproc list \<Rightarrow> OwnerIdentity \<Rightarrow> bool" where
  "OwnerTransactionIsActive procs ow =
     (if 0 \<le> proc_number ow \<and> nat (proc_number ow) < length procs
      then let p = procs ! nat (proc_number ow) in
        proc_pid p = pid ow \<and> proc_vxid p = vxid_id ow \<and> proc_lxid p = lxid ow
      else False)"

definition ReclaimInactiveOwner :: "nat \<Rightarrow> pgproc list \<Rightarrow> BlockingReservation option \<Rightarrow> queue \<Rightarrow> queue \<times> bool" where
  "ReclaimInactiveOwner cap procs candidate q =
     (case candidate of
        None \<Rightarrow> (q, False)
      | Some b \<Rightarrow>
          if OwnerTransactionIsActive procs (blk_owner b) then (q, False)
          else case find_index (\<lambda>i. let s = slot_at q i in in_use s \<and> ticket s = blk_ticket b \<and>
                 SameCatalog (catalog s) (blk_catalog b) \<and> SameOwner (owner s) (blk_owner b)) cap of
                 None \<Rightarrow> (q, False)
               | Some i \<Rightarrow>
                   (set_slot i zero_slot
                      (InvalidateFrom cap (catalog (slot_at q i)) (ticket (slot_at q i)) q), True))"

definition pending_candidates :: "nat \<Rightarrow> queue \<Rightarrow> BlockingReservation list" where
  "pending_candidates cap q =
     map (\<lambda>s. \<lparr>blk_catalog = catalog s, blk_ticket = ticket s, blk_owner = owner s\<rparr>)
       (filter (\<lambda>s. in_use s \<and> valid s \<and> \<not> committed s) (take cap (slots q)))"

definition ReclaimInactiveOwners :: "nat \<Rightarrow> pgproc list \<Rightarrow> queue \<Rightarrow> queue" where
  "ReclaimInactiveOwners cap procs q =
     fold (\<lambda>b q. fst (ReclaimInactiveOwner cap procs (Some b) q)) (pending_candidates cap q) q"

section \<open>Wait budget\<close>

text \<open>The loop of \<^verbatim>\<open>QueueWaitBudgetMs\<close>: \<open>retries\<close> iterations are left.\<close>

fun wait_budget_loop :: "nat \<Rightarrow> int \<Rightarrow> rat \<Rightarrow> rat \<Rightarrow> rat \<Rightarrow> int" where
  "wait_budget_loop 0 wait_cap_ms backoff delay acc = \<lceil>acc\<rceil>"
| "wait_budget_loop (Suc retries) wait_cap_ms backoff delay acc =
     (if acc + delay \<ge> of_int wait_cap_ms then wait_cap_ms
      else wait_budget_loop retries wait_cap_ms backoff
             (if delay \<ge> of_int wait_cap_ms / backoff then of_int wait_cap_ms else delay * backoff)
             (acc + delay))"

definition QueueWaitBudgetMs :: "guc \<Rightarrow> int" where
  "QueueWaitBudgetMs g =
     (let wait_cap_ms = native_writer_reservation_queue_wait_ms g in
      if wait_cap_ms \<le> 0 \<or> native_writer_max_retry_count g \<le> 0 \<or> native_writer_retry_wait_ms g \<le> 0 then 0
      else wait_budget_loop (nat (native_writer_max_retry_count g)) wait_cap_ms
             (native_writer_retry_backoff g) (of_int (native_writer_retry_wait_ms g)) 0)"

section \<open>Ending a reservation\<close>

definition AbandonReservation :: "nat \<Rightarrow> NativeWriterReservation \<Rightarrow> queue \<Rightarrow> queue" where
  "AbandonReservation cap r q =
     (case FindSlot cap q r of
        None \<Rightarrow> q
      | Some i \<Rightarrow> set_slot i zero_slot
                    (InvalidateFrom cap (catalog (slot_at q i)) (ticket (slot_at q i)) q))"

text \<open>The anchor that a commit leaves subsumes the older committed anchors of the same table.\<close>

definition superseded :: "ReservationSlot \<Rightarrow> ReservationSlot \<Rightarrow> bool" where
  "superseded s prior \<longleftrightarrow> in_use prior \<and> valid prior \<and> committed prior \<and>
     SameCatalog (catalog prior) (catalog s) \<and> slot_table_id prior = slot_table_id s \<and>
     ticket prior < ticket s"

definition commit_anchor :: "nat \<Rightarrow> nat \<Rightarrow> queue \<Rightarrow> queue" where
  "commit_anchor cap i q =
     (let s = (slot_at q i)\<lparr>committed := True, queue_wait_blocker_ticket := 0, queue_wait_deadline := 0\<rparr>;
          q1 = set_slot i s q
      in q1\<lparr>slots := map (\<lambda>j. if j < cap \<and> j \<noteq> i \<and> superseded s (slot_at q1 j) then zero_slot
                              else slot_at q1 j) [0..<length (slots q1)]\<rparr>)"

definition RemoveLocalReservation ::
  "nat \<Rightarrow> bool \<Rightarrow> queue option \<times> LocalReservation \<Rightarrow> queue option \<times> LocalReservation" where
  "RemoveLocalReservation cap is_commit st =
     (case st of (shm, lcl) \<Rightarrow>
        (case shm of
           None \<Rightarrow> (None, no_local)
         | Some q \<Rightarrow>
             if \<not> active (local_reservation lcl) then (Some q, no_local)
             else (case FindSlot cap q (local_reservation lcl) of
                     None \<Rightarrow> (Some q, no_local)
                   | Some i \<Rightarrow>
                       if is_commit \<and> published lcl \<and> valid (slot_at q i)
                       then (Some (commit_anchor cap i q), no_local)
                       else (Some (set_slot i zero_slot
                               (InvalidateFrom cap (catalog (slot_at q i)) (ticket (slot_at q i)) q)),
                             no_local))))"

datatype XactEvent =
    XACT_EVENT_COMMIT | XACT_EVENT_PARALLEL_COMMIT | XACT_EVENT_ABORT | XACT_EVENT_PARALLEL_ABORT
  | XACT_EVENT_PREPARE | XACT_EVENT_PRE_COMMIT | XACT_EVENT_PARALLEL_PRE_COMMIT | XACT_EVENT_PRE_PREPARE

fun QueueXactCallback ::
  "nat \<Rightarrow> XactEvent \<Rightarrow> queue option \<times> LocalReservation \<Rightarrow> queue option \<times> LocalReservation" where
  "QueueXactCallback cap XACT_EVENT_COMMIT st = RemoveLocalReservation cap True st"
| "QueueXactCallback cap XACT_EVENT_PARALLEL_COMMIT st = RemoveLocalReservation cap True st"
| "QueueXactCallback cap XACT_EVENT_ABORT st = RemoveLocalReservation cap False st"
| "QueueXactCallback cap XACT_EVENT_PARALLEL_ABORT st = RemoveLocalReservation cap False st"
| "QueueXactCallback cap XACT_EVENT_PRE_COMMIT st = st"
| "QueueXactCallback cap XACT_EVENT_PARALLEL_PRE_COMMIT st = st"
| "QueueXactCallback cap XACT_EVENT_PREPARE st = st"
| "QueueXactCallback cap XACT_EVENT_PRE_PREPARE st = st"

definition QueueBackendExit ::
  "nat \<Rightarrow> queue option \<times> LocalReservation \<Rightarrow> queue option \<times> LocalReservation" where
  "QueueBackendExit cap st = RemoveLocalReservation cap False st"

section \<open>Waiting\<close>

text \<open>PostgreSQL's timestamp helpers are arguments: \<open>ts_plus_ms t ms\<close> stands for
  \<^verbatim>\<open>TimestampTzPlusMilliseconds\<close> and \<open>ts_diff_ms a b\<close> for \<^verbatim>\<open>TimestampDifferenceMilliseconds\<close>.\<close>

record pg_time =
  ts_plus_ms :: "int \<Rightarrow> int \<Rightarrow> int"
  ts_diff_ms :: "int \<Rightarrow> int \<Rightarrow> int"

datatype wait_verdict = WaitGone | WaitReady | WaitBlocked "BlockingReservation option" int

text \<open>Row-id assignment behind the last earlier reservation of the same table: the queue, and
  whether the slot is ready.\<close>

definition assign_row :: "nat \<Rightarrow> nat \<Rightarrow> queue \<Rightarrow> queue \<times> bool" where
  "assign_row cap i q =
     (let s = slot_at q i in
      case LastPriorSlot cap q s True of
        None \<Rightarrow> (q, row_assigned s)
      | Some p \<Rightarrow>
          let prev = slot_at q p in
          if row_assigned prev \<and> row_count_known prev then
            if candidate_row_id prev \<le> INT64_MAX - row_count prev
            then (set_slot i (s\<lparr>candidate_row_id := candidate_row_id prev + row_count prev,
                                row_assigned := True\<rparr>) q, True)
            else (InvalidateFrom cap (catalog s) (ticket s) q, False)
          else (q, False))"

definition publication_ready :: "nat \<Rightarrow> nat \<Rightarrow> queue \<Rightarrow> bool" where
  "publication_ready cap i q =
     (case FirstPendingSlot cap q (catalog (slot_at q i)) of
        None \<Rightarrow> False
      | Some j \<Rightarrow> ticket (slot_at q j) = ticket (slot_at q i))"

text \<open>The deadline of a waiting slot: a new blocker starts a new interval.\<close>

definition refresh_deadline ::
  "pg_time \<Rightarrow> int \<Rightarrow> int \<Rightarrow> BlockingReservation option \<Rightarrow> ReservationSlot \<Rightarrow> ReservationSlot" where
  "refresh_deadline pgt budget now blocker s =
     (if queue_wait_deadline s = 0 \<or>
         (case blocker of None \<Rightarrow> False | Some b \<Rightarrow> queue_wait_blocker_ticket s \<noteq> blk_ticket b)
      then s\<lparr>queue_wait_blocker_ticket := (case blocker of None \<Rightarrow> 0 | Some b \<Rightarrow> blk_ticket b),
             queue_wait_deadline := ts_plus_ms pgt now budget\<rparr>
      else s)"

text \<open>One critical section of the wait loop.\<close>

definition WaitCheck ::
  "pg_time \<Rightarrow> nat \<Rightarrow> int \<Rightarrow> bool \<Rightarrow> NativeWriterReservation \<Rightarrow> int \<Rightarrow> queue \<Rightarrow> queue \<times> wait_verdict" where
  "WaitCheck pgt cap budget publication_wait r now q =
     (case FindSlot cap q r of
        None \<Rightarrow> (q, WaitGone)
      | Some i \<Rightarrow>
          if \<not> valid (slot_at q i) then (q, WaitGone)
          else
            let (q1, ready) = (if publication_wait then (q, publication_ready cap i q) else assign_row cap i q)
            in if ready then (q1, WaitReady)
               else
                 let blocker = FindBlocker cap q1 (slot_at q1 i) publication_wait;
                     s = refresh_deadline pgt budget now blocker (slot_at q1 i)
                 in (set_slot i s q1, WaitBlocked blocker (queue_wait_deadline s)))"

text \<open>What one turn of the loop meets: the other backends' changes before the lock is taken and
  before a dead owner is reclaimed, the clock, the process array, and whether the sleep at the
  end timed out.\<close>

record wait_turn =
  others_before :: "queue \<Rightarrow> queue"
  now_locked :: int
  others_between :: "queue \<Rightarrow> queue"
  procs_seen :: "pgproc list"
  now_after :: int
  others_at_end :: "queue \<Rightarrow> queue"
  sleep_timed_out :: bool

text \<open>\<open>None\<close>: the turns are used up and the loop is still waiting.\<close>

fun wait_loop ::
  "pg_time \<Rightarrow> nat \<Rightarrow> int \<Rightarrow> bool \<Rightarrow> NativeWriterReservation \<Rightarrow> bool \<Rightarrow> wait_turn list \<Rightarrow> queue \<Rightarrow> (queue \<times> bool) option" where
  "wait_loop pgt cap budget publication_wait r check_owner [] q = None"
| "wait_loop pgt cap budget publication_wait r check_owner (t # turns) q =
     (case WaitCheck pgt cap budget publication_wait r (now_locked t) (others_before t q) of
        (q1, WaitGone) \<Rightarrow> Some (q1, False)
      | (q1, WaitReady) \<Rightarrow> Some (q1, True)
      | (q1, WaitBlocked blocker deadline) \<Rightarrow>
          let (q2, reclaimed) = (if check_owner
                                 then ReclaimInactiveOwner cap (procs_seen t) blocker (others_between t q1)
                                 else (q1, False))
          in if reclaimed then wait_loop pgt cap budget publication_wait r False turns q2
             else if ts_diff_ms pgt (now_after t) deadline \<le> 0
                  then Some (AbandonReservation cap r (others_at_end t q2), False)
                  else wait_loop pgt cap budget publication_wait r (sleep_timed_out t) turns q2)"

definition WaitUntilReady ::
  "pg_time \<Rightarrow> guc \<Rightarrow> bool \<Rightarrow> NativeWriterReservation \<Rightarrow> wait_turn list \<Rightarrow> queue \<Rightarrow> (queue \<times> bool) option" where
  "WaitUntilReady pgt g publication_wait r turns q =
     (let cap = QueueCapacity g; budget = QueueWaitBudgetMs g in
      if budget \<le> 0 then Some (AbandonReservation cap r q, False)
      else wait_loop pgt cap budget publication_wait r False turns q)"

section \<open>Reserving\<close>

record reserve_args =
  ra_catalog :: CatalogKey
  ra_owner :: OwnerIdentity
  ra_table_id :: u64
  observed_snapshot_id :: u64
  observed_next_row_id :: u64
  ra_owner_command_id :: u32
  ra_row_count_known :: bool
  ra_row_count :: u64

text \<open>The last live candidate of the catalog is behind what the metadata already say.\<close>

definition snapshot_stale :: "reserve_args \<Rightarrow> ReservationSlot \<Rightarrow> bool" where
  "snapshot_stale a s \<longleftrightarrow> candidate_snapshot_id s = 0 \<or>
     (if committed s then candidate_snapshot_id s < observed_snapshot_id a
      else candidate_snapshot_id s \<le> observed_snapshot_id a)"

definition row_overflow :: "ReservationSlot \<Rightarrow> bool" where
  "row_overflow s \<longleftrightarrow> INT64_MAX - row_count s < candidate_row_id s"

definition row_stale :: "reserve_args \<Rightarrow> ReservationSlot \<Rightarrow> bool" where
  "row_stale a s \<longleftrightarrow> row_overflow s \<or>
     (if committed s then candidate_row_id s + row_count s < observed_next_row_id a
      else candidate_row_id s < observed_next_row_id a)"

definition reset_catalog :: "nat \<Rightarrow> CatalogKey \<Rightarrow> queue \<Rightarrow> queue" where
  "reset_catalog cap cat q = ReclaimInvalidSlots cap (InvalidateCatalog cap cat q)"

text \<open>One pass of the loop in \<^verbatim>\<open>ReserveNativeWriterPublication\<close>, up to the search for a free slot.\<close>

definition drop_stale :: "nat \<Rightarrow> reserve_args \<Rightarrow> queue \<Rightarrow> queue" where
  "drop_stale cap a q0 =
     (let q = ReclaimInvalidSlots cap q0 in
      case LastValidSlot cap q (ra_catalog a) (ra_table_id a) False of
        None \<Rightarrow> q
      | Some l \<Rightarrow>
          if snapshot_stale a (slot_at q l) then reset_catalog cap (ra_catalog a) q
          else case LastValidSlot cap q (ra_catalog a) (ra_table_id a) True of
                 None \<Rightarrow> q
               | Some lt \<Rightarrow>
                   if row_assigned (slot_at q lt) \<and> row_count_known (slot_at q lt) \<and> row_stale a (slot_at q lt)
                   then reset_catalog cap (ra_catalog a) q else q)"

definition free_slot :: "nat \<Rightarrow> queue \<Rightarrow> nat option" where
  "free_slot cap q = find_index (\<lambda>i. \<not> in_use (slot_at q i)) cap"

definition reserve_pass :: "nat \<Rightarrow> reserve_args \<Rightarrow> queue \<Rightarrow> queue \<times> nat option" where
  "reserve_pass cap a q0 =
     (let q = drop_stale cap a q0 in
      case free_slot cap q of
        Some i \<Rightarrow> (q, Some i)
      | None \<Rightarrow> (let (q', reclaimed) = ReclaimOldestCommittedAnchor cap q in
                 (q', if reclaimed then free_slot cap q' else None)))"

text \<open>The slot that is filled in, first without its candidates.\<close>

definition fresh_slot :: "reserve_args \<Rightarrow> u64 \<Rightarrow> ReservationSlot" where
  "fresh_slot a t = zero_slot\<lparr>in_use := True, valid := True, row_count_known := ra_row_count_known a,
     catalog := ra_catalog a, ticket := t, owner := ra_owner a, owner_command_id := ra_owner_command_id a,
     slot_table_id := ra_table_id a, row_count := ra_row_count a\<rparr>"

definition candidate_valid :: "nat \<Rightarrow> queue \<Rightarrow> ReservationSlot \<Rightarrow> bool" where
  "candidate_valid cap q s =
     (case LastPriorSlot cap q s False of
        None \<Rightarrow> True
      | Some p \<Rightarrow> candidate_snapshot_id (slot_at q p) < INT64_MAX)"

definition with_snapshot :: "nat \<Rightarrow> reserve_args \<Rightarrow> queue \<Rightarrow> ReservationSlot \<Rightarrow> ReservationSlot" where
  "with_snapshot cap a q s =
     s\<lparr>candidate_snapshot_id :=
         (case LastPriorSlot cap q s False of
            Some p \<Rightarrow> if candidate_valid cap q s then candidate_snapshot_id (slot_at q p) + 1
                      else observed_snapshot_id a + 1
          | None \<Rightarrow> observed_snapshot_id a + 1),
       valid := candidate_valid cap q s\<rparr>"

definition with_row :: "nat \<Rightarrow> reserve_args \<Rightarrow> queue \<Rightarrow> ReservationSlot \<Rightarrow> ReservationSlot" where
  "with_row cap a q s =
     (case LastPriorSlot cap q s True of
        None \<Rightarrow> s\<lparr>candidate_row_id := observed_next_row_id a, row_assigned := True\<rparr>
      | Some p \<Rightarrow>
          let prev = slot_at q p in
          if row_assigned prev \<and> row_count_known prev \<and> candidate_row_id prev \<le> INT64_MAX - row_count prev
          then s\<lparr>candidate_row_id := candidate_row_id prev + row_count prev, row_assigned := True\<rparr>
          else s)"

definition fill_slot :: "nat \<Rightarrow> reserve_args \<Rightarrow> nat \<Rightarrow> queue \<Rightarrow> queue" where
  "fill_slot cap a i q =
     (let s0 = fresh_slot a (next_ticket q);
          q0 = (set_slot i s0 q)\<lparr>next_ticket := next_ticket q + 1\<rparr>;
          s1 = with_snapshot cap a q0 s0;
          q1 = set_slot i s1 q0
      in set_slot i (with_row cap a q1 s1) q1)"

text \<open>A pass that finds a slot keeps the lock and fills it in: one critical section. \<open>None\<close> in
  the second component is a pass that found no slot, or the last ticket.\<close>

definition ReserveCritical :: "nat \<Rightarrow> reserve_args \<Rightarrow> queue \<Rightarrow> queue \<times> nat option" where
  "ReserveCritical cap a q0 =
     (case reserve_pass cap a q0 of
        (q, None) \<Rightarrow> (q, None)
      | (q, Some i) \<Rightarrow> if next_ticket q = UINT64_MAX then (q, None) else (fill_slot cap a i q, Some i))"

definition local_of :: "queue \<Rightarrow> nat \<Rightarrow> LocalReservation" where
  "local_of q i = \<lparr>local_reservation = \<lparr>slot_no = of_nat i, res_ticket = ticket (slot_at q i), active = True\<rparr>,
     published = False\<rparr>"

text \<open>The rest of \<^verbatim>\<open>ReserveNativeWriterPublication\<close> after the lock is dropped: wait for a row id
  when the critical section could not assign one, and read it back.\<close>

definition finish_reserve ::
  "pg_time \<Rightarrow> guc \<Rightarrow> wait_turn list \<Rightarrow> (queue \<Rightarrow> queue) \<Rightarrow> nat \<Rightarrow> queue \<Rightarrow>
   (queue \<times> LocalReservation \<times> NativeWriterReservationResult \<times> bool) option" where
  "finish_reserve pgt g turns others i q =
     (let cap = QueueCapacity g; s = slot_at q i; lcl = local_of q i; r = local_reservation lcl;
          res = \<lparr>reservation = r, result_snapshot_id = candidate_snapshot_id s,
                 result_row_id = (if row_assigned s then candidate_row_id s else 0)\<rparr>
      in if \<not> valid s then Some (q, lcl, res, False)
         else if row_assigned s then Some (q, lcl, res, True)
         else case WaitUntilReady pgt g False r turns q of
                None \<Rightarrow> None
              | Some (q1, False) \<Rightarrow> Some (q1, lcl, res, False)
              | Some (q1, True) \<Rightarrow>
                  let q2 = others q1 in
                  (case FindSlot cap q2 r of
                     None \<Rightarrow> Some (q2, lcl, res, False)
                   | Some j \<Rightarrow>
                       if \<not> valid (slot_at q2 j) \<or> \<not> row_assigned (slot_at q2 j)
                       then Some (q2, lcl, res, False)
                       else Some (q2, lcl, res\<lparr>result_row_id := candidate_row_id (slot_at q2 j)\<rparr>, True)))"

text \<open>The second pass runs after \<^verbatim>\<open>ReclaimInactiveOwners\<close>, and after \<open>others_gap\<close>, what
  the other backends did while the lock was free.\<close>

definition ReserveNativeWriterPublication ::
  "pg_time \<Rightarrow> guc \<Rightarrow> pgproc list \<Rightarrow> (queue \<Rightarrow> queue) \<Rightarrow> wait_turn list \<Rightarrow> (queue \<Rightarrow> queue) \<Rightarrow> reserve_args \<Rightarrow>
   queue option \<times> LocalReservation \<Rightarrow>
   (queue option \<times> LocalReservation \<times> NativeWriterReservationResult \<times> bool) option" where
  "ReserveNativeWriterPublication pgt g procs others_gap turns others_read a st =
     (case st of (shm, lcl) \<Rightarrow>
        case shm of
          None \<Rightarrow> Some (None, lcl, zero_result, False)
        | Some q \<Rightarrow>
            if active (local_reservation lcl) \<or> \<not> OidIsValid (snapshot_relation_oid (ra_catalog a))
            then Some (Some q, lcl, zero_result, False)
            else
              let cap = QueueCapacity g;
                  finish = (\<lambda>i q'. map_option (\<lambda>(q2, l2, res, ok). (Some q2, l2, res, ok))
                                    (finish_reserve pgt g turns others_read i q'))
              in case ReserveCritical cap a q of
                   (q1, Some i) \<Rightarrow> finish i q1
                 | (q1, None) \<Rightarrow>
                     if snd (reserve_pass cap a q) \<noteq> None then Some (Some q1, lcl, zero_result, False)
                     else
                       (case ReserveCritical cap a (ReclaimInactiveOwners cap procs (others_gap q1)) of
                          (q2, Some i) \<Rightarrow> finish i q2
                        | (q2, None) \<Rightarrow> Some (Some q2, lcl, zero_result, False)))"

section \<open>The writer's calls\<close>

definition CompleteNativeWriterReservation ::
  "nat \<Rightarrow> NativeWriterReservation \<Rightarrow> u64 \<Rightarrow> queue option \<Rightarrow> queue option \<times> bool" where
  "CompleteNativeWriterReservation cap r n shm =
     (case shm of
        None \<Rightarrow> (None, False)
      | Some q \<Rightarrow>
          if \<not> active r then (Some q, False)
          else case FindSlot cap q r of
                 None \<Rightarrow> (Some q, False)
               | Some i \<Rightarrow>
                   let s = slot_at q i in
                   if \<not> valid s then (Some q, False)
                   else if (row_count_known s \<and> row_count s \<noteq> n) \<or> n = 0
                   then (Some (InvalidateFrom cap (catalog s) (ticket s) q), False)
                   else (Some (set_slot i (s\<lparr>row_count := n, row_count_known := True\<rparr>) q), True))"

definition WaitForNativeWriterPublication ::
  "pg_time \<Rightarrow> guc \<Rightarrow> NativeWriterReservation \<Rightarrow> wait_turn list \<Rightarrow> queue option \<Rightarrow> (queue option \<times> bool) option" where
  "WaitForNativeWriterPublication pgt g r turns shm =
     (case shm of
        None \<Rightarrow> Some (None, False)
      | Some q \<Rightarrow>
          if \<not> active r then Some (Some q, False)
          else map_option (\<lambda>(q', ok). (Some q', ok)) (WaitUntilReady pgt g True r turns q))"

definition ValidateNativeWriterReservation ::
  "nat \<Rightarrow> NativeWriterReservation \<Rightarrow> u64 \<Rightarrow> u64 \<Rightarrow> queue option \<Rightarrow> queue option \<times> bool" where
  "ValidateNativeWriterReservation cap r sid rid shm =
     (case shm of
        None \<Rightarrow> (None, False)
      | Some q \<Rightarrow>
          if \<not> active r then (Some q, False)
          else case FindSlot cap q r of
                 None \<Rightarrow> (Some q, False)
               | Some i \<Rightarrow>
                   let s = slot_at q i in
                   if valid s \<and> row_assigned s \<and> candidate_snapshot_id s = sid \<and> candidate_row_id s = rid
                   then (Some q, True)
                   else (Some (InvalidateFrom cap (catalog s) (ticket s) q), False))"

definition InvalidateNativeWriterReservation ::
  "nat \<Rightarrow> NativeWriterReservation \<Rightarrow> queue option \<Rightarrow> queue option" where
  "InvalidateNativeWriterReservation cap r shm =
     (case shm of
        None \<Rightarrow> None
      | Some q \<Rightarrow>
          if \<not> active r then Some q
          else case FindSlot cap q r of
                 None \<Rightarrow> Some q
               | Some i \<Rightarrow> Some (InvalidateFrom cap (catalog (slot_at q i)) (ticket (slot_at q i)) q))"

definition MarkNativeWriterReservationPublished ::
  "NativeWriterReservation \<Rightarrow> LocalReservation \<Rightarrow> LocalReservation" where
  "MarkNativeWriterReservationPublished r lcl =
     (if active (local_reservation lcl) \<and> active r \<and> slot_no (local_reservation lcl) = slot_no r \<and>
         res_ticket (local_reservation lcl) = res_ticket r
      then lcl\<lparr>published := True\<rparr> else lcl)"

end
