(* ===== verification/Native_Inline_Writer.thy ===== *)
theory Native_Inline_Writer
  imports Native_Column_Stats Native_Writer_Queue
begin

text \<open>
  The native writer, \<^verbatim>\<open>pg_ducklake/src/direct_insert/native_inline_writer.cpp\<close>: allocation of
  candidate ids before the rows are written, retagging of the prewritten rows, and the publication
  of a batch with its retry loop.

  The metadata database is the record \<open>lake_db\<close>. A publication attempt runs in a subtransaction:
  its statements are functions on the database, and an error gives back the database from before
  the attempt. What other transactions commit between the statements of the writer is an argument.
\<close>

section \<open>Work counters\<close>

datatype NativeWriterCounter =
    NW_PAYLOAD_ROWS | NW_PUBLICATION_ATTEMPTS | NW_SNAPSHOT_CLAIM_CONFLICTS | NW_ROWS_RETAGGED
  | NW_RETRY_EXHAUSTIONS | NW_COPY_ROWS_CONSUMED

type_synonym writer_stats = "(NativeWriterCounter \<Rightarrow> u64) option"

text \<open>\<open>None\<close> stands for the shared memory not being attached.\<close>

definition NativeWriterShmemStartup :: "NativeWriterCounter \<Rightarrow> u64" where
  "NativeWriterShmemStartup = (\<lambda>_. 0)"

definition NativeWriterStatsAdd :: "NativeWriterCounter \<Rightarrow> u64 \<Rightarrow> writer_stats \<Rightarrow> writer_stats" where
  "NativeWriterStatsAdd counter amount shm =
     (case shm of
        None \<Rightarrow> None
      | Some c \<Rightarrow>
          if amount = 0 then Some c
          else Some (c(counter := (if c counter \<ge> INT64_MAX \<or> amount > INT64_MAX - c counter then INT64_MAX
                                   else c counter + amount))))"

definition NativeWriterStatsReset :: "writer_stats \<Rightarrow> writer_stats" where
  "NativeWriterStatsReset shm = map_option (\<lambda>_. (\<lambda>_. 0)) shm"

definition counters_in_order :: "NativeWriterCounter list" where
  "counters_in_order = [NW_PAYLOAD_ROWS, NW_PUBLICATION_ATTEMPTS, NW_SNAPSHOT_CLAIM_CONFLICTS, NW_ROWS_RETAGGED,
     NW_RETRY_EXHAUSTIONS, NW_COPY_ROWS_CONSUMED]"

definition NativeWriterStatsReadAll :: "writer_stats \<Rightarrow> u64 list" where
  "NativeWriterStatsReadAll shm = (case shm of None \<Rightarrow> replicate 6 0 | Some c \<Rightarrow> map c counters_in_order)"

fun NativeWriterCounterName :: "NativeWriterCounter \<Rightarrow> string" where
  "NativeWriterCounterName NW_PAYLOAD_ROWS = ''payload_rows''"
| "NativeWriterCounterName NW_PUBLICATION_ATTEMPTS = ''publication_attempts''"
| "NativeWriterCounterName NW_SNAPSHOT_CLAIM_CONFLICTS = ''snapshot_claim_conflicts''"
| "NativeWriterCounterName NW_ROWS_RETAGGED = ''rows_retagged''"
| "NativeWriterCounterName NW_RETRY_EXHAUSTIONS = ''retry_exhaustions''"
| "NativeWriterCounterName NW_COPY_ROWS_CONSUMED = ''copy_rows_consumed''"

definition ducklake_native_writer_stats :: "writer_stats \<Rightarrow> (string \<times> int) list" where
  "ducklake_native_writer_stats shm =
     zip (map NativeWriterCounterName counters_in_order) (map sint (NativeWriterStatsReadAll shm))"

section \<open>Batches\<close>

record NativeInlineWriteBatch =
  target_table_oid :: oid
  inline_table_oid :: oid
  table_id :: u64
  schema_version :: u64
  start_snapshot_id :: u64
  batch_snapshot_id :: u64
  batch_row_id :: u64
  batch_owner_xid :: u32
  batch_owner_command_id :: u32
  batch_reservation :: NativeWriterReservation
  row_pointers :: "tid list"
  row_pointer_capacity :: u64
  row_pointer_tracking_enabled :: bool
  rows_inserted :: u64
  column_stats :: "NativeInlineColumnStat list"

definition NATIVE_WRITER_UNKNOWN_ROW_COUNT :: u64 where
  "NATIVE_WRITER_UNKNOWN_ROW_COUNT = UINT64_MAX"

record PublicationState =
  ps_snapshot_id :: u64
  ps_schema_version :: u64
  ps_next_catalog_id :: u64
  ps_next_file_id :: u64
  ps_record_count :: u64
  ps_next_row_id :: u64
  inline_schema_version :: u64
  change_row_count :: u64
  nonnull_change_count :: u64
  has_table_stats :: bool
  table_is_live :: bool
  changes_made :: string

section \<open>Reading the current state\<close>

text \<open>The scalar subquery on \<^verbatim>\<open>ducklake_metadata\<close>.\<close>

definition metadata_version :: "'p lake_db \<Rightarrow> werror + string option" where
  "metadata_version db =
     (case filter (\<lambda>(k, v). k = ''version'') (db_metadata db) of
        [] \<Rightarrow> Inr None
      | [(k, v)] \<Rightarrow> Inr v
      | _ \<Rightarrow> Inl SubqueryMoreThanOneRow)"

definition max_snapshot :: "'p lake_db \<Rightarrow> int option" where
  "max_snapshot db = sql_max (map (\<lambda>r. Some (sr_id r)) (db_snapshots db))"

definition changes_since :: "u64 \<Rightarrow> 'p lake_db \<Rightarrow> change_row list" where
  "changes_since changes_after db = filter (\<lambda>c. uint changes_after < cr_snapshot c) (db_changes db)"

text \<open>The tuples this batch has written itself.\<close>

definition own_row :: "NativeInlineWriteBatch \<Rightarrow> 'p heap_row \<Rightarrow> bool" where
  "own_row batch r \<longleftrightarrow> h_xmin r = batch_owner_xid batch \<and> h_cmin r = batch_owner_command_id batch \<and>
     h_begin r = Some (uint (batch_snapshot_id batch)) \<and>
     (case h_row_id r of
        None \<Rightarrow> False
      | Some i \<Rightarrow> uint (batch_row_id batch) \<le> i \<and> i < uint (batch_row_id batch + rows_inserted batch))"

text \<open>\<open>inline_oid\<close> resolves the name \<^verbatim>\<open>ducklake_inlined_data_<table>_<schema version>\<close>.\<close>

definition derived_next_row_id ::
  "(int \<times> int \<Rightarrow> oid) \<Rightarrow> NativeInlineWriteBatch \<Rightarrow> 'p lake_db \<Rightarrow> int option" where
  "derived_next_row_id inline_oid batch db =
     (let rows = db_heap db (inline_oid (uint (table_id batch), uint (schema_version batch)));
          seen = (if rows_inserted batch > 0 then filter (\<lambda>r. \<not> own_row batch r) rows else rows)
      in case sql_max (map h_row_id seen) of None \<Rightarrow> Some 0 | Some m \<Rightarrow> Some (m + 1))"

definition ReadPublicationState ::
  "(int \<times> int \<Rightarrow> oid) \<Rightarrow> NativeInlineWriteBatch \<Rightarrow> u64 \<Rightarrow> 'p lake_db \<Rightarrow> werror + PublicationState" where
  "ReadPublicationState inline_oid batch changes_after db =
     (let tid = uint (table_id batch) in
      case filter (\<lambda>r. max_snapshot db = Some (sr_id r)) (db_snapshots db) of
        [] \<Rightarrow> Inl CouldNotReadState
      | s # _ \<Rightarrow>
     andthen (metadata_version db) (\<lambda>version.
     andthen (GetRequiredProtocolUInt64 (Some (sr_id s)) ''snapshot_id'') (\<lambda>snapshot_id.
     andthen (GetRequiredProtocolUInt64 (sr_schema_version s) ''schema_version'') (\<lambda>sv.
     andthen (GetRequiredProtocolUInt64 (sr_next_catalog_id s) ''next_catalog_id'') (\<lambda>nc.
     andthen (GetRequiredProtocolUInt64 (sr_next_file_id s) ''next_file_id'') (\<lambda>nf.
     if version \<noteq> Some ''1.0''
     then Inl (UnsupportedVersion (case version of None \<Rightarrow> ''<missing>'' | Some v \<Rightarrow> v))
     else
       let live = list_ex (\<lambda>t. tr_table t = tid \<and> tr_end t = None) (db_tables db);
           isv = (case sql_max (map ir_schema (filter (\<lambda>r. ir_table r = tid) (db_inlined db))) of
                    None \<Rightarrow> UINT64_MAX
                  | Some v \<Rightarrow> if v < 0 then UINT64_MAX else word_of_int v);
           changes = changes_since changes_after db;
           st = PublicationState.make snapshot_id sv nc nf 0 0 isv (of_nat (length changes))
                  (of_nat (length (somes (map cr_changes changes)))) False live (string_agg changes)
       in case filter (\<lambda>r. st_table r = tid) (db_stats db) of
            [] \<Rightarrow>
              andthen (GetRequiredProtocolUInt64 (derived_next_row_id inline_oid batch db) ''derived next_row_id'') (\<lambda>nr.
                Inr (st\<lparr>ps_next_row_id := nr\<rparr>))
          | ts # _ \<Rightarrow>
              andthen (GetRequiredProtocolUInt64 (st_record_count ts) ''record_count'') (\<lambda>rc.
              andthen (GetRequiredProtocolUInt64 (st_next_row_id ts) ''next_row_id'') (\<lambda>nr.
                Inr (st\<lparr>has_table_stats := True, ps_record_count := rc, ps_next_row_id := nr\<rparr>)))))))))"

definition ValidateBinding :: "NativeInlineWriteBatch \<Rightarrow> PublicationState \<Rightarrow> werror + unit" where
  "ValidateBinding batch state =
     guard_or TargetTableChanged (table_is_live state \<and> inline_schema_version state = schema_version batch)"

text \<open>\<^verbatim>\<open>SnapshotChangeInformation::ParseChangesMade\<close> belongs to DuckLake.\<close>

record parsed_changes =
  dropped_tables :: "u64 set"
  altered_tables :: "u64 set"
  tables_deleted_from :: "u64 set"
  tables_deleted_inlined :: "u64 set"

datatype ChangeCheckResult = ChangesOK | ChangesCONFLICT | ChangesINVALID | ChangesOUT_OF_MEMORY

definition CheckInterveningChanges :: "(string \<Rightarrow> dl_exn + parsed_changes) \<Rightarrow> string \<Rightarrow> u64 \<Rightarrow> ChangeCheckResult" where
  "CheckInterveningChanges ParseChangesMade changes tid =
     (case ParseChangesMade changes of
        Inl DlOutOfMemory \<Rightarrow> ChangesOUT_OF_MEMORY
      | Inl DlOther \<Rightarrow> ChangesINVALID
      | Inr c \<Rightarrow>
          if tid \<in> dropped_tables c \<or> tid \<in> altered_tables c \<or> tid \<in> tables_deleted_from c \<or>
             tid \<in> tables_deleted_inlined c
          then ChangesCONFLICT else ChangesOK)"

section \<open>Retagging prewritten rows\<close>

text \<open>What the relation cache says of an inline relation.\<close>

record pg_relation =
  rel_oid :: oid
  rel_is_table :: bool
  rel_is_heap :: bool
  rel_indexes :: "oid list"
  relhastriggers :: bool
  rel_trigdesc :: bool
  relhasrules :: bool
  rel_rules :: bool
  relrowsecurity :: bool
  rel_num_check :: "nat option"
  has_generated_stored :: bool
  has_generated_virtual :: bool
  attgenerated :: "bool list"
  rel_logically_logged :: bool

text \<open>\<open>rel_num_check\<close> is \<open>None\<close> for a tuple descriptor without constraints.\<close>

definition RelationSupportsInplaceRetag :: "bool \<Rightarrow> pg_relation \<Rightarrow> bool" where
  "RelationSupportsInplaceRetag pg18 rel =
     (let unsafe1 = (case rel_num_check rel of None \<Rightarrow> False | Some n \<Rightarrow> n > 0 \<or> has_generated_stored rel);
          unsafe2 = (unsafe1 \<or> (pg18 \<and> rel_num_check rel \<noteq> None \<and> has_generated_virtual rel));
          unsafe_constraints = (unsafe2 \<or> list_ex id (attgenerated rel))
      in rel_is_table rel \<and> rel_is_heap rel \<and> rel_indexes rel = [] \<and> \<not> relhastriggers rel \<and> \<not> rel_trigdesc rel \<and>
         \<not> relhasrules rel \<and> \<not> rel_rules rel \<and> \<not> relrowsecurity rel \<and> \<not> unsafe_constraints \<and> \<not> rel_logically_logged rel)"

text \<open>One turn of the in-place loop: the tuple at the pointer, its identity check and its
  replacement. \<^verbatim>\<open>bigint\<close> values are read as unsigned words and written back as signed ones.\<close>

definition identity_ok :: "NativeInlineWriteBatch \<Rightarrow> 'p heap_row \<Rightarrow> bool" where
  "identity_ok batch r =
     (case (h_row_id r, h_begin r) of
        (Some i, Some s) \<Rightarrow>
          (let row_id = word_of_int i :: u64; snapshot_id = word_of_int s :: u64 in
           \<not> (h_xmin r \<noteq> batch_owner_xid batch \<or> h_cmin r \<noteq> batch_owner_command_id batch \<or>
              snapshot_id \<noteq> batch_snapshot_id batch \<or> row_id < batch_row_id batch \<or>
              row_id - batch_row_id batch \<ge> rows_inserted batch))
      | _ \<Rightarrow> False)"

definition retag_tuple :: "NativeInlineWriteBatch \<Rightarrow> u64 \<Rightarrow> u64 \<Rightarrow> 'p heap_row \<Rightarrow> 'p heap_row" where
  "retag_tuple batch final_snapshot_id final_row_id r =
     r\<lparr>h_row_id := map_option (\<lambda>i. sint (final_row_id + word_of_int i - batch_row_id batch)) (h_row_id r),
       h_begin := Some (sint final_snapshot_id)\<rparr>"

fun retag_pointers ::
  "NativeInlineWriteBatch \<Rightarrow> u64 \<Rightarrow> u64 \<Rightarrow> tid list \<Rightarrow> 'p heap_row list \<Rightarrow> werror + 'p heap_row list" where
  "retag_pointers batch fs fr [] rows = Inr rows"
| "retag_pointers batch fs fr (p # ps) rows =
     (case find_index (\<lambda>k. h_tid (rows ! k) = p) (length rows) of
        None \<Rightarrow> Inl PrewrittenRowDisappeared
      | Some k \<Rightarrow>
          if \<not> identity_ok batch (rows ! k) then Inl PrewrittenRowIdentityChanged
          else retag_pointers batch fs fr ps (rows[k := retag_tuple batch fs fr (rows ! k)]))"

definition RetagPrewrittenRowsInplace ::
  "NativeInlineWriteBatch \<Rightarrow> u64 \<Rightarrow> u64 \<Rightarrow> 'p heap_row list \<Rightarrow> werror + 'p heap_row list" where
  "RetagPrewrittenRowsInplace batch final_snapshot_id final_row_id rows =
     retag_pointers batch final_snapshot_id final_row_id (row_pointers batch) rows"

text \<open>The fallback is an \<^verbatim>\<open>UPDATE\<close>: it writes new tuple versions, at addresses and with a
  transaction and command that PostgreSQL chooses (\<open>restamp\<close>).\<close>

record 'p pg_stamp =
  stamp_tid :: "'p heap_row \<Rightarrow> tid"
  stamp_xmin :: u32
  stamp_cmin :: u32

definition update_tuple :: "'p pg_stamp \<Rightarrow> NativeInlineWriteBatch \<Rightarrow> u64 \<Rightarrow> u64 \<Rightarrow> 'p heap_row \<Rightarrow> 'p heap_row" where
  "update_tuple stamp batch final_snapshot_id final_row_id r =
     (let row_delta = sint final_row_id - sint (batch_row_id batch) in
      r\<lparr>h_tid := stamp_tid stamp r, h_xmin := stamp_xmin stamp, h_cmin := stamp_cmin stamp,
        h_row_id := map_option (\<lambda>i. i + row_delta) (h_row_id r), h_begin := Some (uint final_snapshot_id)\<rparr>)"

definition retag_by_update ::
  "'p pg_stamp \<Rightarrow> NativeInlineWriteBatch \<Rightarrow> u64 \<Rightarrow> u64 \<Rightarrow> 'p heap_row list \<Rightarrow> werror + 'p heap_row list" where
  "retag_by_update stamp batch final_snapshot_id final_row_id rows =
     (if of_nat (length (filter (own_row batch) rows)) \<noteq> rows_inserted batch then Inl RetaggedRowCount
      else Inr (map (\<lambda>r. if own_row batch r then update_tuple stamp batch final_snapshot_id final_row_id r else r) rows))"

text \<open>What does not change while a batch is published: PostgreSQL's catalogs and version, DuckLake,
  the allocator, and the settings.\<close>

record ('ty, 'p) writer_context =
  cx_inline_oid :: "int \<times> int \<Rightarrow> oid"
  cx_relation :: "oid \<Rightarrow> pg_relation"
  cx_pg18 :: bool
  cx_parse :: "string \<Rightarrow> dl_exn + parsed_changes"
  cx_api :: "'ty ducklake_api"
  cx_memory :: memory
  cx_stamp :: "'p pg_stamp"
  cx_guc :: guc

definition RetagPrewrittenRows ::
  "('ty, 'p) writer_context \<Rightarrow> NativeInlineWriteBatch \<Rightarrow> u64 \<Rightarrow> u64 \<Rightarrow> 'p lake_db \<Rightarrow> werror + 'p lake_db" where
  "RetagPrewrittenRows cx batch final_snapshot_id final_row_id db =
     (if \<not> OidIsValid (inline_table_oid batch) then Inl RowsNotBound
      else
        let rel = inline_table_oid batch; rows = db_heap db rel in
        andthen
          (if row_pointer_tracking_enabled batch \<and> of_nat (length (row_pointers batch)) = rows_inserted batch \<and>
              RelationSupportsInplaceRetag (cx_pg18 cx) (cx_relation cx rel)
           then RetagPrewrittenRowsInplace batch final_snapshot_id final_row_id rows
           else retag_by_update (cx_stamp cx) batch final_snapshot_id final_row_id rows)
          (\<lambda>rows'. Inr (db\<lparr>db_heap := (db_heap db)(rel := rows')\<rparr>)))"

section \<open>One publication attempt\<close>

definition InjectNativeWriterFault :: "guc \<Rightarrow> NativeWriterTestFault \<Rightarrow> werror + unit" where
  "InjectNativeWriterFault g fault = guard_or (TestFault fault) (native_writer_test_fault g \<noteq> fault)"

text \<open>\<^verbatim>\<open>INSERT ... ON CONFLICT (snapshot_id) DO NOTHING RETURNING\<close>: \<open>None\<close> when the id is taken.\<close>

definition claim_snapshot :: "PublicationState \<Rightarrow> u64 \<Rightarrow> 'p lake_db \<Rightarrow> 'p lake_db option" where
  "claim_snapshot state final_snapshot_id db =
     (if list_ex (\<lambda>r. sr_id r = uint final_snapshot_id) (db_snapshots db) then None
      else Some (db\<lparr>db_snapshots := db_snapshots db @
             [\<lparr>sr_id = uint final_snapshot_id, sr_schema_version = Some (uint (ps_schema_version state)),
               sr_next_catalog_id = Some (uint (ps_next_catalog_id state)),
               sr_next_file_id = Some (uint (ps_next_file_id state + 1))\<rparr>]\<rparr>))"

definition write_table_stats ::
  "guc \<Rightarrow> NativeInlineWriteBatch \<Rightarrow> PublicationState \<Rightarrow> u64 \<Rightarrow> 'p lake_db \<Rightarrow> werror + 'p lake_db" where
  "write_table_stats g batch state final_row_id db =
     (let tid = uint (table_id batch) in
      if has_table_stats state
      then if length (filter (\<lambda>r. st_table r = tid) (db_stats db)) \<noteq> 1 then Inl TableStatsRowDisappeared
           else andthen (InjectNativeWriterFault g NATIVE_WRITER_TEST_FAULT_AFTER_TABLE_STATS) (\<lambda>_.
             Inr (db\<lparr>db_stats := map (\<lambda>r. if st_table r = tid
               then r\<lparr>st_record_count := Some (uint (ps_record_count state + rows_inserted batch)),
                      st_next_row_id := Some (uint (final_row_id + rows_inserted batch))\<rparr>
               else r) (db_stats db)\<rparr>))
      else andthen (InjectNativeWriterFault g NATIVE_WRITER_TEST_FAULT_AFTER_TABLE_STATS) (\<lambda>_.
        Inr (db\<lparr>db_stats := db_stats db @
                 [\<lparr>st_table = tid, st_record_count = Some (uint (rows_inserted batch)),
                   st_next_row_id = Some (uint (final_row_id + rows_inserted batch)), st_file_size = 0\<rparr>],
               db_colstats := db_colstats db @
                 map (\<lambda>c. (no_colstat tid)\<lparr>cs_column := co_column c\<rparr>)
                   (filter (\<lambda>c. co_table c = tid \<and> co_end c = None) (db_columns db))\<rparr>)))"

definition change_text :: "u64 \<Rightarrow> string" where
  "change_text tid = ''inlined_insert:'' @ dec_of_nat (unat tid)"

definition write_metadata ::
  "guc \<Rightarrow> NativeInlineWriteBatch \<Rightarrow> PublicationState \<Rightarrow> MergedColumnStat list \<Rightarrow> u64 \<Rightarrow> u64 \<Rightarrow> 'p lake_db \<Rightarrow>
   werror + 'p lake_db" where
  "write_metadata g batch state merged final_snapshot_id final_row_id db =
     andthen (write_table_stats g batch state final_row_id db) (\<lambda>db1.
     andthen (ApplyMergedColumnStats (table_id batch) merged (db_colstats db1)) (\<lambda>cs.
     andthen (InjectNativeWriterFault g NATIVE_WRITER_TEST_FAULT_AFTER_COLUMN_STATS) (\<lambda>_.
     andthen (InjectNativeWriterFault g NATIVE_WRITER_TEST_FAULT_AFTER_CHANGE_RECORD) (\<lambda>_.
       Inr (db1\<lparr>db_colstats := cs,
                db_changes := db_changes db1 @
                  [\<lparr>cr_snapshot = uint final_snapshot_id, cr_changes = Some (change_text (table_id batch))\<rparr>]\<rparr>)))))"

definition needs_retag :: "NativeInlineWriteBatch \<Rightarrow> u64 \<Rightarrow> u64 \<Rightarrow> bool" where
  "needs_retag batch final_snapshot_id final_row_id \<longleftrightarrow>
     final_snapshot_id \<noteq> batch_snapshot_id batch \<or> final_row_id \<noteq> batch_row_id batch"

text \<open>The subtransaction: an error returns the database of before; the counters are not
  transactional.\<close>

definition RunPublicationAttempt ::
  "('ty, 'p) writer_context \<Rightarrow> NativeInlineWriteBatch \<Rightarrow> PublicationState \<Rightarrow> MergedColumnStat list \<Rightarrow> u64 \<Rightarrow> u64 \<Rightarrow>
   'p lake_db \<times> writer_stats \<Rightarrow> ('p lake_db \<times> writer_stats) \<times> (werror + bool)" where
  "RunPublicationAttempt cx batch state merged final_snapshot_id final_row_id st =
     (case st of (db, counters) \<Rightarrow>
        case claim_snapshot state final_snapshot_id db of
          None \<Rightarrow> ((db, counters), Inr False)
        | Some db1 \<Rightarrow>
            let g = cx_guc cx; retag = needs_retag batch final_snapshot_id final_row_id in
            (case andthen (InjectNativeWriterFault g NATIVE_WRITER_TEST_FAULT_AFTER_CLAIM) (\<lambda>_.
                    if retag then RetagPrewrittenRows cx batch final_snapshot_id final_row_id db1 else Inr db1) of
               Inl e \<Rightarrow> ((db, counters), Inl e)
             | Inr db2 \<Rightarrow>
                 let counters' = (if retag then NativeWriterStatsAdd NW_ROWS_RETAGGED (rows_inserted batch) counters
                                  else counters)
                 in (case andthen (if retag then InjectNativeWriterFault g NATIVE_WRITER_TEST_FAULT_AFTER_RETAG else Inr ())
                            (\<lambda>_. write_metadata g batch state merged final_snapshot_id final_row_id db2) of
                       Inl e \<Rightarrow> ((db, counters'), Inl e)
                     | Inr db3 \<Rightarrow> ((db3, counters'), Inr True))))"

section \<open>Retry delay\<close>

text \<open>The delay of a retry in milliseconds, with the jitter that a hash of the process id and the retry
  number gives; \<^verbatim>\<open>double\<close> is \<open>rat\<close>. The wait on the latch has no effect on the state.\<close>

definition retry_hash :: "u32 \<Rightarrow> u32 \<Rightarrow> u32" where
  "retry_hash MyProcPid retry_number = MyProcPid * 1103515245 + retry_number * 12345"

definition retry_jitter :: "u32 \<Rightarrow> u32 \<Rightarrow> rat" where
  "retry_jitter MyProcPid retry_number = 1 / 2 + of_int (uint (take_bit 16 (retry_hash MyProcPid retry_number))) / 131070"

definition RetryBackoff :: "guc \<Rightarrow> u32 \<Rightarrow> nat \<Rightarrow> int" where
  "RetryBackoff g MyProcPid retry_number =
     (if native_writer_retry_wait_ms g \<le> 0 then 0
      else
        let delay = of_int (native_writer_retry_wait_ms g) * native_writer_retry_backoff g ^ retry_number;
            capped = (if delay > 60000 then 60000 else delay)
        in \<lceil>capped * retry_jitter MyProcPid (of_nat retry_number)\<rceil>)"

section \<open>Preparing a batch\<close>

definition empty_batch :: NativeInlineWriteBatch where
  "empty_batch = \<lparr>target_table_oid = 0, inline_table_oid = 0, table_id = 0, schema_version = 0, start_snapshot_id = 0,
     batch_snapshot_id = 0, batch_row_id = 0, batch_owner_xid = 0, batch_owner_command_id = 0,
     batch_reservation = \<lparr>slot_no = 0, res_ticket = 0, active = False\<rparr>, row_pointers = [], row_pointer_capacity = 0,
     row_pointer_tracking_enabled = False, rows_inserted = 0, column_stats = []\<rparr>"

text \<open>What the statement runs in: the transaction, the ids PostgreSQL gave it, and the identity of
  the backend for the reservation queue.\<close>

record statement_context =
  sc_transaction_block :: bool
  sc_xact_snapshot :: bool
  sc_nest_level :: nat
  sc_xid :: u32
  sc_command_id :: u32
  sc_catalog :: CatalogKey
  sc_owner :: OwnerIdentity

text \<open>The call of \<^verbatim>\<open>ReserveNativeWriterPublication\<close> with the environment it needs.\<close>

record reserve_env =
  re_time :: pg_time
  re_procs :: "pgproc list"
  re_gap :: "queue \<Rightarrow> queue"
  re_turns :: "wait_turn list"
  re_read :: "queue \<Rightarrow> queue"

definition reserve_args_of ::
  "statement_context \<Rightarrow> NativeInlineWriteBatch \<Rightarrow> PublicationState \<Rightarrow> u64 \<Rightarrow> reserve_args" where
  "reserve_args_of sc batch state expected_row_count =
     (let known = (expected_row_count \<noteq> NATIVE_WRITER_UNKNOWN_ROW_COUNT) in
      \<lparr>ra_catalog = sc_catalog sc, ra_owner = sc_owner sc, ra_table_id = table_id batch,
       observed_snapshot_id = ps_snapshot_id state, observed_next_row_id = ps_next_row_id state,
       ra_owner_command_id = batch_owner_command_id batch, ra_row_count_known = known,
       ra_row_count = (if known then expected_row_count else 0)\<rparr>)"

text \<open>The outer \<open>None\<close>: the reservation is still waiting for its row id.\<close>

definition PrepareNativeInlineWrite ::
  "('ty, 'p) writer_context \<Rightarrow> statement_context \<Rightarrow> reserve_env \<Rightarrow> oid \<Rightarrow> u64 \<Rightarrow> u64 \<Rightarrow> u64 \<Rightarrow> 'p lake_db \<Rightarrow>
   queue option \<times> LocalReservation \<Rightarrow> ((queue option \<times> LocalReservation) \<times> (werror + NativeInlineWriteBatch)) option" where
  "PrepareNativeInlineWrite cx sc re target expected_table_id expected_schema_version expected_row_count db qs =
     (if sc_transaction_block sc \<or> sc_xact_snapshot sc then Some (qs, Inl NotImplicitReadCommitted)
      else if sc_nest_level sc \<noteq> 1 then Some (qs, Inl InsideSubtransaction)
      else
        let batch0 = empty_batch\<lparr>target_table_oid := target, table_id := expected_table_id,
                       row_pointer_tracking_enabled := True, schema_version := expected_schema_version\<rparr>
        in case andthen (ReadPublicationState (cx_inline_oid cx) batch0 INT64_MAX db) (\<lambda>state.
                andthen (ValidateBinding batch0 state) (\<lambda>_.
                andthen (guard_or ExhaustedIds (\<not> (ps_snapshot_id state \<ge> INT64_MAX \<or> ps_next_row_id state > INT64_MAX)))
                  (\<lambda>_. Inr state))) of
             Inl e \<Rightarrow> Some (qs, Inl e)
           | Inr state \<Rightarrow>
               let batch = batch0\<lparr>start_snapshot_id := ps_snapshot_id state,
                             batch_snapshot_id := ps_snapshot_id state + 1, batch_row_id := ps_next_row_id state,
                             batch_owner_xid := sc_xid sc, batch_owner_command_id := sc_command_id sc\<rparr>
               in if \<not> native_writer_reservation_queue (cx_guc cx) then Some (qs, Inr batch)
                  else case ReserveNativeWriterPublication (re_time re) (cx_guc cx) (re_procs re) (re_gap re) (re_turns re)
                              (re_read re) (reserve_args_of sc batch state expected_row_count) qs of
                         None \<Rightarrow> None
                       | Some (q', l', res, reserved) \<Rightarrow>
                           let b = batch\<lparr>batch_reservation := reservation res\<rparr> in
                           Some ((q', l'), Inr (if reserved
                             then b\<lparr>batch_snapshot_id := result_snapshot_id res, batch_row_id := result_row_id res\<rparr>
                             else b)))"

section \<open>Row pointers\<close>

definition BindNativeInlineWriteRelation ::
  "bool \<Rightarrow> pg_relation \<Rightarrow> NativeInlineWriteBatch \<Rightarrow> werror + NativeInlineWriteBatch" where
  "BindNativeInlineWriteRelation pg18 rel batch =
     (if OidIsValid (inline_table_oid batch) \<and> inline_table_oid batch \<noteq> rel_oid rel then Inl PointersSpanRelations
      else Inr (batch\<lparr>inline_table_oid := rel_oid rel,
                     row_pointer_tracking_enabled := RelationSupportsInplaceRetag pg18 rel\<rparr>))"

definition MAX_TRACKED_ROW_POINTERS :: u64 where
  "MAX_TRACKED_ROW_POINTERS = 65536"

text \<open>The loop that doubles the capacity.\<close>

fun grow_capacity :: "nat \<Rightarrow> u64 \<Rightarrow> u64 \<Rightarrow> u64" where
  "grow_capacity 0 capacity required = capacity"
| "grow_capacity (Suc n) capacity required =
     (if capacity < required then grow_capacity n (min (capacity * 2) MAX_TRACKED_ROW_POINTERS) required else capacity)"

definition stop_tracking :: "NativeInlineWriteBatch \<Rightarrow> NativeInlineWriteBatch" where
  "stop_tracking batch = batch\<lparr>row_pointers := [], row_pointer_capacity := 0, row_pointer_tracking_enabled := False\<rparr>"

text \<open>A slot without a valid address is \<open>None\<close>. Twenty doublings reach the cap from any start.\<close>

definition RecordNativeInlineWriteRows ::
  "tid option list \<Rightarrow> NativeInlineWriteBatch \<Rightarrow> NativeInlineWriteBatch" where
  "RecordNativeInlineWriteRows tids batch =
     (let count = of_nat (length tids) :: u64; pcount = of_nat (length (row_pointers batch)) :: u64 in
      if count = 0 \<or> \<not> row_pointer_tracking_enabled batch then batch
      else if count > MAX_TRACKED_ROW_POINTERS - pcount then stop_tracking batch
      else if None \<in> set tids then stop_tracking batch
      else
        let required = pcount + count;
            capacity = (if row_pointer_capacity batch < required
                        then grow_capacity 20 (if row_pointer_capacity batch = 0 then 1024 else row_pointer_capacity batch) required
                        else row_pointer_capacity batch)
        in batch\<lparr>row_pointers := row_pointers batch @ somes tids, row_pointer_capacity := capacity\<rparr>)"

section \<open>Publishing a batch\<close>

record 'p writer_state =
  ws_db :: "'p lake_db"
  ws_stats :: writer_stats
  ws_queue :: "queue option"
  ws_local :: LocalReservation

definition count_event :: "NativeWriterCounter \<Rightarrow> 'p writer_state \<Rightarrow> 'p writer_state" where
  "count_event c st = st\<lparr>ws_stats := NativeWriterStatsAdd c 1 (ws_stats st)\<rparr>"

text \<open>What other backends do during an attempt: commits before each of the three statements that
  take a snapshot of their own, and changes of the reservation queue.\<close>

record 'p attempt_env =
  ae_before_read :: "'p lake_db \<Rightarrow> 'p lake_db"
  ae_before_stats :: "'p lake_db \<Rightarrow> 'p lake_db"
  ae_before_claim :: "'p lake_db \<Rightarrow> 'p lake_db"
  ae_queue_validate :: "queue option \<Rightarrow> queue option"
  ae_queue_invalidate :: "queue option \<Rightarrow> queue option"

text \<open>The checks on the state that an attempt reads, in their order. The forced client retry counts
  as an exhaustion.\<close>

definition history_complete :: "NativeInlineWriteBatch \<Rightarrow> PublicationState \<Rightarrow> bool" where
  "history_complete batch state \<longleftrightarrow>
     \<not> (ps_snapshot_id state < start_snapshot_id batch \<or>
        change_row_count state \<noteq> ps_snapshot_id state - start_snapshot_id batch \<or>
        nonnull_change_count state \<noteq> ps_snapshot_id state - start_snapshot_id batch)"

definition ids_left :: "NativeInlineWriteBatch \<Rightarrow> PublicationState \<Rightarrow> bool" where
  "ids_left batch state \<longleftrightarrow>
     \<not> (ps_snapshot_id state \<ge> INT64_MAX \<or> ps_next_file_id state \<ge> INT64_MAX \<or> rows_inserted batch > INT64_MAX \<or>
        ps_next_row_id state > INT64_MAX - rows_inserted batch \<or> ps_record_count state > INT64_MAX - rows_inserted batch)"

definition check_state ::
  "('ty, 'p) writer_context \<Rightarrow> NativeInlineWriteBatch \<Rightarrow> PublicationState \<Rightarrow> werror + unit" where
  "check_state cx batch state =
     andthen (ValidateBinding batch state) (\<lambda>_.
     andthen (guard_or IncompleteChangeHistory (history_complete batch state)) (\<lambda>_.
     andthen (guard_or ForcedClientRetry (\<not> (test_native_writer_force_client_retry_before_rebase (cx_guc cx) \<and>
                                         ps_snapshot_id state \<noteq> start_snapshot_id batch))) (\<lambda>_.
     case CheckInterveningChanges (cx_parse cx) (changes_made state) (table_id batch) of
       ChangesCONFLICT \<Rightarrow> Inl ConflictingChange
     | ChangesINVALID \<Rightarrow> Inl InvalidChangeRecord
     | ChangesOUT_OF_MEMORY \<Rightarrow> Inl OutOfMemory
     | ChangesOK \<Rightarrow> guard_or ExhaustedIds (ids_left batch state))))"

definition validate_reservation ::
  "nat \<Rightarrow> bool \<Rightarrow> NativeInlineWriteBatch \<Rightarrow> u64 \<Rightarrow> u64 \<Rightarrow> queue option \<Rightarrow> queue option \<times> bool" where
  "validate_reservation cap reservation_valid batch final_snapshot_id final_row_id q =
     (if reservation_valid then ValidateNativeWriterReservation cap (batch_reservation batch) final_snapshot_id final_row_id q
      else (q, False))"

definition publish_attempt ::
  "('ty, 'p) writer_context \<Rightarrow> 'p attempt_env \<Rightarrow> NativeInlineWriteBatch \<Rightarrow> bool \<Rightarrow> 'p writer_state \<Rightarrow>
   'p writer_state \<times> (werror + bool)" where
  "publish_attempt cx env batch reservation_valid st =
     (let g = cx_guc cx; cap = QueueCapacity g; db1 = ae_before_read env (ws_db st); st1 = st\<lparr>ws_db := db1\<rparr> in
      case ReadPublicationState (cx_inline_oid cx) batch (start_snapshot_id batch) db1 of
        Inl e \<Rightarrow> (st1, Inl e)
      | Inr state \<Rightarrow>
     (case check_state cx batch state of
        Inl e \<Rightarrow> (if e = ForcedClientRetry then count_event NW_RETRY_EXHAUSTIONS st1 else st1, Inl e)
      | Inr _ \<Rightarrow>
          let fs = ps_snapshot_id state + 1; fr = ps_next_row_id state;
              (q1, rv) = validate_reservation cap reservation_valid batch fs fr (ae_queue_validate env (ws_queue st1));
              db2 = ae_before_stats env db1; st2 = st1\<lparr>ws_db := db2, ws_queue := q1\<rparr>
          in (case PrepareMergedColumnStats (cx_api cx) (cx_memory cx) (table_id batch) (column_stats batch)
                     (\<not> has_table_stats state) (db_colstats db2) of
                Inl e \<Rightarrow> (st2, Inl e)
              | Inr merged \<Rightarrow>
                  let st3 = count_event NW_PUBLICATION_ATTEMPTS st2; db3 = ae_before_claim env db2 in
                  (case RunPublicationAttempt cx batch state merged fs fr (db3, ws_stats st3) of
                     ((db4, c), Inl e) \<Rightarrow> (st3\<lparr>ws_db := db4, ws_stats := c\<rparr>, Inl e)
                   | ((db4, c), Inr True) \<Rightarrow>
                       let st4 = st3\<lparr>ws_db := db4, ws_stats := c,
                                   ws_local := MarkNativeWriterReservationPublished (batch_reservation batch) (ws_local st3)\<rparr>
                       in (st4, andthen (InjectNativeWriterFault g NATIVE_WRITER_TEST_FAULT_AFTER_PUBLICATION) (\<lambda>_. Inr True))
                   | ((db4, c), Inr False) \<Rightarrow>
                       let st4 = count_event NW_SNAPSHOT_CLAIM_CONFLICTS (st3\<lparr>ws_db := db4, ws_stats := c\<rparr>) in
                       (if rv then st4\<lparr>ws_queue := InvalidateNativeWriterReservation cap (batch_reservation batch)
                                                    (ae_queue_invalidate env (ws_queue st4))\<rparr>
                        else st4, Inr False)))))"

text \<open>The retry loop, with \<open>left\<close> retries to go after this attempt. Its result is the number of
  retries that were needed.\<close>

fun publish_loop ::
  "('ty, 'p) writer_context \<Rightarrow> (nat \<Rightarrow> 'p attempt_env) \<Rightarrow> NativeInlineWriteBatch \<Rightarrow> nat \<Rightarrow> nat \<Rightarrow> bool \<Rightarrow> 'p writer_state \<Rightarrow>
   'p writer_state \<times> (werror + nat)" where
  "publish_loop cx env batch left attempt rv st =
     (case publish_attempt cx (env attempt) batch rv st of
        (st', Inl e) \<Rightarrow> (st', Inl e)
      | (st', Inr True) \<Rightarrow> (st', Inr attempt)
      | (st', Inr False) \<Rightarrow>
          (case left of
             0 \<Rightarrow> (count_event NW_RETRY_EXHAUSTIONS st', Inl RetriesExceeded)
           | Suc l \<Rightarrow> publish_loop cx env batch l (Suc attempt) False st'))"

declare publish_loop.simps [simp del]

datatype publish_result = NothingToPublish | PublishedAfter nat

text \<open>The calls on the reservation queue before the loop; \<open>None\<close>: still waiting for the turn.\<close>

definition await_turn ::
  "guc \<Rightarrow> pg_time \<Rightarrow> wait_turn list \<Rightarrow> (queue option \<Rightarrow> queue option) \<Rightarrow> NativeInlineWriteBatch \<Rightarrow> queue option \<Rightarrow>
   (queue option \<times> bool) option" where
  "await_turn g pgt turns others batch q =
     (case CompleteNativeWriterReservation (QueueCapacity g) (batch_reservation batch) (rows_inserted batch) q of
        (q1, False) \<Rightarrow> Some (q1, False)
      | (q1, True) \<Rightarrow> WaitForNativeWriterPublication pgt g (batch_reservation batch) turns (others q1))"

definition PublishNativeInlineWrite ::
  "('ty, 'p) writer_context \<Rightarrow> pg_time \<Rightarrow> wait_turn list \<Rightarrow> (queue option \<Rightarrow> queue option) \<Rightarrow> (nat \<Rightarrow> 'p attempt_env) \<Rightarrow>
   NativeInlineWriteBatch \<Rightarrow> 'p writer_state \<Rightarrow> ('p writer_state \<times> (werror + publish_result)) option" where
  "PublishNativeInlineWrite cx pgt turns others env batch st =
     (if rows_inserted batch = 0 then Some (st, Inr NothingToPublish)
      else if batch_row_id batch + rows_inserted batch < batch_row_id batch \<or>
              batch_row_id batch + rows_inserted batch > INT64_MAX
      then Some (st, Inl ExhaustedRowIds)
      else case InjectNativeWriterFault (cx_guc cx) NATIVE_WRITER_TEST_FAULT_AFTER_PREWRITE of
             Inl e \<Rightarrow> Some (st, Inl e)
           | Inr _ \<Rightarrow>
               map_option (\<lambda>(q, rv).
                 (case publish_loop cx env batch (nat (native_writer_max_retry_count (cx_guc cx))) 0 rv (st\<lparr>ws_queue := q\<rparr>) of
                    (st', Inl e) \<Rightarrow> (st', Inl e)
                  | (st', Inr n) \<Rightarrow> (st', Inr (PublishedAfter n))))
                 (await_turn (cx_guc cx) pgt turns others batch (ws_queue st)))"

end
