(* ===== verification/Inline_Col_Stats.thy ===== *)
theory Inline_Col_Stats
  imports Native_Column_Stats C_Strings
begin

text \<open>
  The accumulator of column statistics, \<^verbatim>\<open>inline_col_stats.cpp\<close>: it reads the live columns of a table,
  folds the values of a batch into a range per column, and gives the contributions that a publication
  merges into the persisted statistics.

  PostgreSQL's type functions are the record \<open>pg_type_api\<close>: the output function of a type, under ISO
  date style or the session's, its B-tree comparison function, and the \<^verbatim>\<open>isnan\<close> test on its datums.
  What DuckLake says of a type name is \<open>ducklake_types\<close>.
\<close>

section \<open>Data\<close>

datatype LogicalTypeId =
    LT_BOOLEAN | LT_TINYINT | LT_SMALLINT | LT_INTEGER | LT_BIGINT | LT_HUGEINT
  | LT_UTINYINT | LT_USMALLINT | LT_UINTEGER | LT_UBIGINT | LT_UHUGEINT | LT_DECIMAL
  | LT_DATE | LT_TIME | LT_TIMESTAMP | LT_TIMESTAMP_TZ | LT_TIMESTAMP_SEC | LT_TIMESTAMP_MS | LT_TIMESTAMP_NS
  | LT_UUID | LT_VARCHAR | LT_FLOAT | LT_DOUBLE | LT_OTHER

record ducklake_types =
  dt_id :: "string \<Rightarrow> dl_exn + LogicalTypeId"
  dt_RequiresValueComparison :: "string \<Rightarrow> bool"

record 'd pg_type_api =
  pg_output_iso :: "oid \<Rightarrow> 'd \<Rightarrow> string"
  pg_output_session :: "oid \<Rightarrow> 'd \<Rightarrow> string"
  pg_cmp :: "oid \<Rightarrow> ('d \<Rightarrow> 'd \<Rightarrow> int) option"
  pg_isnan :: "'d \<Rightarrow> bool"

definition FLOAT4OID :: oid where "FLOAT4OID = 700"

definition FLOAT8OID :: oid where "FLOAT8OID = 701"

text \<open>One column. \<^verbatim>\<open>has_value\<close> with \<^verbatim>\<open>min_value\<close> and \<^verbatim>\<open>max_value\<close> is \<open>e_values\<close>, with \<^verbatim>\<open>min_text\<close> and
  \<^verbatim>\<open>max_text\<close> it is \<open>e_texts\<close>; \<^verbatim>\<open>value_cmp\<close> says which of the two the column uses.\<close>

record 'd InlineColStatsEntry =
  e_column_id :: u64
  e_column_type :: string
  e_bounds_safe :: bool
  e_value_cmp :: bool
  e_floating :: bool
  e_ready :: bool
  e_observed_null :: bool
  e_observed_nan :: bool
  e_source_type :: oid
  e_compare :: "('d \<Rightarrow> 'd \<Rightarrow> int) option"
  e_values :: "('d \<times> 'd) option"
  e_texts :: "(string \<times> string) option"

record 'd InlineColStats =
  source_count :: int
  entries :: "'d InlineColStatsEntry list"

record TypeProperties =
  tp_bounds_safe :: bool
  tp_value_cmp :: bool
  tp_floating :: bool
  tp_out_of_memory :: bool

section \<open>Creating the accumulator\<close>

fun safe_type :: "LogicalTypeId \<Rightarrow> bool" where
  "safe_type LT_OTHER = False"
| "safe_type _ = True"

definition GetTypeProperties :: "ducklake_types \<Rightarrow> string \<Rightarrow> TypeProperties" where
  "GetTypeProperties types name =
     (case dt_id types name of
        Inl DlOutOfMemory \<Rightarrow> \<lparr>tp_bounds_safe = False, tp_value_cmp = False, tp_floating = False, tp_out_of_memory = True\<rparr>
      | Inl DlOther \<Rightarrow> \<lparr>tp_bounds_safe = False, tp_value_cmp = False, tp_floating = False, tp_out_of_memory = False\<rparr>
      | Inr ty \<Rightarrow> \<lparr>tp_bounds_safe = safe_type ty, tp_value_cmp = dt_RequiresValueComparison types name,
                  tp_floating = (ty = LT_FLOAT \<or> ty = LT_DOUBLE), tp_out_of_memory = False\<rparr>)"

definition IsNaN :: "'d pg_type_api \<Rightarrow> 'd InlineColStatsEntry \<Rightarrow> 'd \<Rightarrow> bool" where
  "IsNaN pg entry v \<longleftrightarrow>
     e_floating entry \<and> (e_source_type entry = FLOAT4OID \<or> e_source_type entry = FLOAT8OID) \<and> pg_isnan pg v"

text \<open>The live columns in the order of the query: top-level ones first, then by column order.\<close>

definition live_columns :: "u64 \<Rightarrow> column_row list \<Rightarrow> column_row list" where
  "live_columns table_id rows =
     sort_key (\<lambda>c. (co_parent c \<noteq> None, nulls_last (co_order c), nulls_last (co_column c)))
       (filter (\<lambda>c. co_table c = uint table_id \<and> co_end c = None) rows)"

definition new_entry :: "u64 \<Rightarrow> string \<Rightarrow> TypeProperties \<Rightarrow> 'd InlineColStatsEntry" where
  "new_entry cid ty p =
     \<lparr>e_column_id = cid, e_column_type = ty, e_bounds_safe = tp_bounds_safe p, e_value_cmp = tp_value_cmp p,
      e_floating = tp_floating p, e_ready = False, e_observed_null = False, e_observed_nan = False,
      e_source_type = InvalidOid, e_compare = None, e_values = None, e_texts = None\<rparr>"

text \<open>The rows of the query are \<open>None\<close> when SPI does not return a result set.\<close>

definition CreateInlineColStats ::
  "ducklake_types \<Rightarrow> u64 \<Rightarrow> int \<Rightarrow> column_row list option \<Rightarrow> werror + 'd InlineColStats" where
  "CreateInlineColStats types table_id num_cols rows =
     (let empty = \<lparr>source_count = num_cols, entries = []\<rparr> in
      case rows of
        None \<Rightarrow> Inr empty
      | Some rs \<Rightarrow>
          let cols = live_columns table_id rs in
          if int (length (filter (\<lambda>c. co_parent c = None) cols)) \<noteq> num_cols then Inr empty
          else if list_ex (\<lambda>c. co_column c = None \<or> co_type c = None) cols then Inr empty
          else if list_ex (\<lambda>c. tp_out_of_memory (GetTypeProperties types (the (co_type c)))) cols then Inl OutOfMemory
          else Inr (empty\<lparr>entries := map (\<lambda>c. new_entry (word_of_int (the (co_column c))) (the (co_type c))
                                         (GetTypeProperties types (the (co_type c)))) cols\<rparr>))"

section \<open>Observing values\<close>

text \<open>The guard of the operations on one column; a null accumulator is \<open>None\<close>.\<close>

definition on_column :: "int \<Rightarrow> ('d InlineColStatsEntry \<Rightarrow> 'd InlineColStatsEntry) \<Rightarrow> 'd InlineColStats option \<Rightarrow> 'd InlineColStats option" where
  "on_column column f stats =
     (case stats of
        None \<Rightarrow> None
      | Some st \<Rightarrow>
          if column < 0 \<or> column \<ge> source_count st \<or> column \<ge> int (length (entries st)) then Some st
          else Some (st\<lparr>entries := (entries st)[nat column := f (entries st ! nat column)]\<rparr>))"

definition setup_entry :: "'d pg_type_api \<Rightarrow> oid \<Rightarrow> 'd InlineColStatsEntry \<Rightarrow> 'd InlineColStatsEntry" where
  "setup_entry pg source_type entry =
     (let e = entry\<lparr>e_source_type := source_type\<rparr> in
      if \<not> e_bounds_safe e then e
      else if e_value_cmp e
      then (case pg_cmp pg source_type of
              None \<Rightarrow> e\<lparr>e_bounds_safe := False\<rparr>
            | Some c \<Rightarrow> e\<lparr>e_compare := Some c, e_ready := True\<rparr>)
      else e\<lparr>e_ready := True\<rparr>)"

definition SetupInlineColStatsColumn :: "'d pg_type_api \<Rightarrow> int \<Rightarrow> oid \<Rightarrow> 'd InlineColStats option \<Rightarrow> 'd InlineColStats option" where
  "SetupInlineColStatsColumn pg column source_type = on_column column (setup_entry pg source_type)"

definition observe_entry :: "'d pg_type_api \<Rightarrow> 'd \<Rightarrow> 'd InlineColStatsEntry \<Rightarrow> 'd InlineColStatsEntry" where
  "observe_entry pg v entry =
     (if \<not> e_bounds_safe entry \<or> \<not> e_ready entry then entry
      else if IsNaN pg entry v then entry\<lparr>e_observed_nan := True\<rparr>
      else if e_value_cmp entry
      then (case e_values entry of
              None \<Rightarrow> entry\<lparr>e_values := Some (v, v)\<rparr>
            | Some r \<Rightarrow> entry\<lparr>e_values := Some (case e_compare entry of None \<Rightarrow> r | Some c \<Rightarrow> widen c v r)\<rparr>)
      else let copy = pg_output_session pg (e_source_type entry) v in
           (case e_texts entry of
              None \<Rightarrow> entry\<lparr>e_texts := Some (copy, copy)\<rparr>
            | Some r \<Rightarrow> entry\<lparr>e_texts := Some (widen_else strcmp copy r)\<rparr>))"

definition ObserveInlineColStatsDatum :: "'d pg_type_api \<Rightarrow> int \<Rightarrow> 'd \<Rightarrow> 'd InlineColStats option \<Rightarrow> 'd InlineColStats option" where
  "ObserveInlineColStatsDatum pg column v = on_column column (observe_entry pg v)"

definition ObserveInlineColStatsNull :: "int \<Rightarrow> 'd InlineColStats option \<Rightarrow> 'd InlineColStats option" where
  "ObserveInlineColStatsNull column = on_column column (\<lambda>e. e\<lparr>e_observed_null := True\<rparr>)"

section \<open>The contributions\<close>

definition finalize_entry :: "'d pg_type_api \<Rightarrow> bool \<Rightarrow> 'd InlineColStatsEntry \<Rightarrow> NativeInlineColumnStat" where
  "finalize_entry pg nested entry =
     (let has_value = e_values entry \<noteq> None \<or> e_texts entry \<noteq> None;
          bounds = (if e_value_cmp entry
                    then map_option (map_prod (pg_output_iso pg (e_source_type entry)) (pg_output_iso pg (e_source_type entry)))
                           (e_values entry)
                    else e_texts entry)
      in \<lparr>in_column_id = e_column_id entry, in_column_type = e_column_type entry, invalidate_all = nested,
          bounds_safe = (e_bounds_safe entry \<and> e_ready entry), in_has_min = has_value, in_has_max = has_value,
          in_min_value = (case bounds of None \<Rightarrow> '''' | Some r \<Rightarrow> fst r),
          in_max_value = (case bounds of None \<Rightarrow> '''' | Some r \<Rightarrow> snd r),
          observed_null = e_observed_null entry, nan_known = (e_floating entry \<and> e_ready entry),
          observed_nan = e_observed_nan entry\<rparr>)"

definition FinalizeInlineColStats :: "'d pg_type_api \<Rightarrow> 'd InlineColStats option \<Rightarrow> NativeInlineColumnStat list" where
  "FinalizeInlineColStats pg stats =
     (case stats of
        None \<Rightarrow> []
      | Some st \<Rightarrow> map (\<lambda>(i, e). finalize_entry pg (int i \<ge> source_count st) e) (enumerate 0 (entries st)))"

end
