(* ===== verification/Inline_Producer.thy ===== *)
theory Inline_Producer
  imports Native_Inline_Writer Inline_Col_Stats
begin

text \<open>
  The prewrite of a batch, which \<^verbatim>\<open>direct_insert.cpp\<close> does for \<^verbatim>\<open>INSERT ... UNNEST\<close> and \<^verbatim>\<open>INSERT ... VALUES\<close>
  and \<^verbatim>\<open>copy_from.cpp\<close> for \<^verbatim>\<open>COPY FROM STDIN\<close>: each source row becomes a tuple of the inline table with
  the candidate row id and snapshot id in front, its values go to the column statistics, and full
  buffers are written with \<^verbatim>\<open>table_multi_insert\<close>, which gives each tuple its address.
\<close>

datatype 'd cell = CNull | CDatum 'd

text \<open>A stored value: null, the source datum as it is, or the text of its output function.\<close>

datatype 'd stored = SNull | SDatum 'd | SText string

definition TEXTOID :: oid where "TEXTOID = 25"

definition VARCHAROID :: oid where "VARCHAROID = 1043"

definition BYTEAOID :: oid where "BYTEAOID = 17"

definition INLINED_SYSTEM_COLS :: nat where "INLINED_SYSTEM_COLS = 3"

definition MAX_BUFFERED_TUPLES :: nat where "MAX_BUFFERED_TUPLES = 1000"

section \<open>Columns\<close>

text \<open>Which columns are stored as text: the test of the \<^verbatim>\<open>UNNEST\<close> path, and the one that \<^verbatim>\<open>VALUES\<close> and
  \<^verbatim>\<open>COPY\<close> share.\<close>

definition needs_text_conv_unnest :: "oid \<Rightarrow> oid \<Rightarrow> bool" where
  "needs_text_conv_unnest element_type inlined_type \<longleftrightarrow>
     (inlined_type = TEXTOID \<or> inlined_type = VARCHAROID) \<and> inlined_type \<noteq> element_type"

definition needs_text_conv :: "oid \<Rightarrow> oid \<Rightarrow> bool" where
  "needs_text_conv src_type inl_type =
     (if src_type = inl_type then False
      else if inl_type = VARCHAROID \<or> inl_type = TEXTOID then True
      else if inl_type = BYTEAOID then False
      else False)"

lemma needs_text_conv_same: "needs_text_conv_unnest src inl = needs_text_conv src inl"
  by (auto simp: needs_text_conv_unnest_def needs_text_conv_def)

text \<open>A column of the producer: its source type, and whether it is stored as text.\<close>

type_synonym producer_column = "oid \<times> bool"

definition OutputFunctionCallIso :: "'d pg_type_api \<Rightarrow> oid \<Rightarrow> 'd \<Rightarrow> string" where
  "OutputFunctionCallIso pg typ v = pg_output_iso pg typ v"

fun store_cell :: "'d pg_type_api \<Rightarrow> producer_column \<Rightarrow> 'd cell \<Rightarrow> 'd stored" where
  "store_cell pg col CNull = SNull"
| "store_cell pg (typ, conv) (CDatum v) = (if conv then SText (OutputFunctionCallIso pg typ v) else SDatum v)"

fun observe_cell :: "'d pg_type_api \<Rightarrow> int \<Rightarrow> 'd cell \<Rightarrow> 'd InlineColStats option \<Rightarrow> 'd InlineColStats option" where
  "observe_cell pg i CNull st = ObserveInlineColStatsNull i st"
| "observe_cell pg i (CDatum d) st = ObserveInlineColStatsDatum pg i d st"

definition observe_row :: "'d pg_type_api \<Rightarrow> 'd cell list \<Rightarrow> 'd InlineColStats option \<Rightarrow> 'd InlineColStats option" where
  "observe_row pg cells st = fold (\<lambda>(i, c). observe_cell pg (int i) c) (enumerate 0 cells) st"

text \<open>The callers set up the source columns one after the other before the first value.\<close>

definition setup_all :: "'d pg_type_api \<Rightarrow> oid list \<Rightarrow> 'd InlineColStats option \<Rightarrow> 'd InlineColStats option" where
  "setup_all pg srcs st = fold (\<lambda>i. SetupInlineColStatsColumn pg (int i) (srcs ! i)) [0..<length srcs] st"

section \<open>Buffered insertion\<close>

text \<open>What PostgreSQL decides: the addresses of the tuples of a call of \<^verbatim>\<open>table_multi_insert\<close>, and the
  transaction and command of the writes.\<close>

record 'd prewrite_env =
  pe_types :: "'d pg_type_api"
  pe_tids :: "'d stored list heap_row list \<Rightarrow> nat \<Rightarrow> tid list"
  pe_xid :: u32
  pe_cid :: u32

definition ItemPointerIsValid :: "tid \<Rightarrow> bool" where
  "ItemPointerIsValid p \<longleftrightarrow> snd p \<noteq> 0"

text \<open>A buffered tuple: row id, begin snapshot and user columns; \<^verbatim>\<open>end_snapshot\<close> is null.\<close>

type_synonym 'd buffered = "u64 \<times> u64 \<times> 'd stored list"

record 'd prewrite =
  pw_heap :: "'d stored list heap_row list"
  pw_batch :: NativeInlineWriteBatch
  pw_col_stats :: "'d InlineColStats option"
  pw_counters :: writer_stats
  pw_slots :: "'d buffered list"
  pw_row_id :: u64
  pw_rows_inserted :: u64

definition heap_tuple :: "u32 \<Rightarrow> u32 \<Rightarrow> tid \<Rightarrow> 'd buffered \<Rightarrow> 'd stored list heap_row" where
  "heap_tuple xmn cmn t s = (case s of (row_id, begin_snapshot, cols) \<Rightarrow>
     \<lparr>h_tid = t, h_xmin = xmn, h_cmin = cmn, h_row_id = Some (sint row_id), h_begin = Some (sint begin_snapshot),
      h_end = None, h_payload = cols\<rparr>)"

text \<open>\<^verbatim>\<open>table_multi_insert\<close>, \<^verbatim>\<open>RecordNativeInlineWriteRows\<close> and the counters.\<close>

definition flush_slots :: "'d prewrite_env \<Rightarrow> 'd prewrite \<Rightarrow> 'd prewrite" where
  "flush_slots env pw =
     (let n = length (pw_slots pw); tids = pe_tids env (pw_heap pw) n in
      pw\<lparr>pw_heap := pw_heap pw @ map2 (heap_tuple (pe_xid env) (pe_cid env)) tids (pw_slots pw),
         pw_batch := RecordNativeInlineWriteRows (map (\<lambda>t. if ItemPointerIsValid t then Some t else None) tids) (pw_batch pw),
         pw_rows_inserted := pw_rows_inserted pw + of_nat n,
         pw_counters := NativeWriterStatsAdd NW_PAYLOAD_ROWS (of_nat n) (pw_counters pw),
         pw_slots := []\<rparr>)"

text \<open>One source row, and the flush of a full buffer. \<^verbatim>\<open>COPY\<close> counts the rows it consumes.\<close>

definition put_row ::
  "'d prewrite_env \<Rightarrow> nat \<Rightarrow> producer_column list \<Rightarrow> u64 \<Rightarrow> bool \<Rightarrow> 'd cell list \<Rightarrow> 'd prewrite \<Rightarrow> 'd prewrite" where
  "put_row env batch_size cols begin_snapshot is_copy cells pw =
     (let pw0 = (if is_copy then pw\<lparr>pw_counters := NativeWriterStatsAdd NW_COPY_ROWS_CONSUMED 1 (pw_counters pw)\<rparr> else pw);
          pw1 = pw0\<lparr>pw_slots := pw_slots pw0 @ [(pw_row_id pw0, begin_snapshot, map2 (store_cell (pe_types env)) cols cells)],
                    pw_row_id := pw_row_id pw0 + 1,
                    pw_col_stats := observe_row (pe_types env) cells (pw_col_stats pw0)\<rparr>
      in if length (pw_slots pw1) \<ge> batch_size then flush_slots env pw1 else pw1)"

definition prewrite_rows ::
  "'d prewrite_env \<Rightarrow> nat \<Rightarrow> producer_column list \<Rightarrow> u64 \<Rightarrow> bool \<Rightarrow> 'd cell list list \<Rightarrow> 'd prewrite \<Rightarrow> 'd prewrite" where
  "prewrite_rows env batch_size cols begin_snapshot is_copy rows pw =
     (let pw' = fold (put_row env batch_size cols begin_snapshot is_copy) rows pw
      in if pw_slots pw' \<noteq> [] then flush_slots env pw' else pw')"

end
