(* ===== verification/Direct_Insert.thy ===== *)
theory Direct_Insert
  imports Pg_Nodes Inline_Producer
begin

text \<open>
  The planner side of \<^verbatim>\<open>direct_insert.cpp\<close>: which \<^verbatim>\<open>INSERT\<close> statements bypass DuckDB and are written
  straight into the inline table, with the session's caches, the outcome counters and the plan that is
  handed to the executor.

  PostgreSQL's catalogs are the record \<open>pg_catalog\<close>; the inlining state of a table comes from
  \<^verbatim>\<open>GetTableInliningState\<close> of \<^verbatim>\<open>pgducklake_metadata_manager.cpp\<close>.
\<close>

section \<open>Catalogs\<close>

record pg_attribute =
  attname :: string
  atttypid :: oid
  attisdropped :: bool
  attgenerated_set :: bool
  attidentity_set :: bool

record target_relation =
  relam :: oid
  relkind_relation :: bool
  has_trigdesc :: bool
  has_rd_rules :: bool
  has_relrowsecurity :: bool
  has_not_null :: bool
  num_check :: nat
  constr_generated_stored :: bool
  constr_generated_virtual :: bool
  tupdesc :: "pg_attribute list"

record pg_catalog =
  pc_pg18 :: bool
  pc_ducklake_am :: oid
  pc_relation :: "oid \<Rightarrow> target_relation"
  pc_element_type :: "oid \<Rightarrow> oid"
  pc_exprType :: "expr \<Rightarrow> oid"
  pc_volatile :: "oid \<Rightarrow> bool"
  pc_eval_const :: "expr \<Rightarrow> expr"
  pc_permitted :: "query \<Rightarrow> bool"

datatype di_error =
    PermissionDenied
  | RlsOnSource
  | UnsupportedTarget
  | ParameterizedUnnest
  | InliningQueryFailed

datatype DirectInsertPattern = DI_PAT_MATCHED_UNNEST | DI_PAT_MATCHED_VALUES | DI_PAT_UNMATCHED

datatype DirectInsertReason =
    DI_R_OK | DI_R_INVALID_RTE | DI_R_NO_INLINED_TABLE | DI_R_SCHEMA_VERSION_MISMATCH | DI_R_COL_TYPES_UNSUPPORTED
  | DI_R_GREATER_THAN_LIMIT | DI_R_UNSUPPORTED_INSERT_SHAPE | DI_R_RETRY

section \<open>Inlining state of a table\<close>

datatype TableInliningState = TI_OK | TI_NO_TABLE | TI_NO_INLINED_TABLE | TI_SCHEMA_VERSION_MISMATCH

record lake_table_row =
  lt_table_id :: "int option"
  lt_schema_id :: int
  lt_table_name :: string
  lt_end :: "int option"

record lake_schema_row =
  ls_schema_id :: int
  ls_schema_name :: string
  ls_end :: "int option"

text \<open>The metadata that the query reads; \<open>ic_row_limit\<close> is the global option
  \<^verbatim>\<open>data_inlining_row_limit\<close>, of which there is at most one.\<close>

record inlining_catalog =
  ic_names :: "oid \<Rightarrow> (string \<times> string) option"
  ic_tables :: "lake_table_row list"
  ic_schemas :: "lake_schema_row list"
  ic_inlined :: "inlined_row list"
  ic_row_limit :: "int option"

definition live_lake_tables :: "inlining_catalog \<Rightarrow> string \<Rightarrow> string \<Rightarrow> lake_table_row list" where
  "live_lake_tables ic table_name schema_name =
     concat (map (\<lambda>dt. map (\<lambda>_. dt) (filter (\<lambda>ds. lt_schema_id dt = ls_schema_id ds \<and> ls_schema_name ds = schema_name \<and> ls_end ds = None)
                                     (ic_schemas ic)))
       (filter (\<lambda>dt. lt_table_name dt = table_name \<and> lt_end dt = None) (ic_tables ic)))"

definition GetTableInliningState :: "inlining_catalog \<Rightarrow> oid \<Rightarrow> TableInliningState \<times> (u64 \<times> u64 \<times> int) option" where
  "GetTableInliningState ic table_oid =
     (case ic_names ic table_oid of
        None \<Rightarrow> (TI_NO_TABLE, None)
      | Some (table_name, schema_name) \<Rightarrow>
          (case live_lake_tables ic table_name schema_name of
             [] \<Rightarrow> (TI_NO_TABLE, None)
           | dt # _ \<Rightarrow>
               (case lt_table_id dt of
                  None \<Rightarrow> (TI_NO_TABLE, None)
                | Some t \<Rightarrow>
                    (case sql_max (map ir_schema (filter (\<lambda>r. ir_table r = t) (ic_inlined ic))) of
                       None \<Rightarrow> (TI_NO_INLINED_TABLE, None)
                     | Some v \<Rightarrow>
                         (case ic_row_limit ic of
                            None \<Rightarrow> (TI_NO_INLINED_TABLE, None)
                          | Some l \<Rightarrow> if l \<le> 0 then (TI_NO_INLINED_TABLE, None)
                                     else (TI_OK, Some (word_of_int t, word_of_int v, l)))))))"

definition GetTableInliningInfo :: "inlining_catalog \<Rightarrow> oid \<Rightarrow> (u64 \<times> u64) option" where
  "GetTableInliningInfo ic table_oid =
     (case GetTableInliningState ic table_oid of
        (TI_OK, Some (t, v, _)) \<Rightarrow> Some (t, v)
      | _ \<Rightarrow> None)"

section \<open>Session caches and counters\<close>

type_synonym di_counters = "(DirectInsertPattern \<Rightarrow> DirectInsertReason \<Rightarrow> u64) option"

record di_session =
  inlining_info_cache :: "oid \<rightharpoonup> u64 \<times> u64 \<times> int"
  inlined_col_types_cache :: "u64 \<times> u64 \<rightharpoonup> oid list"
  di_counters :: di_counters

definition ResetDirectInsertCaches :: "di_session \<Rightarrow> di_session" where
  "ResetDirectInsertCaches s = s\<lparr>inlining_info_cache := Map.empty, inlined_col_types_cache := Map.empty\<rparr>"

text \<open>The counters are in shared memory; \<open>None\<close> before it is set up.\<close>

definition ShmemStartup :: "DirectInsertPattern \<Rightarrow> DirectInsertReason \<Rightarrow> u64" where
  "ShmemStartup = (\<lambda>_ _. 0)"

definition DirectInsertStatsBump :: "DirectInsertPattern \<Rightarrow> DirectInsertReason \<Rightarrow> di_session \<Rightarrow> di_session" where
  "DirectInsertStatsBump p r s = s\<lparr>di_counters := map_option (\<lambda>c. c(p := (c p)(r := c p r + 1))) (di_counters s)\<rparr>"

definition DirectInsertStatsReset :: "di_session \<Rightarrow> di_session" where
  "DirectInsertStatsReset s = s\<lparr>di_counters := map_option (\<lambda>_ _ _. 0) (di_counters s)\<rparr>"

definition DirectInsertStatsRead :: "di_session \<Rightarrow> DirectInsertPattern \<Rightarrow> DirectInsertReason \<Rightarrow> u64" where
  "DirectInsertStatsRead s p r = (case di_counters s of None \<Rightarrow> 0 | Some c \<Rightarrow> c p r)"

definition DirectInsertStatsReadAll :: "di_session \<Rightarrow> DirectInsertPattern \<Rightarrow> DirectInsertReason \<Rightarrow> u64" where
  "DirectInsertStatsReadAll s = (case di_counters s of None \<Rightarrow> (\<lambda>_ _. 0) | Some c \<Rightarrow> c)"

fun DirectInsertPatternName :: "DirectInsertPattern \<Rightarrow> string" where
  "DirectInsertPatternName DI_PAT_MATCHED_UNNEST = ''matched_unnest''"
| "DirectInsertPatternName DI_PAT_MATCHED_VALUES = ''matched_values''"
| "DirectInsertPatternName DI_PAT_UNMATCHED = ''unmatched''"

fun DirectInsertReasonName :: "DirectInsertReason \<Rightarrow> string" where
  "DirectInsertReasonName DI_R_OK = ''ok''"
| "DirectInsertReasonName DI_R_INVALID_RTE = ''invalid_rte''"
| "DirectInsertReasonName DI_R_NO_INLINED_TABLE = ''no_inlined_table''"
| "DirectInsertReasonName DI_R_SCHEMA_VERSION_MISMATCH = ''schema_version_mismatch''"
| "DirectInsertReasonName DI_R_COL_TYPES_UNSUPPORTED = ''col_types_unsupported''"
| "DirectInsertReasonName DI_R_GREATER_THAN_LIMIT = ''greater_than_limit''"
| "DirectInsertReasonName DI_R_UNSUPPORTED_INSERT_SHAPE = ''unsupported_insert_shape''"
| "DirectInsertReasonName DI_R_RETRY = ''retry''"

definition non_ok_reasons :: "DirectInsertReason list" where
  "non_ok_reasons = [DI_R_INVALID_RTE, DI_R_NO_INLINED_TABLE, DI_R_SCHEMA_VERSION_MISMATCH, DI_R_COL_TYPES_UNSUPPORTED,
     DI_R_GREATER_THAN_LIMIT, DI_R_UNSUPPORTED_INSERT_SHAPE, DI_R_RETRY]"

definition ducklake_direct_insert_stats :: "di_session \<Rightarrow> (string \<times> string \<times> int) list" where
  "ducklake_direct_insert_stats s =
     (let snap = DirectInsertStatsReadAll s in
      map (\<lambda>p. (DirectInsertPatternName p, DirectInsertReasonName DI_R_OK, sint (snap p DI_R_OK)))
        [DI_PAT_MATCHED_UNNEST, DI_PAT_MATCHED_VALUES] @
      map (\<lambda>r. (DirectInsertPatternName DI_PAT_UNMATCHED, DirectInsertReasonName r, sint (snap DI_PAT_UNMATCHED r)))
        non_ok_reasons)"

definition ReasonRank :: "DirectInsertReason \<Rightarrow> int" where
  "ReasonRank r = (case r of DI_R_COL_TYPES_UNSUPPORTED \<Rightarrow> 4 | DI_R_GREATER_THAN_LIMIT \<Rightarrow> 3 | DI_R_INVALID_RTE \<Rightarrow> 2
     | DI_R_UNSUPPORTED_INSERT_SHAPE \<Rightarrow> 1 | _ \<Rightarrow> 0)"

definition PickMoreSpecific :: "DirectInsertReason \<Rightarrow> DirectInsertReason \<Rightarrow> DirectInsertReason" where
  "PickMoreSpecific a b = (if ReasonRank a \<ge> ReasonRank b then a else b)"

section \<open>Column types\<close>

definition is_type :: "string \<Rightarrow> string \<Rightarrow> bool" where
  "is_type duckdb_type name \<longleftrightarrow> pg_strcasecmp duckdb_type name = 0"

definition DuckDBTypeToInlinedOid :: "string \<Rightarrow> oid \<Rightarrow> oid" where
  "DuckDBTypeToInlinedOid t element_type =
     (if pg_strncasecmp t ''STRUCT'' 6 = 0 \<or> pg_strncasecmp t ''MAP'' 3 = 0 \<or> strchr t (CHR ''['') then InvalidOid
      else if is_type t ''VARIANT'' \<or> is_type t ''GEOMETRY'' then InvalidOid
      else if is_type t ''VARCHAR'' \<or> is_type t ''BLOB'' then BYTEAOID
      else if is_type t ''TIMESTAMP WITH TIME ZONE'' \<or> is_type t ''TIMESTAMPTZ'' then InvalidOid
      else if list_ex (is_type t) [''UBIGINT'', ''HUGEINT'', ''UHUGEINT'', ''DATE'', ''TIMESTAMP'', ''TIMESTAMP_S'',
                                   ''TIMESTAMP_MS'', ''TIMESTAMP_NS'']
      then VARCHAROID
      else element_type)"

definition top_level_types :: "u64 \<Rightarrow> column_row list \<Rightarrow> string option list" where
  "top_level_types tbl cols =
     map co_type (sort_key (\<lambda>c. nulls_last (co_order c))
       (filter (\<lambda>c. co_table c = uint tbl \<and> co_end c = None \<and> co_parent c = None) cols))"

text \<open>The loop over the columns: the first column without a supported type ends it.\<close>

fun inlined_types :: "string option list \<Rightarrow> oid list \<Rightarrow> oid list option" where
  "inlined_types (Some t # ts) (e # es) =
     (let o' = DuckDBTypeToInlinedOid t e in
      if \<not> OidIsValid o' then None else map_option (\<lambda>os. o' # os) (inlined_types ts es))"
| "inlined_types (None # ts) _ = None"
| "inlined_types [] _ = Some []"
| "inlined_types (Some t # ts) [] = None"

text \<open>The rows of the query are \<open>None\<close> when SPI fails.\<close>

definition GetInlinedColumnTypes :: "column_row list option \<Rightarrow> u64 \<Rightarrow> oid list \<Rightarrow> oid list option" where
  "GetInlinedColumnTypes cols tbl element_types =
     (case cols of
        None \<Rightarrow> None
      | Some rows \<Rightarrow>
          let types = top_level_types tbl rows in
          if length types \<noteq> length element_types then None else inlined_types types element_types)"

definition GetCachedInlinedColumnTypes ::
  "column_row list option \<Rightarrow> u64 \<Rightarrow> u64 \<Rightarrow> oid list \<Rightarrow> di_session \<Rightarrow> di_session \<times> oid list option" where
  "GetCachedInlinedColumnTypes cols tbl ver element_types s =
     (case inlined_col_types_cache s (tbl, ver) of
        Some ts \<Rightarrow> (s, Some ts)
      | None \<Rightarrow>
          (case GetInlinedColumnTypes cols tbl element_types of
             None \<Rightarrow> (s, None)
           | Some ts \<Rightarrow> (s\<lparr>inlined_col_types_cache := (inlined_col_types_cache s)((tbl, ver) \<mapsto> ts)\<rparr>, Some ts)))"

section \<open>Expressions\<close>

definition F_UNNEST_ANYARRAY :: oid where "F_UNNEST_ANYARRAY = 2331"

fun IsBuiltinUnnest :: "pg_catalog \<Rightarrow> expr \<Rightarrow> bool" where
  "IsBuiltinUnnest pc (FuncExpr funcid funcretset funcresulttype args) \<longleftrightarrow>
     (if funcid \<noteq> F_UNNEST_ANYARRAY \<or> \<not> funcretset \<or> length args \<noteq> 1 then False
      else let element_type = pc_element_type pc (pc_exprType pc (hd args)) in
           OidIsValid element_type \<and> funcresulttype = element_type)"
| "IsBuiltinUnnest pc _ \<longleftrightarrow> False"

fun is_extern_param :: "expr \<Rightarrow> bool" where
  "is_extern_param (Param extern _ _) = extern"
| "is_extern_param _ = False"

definition ContainsExternalParam :: "expr list \<Rightarrow> bool" where
  "ContainsExternalParam es = list_ex (tree_ex is_extern_param) es"

function (sequential) ParameterizedUnnestWalker :: "pg_catalog \<Rightarrow> expr + query \<Rightarrow> bool" where
  "ParameterizedUnnestWalker pc (Inl e) \<longleftrightarrow>
     (IsBuiltinUnnest pc e \<and> ContainsExternalParam (children e)) \<or>
     list_ex (\<lambda>c. ParameterizedUnnestWalker pc (Inl c)) (children e) \<or>
     list_ex (\<lambda>q. ParameterizedUnnestWalker pc (Inr q)) (sub_query e)"
| "ParameterizedUnnestWalker pc (Inr q) \<longleftrightarrow>
     list_ex (\<lambda>c. ParameterizedUnnestWalker pc (Inl c)) (query_exprs q) \<or>
     list_ex (\<lambda>r. ParameterizedUnnestWalker pc (Inr r)) (query_queries q)"
  by pat_completeness auto
termination
  by (relation "measure (case_sum size size \<circ> snd)")
    (auto dest: size_children size_sub_query size_query_exprs size_query_queries)

definition RejectParameterizedUnnestFallback :: "pg_catalog \<Rightarrow> query \<Rightarrow> di_error + unit" where
  "RejectParameterizedUnnestFallback pc parse = guard_or ParameterizedUnnest (\<not> ParameterizedUnnestWalker pc (Inr parse))"

fun IsUnnestOfParam :: "pg_catalog \<Rightarrow> expr \<Rightarrow> (int \<times> oid) option" where
  "IsUnnestOfParam pc (FuncExpr funcid funcretset funcresulttype args) =
     (if \<not> IsBuiltinUnnest pc (FuncExpr funcid funcretset funcresulttype args) then None
      else case hd args of
             Param extern paramid paramtype \<Rightarrow> if extern then Some (paramid, paramtype) else None
           | _ \<Rightarrow> None)"
| "IsUnnestOfParam pc _ = None"

definition IsPlainUnnestSource :: "query option \<Rightarrow> bool" where
  "IsPlainUnnestSource query =
     (case query of
        None \<Rightarrow> False
      | Some q \<Rightarrow>
          let h = q_head q in
          \<not> (commandType h \<noteq> CMD_SELECT \<or> resultRelation h \<noteq> 0 \<or> utilityStmt h \<or> hasAggs h \<or> hasWindowFuncs h \<or>
             \<not> hasTargetSRFs h \<or> hasSubLinks h \<or> hasDistinctOn h \<or> hasRecursive h \<or> hasModifyingCTE h \<or> hasForUpdate h \<or>
             hasRowSecurity h \<or> isReturn h \<or> cteList q \<noteq> [] \<or> rtable q \<noteq> [] \<or>
             (case q_jointree q of None \<Rightarrow> True | Some j \<Rightarrow> fromlist j \<noteq> [] \<or> quals j \<noteq> None) \<or>
             override_set h \<or> onConflict h \<or> returningList h \<or> groupClause h \<or> groupDistinct h \<or> groupingSets h \<or>
             havingQual h \<or> windowClause h \<or> distinctClause h \<or> sortClause h \<or> limitOffset h \<or> limitCount h \<or> rowMarks h \<or>
             setOperations h \<or> withCheckOptions h \<or> targetList q = []) \<and>
          \<not> list_ex resjunk (targetList q))"

text \<open>The test of one node of a \<^verbatim>\<open>VALUES\<close> expression.\<close>

fun values_node_unsafe :: "pg_catalog \<Rightarrow> expr \<Rightarrow> bool" where
  "values_node_unsafe pc (Var _ _) = True"
| "values_node_unsafe pc (Param _ _ _) = True"
| "values_node_unsafe pc (Aggref _ _) = True"
| "values_node_unsafe pc (GroupingFunc _) = True"
| "values_node_unsafe pc (WindowFunc _) = True"
| "values_node_unsafe pc (SubLink _ _) = True"
| "values_node_unsafe pc (SubPlan _) = True"
| "values_node_unsafe pc (AlternativeSubPlan _) = True"
| "values_node_unsafe pc CurrentOfExpr = True"
| "values_node_unsafe pc (FuncExpr funcid _ _ _) = pc_volatile pc funcid"
| "values_node_unsafe pc (OpExpr opfuncid _ _) = (\<not> OidIsValid opfuncid \<or> pc_volatile pc opfuncid)"
| "values_node_unsafe pc (DistinctExpr opfuncid _ _) = (\<not> OidIsValid opfuncid \<or> pc_volatile pc opfuncid)"
| "values_node_unsafe pc (NullIfExpr opfuncid _ _) = (\<not> OidIsValid opfuncid \<or> pc_volatile pc opfuncid)"
| "values_node_unsafe pc _ = False"

definition ValuesExprUnsafeWalker :: "pg_catalog \<Rightarrow> expr \<Rightarrow> bool" where
  "ValuesExprUnsafeWalker pc e = tree_ex (values_node_unsafe pc) e"

definition IsAcceptableValuesExpr :: "pg_catalog \<Rightarrow> expr \<Rightarrow> bool" where
  "IsAcceptableValuesExpr pc e \<longleftrightarrow> \<not> ValuesExprUnsafeWalker pc e"

section \<open>Safety of an insert\<close>

fun check_all :: "('a \<Rightarrow> 'e + unit) \<Rightarrow> 'a list \<Rightarrow> 'e + unit" where
  "check_all f [] = Inr ()"
| "check_all f (x # xs) = andthen (f x) (\<lambda>_. check_all f xs)"

lemma check_all_cong [fundef_cong]: "xs = ys \<Longrightarrow> (\<And>x. x \<in> set ys \<Longrightarrow> f x = g x) \<Longrightarrow> check_all f xs = check_all g ys"
  by (induction xs arbitrary: ys) auto

lemma check_all_Inr: "check_all f xs = Inr () \<longleftrightarrow> (\<forall>x \<in> set xs. f x = Inr ())"
  by (induction xs) (auto simp: andthen_Inr_iff)

definition check_source_rte :: "pg_catalog \<Rightarrow> query \<Rightarrow> bool \<Rightarrow> nat \<times> rte \<Rightarrow> di_error + unit" where
  "check_source_rte pc query skip_result_relation ir = (case ir of (i, r) \<Rightarrow>
     if rtekind (r_head r) \<noteq> RTE_RELATION \<or> (skip_result_relation \<and> int i + 1 = resultRelation (q_head query)) then Inr ()
     else guard_or RlsOnSource (\<not> has_relrowsecurity (pc_relation pc (relid (r_head r)))))"

text \<open>\<^verbatim>\<open>CheckQueryPermissionsAndRls\<close> is the case of a query, \<^verbatim>\<open>CheckNestedQueryWalker\<close> both cases together; below
  the top level the result relation is not skipped.\<close>

function (sequential) CheckNestedQueryWalker :: "pg_catalog \<Rightarrow> expr + bool \<times> query \<Rightarrow> di_error + unit" where
  "CheckNestedQueryWalker pc (Inl e) =
     andthen (check_all (\<lambda>c. CheckNestedQueryWalker pc (Inl c)) (children e)) (\<lambda>_.
       check_all (\<lambda>q. CheckNestedQueryWalker pc (Inr (False, q))) (sub_query e))"
| "CheckNestedQueryWalker pc (Inr (skip, q)) =
     andthen (guard_or PermissionDenied (pc_permitted pc q)) (\<lambda>_.
     andthen (check_all (check_source_rte pc q skip) (enumerate 0 (rtable q))) (\<lambda>_.
     andthen (check_all (\<lambda>c. CheckNestedQueryWalker pc (Inl c)) (query_exprs q)) (\<lambda>_.
       check_all (\<lambda>r. CheckNestedQueryWalker pc (Inr (False, r))) (query_queries q))))"
  by pat_completeness auto
termination
  by (relation "measure (case_sum size (size \<circ> snd) \<circ> snd)")
    (auto dest: size_children size_sub_query size_query_exprs size_query_queries)

definition CheckQueryPermissionsAndRls :: "pg_catalog \<Rightarrow> query \<Rightarrow> bool \<Rightarrow> di_error + unit" where
  "CheckQueryPermissionsAndRls pc q skip_result_relation = CheckNestedQueryWalker pc (Inr (skip_result_relation, q))"

definition CheckDucklakeInsertSafety :: "pg_catalog \<Rightarrow> query \<Rightarrow> di_error + bool" where
  "CheckDucklakeInsertSafety pc parse =
     (let h = q_head parse in
      if commandType h \<noteq> CMD_INSERT \<or> resultRelation h = 0 \<or> int (length (rtable parse)) < resultRelation h then Inr False
      else let target_rte = rtable parse ! nat (resultRelation h - 1) in
           if rtekind (r_head target_rte) \<noteq> RTE_RELATION then Inr False
           else if \<not> OidIsValid (pc_ducklake_am pc) then Inr False
           else let rel = pc_relation pc (relid (r_head target_rte)) in
                if relam rel \<noteq> pc_ducklake_am pc then Inr False
                else andthen (CheckQueryPermissionsAndRls pc parse True) (\<lambda>_.
                     andthen (guard_or UnsupportedTarget (\<not> (has_trigdesc rel \<or> has_rd_rules rel \<or> has_relrowsecurity rel))) (\<lambda>_.
                       Inr True)))"

section \<open>Preconditions\<close>

record InsertPreconditionResult =
  ip_target_oid :: oid
  ip_table_id :: u64
  ip_schema_version :: u64
  ip_row_limit :: int
  ip_target_rel :: target_relation

text \<open>\<open>Gated\<close>: not counted; \<open>Rejected\<close>: a DuckLake table that the native writer does not take.\<close>

datatype precond = Gated | Rejected DirectInsertReason | Passed InsertPreconditionResult

record di_context =
  dc_catalog :: pg_catalog
  dc_inlining :: inlining_catalog
  dc_columns :: "column_row list option"
  dc_transaction_block :: bool
  dc_xact_snapshot :: bool
  dc_enabled :: bool

definition unsupported_relation :: "pg_catalog \<Rightarrow> target_relation \<Rightarrow> bool" where
  "unsupported_relation pc rel \<longleftrightarrow>
     \<not> relkind_relation rel \<or> has_not_null rel \<or> num_check rel > 0 \<or> constr_generated_stored rel \<or>
     (pc_pg18 pc \<and> constr_generated_virtual rel) \<or>
     list_ex (\<lambda>a. attisdropped a \<or> attgenerated_set a \<or> attidentity_set a) (tupdesc rel)"

definition unsupported_insert :: "query \<Rightarrow> rte \<Rightarrow> bool" where
  "unsupported_insert parse target_rte \<longleftrightarrow>
     (let h = q_head parse in returningList h \<or> onConflict h \<or> cteList parse \<noteq> [] \<or> hasModifyingCTE h \<or>
        withCheckOptions h \<or> override_set h \<or> inh (r_head target_rte))"

definition CheckInsertPreconditions :: "di_context \<Rightarrow> query \<Rightarrow> di_session \<Rightarrow> di_session \<times> precond" where
  "CheckInsertPreconditions dc parse s =
     (let h = q_head parse; pc = dc_catalog dc in
      if commandType h \<noteq> CMD_INSERT then (s, Gated)
      else if dc_transaction_block dc \<or> dc_xact_snapshot dc then (s, Gated)
      else if resultRelation h = 0 \<or> int (length (rtable parse)) < resultRelation h then (s, Gated)
      else let target_rte = rtable parse ! nat (resultRelation h - 1) in
        if rtekind (r_head target_rte) \<noteq> RTE_RELATION then (s, Gated)
        else if \<not> OidIsValid (pc_ducklake_am pc) then (s, Gated)
        else let target_oid = relid (r_head target_rte); rel = pc_relation pc target_oid in
          if relam rel \<noteq> pc_ducklake_am pc then (s, Gated)
          else if unsupported_relation pc rel \<or> unsupported_insert parse target_rte then (s, Rejected DI_R_UNSUPPORTED_INSERT_SHAPE)
          else case inlining_info_cache s target_oid of
                 Some (t, v, l) \<Rightarrow>
                   (s, Passed \<lparr>ip_target_oid = target_oid, ip_table_id = t, ip_schema_version = v, ip_row_limit = l, ip_target_rel = rel\<rparr>)
               | None \<Rightarrow>
                   (case GetTableInliningState (dc_inlining dc) target_oid of
                      (TI_OK, Some (t, v, l)) \<Rightarrow>
                        (s\<lparr>inlining_info_cache := (inlining_info_cache s)(target_oid \<mapsto> (t, v, l))\<rparr>,
                         Passed \<lparr>ip_target_oid = target_oid, ip_table_id = t, ip_schema_version = v, ip_row_limit = l, ip_target_rel = rel\<rparr>)
                    | (TI_SCHEMA_VERSION_MISMATCH, _) \<Rightarrow> (s, Rejected DI_R_SCHEMA_VERSION_MISMATCH)
                    | _ \<Rightarrow> (s, Rejected DI_R_NO_INLINED_TABLE)))"

section \<open>INSERT ... SELECT UNNEST\<close>

record ParamInfo =
  param_id :: int
  param_type :: oid
  element_type :: oid

record DirectInsertContext =
  dx_target :: oid
  dx_table_id :: u64
  dx_schema_version :: u64
  param_infos :: "ParamInfo list"
  dx_col_names :: "string list"
  dx_col_types :: "oid list"

text \<open>The loop over the target list; \<open>acc\<close> is \<^verbatim>\<open>params_by_column\<close>, by live column.\<close>

definition unnest_target ::
  "pg_catalog \<Rightarrow> pg_attribute list \<Rightarrow> int \<Rightarrow> tle list \<Rightarrow> tle \<Rightarrow> ParamInfo option list \<Rightarrow> ParamInfo option list option" where
  "unnest_target pc attrs from_rtindex source_tlist tle acc =
     (if resjunk tle then Some acc
      else if resno tle < 1 \<or> resno tle > int (length attrs) then None
      else case te_expr tle of
        Var varno varattno \<Rightarrow>
          if varno \<noteq> from_rtindex \<or> varattno < 1 then None
          else (case find (\<lambda>c. \<not> resjunk c \<and> resno c = varattno) source_tlist of
                  None \<Rightarrow> None
                | Some source_tle \<Rightarrow>
                    (case IsUnnestOfParam pc (te_expr source_tle) of
                       None \<Rightarrow> None
                     | Some (prm, ptype) \<Rightarrow>
                         let etype = pc_element_type pc ptype; k = nat (resno tle - 1);
                             live = length (filter (\<lambda>a. \<not> attisdropped a) (take k attrs))
                         in if \<not> OidIsValid etype then None
                            else if attisdropped (attrs ! k) \<or> acc ! live \<noteq> None then None
                            else Some (acc[live := Some \<lparr>param_id = prm, param_type = ptype, element_type = etype\<rparr>])))
      | _ \<Rightarrow> None)"

fun unnest_targets ::
  "pg_catalog \<Rightarrow> pg_attribute list \<Rightarrow> int \<Rightarrow> tle list \<Rightarrow> tle list \<Rightarrow> ParamInfo option list \<Rightarrow> ParamInfo option list option" where
  "unnest_targets pc attrs from_rtindex source_tlist [] acc = Some acc"
| "unnest_targets pc attrs from_rtindex source_tlist (t # ts) acc =
     (case unnest_target pc attrs from_rtindex source_tlist t acc of
        None \<Rightarrow> None
      | Some acc' \<Rightarrow> unnest_targets pc attrs from_rtindex source_tlist ts acc')"

definition TryMatchUnnest ::
  "di_context \<Rightarrow> query \<Rightarrow> InsertPreconditionResult \<Rightarrow> di_session \<Rightarrow> di_session \<times> (DirectInsertReason + DirectInsertContext)" where
  "TryMatchUnnest dc parse precond s =
     (let pc = dc_catalog dc; attrs = tupdesc (ip_target_rel precond); live = filter (\<lambda>a. \<not> attisdropped a) attrs in
      case q_jointree parse of
        None \<Rightarrow> (s, Inl DI_R_UNSUPPORTED_INSERT_SHAPE)
      | Some j \<Rightarrow>
          if quals j \<noteq> None then (s, Inl DI_R_UNSUPPORTED_INSERT_SHAPE)
          else case fromlist j of
            [RangeTblRef rtindex] \<Rightarrow>
              if rtindex < 1 \<or> rtindex > int (length (rtable parse)) then (s, Inl DI_R_INVALID_RTE)
              else let from_rte = rtable parse ! nat (rtindex - 1) in
                if rtekind (r_head from_rte) \<noteq> RTE_SUBQUERY then (s, Inl DI_R_INVALID_RTE)
                else if \<not> IsPlainUnnestSource (subquery from_rte) then (s, Inl DI_R_UNSUPPORTED_INSERT_SHAPE)
                else (case unnest_targets pc attrs rtindex (targetList (the (subquery from_rte))) (targetList parse)
                             (replicate (length live) None) of
                        None \<Rightarrow> (s, Inl DI_R_UNSUPPORTED_INSERT_SHAPE)
                      | Some params \<Rightarrow>
                          if None \<in> set params then (s, Inl DI_R_UNSUPPORTED_INSERT_SHAPE)
                          else let infos = map the params in
                            (case GetCachedInlinedColumnTypes (dc_columns dc) (ip_table_id precond) (ip_schema_version precond)
                                    (map element_type infos) s of
                               (s', None) \<Rightarrow> (s', Inl DI_R_COL_TYPES_UNSUPPORTED)
                             | (s', Some types) \<Rightarrow>
                                 (s', Inr \<lparr>dx_target = ip_target_oid precond, dx_table_id = ip_table_id precond,
                                        dx_schema_version = ip_schema_version precond, param_infos = infos,
                                        dx_col_names = map attname live, dx_col_types = types\<rparr>)))
          | _ \<Rightarrow> (s, Inl DI_R_UNSUPPORTED_INSERT_SHAPE))"

section \<open>INSERT ... VALUES\<close>

record ValuesInsertContext =
  vx_target :: oid
  vx_table_id :: u64
  vx_schema_version :: u64
  vx_num_rows :: nat
  vx_num_cols :: nat
  vx_col_names :: "string list"
  vx_col_types :: "oid list"
  vx_src_types :: "oid list"
  vx_exprs :: "expr list"

text \<open>Per table column: \<^verbatim>\<open>values_col_idx\<close>, the cell of the row that fills it, where it is not \<open>-1\<close>, and
  \<^verbatim>\<open>target_expr\<close>, an expression for all rows.\<close>

type_synonym values_source = "nat option \<times> expr option"

text \<open>The loop over the target list. Without a \<^verbatim>\<open>VALUES\<close> range-table entry the non-junk targets are
  themselves the cells of the only row, in their order.\<close>

definition values_target :: "nat \<Rightarrow> int option \<Rightarrow> tle \<Rightarrow> values_source list \<times> nat \<Rightarrow> (values_source list \<times> nat) option" where
  "values_target ncols values_varno tle acc = (case acc of (srcs, seq) \<Rightarrow>
     if resjunk tle then Some acc
     else if resno tle < 1 \<or> resno tle > int ncols then None
     else let col = nat (resno tle - 1) in
       case values_varno of
         Some vn \<Rightarrow>
           Some (srcs[col := (case te_expr tle of
                                Var varno varattno \<Rightarrow>
                                  if varno = vn then (if varattno - 1 \<ge> 0 then Some (nat (varattno - 1)) else None, snd (srcs ! col))
                                  else (fst (srcs ! col), Some (te_expr tle))
                              | e \<Rightarrow> (fst (srcs ! col), Some e))], seq)
       | None \<Rightarrow> Some (srcs[col := (Some seq, snd (srcs ! col))], Suc seq))"

fun values_targets :: "nat \<Rightarrow> int option \<Rightarrow> tle list \<Rightarrow> values_source list \<times> nat \<Rightarrow> (values_source list \<times> nat) option" where
  "values_targets ncols vn [] acc = Some acc"
| "values_targets ncols vn (t # ts) acc =
     (case values_target ncols vn t acc of None \<Rightarrow> None | Some acc' \<Rightarrow> values_targets ncols vn ts acc')"

definition resolve_cell :: "pg_catalog \<Rightarrow> pg_attribute \<Rightarrow> expr list \<Rightarrow> values_source \<Rightarrow> expr option" where
  "resolve_cell pc attr row_exprs src =
     (let checked = (\<lambda>e. let e' = pc_eval_const pc e in if IsAcceptableValuesExpr pc e' then Some e' else None) in
      case src of
        (Some k, _) \<Rightarrow> if k \<ge> length row_exprs then None else checked (row_exprs ! k)
      | (None, Some e) \<Rightarrow> checked e
      | (None, None) \<Rightarrow> Some (Const (atttypid attr) None))"

fun all_some :: "'a option list \<Rightarrow> 'a list option" where
  "all_some [] = Some []"
| "all_some (None # _) = None"
| "all_some (Some x # xs) = map_option (\<lambda>ys. x # ys) (all_some xs)"

definition resolve_row :: "pg_catalog \<Rightarrow> pg_attribute list \<Rightarrow> values_source list \<Rightarrow> expr list \<Rightarrow> expr list option" where
  "resolve_row pc attrs srcs row_exprs = all_some (map2 (\<lambda>a s. resolve_cell pc a row_exprs s) attrs srcs)"

definition values_rte_index :: "query \<Rightarrow> nat option" where
  "values_rte_index parse = find_index (\<lambda>k. rtekind (r_head (rtable parse ! k)) = RTE_VALUES) (length (rtable parse))"

definition pure_values_shape :: "query \<Rightarrow> nat option \<Rightarrow> bool" where
  "pure_values_shape parse vk \<longleftrightarrow>
     (case q_jointree parse of None \<Rightarrow> True | Some j \<Rightarrow> quals j = None) \<and>
     (let fl = (case q_jointree parse of None \<Rightarrow> [] | Some j \<Rightarrow> fromlist j) in
      case vk of None \<Rightarrow> fl = [] | Some k \<Rightarrow> fl = [RangeTblRef (int k + 1)])"

definition TryMatchValues ::
  "di_context \<Rightarrow> query \<Rightarrow> InsertPreconditionResult \<Rightarrow> di_session \<Rightarrow> di_session \<times> (DirectInsertReason + ValuesInsertContext)" where
  "TryMatchValues dc parse precond s =
     (let pc = dc_catalog dc; attrs = tupdesc (ip_target_rel precond); ncols = length attrs; vk = values_rte_index parse;
          rows = (case vk of
                    Some k \<Rightarrow> values_lists (rtable parse ! k)
                  | None \<Rightarrow> [map te_expr (filter (\<lambda>t. \<not> resjunk t) (targetList parse))])
      in
      if \<not> pure_values_shape parse vk then (s, Inl DI_R_UNSUPPORTED_INSERT_SHAPE)
      else if vk = None \<and> targetList parse = [] then (s, Inl DI_R_UNSUPPORTED_INSERT_SHAPE)
      else if rows = [] then (s, Inl DI_R_UNSUPPORTED_INSERT_SHAPE)
      else if ip_row_limit precond > 0 \<and> int (length rows) > ip_row_limit precond then (s, Inl DI_R_GREATER_THAN_LIMIT)
      else case values_targets ncols (map_option (\<lambda>k. int k + 1) vk) (targetList parse) (replicate ncols (None, None), 0) of
             None \<Rightarrow> (s, Inl DI_R_UNSUPPORTED_INSERT_SHAPE)
           | Some (srcs, _) \<Rightarrow>
               (case all_some (map (resolve_row pc attrs srcs) rows) of
                  None \<Rightarrow> (s, Inl DI_R_UNSUPPORTED_INSERT_SHAPE)
                | Some cells \<Rightarrow>
                    (case GetCachedInlinedColumnTypes (dc_columns dc) (ip_table_id precond) (ip_schema_version precond)
                            (map atttypid attrs) s of
                       (s', None) \<Rightarrow> (s', Inl DI_R_COL_TYPES_UNSUPPORTED)
                     | (s', Some types) \<Rightarrow>
                         (s', Inr \<lparr>vx_target = ip_target_oid precond, vx_table_id = ip_table_id precond,
                                vx_schema_version = ip_schema_version precond, vx_num_rows = length rows, vx_num_cols = ncols,
                                vx_col_names = map attname attrs, vx_col_types = types, vx_src_types = map atttypid attrs,
                                vx_exprs = concat cells\<rparr>))))"

end
