(* ===== verification/Direct_Insert_Exec.thy ===== *)
theory Direct_Insert_Exec
  imports Direct_Insert
begin

text \<open>
  The plan of a direct insert and its executor, \<^verbatim>\<open>direct_insert.cpp\<close> from \<^verbatim>\<open>MakeDirectInsertPlannedStmt\<close> to
  \<^verbatim>\<open>DirectInsertValuesIntoInlinedTable\<close>. A plan must survive copying and printing, so the context of a
  match is encoded as a list of integers, strings and nodes in \<^verbatim>\<open>custom_private\<close>, and decoded again when
  the executor starts.
\<close>

section \<open>The plan\<close>

datatype priv = PInt int | PStr string | PExpr expr | PQuery query

record planned_stmt =
  pl_commandType :: cmd_type
  pl_hasReturning :: bool
  pl_hasModifyingCTE :: bool
  pl_canSetTag :: bool
  pl_transientPlan :: bool
  pl_dependsOnRole :: bool
  pl_parallelModeNeeded :: bool
  pl_resultRelation :: int
  pl_rtable :: "rte list"
  custom_private :: "priv list"

definition MakeDirectInsertPlannedStmt :: "query \<Rightarrow> priv list \<Rightarrow> planned_stmt" where
  "MakeDirectInsertPlannedStmt parse private =
     \<lparr>pl_commandType = CMD_INSERT, pl_hasReturning = False, pl_hasModifyingCTE = False, pl_canSetTag = True,
      pl_transientPlan = False, pl_dependsOnRole = True, pl_parallelModeNeeded = False,
      pl_resultRelation = resultRelation (q_head parse), pl_rtable = rtable parse, custom_private = private\<rparr>"

text \<open>\<^verbatim>\<open>makeInteger((int)x)\<close> of a 32-bit unsigned value, and the two halves of a 64-bit one.\<close>

definition priv_u32 :: "u32 \<Rightarrow> priv" where
  "priv_u32 w = PInt (sint w)"

definition priv_u64 :: "u64 \<Rightarrow> priv list" where
  "priv_u64 w = [priv_u32 (ucast w), priv_u32 (ucast (drop_bit 32 w))]"

definition DIRECT_INSERT_UNNEST :: int where "DIRECT_INSERT_UNNEST = 0"

definition DIRECT_INSERT_VALUES :: int where "DIRECT_INSERT_VALUES = 1"

definition priv_count :: "'a list \<Rightarrow> priv" where
  "priv_count xs = PInt (int (length xs))"

definition CreateDirectInsertPlan :: "query \<Rightarrow> DirectInsertContext \<Rightarrow> planned_stmt" where
  "CreateDirectInsertPlan parse context = MakeDirectInsertPlannedStmt parse
     ([PInt DIRECT_INSERT_UNNEST, priv_u32 (dx_target context)] @ priv_u64 (dx_table_id context) @
      priv_u64 (dx_schema_version context) @
      [priv_count (param_infos context)] @
      concat (map (\<lambda>p. [PInt (param_id p), priv_u32 (element_type p)]) (param_infos context)) @
      [priv_count (dx_col_names context)] @ map PStr (dx_col_names context) @
      [priv_count (dx_col_types context)] @ map priv_u32 (dx_col_types context) @ [PQuery parse])"

definition CreateValuesInsertPlan :: "query \<Rightarrow> ValuesInsertContext \<Rightarrow> planned_stmt" where
  "CreateValuesInsertPlan parse context = MakeDirectInsertPlannedStmt parse
     ([PInt DIRECT_INSERT_VALUES, priv_u32 (vx_target context)] @ priv_u64 (vx_table_id context) @
      priv_u64 (vx_schema_version context) @
      [PInt (int (vx_num_rows context)), PInt (int (vx_num_cols context))] @
      [priv_count (vx_col_names context)] @ map PStr (vx_col_names context) @
      [priv_count (vx_col_types context)] @ map priv_u32 (vx_col_types context) @
      [priv_count (vx_src_types context)] @ map priv_u32 (vx_src_types context) @
      map PExpr (take (vx_num_rows context * vx_num_cols context) (vx_exprs context)) @ [PQuery parse])"

definition TryCreateDirectInsertPlan :: "di_context \<Rightarrow> query \<Rightarrow> di_session \<Rightarrow> di_session \<times> planned_stmt option" where
  "TryCreateDirectInsertPlan dc parse s =
     (if commandType (q_head parse) \<noteq> CMD_INSERT then (s, None)
      else if dc_transaction_block dc \<or> dc_xact_snapshot dc then (s, None)
      else if \<not> dc_enabled dc then (s, None)
      else case CheckInsertPreconditions dc parse s of
             (s1, Gated) \<Rightarrow> (s1, None)
           | (s1, Rejected r) \<Rightarrow> (DirectInsertStatsBump DI_PAT_UNMATCHED r s1, None)
           | (s1, Passed precond) \<Rightarrow>
               (case TryMatchUnnest dc parse precond s1 of
                  (s2, Inr context) \<Rightarrow>
                    (DirectInsertStatsBump DI_PAT_MATCHED_UNNEST DI_R_OK s2, Some (CreateDirectInsertPlan parse context))
                | (s2, Inl unnest_reason) \<Rightarrow>
                    (case TryMatchValues dc parse precond s2 of
                       (s3, Inr context) \<Rightarrow>
                         (DirectInsertStatsBump DI_PAT_MATCHED_VALUES DI_R_OK s3, Some (CreateValuesInsertPlan parse context))
                     | (s3, Inl values_reason) \<Rightarrow>
                         (DirectInsertStatsBump DI_PAT_UNMATCHED (PickMoreSpecific unnest_reason values_reason) s3, None))))"

section \<open>Decoding the plan\<close>

record DirectInsertScanState =
  ss_mode :: int
  ss_target :: oid
  ss_table_id :: u64
  ss_schema_version :: u64
  ss_column_names :: "string list"
  ss_column_types :: "oid list"
  ss_param_ids :: "int list"
  ss_element_types :: "oid list"
  ss_expected_row_count :: int
  ss_values_num_rows :: int
  ss_values_num_cols :: int
  ss_values_exprs :: "expr list"
  ss_values_src_types :: "oid list"
  ss_finished :: bool
  ss_rows_inserted :: u64

text \<open>\<^verbatim>\<open>NextPrivate\<close> with \<^verbatim>\<open>intVal\<close>, \<^verbatim>\<open>strVal\<close> or as a node; \<open>None\<close> where the list has something else.\<close>

fun next_int :: "priv list \<Rightarrow> (int \<times> priv list) option" where
  "next_int (PInt i # ps) = Some (i, ps)"
| "next_int _ = None"

fun next_str :: "priv list \<Rightarrow> (string \<times> priv list) option" where
  "next_str (PStr s # ps) = Some (s, ps)"
| "next_str _ = None"

fun next_expr :: "priv list \<Rightarrow> (expr \<times> priv list) option" where
  "next_expr (PExpr e # ps) = Some (e, ps)"
| "next_expr _ = None"

definition next_u32 :: "priv list \<Rightarrow> (u32 \<times> priv list) option" where
  "next_u32 ps = map_option (map_prod word_of_int id) (next_int ps)"

definition next_u64 :: "priv list \<Rightarrow> (u64 \<times> priv list) option" where
  "next_u64 ps = Option.bind (next_u32 ps) (\<lambda>(lo, ps1). Option.bind (next_u32 ps1) (\<lambda>(hi, ps2).
     Some (or (push_bit 32 (ucast hi)) (ucast lo), ps2)))"

fun next_many :: "(priv list \<Rightarrow> ('a \<times> priv list) option) \<Rightarrow> nat \<Rightarrow> priv list \<Rightarrow> ('a list \<times> priv list) option" where
  "next_many rd 0 ps = Some ([], ps)"
| "next_many rd (Suc n) ps = Option.bind (rd ps) (\<lambda>(x, ps1). Option.bind (next_many rd n ps1) (\<lambda>(xs, ps2). Some (x # xs, ps2)))"

definition next_counted :: "(priv list \<Rightarrow> ('a \<times> priv list) option) \<Rightarrow> priv list \<Rightarrow> ('a list \<times> priv list) option" where
  "next_counted rd ps = Option.bind (next_int ps) (\<lambda>(n, ps1). next_many rd (nat n) ps1)"

definition next_param :: "priv list \<Rightarrow> ((int \<times> oid) \<times> priv list) option" where
  "next_param ps = Option.bind (next_int ps) (\<lambda>(i, ps1). Option.bind (next_u32 ps1) (\<lambda>(t, ps2). Some ((i, t), ps2)))"

definition empty_scan_state :: DirectInsertScanState where
  "empty_scan_state = \<lparr>ss_mode = 0, ss_target = 0, ss_table_id = 0, ss_schema_version = 0, ss_column_names = [], ss_column_types = [],
     ss_param_ids = [], ss_element_types = [], ss_expected_row_count = 0, ss_values_num_rows = 0, ss_values_num_cols = 0,
     ss_values_exprs = [], ss_values_src_types = [], ss_finished = False, ss_rows_inserted = 0\<rparr>"

definition DirectInsert_CreateCustomScanState :: "priv list \<Rightarrow> DirectInsertScanState option" where
  "DirectInsert_CreateCustomScanState p0 =
     Option.bind (next_int p0) (\<lambda>(mode, p1).
     Option.bind (next_u32 p1) (\<lambda>(target, p2).
     Option.bind (next_u64 p2) (\<lambda>(tbl, p3).
     Option.bind (next_u64 p3) (\<lambda>(ver, p4).
       let base = empty_scan_state\<lparr>ss_mode := mode, ss_target := target, ss_table_id := tbl, ss_schema_version := ver\<rparr> in
       if mode = DIRECT_INSERT_UNNEST
       then Option.bind (next_counted next_param p4) (\<lambda>(params, p5).
            Option.bind (next_counted next_str p5) (\<lambda>(names, p6).
            Option.bind (next_counted next_u32 p6) (\<lambda>(types, p7).
              Some (base\<lparr>ss_expected_row_count := - 1, ss_param_ids := map fst params, ss_element_types := map snd params,
                         ss_column_names := names, ss_column_types := types\<rparr>))))
       else Option.bind (next_int p4) (\<lambda>(nrows, p5).
            Option.bind (next_int p5) (\<lambda>(ncols, p6).
            Option.bind (next_counted next_str p6) (\<lambda>(names, p7).
            Option.bind (next_counted next_u32 p7) (\<lambda>(types, p8).
            Option.bind (next_counted next_u32 p8) (\<lambda>(srcs, p9).
            Option.bind (next_many next_expr (nat (nrows * ncols)) p9) (\<lambda>(exprs, p10).
              Some (base\<lparr>ss_values_num_rows := nrows, ss_values_num_cols := ncols, ss_column_names := names,
                         ss_column_types := types, ss_values_src_types := srcs, ss_values_exprs := exprs\<rparr>)))))))))))"

section \<open>Execution\<close>

datatype exec_error =
    NoBoundParameters
  | UnboundParameter int
  | UnexpectedParameterType int
  | ArrayEndedUnexpectedly
  | UndefinedInlinedTable
  | ColumnCountMismatch nat nat
  | RescanUnsupported
  | WriterError werror

text \<open>A bound parameter: its declared type and its value, an array with the type and the elements of the
  flattened array, or null.\<close>

record 'd ext_param =
  ptype :: oid
  isnull :: bool
  arr_elemtype :: oid
  arr_elements :: "'d cell list"

record ('ty, 'd) exec_env =
  xe_catalog :: pg_catalog
  xe_writer :: "('ty, 'd stored list) writer_context"
  xe_statement :: statement_context
  xe_reserve :: reserve_env
  xe_types :: ducklake_types
  xe_prewrite :: "'d prewrite_env"
  xe_natts :: "oid \<Rightarrow> nat"
  xe_params :: "'d ext_param list option"
  xe_eval :: "expr \<Rightarrow> 'd cell"
  xe_time :: pg_time
  xe_turns :: "wait_turn list"
  xe_others :: "queue option \<Rightarrow> queue option"
  xe_attempts :: "nat \<Rightarrow> 'd stored list attempt_env"

definition writer_error :: "werror + 'a \<Rightarrow> exec_error + 'a" where
  "writer_error r = map_sum WriterError id r"

definition bind_parameter :: "pg_catalog \<Rightarrow> 'd ext_param list \<Rightarrow> int \<times> oid \<Rightarrow> exec_error + 'd cell list option" where
  "bind_parameter pc params p = (case p of (prm, expected) \<Rightarrow>
     if prm < 1 \<or> prm > int (length params) then Inl (UnboundParameter prm)
     else let pdata = params ! nat (prm - 1) in
       if \<not> OidIsValid (ptype pdata) then Inl (UnboundParameter prm)
       else if pc_element_type pc (ptype pdata) \<noteq> expected then Inl (UnexpectedParameterType prm)
       else if isnull pdata then Inr None
       else if arr_elemtype pdata \<noteq> expected then Inl (UnexpectedParameterType prm)
       else Inr (Some (arr_elements pdata)))"

fun bind_all :: "('a \<Rightarrow> 'e + 'b) \<Rightarrow> 'a list \<Rightarrow> 'e + 'b list" where
  "bind_all f [] = Inr []"
| "bind_all f (x # xs) = andthen (f x) (\<lambda>y. andthen (bind_all f xs) (\<lambda>ys. Inr (y # ys)))"

text \<open>\<^verbatim>\<open>unnest_arrays\<close>; the lengths and \<^verbatim>\<open>expected_row_count\<close> follow.\<close>

definition BindUnnestParameters ::
  "pg_catalog \<Rightarrow> 'd ext_param list \<Rightarrow> DirectInsertScanState \<Rightarrow> exec_error + DirectInsertScanState \<times> 'd cell list option list" where
  "BindUnnestParameters pc params st =
     andthen (bind_all (bind_parameter pc params) (zip (ss_param_ids st) (ss_element_types st))) (\<lambda>arrays.
       Inr (st\<lparr>ss_expected_row_count := fold (\<lambda>a m. max m (case a of None \<Rightarrow> 0 | Some es \<Rightarrow> int (length es))) arrays 0\<rparr>, arrays))"

text \<open>One row: the next element of every array that is long enough. The second component holds the
  iterators, as the elements they have left.\<close>

fun unnest_cells :: "nat \<Rightarrow> nat list \<Rightarrow> 'd cell list list \<Rightarrow> exec_error + 'd cell list \<times> 'd cell list list" where
  "unnest_cells row (n # ns) (it # its) =
     (if row \<ge> n then andthen (unnest_cells row ns its) (\<lambda>(cs, its'). Inr (CNull # cs, it # its'))
      else case it of
             [] \<Rightarrow> Inl ArrayEndedUnexpectedly
           | c # it' \<Rightarrow> andthen (unnest_cells row ns its) (\<lambda>(cs, its'). Inr (c # cs, it' # its')))"
| "unnest_cells row _ _ = Inr ([], [])"

fun unnest_rows :: "nat \<Rightarrow> nat \<Rightarrow> nat list \<Rightarrow> 'd cell list list \<Rightarrow> exec_error + 'd cell list list" where
  "unnest_rows row 0 lengths its = Inr []"
| "unnest_rows row (Suc left) lengths its =
     andthen (unnest_cells row lengths its) (\<lambda>(cs, its'). andthen (unnest_rows (Suc row) left lengths its') (\<lambda>rest. Inr (cs # rest)))"

text \<open>\<^verbatim>\<open>CreateInlineColStats\<close>, then \<^verbatim>\<open>SetupInlineColStatsColumn\<close> for every source column.\<close>

definition open_col_stats ::
  "('ty, 'd) exec_env \<Rightarrow> u64 \<Rightarrow> oid list \<Rightarrow> 'd stored list lake_db \<Rightarrow> exec_error + 'd InlineColStats option" where
  "open_col_stats xe tbl srcs db =
     andthen (writer_error (CreateInlineColStats (xe_types xe) tbl (int (length srcs)) (Some (db_columns db)))) (\<lambda>cs.
       Inr (setup_all (pe_types (xe_prewrite xe)) srcs (Some cs)))"

text \<open>The producers open the inline table, bind the batch to it and write the rows. The result is the database
  with the tuples, the batch with their addresses and the contributions, and the counters.\<close>

definition open_inlined ::
  "('ty, 'd) exec_env \<Rightarrow> u64 \<Rightarrow> u64 \<Rightarrow> NativeInlineWriteBatch \<Rightarrow> exec_error + oid \<times> NativeInlineWriteBatch" where
  "open_inlined xe tbl ver batch =
     (let rel = cx_inline_oid (xe_writer xe) (uint tbl, uint ver) in
      if \<not> OidIsValid rel then Inl UndefinedInlinedTable
      else andthen (writer_error (BindNativeInlineWriteRelation (cx_pg18 (xe_writer xe)) (cx_relation (xe_writer xe) rel) batch)) (\<lambda>b.
        Inr (rel, b)))"

definition run_prewrite ::
  "('ty, 'd) exec_env \<Rightarrow> oid \<Rightarrow> nat \<Rightarrow> producer_column list \<Rightarrow> bool \<Rightarrow> 'd cell list list \<Rightarrow> 'd InlineColStats option \<Rightarrow>
   NativeInlineWriteBatch \<Rightarrow> 'd stored list writer_state \<Rightarrow> 'd stored list writer_state \<times> NativeInlineWriteBatch" where
  "run_prewrite xe rel batch_size cols is_copy rows col_stats batch st =
     (let pw = prewrite_rows (xe_prewrite xe) batch_size cols (batch_snapshot_id batch) is_copy rows
                 \<lparr>pw_heap = db_heap (ws_db st) rel, pw_batch = batch, pw_col_stats = col_stats, pw_counters = ws_stats st,
                  pw_slots = [], pw_row_id = batch_row_id batch, pw_rows_inserted = 0\<rparr>
      in (st\<lparr>ws_db := (ws_db st)\<lparr>db_heap := (db_heap (ws_db st))(rel := pw_heap pw)\<rparr>, ws_stats := pw_counters pw\<rparr>,
          (pw_batch pw)\<lparr>rows_inserted := pw_rows_inserted pw,
                        column_stats := FinalizeInlineColStats (pe_types (xe_prewrite xe)) (pw_col_stats pw)\<rparr>))"

definition DirectInsertIntoInlinedTable ::
  "('ty, 'd) exec_env \<Rightarrow> DirectInsertScanState \<Rightarrow> 'd cell list option list \<Rightarrow> NativeInlineWriteBatch \<Rightarrow>
   'd stored list writer_state \<Rightarrow> exec_error + 'd stored list writer_state \<times> NativeInlineWriteBatch" where
  "DirectInsertIntoInlinedTable xe st arrays batch w =
     (let num_params = length (ss_param_ids st); arr_length = nat (ss_expected_row_count st);
          cols = map2 (\<lambda>e i. (e, needs_text_conv_unnest e i)) (ss_element_types st) (ss_column_types st);
          elems = map (\<lambda>a. case a of None \<Rightarrow> [] | Some es \<Rightarrow> es) arrays
      in andthen (open_col_stats xe (ss_table_id st) (ss_element_types st) (ws_db w)) (\<lambda>col_stats.
         andthen (open_inlined xe (ss_table_id st) (ss_schema_version st) batch) (\<lambda>(rel, b).
         if xe_natts xe rel \<noteq> num_params + INLINED_SYSTEM_COLS
         then Inl (ColumnCountMismatch (num_params + INLINED_SYSTEM_COLS) (xe_natts xe rel))
         else andthen (unnest_rows 0 arr_length (map length elems) elems) (\<lambda>rows.
           Inr (run_prewrite xe rel (min arr_length MAX_BUFFERED_TUPLES) cols False rows col_stats b w)))))"

fun values_rows :: "('ty, 'd) exec_env \<Rightarrow> nat \<Rightarrow> nat \<Rightarrow> expr list \<Rightarrow> 'd cell list list" where
  "values_rows xe 0 ncols exprs = []"
| "values_rows xe (Suc n) ncols exprs = map (xe_eval xe) (take ncols exprs) # values_rows xe n ncols (drop ncols exprs)"

definition DirectInsertValuesIntoInlinedTable ::
  "('ty, 'd) exec_env \<Rightarrow> DirectInsertScanState \<Rightarrow> NativeInlineWriteBatch \<Rightarrow>
   'd stored list writer_state \<Rightarrow> exec_error + 'd stored list writer_state \<times> NativeInlineWriteBatch" where
  "DirectInsertValuesIntoInlinedTable xe st batch w =
     (let num_rows = nat (ss_values_num_rows st); num_cols = nat (ss_values_num_cols st);
          cols = map2 (\<lambda>e i. (e, needs_text_conv e i)) (ss_values_src_types st) (ss_column_types st)
      in andthen (open_col_stats xe (ss_table_id st) (take num_cols (ss_values_src_types st)) (ws_db w)) (\<lambda>col_stats.
         andthen (open_inlined xe (ss_table_id st) (ss_schema_version st) batch) (\<lambda>(rel, b).
           Inr (run_prewrite xe rel (if num_rows < MAX_BUFFERED_TUPLES then num_rows else MAX_BUFFERED_TUPLES) cols False
                  (values_rows xe num_rows num_cols (ss_values_exprs st)) col_stats b w))))"

text \<open>\<^verbatim>\<open>ExecCustomScan\<close>: the number of processed rows. \<open>None\<close>: the statement still waits in the reservation
  queue. An error aborts the transaction, so the state it leaves does not matter.\<close>

definition publish_batch ::
  "('ty, 'd) exec_env \<Rightarrow> NativeInlineWriteBatch \<Rightarrow> 'd stored list writer_state \<Rightarrow>
   (exec_error + 'd stored list writer_state \<times> u64) option" where
  "publish_batch xe batch w =
     map_option (\<lambda>(w', r). andthen (writer_error r) (\<lambda>_. Inr (w', rows_inserted batch)))
       (PublishNativeInlineWrite (xe_writer xe) (xe_time xe) (xe_turns xe) (xe_others xe) (xe_attempts xe) batch w)"

definition prepare_batch ::
  "('ty, 'd) exec_env \<Rightarrow> oid \<Rightarrow> u64 \<Rightarrow> u64 \<Rightarrow> u64 \<Rightarrow> 'd stored list writer_state \<Rightarrow>
   (exec_error + 'd stored list writer_state \<times> NativeInlineWriteBatch) option" where
  "prepare_batch xe target tbl ver expected w =
     map_option (\<lambda>((q, l), r). andthen (writer_error r) (\<lambda>b. Inr (w\<lparr>ws_queue := q, ws_local := l\<rparr>, b)))
       (PrepareNativeInlineWrite (xe_writer xe) (xe_statement xe) (xe_reserve xe) target tbl ver expected (ws_db w)
          (ws_queue w, ws_local w))"

text \<open>\<^verbatim>\<open>BeginCustomScan\<close> refuses a missing parameter list and builds the name of the inline table.\<close>

definition DirectInsert_BeginCustomScan :: "('ty, 'd) exec_env \<Rightarrow> DirectInsertScanState \<Rightarrow> exec_error + string" where
  "DirectInsert_BeginCustomScan xe st =
     andthen (guard_or NoBoundParameters (\<not> (ss_mode st = DIRECT_INSERT_UNNEST \<and> xe_params xe = None))) (\<lambda>_.
       Inr (''ducklake.ducklake_inlined_data_'' @ dec_of_nat (unat (ss_table_id st)) @ ''_'' @ dec_of_nat (unat (ss_schema_version st))))"

definition DirectInsert_ExecCustomScan ::
  "('ty, 'd) exec_env \<Rightarrow> DirectInsertScanState \<Rightarrow> di_session \<Rightarrow> 'd stored list writer_state \<Rightarrow>
   (exec_error + DirectInsertScanState \<times> di_session \<times> 'd stored list writer_state \<times> u64 option) option" where
  "DirectInsert_ExecCustomScan xe st s w =
     (if ss_finished st then Some (Inr (st, s, w, None))
      else
        let bound = (if ss_mode st = DIRECT_INSERT_UNNEST
                     then (case xe_params xe of
                             None \<Rightarrow> Inl NoBoundParameters
                           | Some ps \<Rightarrow> BindUnnestParameters (xe_catalog xe) ps st)
                     else Inr (st, []))
        in case bound of
             Inl e \<Rightarrow> Some (Inl e)
           | Inr (st1, arrays) \<Rightarrow>
               if ss_mode st = DIRECT_INSERT_UNNEST \<and> ss_expected_row_count st1 = 0
               then Some (Inr (st1\<lparr>ss_finished := True\<rparr>, ResetDirectInsertCaches s, w, Some 0))
               else
                 let expected = (if ss_mode st = DIRECT_INSERT_UNNEST then ss_expected_row_count st1 else ss_values_num_rows st1) in
                 (case prepare_batch xe (ss_target st1) (ss_table_id st1) (ss_schema_version st1) (word_of_int expected) w of
                    None \<Rightarrow> None
                  | Some (Inl e) \<Rightarrow> Some (Inl e)
                  | Some (Inr (w1, batch)) \<Rightarrow>
                      (case (if ss_mode st = DIRECT_INSERT_UNNEST then DirectInsertIntoInlinedTable xe st1 arrays batch w1
                             else DirectInsertValuesIntoInlinedTable xe st1 batch w1) of
                         Inl e \<Rightarrow> Some (Inl e)
                       | Inr (w2, batch2) \<Rightarrow>
                           map_option (\<lambda>r. andthen r (\<lambda>(w3, n).
                             Inr (st1\<lparr>ss_finished := True, ss_rows_inserted := n\<rparr>, ResetDirectInsertCaches s, w3, Some n)))
                             (publish_batch xe batch2 w2))))"

definition DirectInsert_ReScanCustomScan :: "exec_error + unit" where
  "DirectInsert_ReScanCustomScan = Inl RescanUnsupported"

text \<open>The properties that \<^verbatim>\<open>EXPLAIN\<close> prints.\<close>

datatype explain_value = ExplainText string | ExplainInteger int

definition DirectInsert_ExplainCustomScan :: "bool \<Rightarrow> DirectInsertScanState \<Rightarrow> (string \<times> explain_value) list" where
  "DirectInsert_ExplainCustomScan verbose st =
     [(''Custom Scan'', ExplainText ''DuckLakeDirectInsert''),
      (''Pattern'', ExplainText (if ss_mode st = DIRECT_INSERT_UNNEST then ''UNNEST'' else ''VALUES''))] @
     (if ss_mode st = DIRECT_INSERT_UNNEST \<and> ss_expected_row_count st < 0
      then [(''Expected Rows'', ExplainText ''bound at execution'')]
      else [(''Expected Rows'', ExplainInteger (if ss_mode st = DIRECT_INSERT_UNNEST then ss_expected_row_count st else ss_values_num_rows st))]) @
     (if verbose
      then [(''Inlined Table'', ExplainText (''ducklake.ducklake_inlined_data_'' @ dec_of_nat (unat (ss_table_id st)) @ ''_'' @
              dec_of_nat (unat (ss_schema_version st))))]
      else [])"

end
