(* ===== verification/Pg_Mutators.thy ===== *)
theory Pg_Mutators
  imports Pg_Nodes
begin

text \<open>
  Walkers and mutators that enter sub-queries: \<^verbatim>\<open>expression_tree_walker\<close> and \<^verbatim>\<open>query_tree_walker\<close> with a callback that
  looks for a node, and \<^verbatim>\<open>expression_tree_mutator\<close> and \<^verbatim>\<open>query_tree_mutator\<close>, which rebuild a node from the images
  of its parts. The congruence rules let functions recurse through them.
\<close>

section \<open>Looking for a node\<close>

function (sequential) node_ex :: "(expr \<Rightarrow> bool) \<Rightarrow> (query \<Rightarrow> bool) \<Rightarrow> expr + query \<Rightarrow> bool" where
  "node_ex P Q (Inl e) \<longleftrightarrow>
     P e \<or> list_ex (\<lambda>c. node_ex P Q (Inl c)) (children e) \<or> list_ex (\<lambda>q. node_ex P Q (Inr q)) (sub_query e)"
| "node_ex P Q (Inr q) \<longleftrightarrow>
     Q q \<or> list_ex (\<lambda>c. node_ex P Q (Inl c)) (query_exprs q) \<or> list_ex (\<lambda>r. node_ex P Q (Inr r)) (query_queries q)"
  by pat_completeness auto
termination
  by (relation "measure (case_sum size size \<circ> snd \<circ> snd)")
    (auto dest: size_children size_sub_query size_query_exprs size_query_queries)

declare node_ex.simps [simp del]

section \<open>Rebuilding a node\<close>

fun map_children :: "(expr \<Rightarrow> 'e + expr) \<Rightarrow> (query \<Rightarrow> 'e + query) \<Rightarrow> expr \<Rightarrow> 'e + expr" where
  "map_children f g (FuncExpr i r t args) = andthen (map_err f args) (\<lambda>as. Inr (FuncExpr i r t as))"
| "map_children f g (OpExpr i t args) = andthen (map_err f args) (\<lambda>as. Inr (OpExpr i t as))"
| "map_children f g (DistinctExpr i t args) = andthen (map_err f args) (\<lambda>as. Inr (DistinctExpr i t as))"
| "map_children f g (NullIfExpr i t args) = andthen (map_err f args) (\<lambda>as. Inr (NullIfExpr i t as))"
| "map_children f g (ScalarArrayOpExpr i args) = andthen (map_err f args) (\<lambda>as. Inr (ScalarArrayOpExpr i as))"
| "map_children f g (Aggref i args) = andthen (map_err f args) (\<lambda>as. Inr (Aggref i as))"
| "map_children f g (GroupingFunc args) = andthen (map_err f args) (\<lambda>as. Inr (GroupingFunc as))"
| "map_children f g (WindowFunc args) = andthen (map_err f args) (\<lambda>as. Inr (WindowFunc as))"
| "map_children f g (SubLink args q) = andthen (map_err f args) (\<lambda>as. andthen (g q) (\<lambda>q'. Inr (SubLink as q')))"
| "map_children f g (SubPlan args) = andthen (map_err f args) (\<lambda>as. Inr (SubPlan as))"
| "map_children f g (AlternativeSubPlan args) = andthen (map_err f args) (\<lambda>as. Inr (AlternativeSubPlan as))"
| "map_children f g (OtherExpr t args) = andthen (map_err f args) (\<lambda>as. Inr (OtherExpr t as))"
| "map_children f g e = Inr e"

definition map_option_err :: "('a \<Rightarrow> 'e + 'b) \<Rightarrow> 'a option \<Rightarrow> 'e + 'b option" where
  "map_option_err f x = (case x of None \<Rightarrow> Inr None | Some y \<Rightarrow> andthen (f y) (\<lambda>z. Inr (Some z)))"

fun map_tle :: "(expr \<Rightarrow> 'e + expr) \<Rightarrow> tle \<Rightarrow> 'e + tle" where
  "map_tle f (TargetEntry e n j) = andthen (f e) (\<lambda>e'. Inr (TargetEntry e' n j))"

fun map_from_item :: "(expr \<Rightarrow> 'e + expr) \<Rightarrow> from_item \<Rightarrow> 'e + from_item" where
  "map_from_item f (RangeTblRef i) = Inr (RangeTblRef i)"
| "map_from_item f (JoinExpr es items) =
     andthen (map_err f es) (\<lambda>es'. andthen (map_err (map_from_item f) items) (\<lambda>is. Inr (JoinExpr es' is)))"

fun map_jointree :: "(expr \<Rightarrow> 'e + expr) \<Rightarrow> jointree \<Rightarrow> 'e + jointree" where
  "map_jointree f (FromExpr items qs) =
     andthen (map_err (map_from_item f) items) (\<lambda>is. andthen (map_option_err f qs) (\<lambda>qs'. Inr (FromExpr is qs')))"

fun map_rte :: "(expr \<Rightarrow> 'e + expr) \<Rightarrow> (query \<Rightarrow> 'e + query) \<Rightarrow> rte \<Rightarrow> 'e + rte" where
  "map_rte f g (RangeTblEntry h vs es sub) =
     andthen (map_err (map_err f) vs) (\<lambda>vs'.
     andthen (map_err f es) (\<lambda>es'.
     andthen (map_option_err g sub) (\<lambda>sub'. Inr (RangeTblEntry h vs' es' sub'))))"

fun map_query_nodes :: "(expr \<Rightarrow> 'e + expr) \<Rightarrow> (query \<Rightarrow> 'e + query) \<Rightarrow> query \<Rightarrow> 'e + query" where
  "map_query_nodes f g (Query h ctes rt jt ts clauses) =
     andthen (map_err (map_tle f) ts) (\<lambda>ts'.
     andthen (map_err f clauses) (\<lambda>clauses'.
     andthen (map_option_err (map_jointree f) jt) (\<lambda>jt'.
     andthen (map_err g ctes) (\<lambda>ctes'.
     andthen (map_err (map_rte f g) rt) (\<lambda>rt'. Inr (Query h ctes' rt' jt' ts' clauses'))))))"

lemma map_option_err_cong [fundef_cong]:
  "x = y \<Longrightarrow> (\<And>z. y = Some z \<Longrightarrow> f z = g z) \<Longrightarrow> map_option_err f x = map_option_err g y"
  by (auto simp: map_option_err_def split: option.splits)

lemma map_children_cong [fundef_cong]:
  assumes "e = e'" and "\<And>c. c \<in> set (children e') \<Longrightarrow> f c = f' c" and "\<And>q. q \<in> set (sub_query e') \<Longrightarrow> g q = g' q"
  shows "map_children f g e = map_children f' g' e'"
  using assms by (cases e') (auto cong: map_err_cong)

lemma map_tle_cong: "f (te_expr t) = f' (te_expr t) \<Longrightarrow> map_tle f t = map_tle f' t"
  by (cases t) simp

lemma map_from_item_cong: "(\<And>c. c \<in> set (from_exprs i) \<Longrightarrow> f c = f' c) \<Longrightarrow> map_from_item f i = map_from_item f' i"
proof (induction i rule: from_exprs.induct)
  case (2 es items)
  have "map_err f es = map_err f' es" using 2(2) by (intro map_err_cong) auto
  moreover have "map_err (map_from_item f) items = map_err (map_from_item f') items"
    by (rule map_err_cong [OF refl], rule 2(1)) (use 2(2) in auto)
  ultimately show ?case by simp
qed simp

lemma map_jointree_cong: "(\<And>c. c \<in> set (jointree_exprs j) \<Longrightarrow> f c = f' c) \<Longrightarrow> map_jointree f j = map_jointree f' j"
proof (cases j)
  case (FromExpr items qs)
  moreover assume a: "\<And>c. c \<in> set (jointree_exprs j) \<Longrightarrow> f c = f' c"
  ultimately have "map_err (map_from_item f) items = map_err (map_from_item f') items"
    by (intro map_err_cong [OF refl] map_from_item_cong) auto
  moreover have "map_option_err f qs = map_option_err f' qs"
    by (rule map_option_err_cong) (use a FromExpr in auto)
  ultimately show ?thesis using FromExpr by simp
qed

lemma map_rte_cong:
  "(\<And>c. c \<in> set (rte_children r) \<Longrightarrow> f c = f' c) \<Longrightarrow> (\<And>q. q \<in> set (rte_queries r) \<Longrightarrow> g q = g' q) \<Longrightarrow> map_rte f g r = map_rte f' g' r"
proof (cases r)
  case (RangeTblEntry h vs es sub)
  moreover assume a: "\<And>c. c \<in> set (rte_children r) \<Longrightarrow> f c = f' c" "\<And>q. q \<in> set (rte_queries r) \<Longrightarrow> g q = g' q"
  ultimately have "map_err (map_err f) vs = map_err (map_err f') vs" "map_err f es = map_err f' es"
    by (auto intro!: map_err_cong)
  moreover have "map_option_err g sub = map_option_err g' sub"
    by (rule map_option_err_cong) (use a RangeTblEntry in auto)
  ultimately show ?thesis using RangeTblEntry by simp
qed

lemma map_query_nodes_cong [fundef_cong]:
  assumes "q = q'" and "\<And>c. c \<in> set (query_exprs q') \<Longrightarrow> f c = f' c" and "\<And>r. r \<in> set (query_queries q') \<Longrightarrow> g r = g' r"
  shows "map_query_nodes f g q = map_query_nodes f' g' q'"
proof (cases q')
  case (Query h ctes rt jt ts clauses)
  have "map_err (map_tle f) ts = map_err (map_tle f') ts"
    by (rule map_err_cong [OF refl], rule map_tle_cong) (use assms Query in auto)
  moreover have "map_err f clauses = map_err f' clauses" "map_err g ctes = map_err g' ctes"
    using assms Query by (auto intro!: map_err_cong)
  moreover have "map_option_err (map_jointree f) jt = map_option_err (map_jointree f') jt"
    by (rule map_option_err_cong [OF refl], rule map_jointree_cong) (use assms Query in auto)
  moreover have "map_err (map_rte f g) rt = map_err (map_rte f' g') rt"
  proof (rule map_err_cong [OF refl], rule map_rte_cong)
    fix r c
    assume "r \<in> set rt" "c \<in> set (rte_children r)"
    then show "f c = f' c" using assms(2) Query by auto
  next
    fix r c
    assume "r \<in> set rt" "c \<in> set (rte_queries r)"
    then have "c \<in> set (query_queries q')" using Query by auto
    then show "g c = g' c" by (rule assms(3))
  qed
  ultimately show ?thesis using assms(1) Query by simp
qed

lemma map_query_nodes_head: "map_query_nodes f g q = Inr q' \<Longrightarrow> q_head q' = q_head q"
  by (cases q) (auto simp: andthen_Inr_iff)

lemma map_rte_head: "map_rte f g r = Inr r' \<Longrightarrow> r_head r' = r_head r"
  by (cases r) (auto simp: andthen_Inr_iff)

lemma map_query_nodes_rtable:
  assumes "map_query_nodes f g q = Inr q'"
  shows "map r_head (rtable q') = map r_head (rtable q)"
proof (cases q)
  case (Query h ctes rt jt ts clauses)
  then obtain rt' where "map_err (map_rte f g) rt = Inr rt'" "rtable q' = rt'"
    using assms by (auto simp: andthen_Inr_iff)
  then show ?thesis using Query unfolding map_err_Inr
    by (auto simp: list_all2_conv_all_nth intro!: nth_equalityI map_rte_head [of f g])
qed

end
