(* ===== verification/Ducklake_Fdw.thy ===== *)
theory Ducklake_Fdw
  imports Pg_Mutators Pg_Types
begin

text \<open>
  The foreign-data wrapper of \<^verbatim>\<open>ducklake_fdw.cpp\<close>: options and their validation, the DuckDB alias and the
  \<^verbatim>\<open>ATTACH\<close> statement of a server, the walk over a query that attaches what it needs and refuses to write a read-only
  table, and \<^verbatim>\<open>IMPORT FOREIGN SCHEMA\<close>.

  The catalogs are a record of lookups. DuckDB's attached databases are a list of an alias and the statement that
  attached it; \<^verbatim>\<open>ATTACH IF NOT EXISTS\<close> of an alias in the list does nothing, any other succeeds or fails as \<open>attach_ok\<close>
  says. An option list is a list of names and values, its first entry of a name being the one that counts.
\<close>

type_synonym options = "(string \<times> string) list"

record ForeignServer =
  servername :: string
  fdwid :: oid
  server_options :: options

record ForeignTable =
  serverid :: oid
  table_options :: options

record fdw_catalog =
  cached_oid :: oid
  wrapper_oid :: oid
  is_foreign_table :: "oid \<Rightarrow> bool"
  GetForeignTable :: "oid \<Rightarrow> ForeignTable"
  GetForeignServer :: "oid \<Rightarrow> ForeignServer"
  get_rel_name :: "oid \<Rightarrow> string"
  MyDatabase :: string
  user_name :: string
  quote_identifier :: "string \<Rightarrow> string"

datatype fdw_error = AttachFailed string | NotUpdatable | InvalidOption string | MutuallyExclusive string string | BadUpdatable
  | CannotRead string | ConvError conv_error

section \<open>Options\<close>

datatype option_context = ForeignServerRelationId | ForeignTableRelationId | OtherRelationId

definition valid_server_options :: "string list" where
  "valid_server_options = [''dbname'', ''connection_string'', ''metadata_schema'', ''frozen_url'', ''updatable'']"

definition valid_table_options :: "string list" where
  "valid_table_options = [''schema_name'', ''table_name'', ''updatable'']"

definition IsValidOption :: "string \<Rightarrow> option_context \<Rightarrow> bool" where
  "IsValidOption name context \<longleftrightarrow>
     context = ForeignServerRelationId \<and> name \<in> set valid_server_options \<or>
     context = ForeignTableRelationId \<and> name \<in> set valid_table_options"

definition GetOptionValue :: "options \<Rightarrow> string \<Rightarrow> string option" where
  "GetOptionValue os name = map_of os name"

text \<open>The object id of the wrapper is looked up once per process.\<close>

definition GetDucklakeFdwOid :: "fdw_catalog \<Rightarrow> oid" where
  "GetDucklakeFdwOid fc = (if cached_oid fc \<noteq> InvalidOid then cached_oid fc else wrapper_oid fc)"

definition remember_fdw_oid :: "fdw_catalog \<Rightarrow> fdw_catalog" where
  "remember_fdw_oid fc = fc\<lparr>cached_oid := GetDucklakeFdwOid fc\<rparr>"

definition IsFrozenServer :: "ForeignServer \<Rightarrow> bool" where
  "IsFrozenServer server \<longleftrightarrow> GetOptionValue (server_options server) ''frozen_url'' \<noteq> None"

definition IsUpdatable :: "ForeignTable \<Rightarrow> ForeignServer \<Rightarrow> bool" where
  "IsUpdatable ft server =
     (case GetOptionValue (table_options ft) ''updatable'' of
        Some table_val \<Rightarrow> pg_strcasecmp table_val ''true'' = 0
      | None \<Rightarrow>
          (case GetOptionValue (server_options server) ''updatable'' of
             Some server_val \<Rightarrow> pg_strcasecmp server_val ''true'' = 0
           | None \<Rightarrow> \<not> IsFrozenServer server))"

definition server_of :: "fdw_catalog \<Rightarrow> oid \<Rightarrow> ForeignServer" where
  "server_of fc rel = GetForeignServer fc (serverid (GetForeignTable fc rel))"

definition IsDucklakeForeignTable :: "fdw_catalog \<Rightarrow> oid \<Rightarrow> bool" where
  "IsDucklakeForeignTable fc rel \<longleftrightarrow> is_foreign_table fc rel \<and> fdwid (server_of fc rel) = GetDucklakeFdwOid fc"

section \<open>Aliases and names\<close>

definition sq :: string where "sq = [CHR 0x27]"

definition dq :: string where "dq = [CHR 0x22]"

definition server_database :: "fdw_catalog \<Rightarrow> ForeignServer \<Rightarrow> string" where
  "server_database fc server = (case GetOptionValue (server_options server) ''dbname'' of Some d \<Rightarrow> d | None \<Rightarrow> MyDatabase fc)"

definition GetDatabaseAlias :: "fdw_catalog \<Rightarrow> ForeignServer \<Rightarrow> string" where
  "GetDatabaseAlias fc server =
     (if IsFrozenServer server then servername server
      else if GetOptionValue (server_options server) ''connection_string'' \<noteq> None then ''fdw_db_'' @ servername server
      else ''fdw_db_'' @ server_database fc server)"

definition BuildAttachQuery :: "fdw_catalog \<Rightarrow> ForeignServer \<Rightarrow> string \<Rightarrow> bool \<Rightarrow> string" where
  "BuildAttachQuery fc server db_alias if_not_exists =
     (let exists_clause = (if if_not_exists then '' IF NOT EXISTS'' else '''');
          schema = (case GetOptionValue (server_options server) ''metadata_schema'' of Some s \<Rightarrow> s | None \<Rightarrow> ''ducklake'');
          tail = '' AS '' @ dq @ db_alias @ dq @ '' (TYPE DUCKLAKE, METADATA_SCHEMA '' @ sq @ schema @ sq @ '')''
      in case GetOptionValue (server_options server) ''frozen_url'' of
           Some url \<Rightarrow> ''ATTACH'' @ exists_clause @ '' '' @ sq @ ''ducklake:'' @ url @ sq @ '' AS '' @ dq @ db_alias @ dq
         | None \<Rightarrow>
             (case GetOptionValue (server_options server) ''connection_string'' of
                Some connstr \<Rightarrow> ''ATTACH'' @ exists_clause @ '' '' @ sq @ ''postgres:'' @ connstr @ sq @ tail
              | None \<Rightarrow> ''ATTACH'' @ exists_clause @ '' '' @ sq @ ''postgres:dbname='' @ server_database fc server @
                         '' user='' @ user_name fc @ sq @ tail))"

definition option_or :: "options \<Rightarrow> string \<Rightarrow> string \<Rightarrow> string" where
  "option_or os name d = (case GetOptionValue os name of Some v \<Rightarrow> v | None \<Rightarrow> d)"

definition GetDucklakeForeignTableName :: "fdw_catalog \<Rightarrow> oid \<Rightarrow> string option" where
  "GetDucklakeForeignTableName fc rel =
     (if \<not> IsDucklakeForeignTable fc rel then None
      else let os = table_options (GetForeignTable fc rel) in
        Some (quote_identifier fc (GetDatabaseAlias fc (server_of fc rel)) @ ''.'' @
              quote_identifier fc (option_or os ''schema_name'' ''public'') @ ''.'' @
              quote_identifier fc (option_or os ''table_name'' (get_rel_name fc rel))))"

section \<open>Attaching\<close>

type_synonym attached = "(string \<times> string) list"

definition AttachDucklakeDatabase :: "fdw_catalog \<Rightarrow> (string \<Rightarrow> bool) \<Rightarrow> ForeignServer \<Rightarrow> attached \<Rightarrow> fdw_error + attached" where
  "AttachDucklakeDatabase fc attach_ok server att =
     (let db_alias = GetDatabaseAlias fc server; q = BuildAttachQuery fc server db_alias True in
      if map_of att db_alias \<noteq> None then Inr att
      else if attach_ok q then Inr (att @ [(db_alias, q)])
      else Inl (AttachFailed q))"

lemma size_subquery: "r \<in> set (rtable q) \<Longrightarrow> subquery r = Some s \<Longrightarrow> size s < size q"
  by (rule size_query_queries, cases q, cases r) force

lemma size_cte: "s \<in> set (cteList q) \<Longrightarrow> size s < size q"
  by (rule size_query_queries, cases q) simp

text \<open>A sub-query of the range table, if the entry is one.\<close>

definition rte_subquery :: "rte \<Rightarrow> query option" where
  "rte_subquery r = (if rtekind (r_head r) = RTE_SUBQUERY then subquery r else None)"

lemma size_rte_subquery: "r \<in> set (rtable q) \<Longrightarrow> rte_subquery r = Some s \<Longrightarrow> size s < size q"
  by (simp add: rte_subquery_def size_subquery split: if_splits)

function QueryReferencesDucklakeForeignTable :: "fdw_catalog \<Rightarrow> query \<Rightarrow> bool" where
  "QueryReferencesDucklakeForeignTable fc q \<longleftrightarrow>
     GetDucklakeFdwOid fc \<noteq> InvalidOid \<and>
     (list_ex (\<lambda>r. case rte_subquery r of
                     Some s \<Rightarrow> QueryReferencesDucklakeForeignTable fc s
                   | None \<Rightarrow> relid (r_head r) \<noteq> InvalidOid \<and> IsDucklakeForeignTable fc (relid (r_head r))) (rtable q) \<or>
      list_ex (QueryReferencesDucklakeForeignTable fc) (cteList q))"
  by pat_completeness auto
termination
  by (relation "measure (size \<circ> snd)") (auto dest: size_rte_subquery size_cte)

declare QueryReferencesDucklakeForeignTable.simps [simp del]

definition attach_rte :: "fdw_catalog \<Rightarrow> (string \<Rightarrow> bool) \<Rightarrow> rte \<Rightarrow> attached \<Rightarrow> fdw_error + attached" where
  "attach_rte fc attach_ok r att =
     (if relid (r_head r) = InvalidOid \<or> \<not> IsDucklakeForeignTable fc (relid (r_head r)) then Inr att
      else AttachDucklakeDatabase fc attach_ok (server_of fc (relid (r_head r))) att)"

definition check_result_relation :: "fdw_catalog \<Rightarrow> query \<Rightarrow> fdw_error + unit" where
  "check_result_relation fc q =
     (let h = q_head q; t = relid (r_head (rtable q ! nat (resultRelation h - 1))) in
      guard_or NotUpdatable
        (\<not> (commandType h \<noteq> CMD_SELECT \<and> resultRelation h > 0 \<and> t \<noteq> InvalidOid \<and> IsDucklakeForeignTable fc t \<and>
            \<not> IsUpdatable (GetForeignTable fc t) (server_of fc t))))"

function RegisterForeignTablesInQuery :: "fdw_catalog \<Rightarrow> (string \<Rightarrow> bool) \<Rightarrow> query \<Rightarrow> attached \<Rightarrow> fdw_error + attached" where
  "RegisterForeignTablesInQuery fc attach_ok q att =
     (if rtable q = [] then Inr att
      else if GetDucklakeFdwOid fc = InvalidOid then Inr att
      else andthen (fold_err (\<lambda>r a. andthen (case rte_subquery r of
                                               None \<Rightarrow> Inr a
                                             | Some s \<Rightarrow> RegisterForeignTablesInQuery fc attach_ok s a)
                                      (attach_rte fc attach_ok r)) (rtable q) att) (\<lambda>att1.
           andthen (fold_err (RegisterForeignTablesInQuery fc attach_ok) (cteList q) att1) (\<lambda>att2.
           andthen (check_result_relation fc q) (\<lambda>_. Inr att2))))"
  by pat_completeness auto
termination
  by (relation "measure (\<lambda>(fc, ok, q, att). size q)") (auto dest: size_rte_subquery size_cte)

declare RegisterForeignTablesInQuery.simps [simp del]

section \<open>Columns of a foreign table\<close>

text \<open>What a DuckDB connection answers: \<open>prepare\<close> the names and types of the result columns of a query, \<open>list_query\<close> the
  rows of the table listing; \<open>WriteOptionallyQuoted\<close> quotes an identifier where it needs quotes, and \<open>format_type\<close> is
  PostgreSQL's name of a type with its modifier.\<close>

record duck_conn =
  attach_ok :: "string \<Rightarrow> bool"
  prepare :: "string \<Rightarrow> (string \<times> LogicalType) list option"
  list_query :: "string \<Rightarrow> string list option"
  WriteOptionallyQuoted :: "string \<Rightarrow> string"
  type_hooks :: "(LogicalType \<Rightarrow> Oid option) list"
  array_type_hooks :: "(LogicalType \<Rightarrow> Oid option) list"
  format_type :: "Oid \<Rightarrow> u32 \<Rightarrow> string"

definition select_columns :: "duck_conn \<Rightarrow> string \<Rightarrow> string \<Rightarrow> string \<Rightarrow> string" where
  "select_columns con db_alias schema table =
     ''SELECT * FROM '' @ dq @ db_alias @ dq @ ''.'' @ WriteOptionallyQuoted con schema @ ''.'' @ WriteOptionallyQuoted con table @
     '' LIMIT 0''"

definition result_columns :: "duck_conn \<Rightarrow> (string \<times> LogicalType) list \<Rightarrow> fdw_error + (string \<times> Oid \<times> u32) list" where
  "result_columns con cols = map_err (\<lambda>(n, t).
     case GetPostgresDuckDBType (type_hooks con) (array_type_hooks con) False t of
       Inl e \<Rightarrow> Inl (ConvError e)
     | Inr pg_type \<Rightarrow> Inr (n, pg_type, GetPostgresDuckDBTypemod t)) cols"

definition read_columns :: "duck_conn \<Rightarrow> string \<Rightarrow> string \<Rightarrow> string \<Rightarrow> fdw_error + (string \<times> Oid \<times> u32) list" where
  "read_columns con db_alias schema table =
     (case prepare con (select_columns con db_alias schema table) of
        None \<Rightarrow> Inl (CannotRead table)
      | Some cols \<Rightarrow> result_columns con cols)"

definition InferForeignTableColumns ::
  "fdw_catalog \<Rightarrow> duck_conn \<Rightarrow> ForeignServer \<Rightarrow> options \<Rightarrow> string \<Rightarrow> attached \<Rightarrow> fdw_error + (string \<times> Oid \<times> u32) list \<times> attached" where
  "InferForeignTableColumns fc con server os relname att =
     andthen (AttachDucklakeDatabase fc (attach_ok con) server att) (\<lambda>att'.
     andthen (read_columns con (GetDatabaseAlias fc server) (option_or os ''schema_name'' ''public'') (option_or os ''table_name'' relname))
       (\<lambda>cols. Inr (cols, att')))"

text \<open>\<^verbatim>\<open>CREATE FOREIGN TABLE\<close> without columns gets those of the DuckDB table.\<close>

definition DucklakeFdwUtilityHook ::
  "fdw_catalog \<Rightarrow> duck_conn \<Rightarrow> ForeignServer option \<Rightarrow> options \<Rightarrow> string \<Rightarrow> (string \<times> Oid \<times> u32) list \<Rightarrow> attached \<Rightarrow>
   fdw_error + (string \<times> Oid \<times> u32) list \<times> attached" where
  "DucklakeFdwUtilityHook fc con server os relname tableElts att =
     (case server of
        Some s \<Rightarrow> if wrapper_oid fc \<noteq> InvalidOid \<and> fdwid s = wrapper_oid fc \<and> tableElts = []
                  then InferForeignTableColumns fc con s os relname att else Inr (tableElts, att)
      | None \<Rightarrow> Inr (tableElts, att))"

section \<open>IMPORT FOREIGN SCHEMA\<close>

datatype import_list = FDW_IMPORT_SCHEMA_ALL | FDW_IMPORT_SCHEMA_LIMIT_TO "string list" | FDW_IMPORT_SCHEMA_EXCEPT "string list"

fun imported :: "import_list \<Rightarrow> string \<Rightarrow> bool" where
  "imported FDW_IMPORT_SCHEMA_ALL tname \<longleftrightarrow> True"
| "imported (FDW_IMPORT_SCHEMA_LIMIT_TO ts) tname \<longleftrightarrow> list_ex (\<lambda>t. t = tname) ts"
| "imported (FDW_IMPORT_SCHEMA_EXCEPT ts) tname \<longleftrightarrow> \<not> list_ex (\<lambda>t. t = tname) ts"

definition list_tables_query :: "duck_conn \<Rightarrow> string \<Rightarrow> string \<Rightarrow> string" where
  "list_tables_query con db_alias remote_schema =
     ''SELECT table_name FROM duckdb_tables() WHERE database_name = '' @ sq @ db_alias @ sq @ '' AND schema_name = '' @ sq @
     WriteOptionallyQuoted con remote_schema @ sq @ '' ORDER BY table_name''"

definition create_foreign_table :: "fdw_catalog \<Rightarrow> duck_conn \<Rightarrow> string \<Rightarrow> string \<Rightarrow> string \<Rightarrow> string \<Rightarrow> (string \<times> Oid \<times> u32) list \<Rightarrow> string" where
  "create_foreign_table fc con local_schema server remote_schema tname cols =
     ''CREATE FOREIGN TABLE '' @ quote_identifier fc local_schema @ ''.'' @ quote_identifier fc tname @ '' ('' @
     join_with '', '' (map (\<lambda>(n, t, m). quote_identifier fc n @ '' '' @ format_type con t m) cols) @ '') SERVER '' @
     quote_identifier fc server @ '' OPTIONS (schema_name '' @ sq @ remote_schema @ sq @ '', table_name '' @ sq @ tname @ sq @ '')''"

definition DucklakeImportForeignSchema ::
  "fdw_catalog \<Rightarrow> duck_conn \<Rightarrow> ForeignServer \<Rightarrow> string \<Rightarrow> string \<Rightarrow> import_list \<Rightarrow> attached \<Rightarrow> fdw_error + string list \<times> attached" where
  "DucklakeImportForeignSchema fc con server remote_schema local_schema lst att =
     andthen (AttachDucklakeDatabase fc (attach_ok con) server att) (\<lambda>att'.
     case list_query con (list_tables_query con (GetDatabaseAlias fc server) remote_schema) of
       None \<Rightarrow> Inl (CannotRead remote_schema)
     | Some tnames \<Rightarrow>
         andthen (map_err (\<lambda>t. andthen (read_columns con (GetDatabaseAlias fc server) remote_schema t) (\<lambda>cols.
                   Inr (create_foreign_table fc con local_schema (servername server) remote_schema t cols)))
                  (filter (imported lst) tnames)) (\<lambda>commands. Inr (commands, att')))"

section \<open>The validator\<close>

definition updatable_ok :: "options \<Rightarrow> bool" where
  "updatable_ok os = (case GetOptionValue os ''updatable'' of None \<Rightarrow> True
     | Some v \<Rightarrow> pg_strcasecmp v ''true'' = 0 \<or> pg_strcasecmp v ''false'' = 0)"

definition has_option :: "options \<Rightarrow> string \<Rightarrow> bool" where
  "has_option os name \<longleftrightarrow> GetOptionValue os name \<noteq> None"

definition exclusive :: "options \<Rightarrow> string \<Rightarrow> string \<Rightarrow> fdw_error + unit" where
  "exclusive os a b = guard_or (MutuallyExclusive a b) (\<not> (has_option os a \<and> has_option os b))"

definition ducklake_fdw_validator :: "options \<Rightarrow> option_context \<Rightarrow> fdw_error + unit" where
  "ducklake_fdw_validator os catalog =
     andthen (fold_err (\<lambda>(n, v) _. guard_or (InvalidOption n) (IsValidOption n catalog)) os ()) (\<lambda>_.
     case catalog of
       ForeignServerRelationId \<Rightarrow>
         andthen (exclusive os ''frozen_url'' ''dbname'') (\<lambda>_.
         andthen (exclusive os ''frozen_url'' ''metadata_schema'') (\<lambda>_.
         andthen (exclusive os ''frozen_url'' ''connection_string'') (\<lambda>_.
         andthen (exclusive os ''connection_string'' ''dbname'') (\<lambda>_.
         andthen (guard_or BadUpdatable (updatable_ok os)) (\<lambda>_.
           guard_or (MutuallyExclusive ''frozen_url'' ''updatable'')
             (\<not> (has_option os ''frozen_url'' \<and>
                 (case GetOptionValue os ''updatable'' of None \<Rightarrow> False | Some v \<Rightarrow> pg_strcasecmp v ''true'' = 0))))))))
     | ForeignTableRelationId \<Rightarrow> guard_or BadUpdatable (updatable_ok os)
     | OtherRelationId \<Rightarrow> Inr ())"

end
