(* ===== verification/Pg_Planner.thy ===== *)
theory Pg_Planner
  imports Direct_Insert_Exec Ducklake_Fdw
begin

text \<open>
  The DuckDB planner of \<^verbatim>\<open>libpgduckdb/pgddb_planner.cpp\<close>: a query becomes one \<^verbatim>\<open>CustomScan\<close> whose target list is what DuckDB
  says of the prepared query's result.

  The parameters are DuckDB's answer to \<^verbatim>\<open>Prepare\<close> (\<open>None\<close>: an error), the type hooks and the permission check of a view.
  The rows of \<^verbatim>\<open>pg_type\<close> in the system cache are state: the code writes to them.
\<close>

record type_row =
  typtypmod :: u32
  typcollation :: oid

type_synonym type_cache = "Oid \<Rightarrow> type_row option"

record plan_column =
  varattno :: nat
  vartype :: Oid
  vartypmod :: u32
  varcollid :: oid
  resname :: string

datatype scan_methods = DuckLakeDirectInsert | duckdb_scan_methods | OtherScan string

datatype plan =
    CustomScan (methods: scan_methods) (scan_private: "priv list") (custom_scan_tlist: "plan_column list") (custom_plans: "plan list")
      (lefttree: "plan option") (righttree: "plan option")
  | OtherPlan (lefttree: "plan option") (righttree: "plan option")

record duck_planner =
  Prepare :: "query \<Rightarrow> (LogicalType \<times> string) list option"
  planner_hooks :: "(LogicalType \<Rightarrow> Oid option) list"
  planner_array_hooks :: "(LogicalType \<Rightarrow> Oid option) list"
  is_view :: "rte \<Rightarrow> bool"
  view_permitted :: "query \<Rightarrow> rte \<Rightarrow> bool"
  TableAmGetName :: "oid \<Rightarrow> string option"

datatype plan_error = PrepareFailed | TypeLookupFailed Oid | TypeError conv_error | ViewDenied oid

text \<open>A relation that is neither a view nor of a registered access method.\<close>

definition ContainsPostgresTable :: "duck_planner \<Rightarrow> expr + query \<Rightarrow> bool" where
  "ContainsPostgresTable dp node = node_ex (\<lambda>_. False)
     (\<lambda>q. list_ex (\<lambda>r. relid (r_head r) \<noteq> InvalidOid \<and> \<not> is_view dp r \<and> TableAmGetName dp (relid (r_head r)) = None) (rtable q)) node"

definition plan_columns_step ::
  "duck_planner \<Rightarrow> bool \<Rightarrow> nat \<times> LogicalType \<times> string \<Rightarrow> type_cache \<times> plan_column list \<Rightarrow>
   (type_cache \<times> plan_error option) + (type_cache \<times> plan_column list)" where
  "plan_columns_step dp throw_error col st = (case (col, st) of ((i, t, name), (cache, cols)) \<Rightarrow>
     (case GetPostgresDuckDBType (planner_hooks dp) (planner_array_hooks dp) throw_error t of
        Inl e \<Rightarrow> Inl (cache, Some (TypeError e))
      | Inr oid \<Rightarrow>
          if oid = NoOid then Inl (cache, None)
          else case cache oid of
                 None \<Rightarrow> Inl (cache, if throw_error then Some (TypeLookupFailed oid) else None)
               | Some row \<Rightarrow>
                   let typmod = GetPostgresDuckDBTypemod t in
                   Inr (cache(oid \<mapsto> row\<lparr>typtypmod := typmod\<rparr>),
                        cols @ [\<lparr>varattno = i + 1, vartype = oid, vartypmod = typmod, varcollid = typcollation row, resname = name\<rparr>])))"

text \<open>\<open>Inr None\<close>: no plan, after a warning.\<close>

definition CreatePlan :: "duck_planner \<Rightarrow> query \<Rightarrow> bool \<Rightarrow> type_cache \<Rightarrow> type_cache \<times> (plan_error + plan option)" where
  "CreatePlan dp query throw_error cache =
     (case Prepare dp query of
        None \<Rightarrow> (cache, if throw_error then Inl PrepareFailed else Inr None)
      | Some cols \<Rightarrow>
          (case fold_err (plan_columns_step dp throw_error) (enumerate 0 cols) (cache, []) of
             Inl (cache', Some e) \<Rightarrow> (cache', Inl e)
           | Inl (cache', None) \<Rightarrow> (cache', Inr None)
           | Inr (cache', tlist) \<Rightarrow> (cache', Inr (Some (CustomScan duckdb_scan_methods [PQuery query] tlist [] None None)))))"

function check_view_perms_recursive :: "duck_planner \<Rightarrow> query \<Rightarrow> plan_error + unit" where
  "check_view_perms_recursive dp q =
     andthen (fold_err (\<lambda>r _. andthen (guard_or (ViewDenied (relid (r_head r))) (\<not> is_view dp r \<or> view_permitted dp q r)) (\<lambda>_.
                 case rte_subquery r of Some s \<Rightarrow> check_view_perms_recursive dp s | None \<Rightarrow> Inr ())) (rtable q) ()) (\<lambda>_.
       fold_err (\<lambda>s _. check_view_perms_recursive dp s) (cteList q) ())"
  by pat_completeness auto
termination
  by (relation "measure (size \<circ> snd)") (auto dest: size_rte_subquery size_cte)

declare check_view_perms_recursive.simps [simp del]

record duck_stmt =
  ds_commandType :: cmd_type
  ds_hasReturning :: bool
  ds_hasModifyingCTE :: bool
  ds_dependsOnRole :: bool
  planTree :: plan

definition materialize_finished_plan :: "plan \<Rightarrow> plan" where
  "materialize_finished_plan p = OtherPlan (Some p) None"

definition PlanNode :: "duck_planner \<Rightarrow> bool \<Rightarrow> bool \<Rightarrow> query \<Rightarrow> type_cache \<Rightarrow> type_cache \<times> (plan_error + duck_stmt option)" where
  "PlanNode dp scroll throw_error parse cache =
     (case check_view_perms_recursive dp parse of
        Inl e \<Rightarrow> (cache, Inl e)
      | Inr _ \<Rightarrow>
          (case CreatePlan dp parse throw_error cache of
             (cache', Inl e) \<Rightarrow> (cache', Inl e)
           | (cache', Inr None) \<Rightarrow> (cache', Inr None)
           | (cache', Inr (Some p)) \<Rightarrow>
               (cache', Inr (Some \<lparr>ds_commandType = commandType (q_head parse), ds_hasReturning = returningList (q_head parse),
                  ds_hasModifyingCTE = hasModifyingCTE (q_head parse), ds_dependsOnRole = False,
                  planTree = (if scroll then materialize_finished_plan p else p)\<rparr>))))"

section \<open>The plan of a query\<close>

lemma PlanNode_tree:
  assumes "PlanNode dp scroll throw parse cache = (cache', Inr (Some stmt))"
  obtains tlist where "planTree stmt = (let p = CustomScan duckdb_scan_methods [PQuery parse] tlist [] None None in
    if scroll then OtherPlan (Some p) None else p)"
  using assms by (auto simp: PlanNode_def CreatePlan_def materialize_finished_plan_def Let_def split: sum.splits option.splits prod.splits if_splits)

text \<open>Planning writes the modifier of a result column into the cached row of its type, where later lookups of the
  type find it.\<close>

lemma planning_changes_type_cache:
  assumes "Prepare dp q = Some [(DECIMAL 12 2, name)]" and "cache NUMERICOID = Some row"
  shows "fst (CreatePlan dp q True cache) NUMERICOID = Some (row\<lparr>typtypmod := make_numeric_typmod 12 2\<rparr>)"
  using assms by (simp add: CreatePlan_def plan_columns_step_def GetPostgresDuckDBType_def or_unsupported_def
      GetPostgresDuckDBTypemod_def Let_def)

end
