(* ===== verification/Hooks.thy ===== *)
theory Hooks
  imports Pg_Planner
begin

text \<open>
  The planner and executor hooks of \<^verbatim>\<open>hooks.cpp\<close>, with the look-up of DuckLake-only functions of \<^verbatim>\<open>functions.cpp\<close> and the
  cached object ids of \<^verbatim>\<open>ducklake_types.cpp\<close>. The planner hook checks an insert, tries the native writer, rewrites
  operators and \<^verbatim>\<open>regclass\<close> arguments, attaches foreign databases and sends to DuckDB what touches a DuckLake object; the
  executor hook repeats the check on a cached plan and replaces a native plan that may not run any more.

  The system catalogs are parameters. A statement that fails leaves the state as it was before the failing step;
  databases that were attached before the failure are not recorded.
\<close>

record hook_env =
  nsp_cached :: oid
  nsp_catalog :: oid
  pg_proc :: "oid \<Rightarrow> (oid \<times> string option) option"
  VariantOid :: oid
  LookupVariantFunc :: "string \<Rightarrow> oid \<Rightarrow> oid"
  variant_funcoids :: "oid list"
  text_overload :: "oid \<Rightarrow> oid list \<Rightarrow> oid"
  const_relid :: "string \<Rightarrow> oid"
  rel_schema_name :: "oid \<Rightarrow> string"
  rel_table_name :: "oid \<Rightarrow> string"

datatype hook_error = SafetyError di_error | NullTableArgument | NotDuckLakeTable oid | FdwError fdw_error | PlanError plan_error | NoFallbackPlan

section \<open>DuckLake-only functions\<close>

definition DucklakeNamespaceOid :: "hook_env \<Rightarrow> oid" where
  "DucklakeNamespaceOid env = (if OidIsValid (nsp_cached env) then nsp_cached env else nsp_catalog env)"

definition remember_namespace :: "hook_env \<Rightarrow> hook_env" where
  "remember_namespace env = env\<lparr>nsp_cached := DucklakeNamespaceOid env\<rparr>"

definition IsDucklakeOnlyFunction :: "hook_env \<Rightarrow> oid \<Rightarrow> bool" where
  "IsDucklakeOnlyFunction env funcid \<longleftrightarrow>
     OidIsValid (DucklakeNamespaceOid env) \<and>
     (case pg_proc env funcid of
        None \<Rightarrow> False
      | Some (pronamespace, prosrc) \<Rightarrow> pronamespace = DucklakeNamespaceOid env \<and> prosrc = Some ''ducklake_only_function'')"

section \<open>Variant operators\<close>

definition text_oid :: oid where "text_oid = 25"

definition int4_oid :: oid where "int4_oid = 23"

definition regclass_oid :: oid where "regclass_oid = 2205"

definition EnsureVariantFuncOids :: "hook_env \<Rightarrow> oid list" where
  "EnsureVariantFuncOids env =
     (if length (variant_funcoids env) = 4 \<and> list_all OidIsValid (variant_funcoids env) then variant_funcoids env
      else [LookupVariantFunc env ''pg_variant_extract_json'' text_oid, LookupVariantFunc env ''pg_variant_extract_json_idx'' int4_oid,
            LookupVariantFunc env ''pg_variant_extract'' text_oid, LookupVariantFunc env ''pg_variant_extract_idx'' int4_oid])"

fun is_variant_op :: "pg_catalog \<Rightarrow> hook_env \<Rightarrow> expr \<Rightarrow> bool" where
  "is_variant_op pc env (OpExpr f t [a1, a2]) \<longleftrightarrow> pc_exprType pc a1 = VariantOid env"
| "is_variant_op pc env _ \<longleftrightarrow> False"

definition HasVariantOpWalker :: "pg_catalog \<Rightarrow> hook_env \<Rightarrow> expr + query \<Rightarrow> bool" where
  "HasVariantOpWalker pc env node = node_ex (is_variant_op pc env) (\<lambda>_. False) node"

text \<open>The function that replaces an operator, and its result type.\<close>

definition variant_target :: "pg_catalog \<Rightarrow> hook_env \<Rightarrow> oid \<Rightarrow> expr \<Rightarrow> expr \<Rightarrow> (oid \<times> oid) option" where
  "variant_target pc env opresulttype a1 a2 =
     (if pc_exprType pc a1 \<noteq> VariantOid env then None
      else let is_arrow = (opresulttype = VariantOid env); is_text_arrow = (opresulttype = text_oid); t2 = pc_exprType pc a2 in
        if \<not> is_arrow \<and> \<not> is_text_arrow then None
        else if t2 \<noteq> text_oid \<and> t2 \<noteq> int4_oid then None
        else let target = EnsureVariantFuncOids env ! ((if is_arrow then 0 else 2) + (if t2 = int4_oid then 1 else 0)) in
          if \<not> OidIsValid target then None else Some (target, if is_arrow then VariantOid env else text_oid))"

function (sequential) RewriteVariantOpMutator :: "pg_catalog \<Rightarrow> hook_env \<Rightarrow> expr \<Rightarrow> 'e + expr"
  and rewrite_variant_query :: "pg_catalog \<Rightarrow> hook_env \<Rightarrow> query \<Rightarrow> 'e + query" where
  "RewriteVariantOpMutator pc env (OpExpr f t [a1, a2]) =
     (case variant_target pc env t a1 a2 of
        Some (target, result_type) \<Rightarrow>
          andthen (map_children (RewriteVariantOpMutator pc env) (rewrite_variant_query pc env) a1) (\<lambda>a1'.
          andthen (map_children (RewriteVariantOpMutator pc env) (rewrite_variant_query pc env) a2) (\<lambda>a2'.
            Inr (FuncExpr target False result_type [a1', a2'])))
      | None \<Rightarrow> map_children (RewriteVariantOpMutator pc env) (rewrite_variant_query pc env) (OpExpr f t [a1, a2]))"
| "RewriteVariantOpMutator pc env e = map_children (RewriteVariantOpMutator pc env) (rewrite_variant_query pc env) e"
| "rewrite_variant_query pc env q = map_query_nodes (RewriteVariantOpMutator pc env) (rewrite_variant_query pc env) q"
  by pat_completeness auto
termination
  by (relation "measure (case_sum (\<lambda>(pc, env, e). size e) (\<lambda>(pc, env, q). size q))")
    (auto dest: size_children size_sub_query size_query_exprs size_query_queries size_list_mem [of _ _ size])

declare RewriteVariantOpMutator.simps [simp del] rewrite_variant_query.simps [simp del]

definition RewriteVariantOperators :: "pg_catalog \<Rightarrow> hook_env \<Rightarrow> query \<Rightarrow> 'e + query" where
  "RewriteVariantOperators pc env parse =
     (if \<not> OidIsValid (VariantOid env) then Inr parse
      else if \<not> HasVariantOpWalker pc env (Inr parse) then Inr parse
      else map_query_nodes (RewriteVariantOpMutator pc env) (rewrite_variant_query pc env) parse)"

section \<open>Functions with a table argument\<close>

text \<open>\<open>text_overload\<close> is the function of the same name in the \<^verbatim>\<open>ducklake\<close> schema with the given argument types.\<close>

definition TryRewriteRegclassFunc :: "pg_catalog \<Rightarrow> hook_env \<Rightarrow> oid \<Rightarrow> expr list \<Rightarrow> hook_error + (oid \<times> expr \<times> expr) option" where
  "TryRewriteRegclassFunc pc env funcid args =
     (case args of
        Const consttype value # rest \<Rightarrow>
          if consttype \<noteq> regclass_oid then Inr None
          else if \<not> OidIsValid (DucklakeNamespaceOid env) then Inr None
          else if map_option fst (pg_proc env funcid) \<noteq> Some (DucklakeNamespaceOid env) then Inr None
          else let text_funcid = text_overload env funcid ([text_oid, text_oid] @ map (pc_exprType pc) rest) in
            if \<not> OidIsValid text_funcid then Inr None
            else (case value of
                    None \<Rightarrow> Inl NullTableArgument
                  | Some v \<Rightarrow>
                      let rel = const_relid env v in
                      if relam (pc_relation pc rel) \<noteq> pc_ducklake_am pc then Inl (NotDuckLakeTable rel)
                      else Inr (Some (text_funcid, Const text_oid (Some (rel_schema_name env rel)), Const text_oid (Some (rel_table_name env rel)))))
      | _ \<Rightarrow> Inr None)"

function (sequential) RewriteRegclassWalker :: "pg_catalog \<Rightarrow> hook_env \<Rightarrow> expr \<Rightarrow> hook_error + expr"
  and rewrite_regclass_query :: "pg_catalog \<Rightarrow> hook_env \<Rightarrow> query \<Rightarrow> hook_error + query" where
  "RewriteRegclassWalker pc env (FuncExpr funcid retset resulttype args) =
     andthen (TryRewriteRegclassFunc pc env funcid args) (\<lambda>r.
       case r of
         None \<Rightarrow> andthen (map_err (RewriteRegclassWalker pc env) args) (\<lambda>as. Inr (FuncExpr funcid retset resulttype as))
       | Some (text_funcid, schema_const, table_const) \<Rightarrow>
           andthen (map_err (RewriteRegclassWalker pc env) (tl args)) (\<lambda>as.
             Inr (FuncExpr text_funcid retset resulttype (schema_const # table_const # as))))"
| "RewriteRegclassWalker pc env e = map_children (RewriteRegclassWalker pc env) (rewrite_regclass_query pc env) e"
| "rewrite_regclass_query pc env q = map_query_nodes (RewriteRegclassWalker pc env) (rewrite_regclass_query pc env) q"
  by pat_completeness auto
termination
proof (relation "measure (case_sum (\<lambda>(pc, env, e). size e) (\<lambda>(pc, env, q). size q))")
  show "((Inl (pc, env, z)), Inl (pc, env, FuncExpr funcid retset resulttype args))
      \<in> measure (case_sum (\<lambda>(pc, env, e). size e) (\<lambda>(pc, env, q). size q))" if "z \<in> set (tl args)" for pc env z funcid retset resulttype args
    using size_children [of z "FuncExpr funcid retset resulttype args"] that by (cases args) auto
qed (auto dest: size_children size_sub_query size_query_exprs size_query_queries size_list_mem [of _ _ size])

declare RewriteRegclassWalker.simps [simp del] rewrite_regclass_query.simps [simp del]

definition RewriteRegclassFunctions :: "pg_catalog \<Rightarrow> hook_env \<Rightarrow> query \<Rightarrow> hook_error + query" where
  "RewriteRegclassFunctions pc env parse = map_query_nodes (RewriteRegclassWalker pc env) (rewrite_regclass_query pc env) parse"

section \<open>Routing\<close>

definition QueryReferencesRegisteredTableAm :: "duck_planner \<Rightarrow> query \<Rightarrow> bool" where
  "QueryReferencesRegisteredTableAm dp parse = node_ex (\<lambda>_. False)
     (\<lambda>q. list_ex (\<lambda>r. relid (r_head r) \<noteq> InvalidOid \<and> TableAmGetName dp (relid (r_head r)) \<noteq> None) (rtable q)) (Inr parse)"

fun is_ducklake_call :: "hook_env \<Rightarrow> expr \<Rightarrow> bool" where
  "is_ducklake_call env (FuncExpr funcid _ _ _) = IsDucklakeOnlyFunction env funcid"
| "is_ducklake_call env (Aggref aggfnoid _) = IsDucklakeOnlyFunction env aggfnoid"
| "is_ducklake_call env _ = False"

definition QueryReferencesDucklakeOnlyFunc :: "hook_env \<Rightarrow> query \<Rightarrow> bool" where
  "QueryReferencesDucklakeOnlyFunc env parse = node_ex (is_ducklake_call env) (\<lambda>_. False) (Inr parse)"

record hook_state =
  hs_session :: di_session
  hs_attached :: attached
  force_scan_transaction :: bool
  hs_types :: type_cache

datatype chosen_plan = DirectInsertPlan planned_stmt | DuckDBPlan duck_stmt | NullPlan | PostgresPlan query

text \<open>What a call of the hook depends on: the catalogs, the planner of DuckDB, the wrapper's catalog and DuckDB's answer
  to \<^verbatim>\<open>ATTACH\<close>, whether DuckDB runs in this process already and whether the cursor may scroll.\<close>

record hook_call =
  hc_env :: hook_env
  hc_planner :: duck_planner
  hc_fdw :: fdw_catalog
  hc_attach_ok :: "string \<Rightarrow> bool"
  hc_context :: di_context
  hc_initialized :: bool
  hc_scroll :: bool

definition rewritten :: "hook_call \<Rightarrow> query \<Rightarrow> hook_error + query" where
  "rewritten hc parse = andthen (RewriteVariantOperators (dc_catalog (hc_context hc)) (hc_env hc) parse)
     (RewriteRegclassFunctions (dc_catalog (hc_context hc)) (hc_env hc))"

text \<open>The hook from the rewrites on.\<close>

definition plan_rewritten :: "hook_call \<Rightarrow> query \<Rightarrow> hook_state \<Rightarrow> hook_state \<times> (hook_error + chosen_plan)" where
  "plan_rewritten hc parse st =
     (case (if hc_initialized hc then RegisterForeignTablesInQuery (hc_fdw hc) (hc_attach_ok hc) parse (hs_attached st)
            else Inr (hs_attached st)) of
        Inl e \<Rightarrow> (st, Inl (FdwError e))
      | Inr att \<Rightarrow>
          let refs_ducklake_only_func = QueryReferencesDucklakeOnlyFunc (hc_env hc) parse;
              st1 = st\<lparr>hs_attached := att, force_scan_transaction := refs_ducklake_only_func\<rparr>
          in if QueryReferencesRegisteredTableAm (hc_planner hc) parse \<or> refs_ducklake_only_func \<or>
                QueryReferencesDucklakeForeignTable (hc_fdw hc) parse
             then (case PlanNode (hc_planner hc) (hc_scroll hc) True parse (hs_types st1) of
                     (cache, Inl e) \<Rightarrow> (st1\<lparr>hs_types := cache\<rparr>, Inl (PlanError e))
                   | (cache, Inr None) \<Rightarrow> (st1\<lparr>hs_types := cache\<rparr>, Inr NullPlan)
                   | (cache, Inr (Some s)) \<Rightarrow> (st1\<lparr>hs_types := cache\<rparr>, Inr (DuckDBPlan s)))
             else (st1, Inr (PostgresPlan parse)))"

definition DucklakePlannerHook :: "hook_call \<Rightarrow> query \<Rightarrow> hook_state \<Rightarrow> hook_state \<times> (hook_error + chosen_plan)" where
  "DucklakePlannerHook hc parse st =
     (let dc = hc_context hc; pc = dc_catalog dc in
      case CheckDucklakeInsertSafety pc parse of
        Inl e \<Rightarrow> (st, Inl (SafetyError e))
      | Inr is_ducklake_insert \<Rightarrow>
          let (s, direct_insert_plan) = (if dc_enabled dc then TryCreateDirectInsertPlan dc parse (hs_session st) else (hs_session st, None));
              st1 = st\<lparr>hs_session := s\<rparr>
          in (case direct_insert_plan of
                Some p \<Rightarrow> (st1, Inr (DirectInsertPlan p))
              | None \<Rightarrow>
                  (case (if is_ducklake_insert then RejectParameterizedUnnestFallback pc parse else Inr ()) of
                     Inl e \<Rightarrow> (st1, Inl (SafetyError e))
                   | Inr _ \<Rightarrow>
                       (case rewritten hc parse of
                          Inl e \<Rightarrow> (st1, Inl e)
                        | Inr parse' \<Rightarrow> plan_rewritten hc parse' st1))))"

section \<open>The executor\<close>

definition direct_query :: "scan_methods \<Rightarrow> priv list \<Rightarrow> query option" where
  "direct_query m private =
     (if m = DuckLakeDirectInsert \<and> private \<noteq> [] then (case last private of PQuery q \<Rightarrow> Some q | _ \<Rightarrow> None) else None)"

definition duckdb_insert_query :: "scan_methods \<Rightarrow> priv list \<Rightarrow> query option" where
  "duckdb_insert_query m private =
     (if m = duckdb_scan_methods
      then (case private of PQuery q # _ \<Rightarrow> if commandType (q_head q) = CMD_INSERT then Some q else None | _ \<Rightarrow> None) else None)"

definition or_else :: "'a option \<Rightarrow> 'a option \<Rightarrow> 'a option" where
  "or_else x y = (case x of Some a \<Rightarrow> Some a | None \<Rightarrow> y)"

text \<open>The insert in a plan, and whether it is a native plan.\<close>

fun FindDucklakeInsertQuery :: "plan \<Rightarrow> (query \<times> bool) option"
  and find_in_custom_plans :: "plan list \<Rightarrow> (query \<times> bool) option" where
  "FindDucklakeInsertQuery (CustomScan m private tlist ps l r) =
     or_else (map_option (\<lambda>q. (q, True)) (direct_query m private))
    (or_else (map_option (\<lambda>q. (q, False)) (duckdb_insert_query m private))
    (or_else (find_in_custom_plans ps)
    (or_else (case l of None \<Rightarrow> None | Some p \<Rightarrow> FindDucklakeInsertQuery p) (case r of None \<Rightarrow> None | Some p \<Rightarrow> FindDucklakeInsertQuery p))))"
| "FindDucklakeInsertQuery (OtherPlan l r) =
     or_else (case l of None \<Rightarrow> None | Some p \<Rightarrow> FindDucklakeInsertQuery p) (case r of None \<Rightarrow> None | Some p \<Rightarrow> FindDucklakeInsertQuery p)"
| "find_in_custom_plans [] = None"
| "find_in_custom_plans (p # ps) = or_else (FindDucklakeInsertQuery p) (find_in_custom_plans ps)"

definition DucklakeExecutorStartHook ::
  "di_context \<Rightarrow> duck_planner \<Rightarrow> plan \<Rightarrow> type_cache \<Rightarrow> type_cache \<times> (hook_error + plan)" where
  "DucklakeExecutorStartHook dc dp p cache =
     (case FindDucklakeInsertQuery p of
        None \<Rightarrow> (cache, Inr p)
      | Some (query, is_native) \<Rightarrow>
          (case CheckDucklakeInsertSafety (dc_catalog dc) query of
             Inl e \<Rightarrow> (cache, Inl (SafetyError e))
           | Inr _ \<Rightarrow>
               if is_native \<and> (\<not> dc_enabled dc \<or> dc_transaction_block dc \<or> dc_xact_snapshot dc)
               then (case RejectParameterizedUnnestFallback (dc_catalog dc) query of
                       Inl e \<Rightarrow> (cache, Inl (SafetyError e))
                     | Inr _ \<Rightarrow>
                         (case PlanNode dp False True query cache of
                            (cache', Inl e) \<Rightarrow> (cache', Inl (PlanError e))
                          | (cache', Inr None) \<Rightarrow> (cache', Inl NoFallbackPlan)
                          | (cache', Inr (Some s)) \<Rightarrow> (cache', Inr (planTree s))))
               else (cache, Inr p)))"

text \<open>The plan that the executor gets.\<close>

fun plan_tree :: "chosen_plan \<Rightarrow> plan option" where
  "plan_tree (DirectInsertPlan s) = Some (CustomScan DuckLakeDirectInsert (custom_private s) [] [] None None)"
| "plan_tree (DuckDBPlan s) = Some (planTree s)"
| "plan_tree _ = None"

end
