(* ===== verification/Copy_From.thy ===== *)
theory Copy_From
  imports Direct_Insert_Exec
begin

text \<open>
  \<^verbatim>\<open>COPY FROM STDIN\<close> into an inline table, \<^verbatim>\<open>copy_from.cpp\<close>: the checks on the statement and the
  table, and the producer, which consumes the stream of tuples that PostgreSQL's \<^verbatim>\<open>NextCopyFrom\<close> parses.
\<close>

datatype copy_error =
    CopyPermissionDenied
  | CopyOnError
  | CopyFreeze
  | CopyInTransaction
  | CopyWhere
  | CopyUnsupportedTable
  | CopyReadOnly
  | CopyNeedsInlinedTable
  | CopyExec exec_error

record copy_stmt =
  copy_attnums :: "nat list"
  copy_options :: "(string \<times> bool) list"
  copy_where :: bool

text \<open>The session: the user's privileges on the table and its columns, and the kind of transaction.\<close>

record copy_session =
  cs_table_insert :: bool
  cs_column_insert :: "nat \<Rightarrow> bool"
  cs_transaction_block :: bool
  cs_xact_snapshot :: bool
  cs_read_only :: bool
  cs_local_temp :: bool

definition CheckCopyPermissions :: "copy_session \<Rightarrow> copy_stmt \<Rightarrow> copy_error + unit" where
  "CheckCopyPermissions s stmt =
     (if cs_table_insert s then Inr ()
      else check_all (\<lambda>a. guard_or CopyPermissionDenied (cs_column_insert s a)) (copy_attnums stmt))"

fun check_option :: "string \<times> bool \<Rightarrow> copy_error + unit" where
  "check_option (name, on) =
     andthen (guard_or CopyOnError (strcmp name ''on_error'' \<noteq> 0)) (\<lambda>_.
       guard_or CopyFreeze (\<not> (strcmp name ''freeze'' = 0 \<and> on)))"

definition copy_unsupported :: "pg_catalog \<Rightarrow> target_relation \<Rightarrow> bool" where
  "copy_unsupported pc rel \<longleftrightarrow>
     \<not> relkind_relation rel \<or> has_trigdesc rel \<or> has_rd_rules rel \<or> has_relrowsecurity rel \<or> has_not_null rel \<or>
     num_check rel > 0 \<or> constr_generated_stored rel \<or> (pc_pg18 pc \<and> constr_generated_virtual rel) \<or>
     list_ex (\<lambda>a. \<not> attisdropped a \<and> (attgenerated_set a \<or> attidentity_set a)) (tupdesc rel)"

definition CheckNativeCopySemantics :: "pg_catalog \<Rightarrow> copy_session \<Rightarrow> target_relation \<Rightarrow> copy_stmt \<Rightarrow> copy_error + unit" where
  "CheckNativeCopySemantics pc s rel stmt =
     andthen (CheckCopyPermissions s stmt) (\<lambda>_.
     andthen (check_all check_option (copy_options stmt)) (\<lambda>_.
     andthen (guard_or CopyInTransaction (\<not> (cs_transaction_block s \<or> cs_xact_snapshot s))) (\<lambda>_.
     andthen (guard_or CopyWhere (\<not> copy_where stmt)) (\<lambda>_.
       guard_or CopyUnsupportedTable (\<not> copy_unsupported pc rel)))))"

text \<open>The live columns of the user's table beside the columns of the inline table after the system
  columns: source type and whether the value is stored as text.\<close>

definition BuildColumnConvInfo :: "pg_attribute list \<Rightarrow> oid list \<Rightarrow> producer_column list" where
  "BuildColumnConvInfo user_attrs inl_types =
     map2 (\<lambda>a i. (atttypid a, needs_text_conv (atttypid a) i)) (filter (\<lambda>a. \<not> attisdropped a) user_attrs)
       (drop INLINED_SYSTEM_COLS inl_types)"

definition OpenInlinedDataTable :: "('ty, 'd) exec_env \<Rightarrow> u64 \<Rightarrow> u64 \<Rightarrow> exec_error + oid" where
  "OpenInlinedDataTable xe tbl ver =
     (let rel = cx_inline_oid (xe_writer xe) (uint tbl, uint ver) in
      if \<not> OidIsValid rel then Inl UndefinedInlinedTable else Inr rel)"

definition exec_result :: "exec_error + 'a \<Rightarrow> copy_error + 'a" where
  "exec_result r = map_sum CopyExec id r"

text \<open>The values of the live columns of a tuple of the stream.\<close>

definition live_cells :: "pg_attribute list \<Rightarrow> 'd cell list \<Rightarrow> 'd cell list" where
  "live_cells attrs row = map snd (filter (\<lambda>(a, _). \<not> attisdropped a) (zip attrs row))"

definition DucklakeCopyFromStdin ::
  "('ty, 'd) exec_env \<Rightarrow> inlining_catalog \<Rightarrow> copy_session \<Rightarrow> (oid \<Rightarrow> oid list) \<Rightarrow> oid \<Rightarrow> copy_stmt \<Rightarrow> 'd cell list list \<Rightarrow>
   'd stored list writer_state \<Rightarrow> (copy_error + 'd stored list writer_state \<times> u64) option" where
  "DucklakeCopyFromStdin xe ic s inlined_desc user_relid stmt stream w =
     (let pc = xe_catalog xe; rel = pc_relation pc user_relid; attrs = tupdesc rel;
          live = filter (\<lambda>a. \<not> attisdropped a) attrs
      in case andthen (guard_or CopyReadOnly (\<not> (cs_read_only s \<and> \<not> cs_local_temp s))) (\<lambda>_.
              andthen (CheckNativeCopySemantics pc s rel stmt) (\<lambda>_.
                case GetTableInliningInfo ic user_relid of
                  None \<Rightarrow> Inl CopyNeedsInlinedTable
                | Some (tbl, ver) \<Rightarrow>
                    andthen (exec_result (OpenInlinedDataTable xe tbl ver)) (\<lambda>inl.
                    andthen (exec_result (guard_or (ColumnCountMismatch (length live + INLINED_SYSTEM_COLS) (length (inlined_desc inl)))
                               (length (inlined_desc inl) = length live + INLINED_SYSTEM_COLS))) (\<lambda>_.
                    andthen (exec_result (open_col_stats xe tbl (map atttypid live) (ws_db w))) (\<lambda>col_stats.
                      Inr (tbl, ver, inl, col_stats)))))) of
           Inl e \<Rightarrow> Some (Inl e)
         | Inr (tbl, ver, inl, col_stats) \<Rightarrow>
             (case prepare_batch xe user_relid tbl ver NATIVE_WRITER_UNKNOWN_ROW_COUNT w of
                None \<Rightarrow> None
              | Some (Inl e) \<Rightarrow> Some (Inl (CopyExec e))
              | Some (Inr (w1, batch0)) \<Rightarrow>
                  (case BindNativeInlineWriteRelation (cx_pg18 (xe_writer xe)) (cx_relation (xe_writer xe) inl) batch0 of
                     Inl e \<Rightarrow> Some (Inl (CopyExec (WriterError e)))
                   | Inr batch \<Rightarrow>
                       let (w2, batch2) = run_prewrite xe inl MAX_BUFFERED_TUPLES (BuildColumnConvInfo attrs (inlined_desc inl)) True
                                            (map (live_cells attrs) stream) col_stats batch w1
                       in if rows_inserted batch2 > 0 then map_option exec_result (publish_batch xe batch2 w2)
                          else Some (Inr (w2, 0)))))"

end
