(* ===== verification/Native_Inline_Writer_Props.thy ===== *)
theory Native_Inline_Writer_Props
  imports Native_Inline_Writer
begin

text \<open>
  What a publication does to the metadata and to the inline heap: an attempt that does not publish
  leaves the database alone; one that publishes adds exactly one snapshot, one change record, the
  rows of the batch under consecutive fresh row ids, and their count. The other transactions are
  assumed to follow the same protocol: they change metadata only together with a new snapshot,
  numbered one above the largest.
\<close>

section \<open>A concrete batch\<close>

text \<open>Two rows were prewritten as snapshot 8 from row id 100; meanwhile another transaction has published
  snapshot 8 with rows 100 to 102.\<close>

definition demo_row :: "nat \<Rightarrow> u32 \<Rightarrow> int \<Rightarrow> int \<Rightarrow> string heap_row" where
  "demo_row k x i b = \<lparr>h_tid = (0, of_nat k), h_xmin = x, h_cmin = 0, h_row_id = Some i, h_begin = Some b,
     h_end = None, h_payload = ''payload''\<rparr>"

definition demo_rows :: "string heap_row list" where
  "demo_rows = [demo_row 1 70 100 8, demo_row 2 70 101 8, demo_row 3 70 102 8, demo_row 4 90 100 8, demo_row 5 90 101 8]"

definition demo_batch :: NativeInlineWriteBatch where
  "demo_batch = empty_batch\<lparr>inline_table_oid := 500, table_id := 1, schema_version := 0, start_snapshot_id := 7,
     batch_snapshot_id := 8, batch_row_id := 100, batch_owner_xid := 90, row_pointers := [(0, 4), (0, 5)],
     row_pointer_tracking_enabled := True, rows_inserted := 2\<rparr>"

definition demo_db :: "string lake_db" where
  "demo_db = \<lparr>db_metadata = [(''version'', Some ''1.0'')],
     db_snapshots = [\<lparr>sr_id = 7, sr_schema_version = Some 0, sr_next_catalog_id = Some 2, sr_next_file_id = Some 4\<rparr>,
                     \<lparr>sr_id = 8, sr_schema_version = Some 0, sr_next_catalog_id = Some 2, sr_next_file_id = Some 5\<rparr>],
     db_changes = [\<lparr>cr_snapshot = 8, cr_changes = Some ''inlined_insert:1''\<rparr>],
     db_tables = [\<lparr>tr_table = 1, tr_end = None\<rparr>], db_inlined = [\<lparr>ir_table = 1, ir_schema = Some 0\<rparr>],
     db_stats = [\<lparr>st_table = 1, st_record_count = Some 3, st_next_row_id = Some 103, st_file_size = 0\<rparr>],
     db_columns = [], db_colstats = [], db_heap = (\<lambda>_. [])(500 := demo_rows)\<rparr>"

definition demo_relation :: pg_relation where
  "demo_relation = \<lparr>rel_oid = 500, rel_is_table = True, rel_is_heap = True, rel_indexes = [], relhastriggers = False,
     rel_trigdesc = False, relhasrules = False, rel_rules = False, relrowsecurity = False, rel_num_check = None,
     has_generated_stored = False, has_generated_virtual = False, attgenerated = [False, False],
     rel_logically_logged = False\<rparr>"

definition demo_cx :: "(unit, string) writer_context" where
  "demo_cx = \<lparr>cx_inline_oid = (\<lambda>_. 500), cx_relation = (\<lambda>_. demo_relation), cx_pg18 = True,
     cx_parse = (\<lambda>_. Inr \<lparr>dropped_tables = {}, altered_tables = {}, tables_deleted_from = {}, tables_deleted_inlined = {}\<rparr>),
     cx_api = \<lparr>dl_FromString = (\<lambda>_. Inr ()), dl_FromGlobalStats = (\<lambda>_ _. Inl DlOther),
               dl_DefaultCastToString = (\<lambda>_. Inr), dl_MergeStats = (\<lambda>_ s _. Inr s)\<rparr>,
     cx_memory = \<lparr>malloc_ok = (\<lambda>_. True), context_alloc_ok = (\<lambda>_. True)\<rparr>,
     cx_stamp = \<lparr>stamp_tid = h_tid, stamp_xmin = 91, stamp_cmin = 1\<rparr>, cx_guc = guc_boot\<rparr>"

definition quiet_env :: "'p attempt_env" where
  "quiet_env = \<lparr>ae_before_read = id, ae_before_stats = id, ae_before_claim = id, ae_queue_validate = id,
     ae_queue_invalidate = id\<rparr>"

definition demo_state :: "string writer_state" where
  "demo_state = \<lparr>ws_db = demo_db, ws_stats = Some (\<lambda>_. 0), ws_queue = None, ws_local = no_local\<rparr>"

definition demo_after :: "string writer_state" where
  "demo_after = fst (publish_attempt demo_cx quiet_env demo_batch False demo_state)"

lemma demo_attempt_result: "snd (publish_attempt demo_cx quiet_env demo_batch False demo_state) = Inr True"
  by code_simp

lemma demo_attempt: "publish_attempt demo_cx quiet_env demo_batch False demo_state = (demo_after, Inr True)"
  using demo_attempt_result by (simp add: demo_after_def prod_eq_iff)

section \<open>Retagging\<close>

text \<open>What a reader sees of a tuple.\<close>

definition content :: "'p heap_row \<Rightarrow> int option \<times> int option \<times> int option \<times> 'p" where
  "content r = (h_row_id r, h_begin r, h_end r, h_payload r)"

text \<open>The content a retagged tuple should have.\<close>

definition retagged :: "NativeInlineWriteBatch \<Rightarrow> u64 \<Rightarrow> u64 \<Rightarrow> 'p heap_row \<Rightarrow> int option \<times> int option \<times> int option \<times> 'p" where
  "retagged batch fs fr r =
     (if own_row batch r
      then (map_option (\<lambda>i. i - uint (batch_row_id batch) + uint fr) (h_row_id r), Some (uint fs), h_end r, h_payload r)
      else content r)"

lemma retagged_other: "\<not> own_row batch r \<Longrightarrow> retagged batch fs fr r = content r"
  by (simp add: retagged_def)

text \<open>The ids of a batch fit a \<^verbatim>\<open>bigint\<close>, before and after retagging.\<close>

definition ids_fit :: "NativeInlineWriteBatch \<Rightarrow> u64 \<Rightarrow> u64 \<Rightarrow> bool" where
  "ids_fit batch fs fr \<longleftrightarrow> uint (batch_row_id batch) + uint (rows_inserted batch) < 2 ^ 63 \<and>
     uint fr + uint (rows_inserted batch) < 2 ^ 63 \<and> uint fs < 2 ^ 63"

lemma uint_add_small: "uint (a :: u64) + uint b < 2 ^ 64 \<Longrightarrow> uint (a + b) = uint a + uint b"
  by (simp add: uint_word_ariths)

lemma sint_small:
  assumes "uint (a :: u64) < 2 ^ 63"
  shows "sint a = uint a"
proof -
  have "- (2 ^ 63) \<le> (0 :: int)" by simp
  then have "- (2 ^ 63) \<le> uint a" using uint_ge_0 [of a] by (rule order_trans)
  then show ?thesis using signed_take_bit_int_eq_self [of 63 "uint a"] assms by (simp add: sint_uint)
qed

lemma ids_fit_base:
  assumes "ids_fit batch fs fr"
  shows "uint (batch_row_id batch) < 2 ^ 63" "uint fr < 2 ^ 63"
  using assms uint_ge_0 [of "rows_inserted batch"] unfolding ids_fit_def by linarith+

lemma own_row_cases:
  assumes "own_row batch r" "ids_fit batch fs fr"
  obtains i where "h_row_id r = Some i" "uint (batch_row_id batch) \<le> i"
    "i < uint (batch_row_id batch) + uint (rows_inserted batch)" "h_begin r = Some (uint (batch_snapshot_id batch))"
    "h_xmin r = batch_owner_xid batch" "h_cmin r = batch_owner_command_id batch"
proof -
  obtain i where i: "h_row_id r = Some i" using assms(1) by (auto simp: own_row_def split: option.splits)
  have "uint (batch_row_id batch + rows_inserted batch) = uint (batch_row_id batch) + uint (rows_inserted batch)"
    using assms(2) by (intro uint_add_small) (simp add: ids_fit_def)
  then show ?thesis using assms(1) i that by (simp add: own_row_def)
qed

lemma own_row_words:
  assumes own: "own_row batch r" and fit: "ids_fit batch fs fr" and i: "h_row_id r = Some i"
  shows "uint (word_of_int i - batch_row_id batch) = i - uint (batch_row_id batch)"
    and "sint (fr + word_of_int i - batch_row_id batch) = i - uint (batch_row_id batch) + uint fr"
proof -
  obtain k where k: "h_row_id r = Some k" "uint (batch_row_id batch) \<le> k"
    "k < uint (batch_row_id batch) + uint (rows_inserted batch)"
    by (rule own_row_cases [OF own fit]) blast
  have b: "uint (batch_row_id batch) \<le> i" "i < uint (batch_row_id batch) + uint (rows_inserted batch)" using i k by simp_all
  have ui: "uint (word_of_int i :: u64) = i"
    using b fit order_trans [OF uint_ge_0 b(1)] by (intro uint_of_bigint) (auto simp: bigint_def ids_fit_def)
  show d: "uint (word_of_int i - batch_row_id batch) = i - uint (batch_row_id batch)"
    using b ui by (metis uint_sub_lem)
  have "uint (fr + (word_of_int i - batch_row_id batch)) = uint fr + (i - uint (batch_row_id batch))"
    using d b(2) fit by (subst uint_add_small) (auto simp: ids_fit_def)
  then have "sint (fr + (word_of_int i - batch_row_id batch)) = uint fr + (i - uint (batch_row_id batch))"
    using b(2) fit by (subst sint_small) (auto simp: ids_fit_def)
  then show "sint (fr + word_of_int i - batch_row_id batch) = i - uint (batch_row_id batch) + uint fr"
    by (simp add: add_diff_eq)
qed

lemma own_row_identity_ok:
  assumes own: "own_row batch r" and fit: "ids_fit batch fs fr"
  shows "identity_ok batch r"
proof -
  obtain i where i: "h_row_id r = Some i" "uint (batch_row_id batch) \<le> i"
    "i < uint (batch_row_id batch) + uint (rows_inserted batch)" "h_begin r = Some (uint (batch_snapshot_id batch))"
    "h_xmin r = batch_owner_xid batch" "h_cmin r = batch_owner_command_id batch"
    by (rule own_row_cases [OF own fit])
  have ui: "uint (word_of_int i :: u64) = i"
    using i(2,3) fit order_trans [OF uint_ge_0 i(2)] by (intro uint_of_bigint) (auto simp: bigint_def ids_fit_def)
  have "\<not> (word_of_int i :: u64) < batch_row_id batch" using i(2) ui by (simp add: word_less_def)
  moreover have "\<not> rows_inserted batch \<le> word_of_int i - batch_row_id batch"
    using own_row_words(1) [OF own fit i(1)] i(3) by (simp add: word_le_def)
  ultimately show ?thesis using i by (simp add: identity_ok_def Let_def)
qed

lemma content_retag_tuple:
  assumes "own_row batch r" "ids_fit batch fs fr"
  shows "content (retag_tuple batch fs fr r) = retagged batch fs fr r"
proof -
  obtain i where i: "h_row_id r = Some i" by (rule own_row_cases [OF assms]) blast
  then show ?thesis
    using own_row_words(2) [OF assms i] assms sint_small [of fs]
    by (simp add: content_def retag_tuple_def retagged_def ids_fit_def)
qed

lemma content_update_tuple:
  assumes "own_row batch r" "ids_fit batch fs fr"
  shows "content (update_tuple stamp batch fs fr r) = retagged batch fs fr r"
proof -
  have "sint fr = uint fr" "sint (batch_row_id batch) = uint (batch_row_id batch)"
    using ids_fit_base [OF assms(2)] by (auto intro!: sint_small)
  then show ?thesis using assms(1)
    by (cases "h_row_id r") (simp_all add: content_def update_tuple_def retagged_def)
qed

text \<open>In place: with distinct addresses, and pointers to exactly the tuples of the batch.\<close>

lemma retag_tuple_tid [simp]: "h_tid (retag_tuple batch fs fr r) = h_tid r"
  by (simp add: retag_tuple_def)

lemma map_update_same: "f y = f (xs ! k) \<Longrightarrow> map f (xs[k := y]) = map f xs"
  by (rule nth_equalityI) (auto simp: nth_update_in)

lemma retag_pointers_ok:
  assumes "distinct (map h_tid rows)" "distinct ps" "ids_fit batch fs fr"
    "\<forall>p \<in> set ps. \<exists>r \<in> set rows. h_tid r = p \<and> own_row batch r"
  shows "retag_pointers batch fs fr ps rows =
    Inr (map (\<lambda>r. if h_tid r \<in> set ps then retag_tuple batch fs fr r else r) rows)"
  using assms(1,2,4)
proof (induction ps arbitrary: rows)
  case (Cons p ps)
  obtain r where r: "r \<in> set rows" "h_tid r = p" "own_row batch r" using Cons.prems(3) by auto
  obtain k where k: "find_index (\<lambda>k. h_tid (rows ! k) = p) (length rows) = Some k"
    using r(1,2) by (cases "find_index (\<lambda>k. h_tid (rows ! k) = p) (length rows)") (auto simp: find_index_None in_set_conv_nth)
  have K: "k < length rows" "h_tid (rows ! k) = p" using find_index_Some [OF k] by simp_all
  have u: "j = k" if "j < length rows" "h_tid (rows ! j) = p" for j
    using Cons.prems(1) K that by (auto simp: distinct_conv_nth)
  have rk: "rows ! k = r" using r(1,2) u by (auto simp: in_set_conv_nth)
  let ?rows = "rows[k := retag_tuple batch fs fr r]"
  have tids: "map h_tid ?rows = map h_tid rows" using rk by (intro map_update_same) simp
  have "\<exists>x \<in> set ?rows. h_tid x = q \<and> own_row batch x" if q: "q \<in> set ps" for q
  proof -
    obtain x where x: "x \<in> set rows" "h_tid x = q" "own_row batch x" using Cons.prems(3) q by auto
    then obtain j where j: "j < length rows" "rows ! j = x" by (auto simp: in_set_conv_nth)
    have "j \<noteq> k" using Cons.prems(2) q x(2) j K by auto
    then have "?rows ! j = x" using j by simp
    then have "x \<in> set ?rows" using j(1) by (metis length_list_update nth_mem)
    then show ?thesis using x by blast
  qed
  then have own: "\<forall>q \<in> set ps. \<exists>x \<in> set ?rows. h_tid x = q \<and> own_row batch x" by blast
  have IH: "retag_pointers batch fs fr ps ?rows =
      Inr (map (\<lambda>r. if h_tid r \<in> set ps then retag_tuple batch fs fr r else r) ?rows)"
    by (rule Cons.IH [OF _ _ own]) (use Cons.prems(2) in \<open>simp_all only: tids Cons.prems(1) distinct.simps\<close>)
  have "map (\<lambda>r. if h_tid r \<in> set ps then retag_tuple batch fs fr r else r) ?rows =
      map (\<lambda>r. if h_tid r \<in> set (p # ps) then retag_tuple batch fs fr r else r) rows"
  proof (rule nth_equalityI)
    fix j assume "j < length (map (\<lambda>r. if h_tid r \<in> set ps then retag_tuple batch fs fr r else r) ?rows)"
    then have j: "j < length rows" by simp
    show "map (\<lambda>r. if h_tid r \<in> set ps then retag_tuple batch fs fr r else r) ?rows ! j =
        map (\<lambda>r. if h_tid r \<in> set (p # ps) then retag_tuple batch fs fr r else r) rows ! j"
      using j K rk u [OF j] Cons.prems(2) by (cases "j = k") auto
  qed simp
  then show ?case using k IH own_row_identity_ok [OF r(3) assms(3)] rk by simp
qed simp

text \<open>The batch knows its own tuples: as many as it inserted, at distinct addresses, and, where
  pointers are tracked, the pointers name them.\<close>

definition batch_rows_ok :: "NativeInlineWriteBatch \<Rightarrow> 'p heap_row list \<Rightarrow> bool" where
  "batch_rows_ok batch rows \<longleftrightarrow> distinct (map h_tid rows) \<and>
     int (length (filter (own_row batch) rows)) = uint (rows_inserted batch) \<and>
     (row_pointer_tracking_enabled batch \<and> of_nat (length (row_pointers batch)) = rows_inserted batch \<longrightarrow>
        distinct (row_pointers batch) \<and> set (row_pointers batch) = h_tid ` {r \<in> set rows. own_row batch r})"

lemma of_nat_eq_uint: "int n = uint (w :: u64) \<Longrightarrow> of_nat n = w"
  by (metis of_int_of_nat_eq word_of_int_uint)

lemma inplace_content:
  assumes ok: "batch_rows_ok batch rows" and fit: "ids_fit batch fs fr"
    and tr: "row_pointer_tracking_enabled batch" "of_nat (length (row_pointers batch)) = rows_inserted batch"
  obtains rows' where "RetagPrewrittenRowsInplace batch fs fr rows = Inr rows'" "map content rows' = map (retagged batch fs fr) rows"
proof -
  let ?f = "\<lambda>r. if h_tid r \<in> set (row_pointers batch) then retag_tuple batch fs fr r else r"
  have d: "distinct (map h_tid rows)" "distinct (row_pointers batch)"
    and s: "set (row_pointers batch) = h_tid ` {r \<in> set rows. own_row batch r}"
    using ok tr by (simp_all add: batch_rows_ok_def)
  have iff: "h_tid r \<in> set (row_pointers batch) \<longleftrightarrow> own_row batch r" if "r \<in> set rows" for r
    using d(1) s that by (auto simp: distinct_map inj_on_def)
  have "RetagPrewrittenRowsInplace batch fs fr rows = Inr (map ?f rows)"
    unfolding RetagPrewrittenRowsInplace_def using s by (intro retag_pointers_ok [OF d fit]) auto
  moreover have "map content (map ?f rows) = map (retagged batch fs fr) rows"
    using iff by (simp add: content_retag_tuple [OF _ fit] retagged_other)
  ultimately show ?thesis using that by blast
qed

lemma update_content:
  assumes ok: "batch_rows_ok batch rows" and fit: "ids_fit batch fs fr"
  obtains rows' where "retag_by_update stamp batch fs fr rows = Inr rows'" "map content rows' = map (retagged batch fs fr) rows"
proof -
  have "of_nat (length (filter (own_row batch) rows)) = rows_inserted batch"
    using ok by (intro of_nat_eq_uint) (simp add: batch_rows_ok_def)
  moreover have "map content (map (\<lambda>r. if own_row batch r then update_tuple stamp batch fs fr r else r) rows) =
      map (retagged batch fs fr) rows"
    by (simp add: content_update_tuple [OF _ fit] retagged_other)
  ultimately show ?thesis using that by (simp add: retag_by_update_def)
qed

text \<open>C21: the two ways to retag agree. For a batch whose row pointers name its tuples, the in-place
  update of the tuples at the pointers and the \<^verbatim>\<open>UPDATE\<close> by predicate both succeed and give every
  tuple of the heap the same visible content: the batch's tuples are shifted to the final ids, all
  others are unchanged.\<close>

theorem retag_paths_agree:
  assumes "batch_rows_ok batch rows" "ids_fit batch fs fr" "row_pointer_tracking_enabled batch"
    "of_nat (length (row_pointers batch)) = rows_inserted batch"
  shows "\<exists>a b. RetagPrewrittenRowsInplace batch fs fr rows = Inr a \<and> retag_by_update stamp batch fs fr rows = Inr b \<and>
    map content a = map (retagged batch fs fr) rows \<and> map content b = map (retagged batch fs fr) rows"
proof -
  obtain a where "RetagPrewrittenRowsInplace batch fs fr rows = Inr a" "map content a = map (retagged batch fs fr) rows"
    by (rule inplace_content [OF assms])
  moreover obtain b where "retag_by_update stamp batch fs fr rows = Inr b" "map content b = map (retagged batch fs fr) rows"
    by (rule update_content [OF assms(1,2)])
  ultimately show ?thesis by blast
qed

lemma demo_batch_rows_ok: "batch_rows_ok demo_batch demo_rows"
  by code_simp

lemma demo_ids_fit: "ids_fit demo_batch 9 103"
  by (simp add: ids_fit_def demo_batch_def)

theorem retag_paths_agree_witness:
  "\<exists>a b. RetagPrewrittenRowsInplace demo_batch 9 103 demo_rows = Inr a \<and>
    retag_by_update (cx_stamp demo_cx) demo_batch 9 103 demo_rows = Inr b \<and> map content a = map content b"
  using retag_paths_agree [OF demo_batch_rows_ok demo_ids_fit, of "cx_stamp demo_cx"]
  by (auto simp: demo_batch_def)

section \<open>The effect of an attempt\<close>

definition table_stats_of :: "int \<Rightarrow> 'p lake_db \<Rightarrow> (int option \<times> int option) list" where
  "table_stats_of t db = map (\<lambda>r. (st_record_count r, st_next_row_id r)) (filter (\<lambda>r. st_table r = t) (db_stats db))"

text \<open>What one publication of \<open>batch\<close> as snapshot \<open>fs\<close> with first row id \<open>fr\<close> means for the
  database: the specification of an attempt that claims its snapshot.\<close>

definition publishes :: "NativeInlineWriteBatch \<Rightarrow> PublicationState \<Rightarrow> u64 \<Rightarrow> u64 \<Rightarrow> 'p lake_db \<Rightarrow> 'p lake_db \<Rightarrow> bool" where
  "publishes batch state fs fr db db' \<longleftrightarrow>
     (let tid = uint (table_id batch); n = rows_inserted batch; rel = inline_table_oid batch in
      uint fs \<notin> sr_id ` set (db_snapshots db) \<and>
      map sr_id (db_snapshots db') = map sr_id (db_snapshots db) @ [uint fs] \<and>
      db_changes db' = db_changes db @ [\<lparr>cr_snapshot = uint fs, cr_changes = Some (change_text (table_id batch))\<rparr>] \<and>
      db_metadata db' = db_metadata db \<and> db_tables db' = db_tables db \<and> db_inlined db' = db_inlined db \<and>
      db_columns db' = db_columns db \<and>
      (\<forall>t. table_stats_of t db' =
         (if t \<noteq> tid then table_stats_of t db
          else if has_table_stats state then [(Some (uint (ps_record_count state + n)), Some (uint (fr + n)))]
          else table_stats_of t db @ [(Some (uint n), Some (uint (fr + n)))])) \<and>
      (\<forall>r. r \<noteq> rel \<longrightarrow> db_heap db' r = db_heap db r) \<and>
      map content (db_heap db' rel) = map (retagged batch fs fr) (db_heap db rel))"

lemma retagged_same:
  assumes "\<not> needs_retag batch fs fr"
  shows "retagged batch fs fr r = content r"
proof -
  have "fs = batch_snapshot_id batch" "fr = batch_row_id batch" using assms by (simp_all add: needs_retag_def)
  then show ?thesis
    by (cases "h_row_id r") (auto simp: retagged_def content_def own_row_def)
qed

lemma RetagPrewrittenRows_ok:
  assumes "RetagPrewrittenRows cx batch fs fr db = Inr db'" "batch_rows_ok batch (db_heap db (inline_table_oid batch))"
    "ids_fit batch fs fr"
  obtains rows' where "db' = db\<lparr>db_heap := (db_heap db)(inline_table_oid batch := rows')\<rparr>"
    "map content rows' = map (retagged batch fs fr) (db_heap db (inline_table_oid batch))"
proof -
  let ?rows = "db_heap db (inline_table_oid batch)"
  obtain u where u: "retag_by_update (cx_stamp cx) batch fs fr ?rows = Inr u" "map content u = map (retagged batch fs fr) ?rows"
    by (rule update_content [OF assms(2,3)])
  show ?thesis
  proof (cases "row_pointer_tracking_enabled batch \<and> of_nat (length (row_pointers batch)) = rows_inserted batch \<and>
      RelationSupportsInplaceRetag (cx_pg18 cx) (cx_relation cx (inline_table_oid batch))")
    case True
    obtain v where v: "RetagPrewrittenRowsInplace batch fs fr ?rows = Inr v" "map content v = map (retagged batch fs fr) ?rows"
      by (rule inplace_content [OF assms(2,3)]) (use True in blast)+
    then have "db' = db\<lparr>db_heap := (db_heap db)(inline_table_oid batch := v)\<rparr>"
      using True assms(1) by (simp add: RetagPrewrittenRows_def Let_def split: if_splits)
    then show ?thesis using that v(2) by blast
  next
    case False
    then have "db' = db\<lparr>db_heap := (db_heap db)(inline_table_oid batch := u)\<rparr>"
      using assms(1) u(1) unfolding RetagPrewrittenRows_def Let_def if_not_P [OF False] by (simp split: if_splits)
    then show ?thesis using that u(2) by blast
  qed
qed

lemma filter_map_if:
  "filter (\<lambda>r. st_table r = t) (map (\<lambda>r. if st_table r = tid then f r else r) xs) =
     map (\<lambda>r. if st_table r = tid then f r else r) (filter (\<lambda>r. st_table r = t) xs)" if "\<And>r. st_table (f r) = st_table r"
  using that by (induction xs) auto

lemma write_table_stats_ok:
  assumes "write_table_stats g batch state fr db = Inr db'"
  shows "db' = db\<lparr>db_stats := db_stats db', db_colstats := db_colstats db'\<rparr>"
    and "table_stats_of t db' =
         (if t \<noteq> uint (table_id batch) then table_stats_of t db
          else if has_table_stats state
          then [(Some (uint (ps_record_count state + rows_inserted batch)), Some (uint (fr + rows_inserted batch)))]
          else table_stats_of t db @ [(Some (uint (rows_inserted batch)), Some (uint (fr + rows_inserted batch)))])"
proof -
  show "db' = db\<lparr>db_stats := db_stats db', db_colstats := db_colstats db'\<rparr>"
    using assms by (cases db) (auto simp: write_table_stats_def Let_def andthen_Inr_iff split: if_splits)
  let ?f = "\<lambda>r. r\<lparr>st_record_count := Some (uint (ps_record_count state + rows_inserted batch)),
      st_next_row_id := Some (uint (fr + rows_inserted batch))\<rparr>"
  note F = filter_map_if [where f = ?f]
  show "table_stats_of t db' = (if t \<noteq> uint (table_id batch) then table_stats_of t db
          else if has_table_stats state
          then [(Some (uint (ps_record_count state + rows_inserted batch)), Some (uint (fr + rows_inserted batch)))]
          else table_stats_of t db @ [(Some (uint (rows_inserted batch)), Some (uint (fr + rows_inserted batch)))])"
  proof (cases "has_table_stats state")
    case True
    then have one: "length (filter (\<lambda>r. st_table r = uint (table_id batch)) (db_stats db)) = 1"
      and s: "db_stats db' = map (\<lambda>r. if st_table r = uint (table_id batch) then ?f r else r) (db_stats db)"
      using assms by (auto simp: write_table_stats_def Let_def andthen_Inr_iff split: if_splits)
    obtain x where x: "filter (\<lambda>r. st_table r = uint (table_id batch)) (db_stats db) = [x]"
      using one by (cases "filter (\<lambda>r. st_table r = uint (table_id batch)) (db_stats db)") auto
    then have "st_table x = uint (table_id batch)" by (metis (mono_tags, lifting) list.set_intros(1) mem_Collect_eq set_filter)
    then show ?thesis
      using True x by (auto simp: table_stats_of_def s F o_def intro!: map_cong)
  next
    case False
    then show ?thesis
      using assms by (auto simp: write_table_stats_def Let_def andthen_Inr_iff table_stats_of_def)
  qed
qed

lemma write_metadata_ok:
  assumes "write_metadata g batch state merged fs fr db = Inr db'"
  shows "db_snapshots db' = db_snapshots db" "db_heap db' = db_heap db" "db_metadata db' = db_metadata db"
    "db_tables db' = db_tables db" "db_inlined db' = db_inlined db" "db_columns db' = db_columns db"
    "db_changes db' = db_changes db @ [\<lparr>cr_snapshot = uint fs, cr_changes = Some (change_text (table_id batch))\<rparr>]"
    "table_stats_of t db' =
         (if t \<noteq> uint (table_id batch) then table_stats_of t db
          else if has_table_stats state
          then [(Some (uint (ps_record_count state + rows_inserted batch)), Some (uint (fr + rows_inserted batch)))]
          else table_stats_of t db @ [(Some (uint (rows_inserted batch)), Some (uint (fr + rows_inserted batch)))])"
proof -
  obtain db1 cs where w: "write_table_stats g batch state fr db = Inr db1"
    and db': "db' = db1\<lparr>db_colstats := cs, db_changes := db_changes db1 @
      [\<lparr>cr_snapshot = uint fs, cr_changes = Some (change_text (table_id batch))\<rparr>]\<rparr>"
    using assms by (auto simp: write_metadata_def andthen_Inr_iff)
  note W = write_table_stats_ok [OF w]
  show "db_snapshots db' = db_snapshots db" "db_heap db' = db_heap db" "db_metadata db' = db_metadata db"
    "db_tables db' = db_tables db" "db_inlined db' = db_inlined db" "db_columns db' = db_columns db"
    "db_changes db' = db_changes db @ [\<lparr>cr_snapshot = uint fs, cr_changes = Some (change_text (table_id batch))\<rparr>]"
    using db' by (simp, subst W(1), simp)+
  have "table_stats_of t db' = table_stats_of t db1" using db' by (simp add: table_stats_of_def)
  then show "table_stats_of t db' =
         (if t \<noteq> uint (table_id batch) then table_stats_of t db
          else if has_table_stats state
          then [(Some (uint (ps_record_count state + rows_inserted batch)), Some (uint (fr + rows_inserted batch)))]
          else table_stats_of t db @ [(Some (uint (rows_inserted batch)), Some (uint (fr + rows_inserted batch)))])"
    using W(2) by simp
qed

lemma claim_snapshot_Some:
  assumes "claim_snapshot state fs db = Some db1"
  shows "uint fs \<notin> sr_id ` set (db_snapshots db)" "map sr_id (db_snapshots db1) = map sr_id (db_snapshots db) @ [uint fs]"
    "db1 = db\<lparr>db_snapshots := db_snapshots db1\<rparr>" "db_heap db1 = db_heap db" "table_stats_of t db1 = table_stats_of t db"
    "db_metadata db1 = db_metadata db" "db_tables db1 = db_tables db" "db_inlined db1 = db_inlined db"
    "db_columns db1 = db_columns db" "db_changes db1 = db_changes db"
  using assms by (auto simp: claim_snapshot_def table_stats_of_def list_ex_iff split: if_splits)

lemma attempt_publishes:
  assumes r: "RunPublicationAttempt cx batch state merged fs fr (db, c) = ((db', c'), Inr True)"
    and ok: "batch_rows_ok batch (db_heap db (inline_table_oid batch))" and fit: "ids_fit batch fs fr"
  shows "publishes batch state fs fr db db'"
proof -
  let ?rel = "inline_table_oid batch"
  obtain db1 db2 where c: "claim_snapshot state fs db = Some db1"
    and t: "(if needs_retag batch fs fr then RetagPrewrittenRows cx batch fs fr db1 else Inr db1) = Inr db2"
    and w: "write_metadata (cx_guc cx) batch state merged fs fr db2 = Inr db'"
    using r by (auto simp: RunPublicationAttempt_def Let_def andthen_Inr_iff split: option.splits sum.splits)
  note C = claim_snapshot_Some [OF c] and W = write_metadata_ok [OF w]
  obtain rows' where rows: "db2 = db1\<lparr>db_heap := (db_heap db1)(?rel := rows')\<rparr>"
    "map content rows' = map (retagged batch fs fr) (db_heap db ?rel)"
  proof (cases "needs_retag batch fs fr")
    case True
    then have "RetagPrewrittenRows cx batch fs fr db1 = Inr db2" using t by simp
    moreover have "batch_rows_ok batch (db_heap db1 ?rel)" using ok C(4) by simp
    ultimately obtain rows' where "db2 = db1\<lparr>db_heap := (db_heap db1)(?rel := rows')\<rparr>"
      "map content rows' = map (retagged batch fs fr) (db_heap db1 ?rel)"
      by (rule RetagPrewrittenRows_ok [OF _ _ fit])
    then show ?thesis using that C(4) by simp
  next
    case False
    then have "db2 = db1\<lparr>db_heap := (db_heap db1)(?rel := db_heap db ?rel)\<rparr>" using t C(4) by simp
    moreover have "map content (db_heap db ?rel) = map (retagged batch fs fr) (db_heap db ?rel)"
      by (simp add: retagged_same [OF False])
    ultimately show ?thesis by (rule that)
  qed
  have s: "table_stats_of t db2 = table_stats_of t db" for t
    using C(5) rows(1) by (simp add: table_stats_of_def)
  show ?thesis
    unfolding publishes_def Let_def W(1-8) s using C rows by simp
qed


lemma demo_heap: "db_heap demo_db 500 = demo_rows" "inline_table_oid demo_batch = 500"
  by (simp_all add: demo_db_def demo_batch_def)


section \<open>Concurrent publications\<close>

text \<open>The values that a \<^verbatim>\<open>bigint\<close> column can hold.\<close>

definition db_bigint :: "'p lake_db \<Rightarrow> bool" where
  "db_bigint db \<longleftrightarrow> (\<forall>s \<in> set (db_snapshots db). bigint (sr_id s)) \<and>
     (\<forall>t \<in> set (db_stats db). (\<forall>n. st_record_count t = Some n \<longrightarrow> bigint n) \<and> (\<forall>n. st_next_row_id t = Some n \<longrightarrow> bigint n))"

lemma ReadPublicationState_Inr:
  assumes r: "ReadPublicationState inline_oid batch after db = Inr state" and b: "db_bigint db"
  shows "max_snapshot db = Some (uint (ps_snapshot_id state))"
    and "uint (ps_snapshot_id state) < 2 ^ 63"
    and "has_table_stats state \<Longrightarrow> \<exists>rest. table_stats_of (uint (table_id batch)) db =
           (Some (uint (ps_record_count state)), Some (uint (ps_next_row_id state))) # rest"
    and "\<not> has_table_stats state \<Longrightarrow> table_stats_of (uint (table_id batch)) db = [] \<and> ps_record_count state = 0"
    and "change_row_count state = of_nat (length (changes_since after db))"
    and "nonnull_change_count state = of_nat (length (somes (map cr_changes (changes_since after db))))"
    and "changes_made state = string_agg (changes_since after db)"
proof -
  let ?tid = "uint (table_id batch)"
  obtain s rest where f: "filter (\<lambda>r. max_snapshot db = Some (sr_id r)) (db_snapshots db) = s # rest"
    using r by (auto simp: ReadPublicationState_def Let_def split: list.splits)
  then have s: "s \<in> set (db_snapshots db)" "max_snapshot db = Some (sr_id s)"
    by (metis (mono_tags, lifting) list.set_intros(1) mem_Collect_eq set_filter)+
  have sid: "GetRequiredProtocolUInt64 (Some (sr_id s)) ''snapshot_id'' = Inr (ps_snapshot_id state)"
    using r f by (auto simp: ReadPublicationState_def Let_def andthen_Inr_iff PublicationState.defs
        split: list.splits if_splits)
  note S = GetRequired_Inr [OF sid]
  show "max_snapshot db = Some (uint (ps_snapshot_id state))" using S(1) s b by (simp add: db_bigint_def)
  show "uint (ps_snapshot_id state) < 2 ^ 63" using S(2) s b by (simp add: db_bigint_def)
  show "change_row_count state = of_nat (length (changes_since after db))"
    "nonnull_change_count state = of_nat (length (somes (map cr_changes (changes_since after db))))"
    "changes_made state = string_agg (changes_since after db)"
    using r f by (auto simp: ReadPublicationState_def Let_def andthen_Inr_iff PublicationState.defs
        split: list.splits if_splits)
  show "\<not> has_table_stats state \<Longrightarrow> table_stats_of ?tid db = [] \<and> ps_record_count state = 0"
    using r f by (auto simp: ReadPublicationState_def Let_def andthen_Inr_iff PublicationState.defs table_stats_of_def
        split: list.splits if_splits)
  assume h: "has_table_stats state"
  then obtain ts tr where ts: "filter (\<lambda>r. st_table r = ?tid) (db_stats db) = ts # tr"
    and g: "GetRequiredProtocolUInt64 (st_record_count ts) ''record_count'' = Inr (ps_record_count state)"
      "GetRequiredProtocolUInt64 (st_next_row_id ts) ''next_row_id'' = Inr (ps_next_row_id state)"
    using r f by (auto simp: ReadPublicationState_def Let_def andthen_Inr_iff PublicationState.defs
        split: list.splits if_splits)
  have "ts \<in> set (db_stats db)" using ts by (metis (mono_tags, lifting) list.set_intros(1) mem_Collect_eq set_filter)
  then have "st_record_count ts = Some (uint (ps_record_count state))" "st_next_row_id ts = Some (uint (ps_next_row_id state))"
    using GetRequired_Inr(1) [OF g(1)] GetRequired_Inr(1) [OF g(2)] b by (auto simp: db_bigint_def)
  then show "\<exists>rest. table_stats_of ?tid db = (Some (uint (ps_record_count state)), Some (uint (ps_next_row_id state))) # rest"
    using ts by (simp add: table_stats_of_def)
qed

text \<open>The protocol of the other transactions: whatever changes the metadata, or the inline rows that
  others can see, commits the snapshot after the largest one; nobody removes the snapshots.\<close>

definition follows_protocol :: "('p lake_db \<Rightarrow> 'p lake_db) \<Rightarrow> bool" where
  "follows_protocol f \<longleftrightarrow> (\<forall>db m. max_snapshot db = Some m \<longrightarrow>
     (f db = db \<or> m + 1 \<in> sr_id ` set (db_snapshots (f db))) \<and>
     sr_id ` set (db_snapshots db) \<subseteq> sr_id ` set (db_snapshots (f db)))"

lemma claim_means_untouched:
  assumes "follows_protocol f" "follows_protocol h" "max_snapshot db = Some m"
    and free: "m + 1 \<notin> sr_id ` set (db_snapshots (h (f db)))"
  shows "f db = db" "h (f db) = db"
proof -
  have f: "f db = db \<or> m + 1 \<in> sr_id ` set (db_snapshots (f db))" using assms(1,3) by (simp add: follows_protocol_def)
  show "f db = db"
  proof (rule ccontr)
    assume n: "f db \<noteq> db"
    then have in_f: "m + 1 \<in> sr_id ` set (db_snapshots (f db))" using f by simp
    then obtain k where "max_snapshot (f db) = Some k"
      by (cases "max_snapshot (f db)") (auto simp: max_snapshot_def sql_max_None)
    then have "sr_id ` set (db_snapshots (f db)) \<subseteq> sr_id ` set (db_snapshots (h (f db)))"
      using assms(2) by (simp add: follows_protocol_def)
    then show False using in_f free by blast
  qed
  then show "h (f db) = db" using assms(2,3) free by (auto simp: follows_protocol_def)
qed

lemma uint_Suc_small: "uint (a :: u64) < 2 ^ 63 \<Longrightarrow> uint (a + 1) = uint a + 1"
  by (simp add: uint_word_ariths)

lemma publish_attempt_True:
  assumes "publish_attempt cx env batch rv st = (st', Inr True)"
  obtains state merged c c' where
    "ReadPublicationState (cx_inline_oid cx) batch (start_snapshot_id batch) (ae_before_read env (ws_db st)) = Inr state"
    "check_state cx batch state = Inr ()"
    "RunPublicationAttempt cx batch state merged (ps_snapshot_id state + 1) (ps_next_row_id state)
       (ae_before_claim env (ae_before_stats env (ae_before_read env (ws_db st))), c) = ((ws_db st', c'), Inr True)"
  using assms that
  by (auto simp: publish_attempt_def Let_def andthen_Inr_iff split: sum.splits prod.splits bool.splits)

lemma ids_left_fit:
  assumes l: "ids_left batch state" and c: "uint (batch_row_id batch) + uint (rows_inserted batch) < 2 ^ 63"
  shows "ids_fit batch (ps_snapshot_id state + 1) (ps_next_row_id state)"
    "uint (ps_record_count state) + uint (rows_inserted batch) < 2 ^ 63"
    "uint (ps_next_row_id state) + uint (rows_inserted batch) < 2 ^ 63"
proof -
  have n: "rows_inserted batch \<le> INT64_MAX" and s: "ps_snapshot_id state < INT64_MAX"
    and r: "ps_next_row_id state \<le> INT64_MAX - rows_inserted batch"
    and rc: "ps_record_count state \<le> INT64_MAX - rows_inserted batch"
    using l by (simp_all add: ids_left_def not_le not_less)
  have sum: "uint a + uint (rows_inserted batch) < 2 ^ 63" if "a \<le> INT64_MAX - rows_inserted batch" for a
  proof -
    have "int (unat a + unat (rows_inserted batch)) \<le> int (unat INT64_MAX)"
      using unat_add_guarded(2) [OF n that] by (simp only: of_nat_le_iff)
    then show ?thesis by (simp add: unat_INT64_MAX)
  qed
  show "uint (ps_next_row_id state) + uint (rows_inserted batch) < 2 ^ 63"
    "uint (ps_record_count state) + uint (rows_inserted batch) < 2 ^ 63" using sum r rc by simp_all
  have "uint (ps_snapshot_id state) < 2 ^ 63 - 1" using s by (simp add: word_less_def INT64_MAX_def)
  then show "ids_fit batch (ps_snapshot_id state + 1) (ps_next_row_id state)"
    using c sum [OF r] uint_Suc_small [of "ps_snapshot_id state"] by (simp add: ids_fit_def)
qed

lemma check_state_Inr:
  assumes "check_state cx batch state = Inr ()"
  shows "table_is_live state" "inline_schema_version state = schema_version batch" "history_complete batch state"
    "ids_left batch state" "CheckInterveningChanges (cx_parse cx) (changes_made state) (table_id batch) = ChangesOK"
  using assms by (auto simp: check_state_def andthen_Inr_iff ValidateBinding_def split: ChangeCheckResult.splits)

lemma publication_sees_current_state_aux:
  assumes "publish_attempt cx env batch rv st = (st', Inr True)"
    "follows_protocol (ae_before_stats env)" "follows_protocol (ae_before_claim env)"
    "db_bigint (ae_before_read env (ws_db st))"
    "batch_rows_ok batch (db_heap (ae_before_read env (ws_db st)) (inline_table_oid batch))"
    "uint (batch_row_id batch) + uint (rows_inserted batch) < 2 ^ 63"
  shows "\<exists>state. ReadPublicationState (cx_inline_oid cx) batch (start_snapshot_id batch) (ae_before_read env (ws_db st)) = Inr state \<and>
    ae_before_claim env (ae_before_stats env (ae_before_read env (ws_db st))) = ae_before_read env (ws_db st) \<and>
    publishes batch state (ps_snapshot_id state + 1) (ps_next_row_id state) (ae_before_read env (ws_db st)) (ws_db st')"
proof -
  let ?db = "ae_before_read env (ws_db st)"
  obtain state merged c c' where
    r: "ReadPublicationState (cx_inline_oid cx) batch (start_snapshot_id batch) ?db = Inr state"
    and ck: "check_state cx batch state = Inr ()"
    and run: "RunPublicationAttempt cx batch state merged (ps_snapshot_id state + 1) (ps_next_row_id state)
       (ae_before_claim env (ae_before_stats env ?db), c) = ((ws_db st', c'), Inr True)"
    by (rule publish_attempt_True [OF assms(1)])
  note R = ReadPublicationState_Inr [OF r assms(4)]
  have "uint (ps_snapshot_id state + 1) \<notin> sr_id ` set (db_snapshots (ae_before_claim env (ae_before_stats env ?db)))"
    using run by (auto simp: RunPublicationAttempt_def claim_snapshot_def list_ex_iff split: option.splits if_splits)
  then have same: "ae_before_claim env (ae_before_stats env ?db) = ?db"
    using claim_means_untouched(2) [OF assms(2,3) R(1)] uint_Suc_small [OF R(2)] by simp
  have "publishes batch state (ps_snapshot_id state + 1) (ps_next_row_id state) ?db (ws_db st')"
    by (rule attempt_publishes [OF run [unfolded same] assms(5) ids_left_fit(1) [OF check_state_Inr(4) [OF ck] assms(6)]])
  then show ?thesis using r same by blast
qed

text \<open>C3: there are no lost updates. If the other transactions follow the protocol and an attempt
  publishes, then nobody has committed anything between the attempt's read of the metadata and its
  claim: the database it publishes into is the one it read, and the publication is the specified
  one at the next snapshot id and at the table's next row id.\<close>

theorem publication_sees_current_state:
  assumes "publish_attempt cx env batch rv st = (st', Inr True)"
    "follows_protocol (ae_before_stats env)" "follows_protocol (ae_before_claim env)"
    "db_bigint (ae_before_read env (ws_db st))"
    "batch_rows_ok batch (db_heap (ae_before_read env (ws_db st)) (inline_table_oid batch))"
    "uint (batch_row_id batch) + uint (rows_inserted batch) < 2 ^ 63"
  shows "\<exists>state. ReadPublicationState (cx_inline_oid cx) batch (start_snapshot_id batch) (ae_before_read env (ws_db st)) = Inr state \<and>
    ae_before_claim env (ae_before_stats env (ae_before_read env (ws_db st))) = ae_before_read env (ws_db st) \<and>
    publishes batch state (ps_snapshot_id state + 1) (ps_next_row_id state) (ae_before_read env (ws_db st)) (ws_db st')"
  by (rule publication_sees_current_state_aux [OF assms])

lemma quiet_env_simps [simp]:
  "ae_before_read quiet_env = id" "ae_before_stats quiet_env = id" "ae_before_claim quiet_env = id"
  by (simp_all add: quiet_env_def)

lemma follows_protocol_id: "follows_protocol id"
  by (simp add: follows_protocol_def)

lemma demo_state_facts:
  "ws_db demo_state = demo_db" "db_bigint demo_db" "batch_rows_ok demo_batch (db_heap demo_db (inline_table_oid demo_batch))"
  "uint (batch_row_id demo_batch) + uint (rows_inserted demo_batch) < 2 ^ 63"
  using demo_batch_rows_ok
  by (simp_all add: demo_state_def demo_heap db_bigint_def demo_db_def bigint_def) (simp add: demo_batch_def)

theorem publication_sees_current_state_witness:
  "\<exists>state. ReadPublicationState (cx_inline_oid demo_cx) demo_batch (start_snapshot_id demo_batch) demo_db = Inr state \<and>
    publishes demo_batch state (ps_snapshot_id state + 1) (ps_next_row_id state) demo_db (ws_db demo_after)"
  using publication_sees_current_state [OF demo_attempt] demo_state_facts follows_protocol_id by simp

lemma retry_needs_foreign_commit:
  assumes "publish_attempt cx env batch rv st = (st', Inr False)" "db_bigint (ae_before_read env (ws_db st))"
  shows "ae_before_claim env (ae_before_stats env (ae_before_read env (ws_db st))) \<noteq> ae_before_read env (ws_db st)"
proof
  let ?db = "ae_before_read env (ws_db st)"
  assume same: "ae_before_claim env (ae_before_stats env ?db) = ?db"
  obtain state merged c d where
    r: "ReadPublicationState (cx_inline_oid cx) batch (start_snapshot_id batch) ?db = Inr state"
    and run: "RunPublicationAttempt cx batch state merged (ps_snapshot_id state + 1) (ps_next_row_id state)
       (ae_before_claim env (ae_before_stats env ?db), c) = (d, Inr False)"
    using assms(1) by (auto simp: publish_attempt_def Let_def andthen_Inr_iff split: sum.splits prod.splits bool.splits if_splits)
  note R = ReadPublicationState_Inr [OF r assms(2)]
  obtain s where "s \<in> set (db_snapshots ?db)" "sr_id s = uint (ps_snapshot_id state + 1)"
    using run same by (auto simp: RunPublicationAttempt_def claim_snapshot_def list_ex_iff Let_def
        split: option.splits if_splits sum.splits)
  then have "uint (ps_snapshot_id state) + 1 \<le> uint (ps_snapshot_id state)"
    using sql_max_Some(2) [OF R(1) [unfolded max_snapshot_def]] uint_Suc_small [OF R(2)] by force
  then show False by simp
qed

text \<open>An attempt loses its claim only to another transaction: without a commit of others between
  its read and its claim, it publishes or fails with an error, but is never told to retry.\<close>

theorem retry_only_after_foreign_commit:
  assumes "publish_attempt cx env batch rv st = (st', Inr False)" "db_bigint (ae_before_read env (ws_db st))"
  shows "ae_before_claim env (ae_before_stats env (ae_before_read env (ws_db st))) \<noteq> ae_before_read env (ws_db st)"
  by (rule retry_needs_foreign_commit [OF assms])

text \<open>Another transaction that commits snapshot 9.\<close>

definition other_commit :: "string lake_db \<Rightarrow> string lake_db" where
  "other_commit db = db\<lparr>db_snapshots := db_snapshots db @
     [\<lparr>sr_id = 9, sr_schema_version = Some 0, sr_next_catalog_id = Some 2, sr_next_file_id = Some 6\<rparr>],
     db_changes := db_changes db @ [\<lparr>cr_snapshot = 9, cr_changes = Some ''inlined_insert:2''\<rparr>]\<rparr>"

definition racing_env :: "string attempt_env" where
  "racing_env = quiet_env\<lparr>ae_before_claim := other_commit\<rparr>"

lemma demo_race: "snd (publish_attempt demo_cx racing_env demo_batch False demo_state) = Inr False"
  by code_simp

theorem retry_only_after_foreign_commit_witness:
  "ae_before_claim racing_env (ae_before_stats racing_env demo_db) \<noteq> demo_db"
  using retry_only_after_foreign_commit [of demo_cx racing_env demo_batch False demo_state
      "fst (publish_attempt demo_cx racing_env demo_batch False demo_state)"] demo_race demo_state_facts
  by (simp add: prod_eq_iff racing_env_def)

section \<open>What publications preserve\<close>

definition row_ids_ok :: "int option list \<Rightarrow> int \<Rightarrow> bool" where
  "row_ids_ok ids next_id \<longleftrightarrow> distinct ids \<and> (\<forall>x \<in> set ids. \<exists>i. x = Some i \<and> 0 \<le> i \<and> i < next_id)"

lemma distinct_map_split:
  assumes "distinct (map f (filter P xs))" "distinct (map f (filter (\<lambda>x. \<not> P x) xs))"
    "\<And>x y. x \<in> set xs \<Longrightarrow> y \<in> set xs \<Longrightarrow> P x \<Longrightarrow> \<not> P y \<Longrightarrow> f x \<noteq> f y"
  shows "distinct (map f xs)"
  using assms
proof (induction xs)
  case (Cons a xs)
  have IH: "distinct (map f xs)" using Cons by (auto split: if_splits)
  moreover have "f a \<noteq> f y" if "y \<in> set xs" for y
    using Cons.prems(1,2) Cons.prems(3) [of a y] Cons.prems(3) [of y a] that
    by (cases "P a"; cases "P y") (auto simp: image_iff)
  ultimately show ?case by auto
qed simp

lemma retagged_row_ids:
  assumes fit: "ids_fit batch fs fr"
    and own: "distinct (map h_row_id (filter (own_row batch) rows))"
    and com: "row_ids_ok (map h_row_id (filter (\<lambda>r. \<not> own_row batch r) rows)) (uint fr)"
  shows "row_ids_ok (map fst (map (retagged batch fs fr) rows)) (uint fr + uint (rows_inserted batch))"
proof -
  let ?f = "\<lambda>r. fst (retagged batch fs fr r)"
  have o: "\<exists>i. h_row_id r = Some i \<and> ?f r = Some (i - uint (batch_row_id batch) + uint fr) \<and>
      uint fr \<le> i - uint (batch_row_id batch) + uint fr \<and> i - uint (batch_row_id batch) < uint (rows_inserted batch)"
    if "own_row batch r" for r
    by (rule own_row_cases [OF that fit]) (use that in \<open>auto simp: retagged_def\<close>)
  have c: "?f r = h_row_id r" if "\<not> own_row batch r" for r
    using that by (simp add: retagged_def content_def)
  have cb: "\<exists>i. h_row_id r = Some i \<and> 0 \<le> i \<and> i < uint fr" if "r \<in> set rows" "\<not> own_row batch r" for r
    using com that by (auto simp: row_ids_ok_def)
  have "distinct (map ?f (filter (own_row batch) rows))"
  proof -
    have "map ?f (filter (own_row batch) rows) =
        map (map_option (\<lambda>i. i - uint (batch_row_id batch) + uint fr)) (map h_row_id (filter (own_row batch) rows))"
      by (auto simp: retagged_def)
    moreover have "inj (map_option (\<lambda>i. i - uint (batch_row_id batch) + uint fr))"
      by (rule option.inj_map) (simp add: inj_def)
    ultimately show ?thesis using own by (metis distinct_map inj_on_subset subset_UNIV)
  qed
  moreover have "distinct (map ?f (filter (\<lambda>r. \<not> own_row batch r) rows))"
  proof -
    have e: "map ?f (filter (\<lambda>r. \<not> own_row batch r) rows) = map h_row_id (filter (\<lambda>r. \<not> own_row batch r) rows)"
      using c by (intro map_cong) auto
    show ?thesis unfolding e using com by (simp add: row_ids_ok_def)
  qed
  moreover have "?f x \<noteq> ?f y" if "x \<in> set rows" "y \<in> set rows" "own_row batch x" "\<not> own_row batch y" for x y
    using o [OF that(3)] c [OF that(4)] cb [OF that(2,4)] by auto
  ultimately have "distinct (map ?f rows)" by (rule distinct_map_split)
  moreover have "\<exists>i. ?f r = Some i \<and> 0 \<le> i \<and> i < uint fr + uint (rows_inserted batch)" if "r \<in> set rows" for r
  proof (cases "own_row batch r")
    case True
    then show ?thesis using o [OF True] order_trans [OF uint_ge_0 [of fr]] by force
  next
    case False
    have "uint fr \<le> uint fr + uint (rows_inserted batch)" by simp
    with cb [OF that False] c [OF False] show ?thesis by (metis less_le_trans)
  qed
  ultimately show ?thesis by (auto simp: row_ids_ok_def o_def)
qed

lemma publishes_heap_ids:
  assumes "publishes batch state fs fr db db'"
  shows "map h_row_id (db_heap db' (inline_table_oid batch)) =
    map fst (map (retagged batch fs fr) (db_heap db (inline_table_oid batch)))"
proof -
  have c: "map content (db_heap db' (inline_table_oid batch)) = map (retagged batch fs fr) (db_heap db (inline_table_oid batch))"
    using assms by (simp add: publishes_def Let_def)
  show ?thesis unfolding c [symmetric] by (simp add: content_def)
qed

lemma publishes_max_snapshot:
  assumes "publishes batch state fs fr db db'" "max_snapshot db = Some m" "uint fs = m + 1"
  shows "max_snapshot db' = Some (m + 1)"
proof -
  have "map sr_id (db_snapshots db') = map sr_id (db_snapshots db) @ [m + 1]"
    using assms(1,3) by (simp add: publishes_def Let_def)
  then have "map Some (map sr_id (db_snapshots db')) = map Some (map sr_id (db_snapshots db) @ [m + 1])" by (rule arg_cong)
  then have eq: "map (\<lambda>r. Some (sr_id r)) (db_snapshots db') = map (\<lambda>r. Some (sr_id r)) (db_snapshots db) @ [Some (m + 1)]"
    by (simp add: o_def)
  show ?thesis
    unfolding max_snapshot_def eq
    by (rule sql_max_eqI) (use sql_max_Some(2) [OF assms(2) [unfolded max_snapshot_def]] in force)+
qed

text \<open>The committed row ids \<open>ids\<close> of an inline table, its record count and the next row id: with a statistics row
  both counters are in it, without one the next id is that after the largest in use.\<close>

definition table_ids_ok :: "(int option \<times> int option) list \<Rightarrow> int option list \<Rightarrow> int \<Rightarrow> int \<Rightarrow> bool" where
  "table_ids_ok stats ids rc nr \<longleftrightarrow>
     stats = [(Some rc, Some nr)] \<and> row_ids_ok ids nr \<or>
     stats = [] \<and> rc = 0 \<and> nr = (case sql_max ids of None \<Rightarrow> 0 | Some m \<Rightarrow> m + 1) \<and> row_ids_ok ids (2 ^ 63)"

lemma row_ids_ok_next:
  assumes "row_ids_ok ids b" and "nr = (case sql_max ids of None \<Rightarrow> 0 | Some m \<Rightarrow> m + 1)"
  shows "row_ids_ok ids nr"
proof (cases "sql_max ids")
  case None
  then show ?thesis using assms by (force simp: row_ids_ok_def sql_max_None)
next
  case (Some m)
  then show ?thesis using assms sql_max_Some(2) [OF Some] by (fastforce simp: row_ids_ok_def)
qed

lemma ReadPublicationState_derived:
  assumes "ReadPublicationState inline_oid batch after db = Inr state" and "\<not> has_table_stats state"
  shows "GetRequiredProtocolUInt64 (derived_next_row_id inline_oid batch db) ''derived next_row_id'' = Inr (ps_next_row_id state)"
  using assms by (auto simp: ReadPublicationState_def Let_def andthen_Inr_iff PublicationState.defs split: list.splits if_splits)

lemma derived_next_row_id_eq:
  assumes "batch_rows_ok batch (db_heap db (inline_table_oid batch))"
    and "inline_oid (uint (table_id batch), uint (schema_version batch)) = inline_table_oid batch"
  shows "derived_next_row_id inline_oid batch db =
    Some (case sql_max (map h_row_id (filter (\<lambda>r. \<not> own_row batch r) (db_heap db (inline_table_oid batch)))) of None \<Rightarrow> 0 | Some m \<Rightarrow> m + 1)"
proof -
  have "filter (\<lambda>r. \<not> own_row batch r) (db_heap db (inline_table_oid batch)) = db_heap db (inline_table_oid batch)"
    if "rows_inserted batch = 0"
  proof -
    have "filter (own_row batch) (db_heap db (inline_table_oid batch)) = []"
      using assms(1) that by (simp add: batch_rows_ok_def)
    then show ?thesis by (auto simp: filter_empty_conv intro: filter_True)
  qed
  then show ?thesis
    by (auto simp: derived_next_row_id_def Let_def assms(2) word_gt_0 split: option.splits)
qed

text \<open>The counters of the publication are those of the table.\<close>

lemma read_table_ids:
  assumes r: "ReadPublicationState inline_oid batch after db = Inr state" and "db_bigint db"
    and rows: "batch_rows_ok batch (db_heap db (inline_table_oid batch))"
    and rel: "inline_oid (uint (table_id batch), uint (schema_version batch)) = inline_table_oid batch"
    and ids: "table_ids_ok (table_stats_of (uint (table_id batch)) db)
      (map h_row_id (filter (\<lambda>r. \<not> own_row batch r) (db_heap db (inline_table_oid batch)))) rc nr"
  shows "rc = uint (ps_record_count state)" and "nr = uint (ps_next_row_id state)"
    and "row_ids_ok (map h_row_id (filter (\<lambda>r. \<not> own_row batch r) (db_heap db (inline_table_oid batch)))) nr"
proof -
  let ?ids = "map h_row_id (filter (\<lambda>r. \<not> own_row batch r) (db_heap db (inline_table_oid batch)))"
  note R = ReadPublicationState_Inr [OF r assms(2)]
  show "row_ids_ok ?ids nr" using ids row_ids_ok_next unfolding table_ids_ok_def by blast
  have "rc = uint (ps_record_count state) \<and> nr = uint (ps_next_row_id state)"
  proof (cases "has_table_stats state")
    case True
    then show ?thesis using R(3) ids by (auto simp: table_ids_ok_def)
  next
    case False
    then have n: "rc = 0" "nr = (case sql_max ?ids of None \<Rightarrow> 0 | Some m \<Rightarrow> m + 1)" "row_ids_ok ?ids (2 ^ 63)"
      using R(4) ids by (auto simp: table_ids_ok_def)
    have b: "0 \<le> nr \<and> nr \<le> 2 ^ 63"
      using n(2,3) sql_max_Some(1) [of ?ids] by (fastforce simp: row_ids_ok_def split: option.splits)
    have "ps_next_row_id state = word_of_int nr"
      using ReadPublicationState_derived [OF r False] b
      unfolding derived_next_row_id_eq [where inline_oid = inline_oid, OF rows rel] n(2) [symmetric] by (simp add: GetRequiredProtocolUInt64_def)
    then show ?thesis using b n(1) R(4) False by (simp add: uint_word_of_int)
  qed
  then show "rc = uint (ps_record_count state)" "nr = uint (ps_next_row_id state)" by simp_all
qed

text \<open>C6: row ids stay unique. Suppose the table's committed inline rows have distinct row ids below
  its \<open>next_row_id\<close>, or that the table has no statistics row yet and they are just distinct. Then after a
  publication all rows of the inline table, those of the batch included, have distinct row ids below the new
  \<open>next_row_id\<close>, which has grown by the size of the batch (from the id after the largest one, when there was no
  statistics row), as has the record count; and the largest snapshot id has grown by one.\<close>

theorem publication_keeps_row_ids_unique:
  assumes "publish_attempt cx env batch rv st = (st', Inr True)"
    "follows_protocol (ae_before_stats env)" "follows_protocol (ae_before_claim env)"
    "db_bigint (ae_before_read env (ws_db st))"
    "batch_rows_ok batch (db_heap (ae_before_read env (ws_db st)) (inline_table_oid batch))"
    "uint (batch_row_id batch) + uint (rows_inserted batch) < 2 ^ 63"
    "cx_inline_oid cx (uint (table_id batch), uint (schema_version batch)) = inline_table_oid batch"
    "table_ids_ok (table_stats_of (uint (table_id batch)) (ae_before_read env (ws_db st)))
       (map h_row_id (filter (\<lambda>r. \<not> own_row batch r) (db_heap (ae_before_read env (ws_db st)) (inline_table_oid batch)))) rc nr"
    "distinct (map h_row_id (filter (own_row batch) (db_heap (ae_before_read env (ws_db st)) (inline_table_oid batch))))"
    "max_snapshot (ae_before_read env (ws_db st)) = Some m"
  shows "table_stats_of (uint (table_id batch)) (ws_db st') =
      [(Some (rc + uint (rows_inserted batch)), Some (nr + uint (rows_inserted batch)))]
    \<and> row_ids_ok (map h_row_id (db_heap (ws_db st') (inline_table_oid batch))) (nr + uint (rows_inserted batch))
    \<and> max_snapshot (ws_db st') = Some (m + 1)"
proof -
  let ?db = "ae_before_read env (ws_db st)" and ?n = "rows_inserted batch"
  obtain state merged c c' where
    r: "ReadPublicationState (cx_inline_oid cx) batch (start_snapshot_id batch) ?db = Inr state"
    and ck: "check_state cx batch state = Inr ()"
    by (rule publish_attempt_True [OF assms(1)])
  obtain state' where "ReadPublicationState (cx_inline_oid cx) batch (start_snapshot_id batch) ?db = Inr state'"
    and pub': "publishes batch state' (ps_snapshot_id state' + 1) (ps_next_row_id state') ?db (ws_db st')"
    using publication_sees_current_state_aux [OF assms(1-6)] by blast
  then have pub: "publishes batch state (ps_snapshot_id state + 1) (ps_next_row_id state) ?db (ws_db st')" using r by simp
  note R = ReadPublicationState_Inr [OF r assms(4)] and fit = ids_left_fit [OF check_state_Inr(4) [OF ck] assms(6)]
  note eq = read_table_ids [OF r assms(4,5,7,8)]
  have sums: "uint (ps_record_count state + ?n) = rc + uint ?n" "uint (ps_next_row_id state + ?n) = nr + uint ?n"
    using fit(2,3) eq by (simp_all add: uint_add_small)
  have "row_ids_ok (map h_row_id (db_heap (ws_db st') (inline_table_oid batch))) (nr + uint ?n)"
    unfolding publishes_heap_ids [OF pub] eq(2)
    by (rule retagged_row_ids [OF fit(1) assms(9)]) (use eq in simp)
  moreover have "max_snapshot (ws_db st') = Some (m + 1)"
    using publishes_max_snapshot [OF pub assms(10)] R(1) assms(10) uint_Suc_small [OF R(2)] by simp
  ultimately show ?thesis using pub sums R(4) eq(1) by (cases "has_table_stats state") (simp_all add: publishes_def Let_def)
qed

theorem publication_keeps_row_ids_unique_witness:
  "table_stats_of 1 (ws_db demo_after) = [(Some 5, Some 105)] \<and>
   row_ids_ok (map h_row_id (db_heap (ws_db demo_after) 500)) 105 \<and> max_snapshot (ws_db demo_after) = Some 9"
proof -
  have "table_stats_of (uint (table_id demo_batch)) demo_db = [(Some 3, Some 103)]"
    by (simp add: table_stats_of_def demo_db_def demo_batch_def)
  moreover have r: "row_ids_ok (map h_row_id (filter (\<lambda>r. \<not> own_row demo_batch r) demo_rows)) 103"
    "distinct (map h_row_id (filter (own_row demo_batch) demo_rows))"
    by (simp_all add: row_ids_ok_def demo_rows_def demo_row_def own_row_def demo_batch_def) (simp_all add: empty_batch_def)
  ultimately have s: "table_ids_ok (table_stats_of (uint (table_id demo_batch)) demo_db)
      (map h_row_id (filter (\<lambda>r. \<not> own_row demo_batch r) demo_rows)) 3 103" by (simp add: table_ids_ok_def)
  have m: "max_snapshot demo_db = Some 8" by code_simp
  have o: "cx_inline_oid demo_cx (uint (table_id demo_batch), uint (schema_version demo_batch)) = inline_table_oid demo_batch"
    by (simp add: demo_cx_def demo_batch_def)
  show ?thesis
    using publication_keeps_row_ids_unique [OF demo_attempt, of 3 103 8] demo_state_facts follows_protocol_id s r m o
    by (simp add: demo_heap) (simp add: demo_batch_def)
qed

section \<open>Change history and conflicts\<close>

text \<open>Every snapshot after \<open>start\<close> has one change record, with a text.\<close>

definition history_ok :: "u64 \<Rightarrow> 'p lake_db \<Rightarrow> bool" where
  "history_ok start db \<longleftrightarrow>
     (case max_snapshot db of
        None \<Rightarrow> False
      | Some m \<Rightarrow> uint start \<le> m \<and> int (length (changes_since start db)) = m - uint start \<and>
                  None \<notin> set (map cr_changes (changes_since start db)))"

lemma of_nat_diff_words:
  assumes "int n = uint (a :: u64) - uint b"
  shows "of_nat n = a - b"
proof -
  have "(of_nat n :: u64) = word_of_int (uint a - uint b)" using assms by (metis of_int_of_nat_eq)
  then show ?thesis by simp
qed

lemma history_ok_complete:
  assumes "history_ok (start_snapshot_id batch) db" "db_bigint db"
    "ReadPublicationState inline_oid batch (start_snapshot_id batch) db = Inr state"
  shows "history_complete batch state"
proof -
  note R = ReadPublicationState_Inr [OF assms(3,2)]
  let ?c = "changes_since (start_snapshot_id batch) db"
  have le: "uint (start_snapshot_id batch) \<le> uint (ps_snapshot_id state)"
    and len: "int (length ?c) = uint (ps_snapshot_id state) - uint (start_snapshot_id batch)"
    and nn: "None \<notin> set (map cr_changes ?c)"
    using assms(1) R(1) by (simp_all add: history_ok_def)
  have "length (somes (map cr_changes ?c)) = length ?c" using nn length_somes_eq [of "map cr_changes ?c"] by simp
  then show ?thesis
    using le len of_nat_diff_words [OF len] R(5,6) by (simp add: history_complete_def word_less_def)
qed

lemma publishes_history:
  assumes "publishes batch state fs fr db db'" "max_snapshot db = Some m" "uint fs = m + 1" "history_ok start db"
  shows "history_ok start db'"
proof -
  have "changes_since start db' = changes_since start db @ [\<lparr>cr_snapshot = m + 1, cr_changes = Some (change_text (table_id batch))\<rparr>]"
    using assms by (simp add: publishes_def Let_def changes_since_def history_ok_def)
  then show ?thesis
    using publishes_max_snapshot [OF assms(1-3)] assms(2,4) by (simp add: history_ok_def)
qed

lemma publishes_bigint:
  assumes pub: "publishes batch state fs fr db db'" and b: "db_bigint db" and fit: "ids_fit batch fs fr"
    and rc: "uint (ps_record_count state) + uint (rows_inserted batch) < 2 ^ 63"
  shows "db_bigint db'"
proof -
  have big: "bigint (uint w)" if "uint w < 2 ^ 63" for w :: u64
    using that order_trans [of "- (2 ^ 63)" 0 "uint w"] by (simp add: bigint_def)
  have sums: "bigint (uint (ps_record_count state + rows_inserted batch))" "bigint (uint (fr + rows_inserted batch))"
    "bigint (uint (rows_inserted batch))" "bigint (uint fs)"
  proof -
    have "uint (rows_inserted batch) < 2 ^ 63" using fit uint_ge_0 [of fr] unfolding ids_fit_def by linarith
    then show "bigint (uint (rows_inserted batch))" by (rule big)
    show "bigint (uint fs)" using fit by (intro big) (simp add: ids_fit_def)
    show "bigint (uint (ps_record_count state + rows_inserted batch))" using rc by (intro big) (simp add: uint_add_small)
    show "bigint (uint (fr + rows_inserted batch))" using fit by (intro big) (simp add: uint_add_small ids_fit_def)
  qed
  have "map sr_id (db_snapshots db') = map sr_id (db_snapshots db) @ [uint fs]" using pub by (simp add: publishes_def Let_def)
  from arg_cong [OF this, of set] have ids: "sr_id ` set (db_snapshots db') = insert (uint fs) (sr_id ` set (db_snapshots db))"
    by simp
  have in_db: "(\<forall>n. st_record_count r = Some n \<longrightarrow> bigint n) \<and> (\<forall>n. st_next_row_id r = Some n \<longrightarrow> bigint n)"
    if "r \<in> set (db_stats db')" for r
  proof -
    have "(st_record_count r, st_next_row_id r) \<in> set (table_stats_of (st_table r) db')"
      using that by (auto simp: table_stats_of_def)
    moreover have "set (table_stats_of (st_table r) db') \<subseteq> set (table_stats_of (st_table r) db) \<union>
        {(Some (uint (ps_record_count state + rows_inserted batch)), Some (uint (fr + rows_inserted batch))),
         (Some (uint (rows_inserted batch)), Some (uint (fr + rows_inserted batch)))}"
      using pub by (auto simp: publishes_def Let_def)
    ultimately consider "(st_record_count r, st_next_row_id r) \<in> set (table_stats_of (st_table r) db)"
      | "st_record_count r = Some (uint (ps_record_count state + rows_inserted batch)) \<or> st_record_count r = Some (uint (rows_inserted batch))"
        "st_next_row_id r = Some (uint (fr + rows_inserted batch))" by blast
    then show ?thesis
      by cases (use b sums in \<open>auto simp: table_stats_of_def db_bigint_def\<close>)
  qed
  have "bigint (sr_id s)" if "s \<in> set (db_snapshots db')" for s
  proof -
    have "sr_id s \<in> insert (uint fs) (sr_id ` set (db_snapshots db))" using that unfolding ids [symmetric] by (rule imageI)
    then show ?thesis using sums(4) b by (auto simp: db_bigint_def)
  qed
  then show ?thesis unfolding db_bigint_def using in_db by blast
qed

lemma publish_attempt_publishes:
  assumes "publish_attempt cx env batch rv st = (st', Inr True)"
    "follows_protocol (ae_before_stats env)" "follows_protocol (ae_before_claim env)"
    "db_bigint (ae_before_read env (ws_db st))"
    "batch_rows_ok batch (db_heap (ae_before_read env (ws_db st)) (inline_table_oid batch))"
    "uint (batch_row_id batch) + uint (rows_inserted batch) < 2 ^ 63"
  obtains state where
    "ReadPublicationState (cx_inline_oid cx) batch (start_snapshot_id batch) (ae_before_read env (ws_db st)) = Inr state"
    "check_state cx batch state = Inr ()" "uint (ps_snapshot_id state + 1) = uint (ps_snapshot_id state) + 1"
    "publishes batch state (ps_snapshot_id state + 1) (ps_next_row_id state) (ae_before_read env (ws_db st)) (ws_db st')"
    "db_bigint (ws_db st')"
proof -
  let ?db = "ae_before_read env (ws_db st)"
  obtain state merged c c' where
    r: "ReadPublicationState (cx_inline_oid cx) batch (start_snapshot_id batch) ?db = Inr state"
    and ck: "check_state cx batch state = Inr ()"
    by (rule publish_attempt_True [OF assms(1)])
  have pub: "publishes batch state (ps_snapshot_id state + 1) (ps_next_row_id state) ?db (ws_db st')"
    using publication_sees_current_state_aux [OF assms] r by auto
  note fit = ids_left_fit [OF check_state_Inr(4) [OF ck] assms(6)]
  show ?thesis
    by (rule that [OF r ck uint_Suc_small [OF ReadPublicationState_Inr(2) [OF r assms(4)]] pub
          publishes_bigint [OF pub assms(4) fit(1,2)]])
qed

text \<open>C25: publications keep the change history complete. If every snapshot after \<open>start\<close> has its
  change record before a publication, then also after it; and any other batch that started at
  \<open>start\<close> passes its history check in the database that the publication leaves.\<close>

theorem publication_keeps_history_complete:
  assumes "publish_attempt cx env batch rv st = (st', Inr True)"
    "follows_protocol (ae_before_stats env)" "follows_protocol (ae_before_claim env)"
    "db_bigint (ae_before_read env (ws_db st))"
    "batch_rows_ok batch (db_heap (ae_before_read env (ws_db st)) (inline_table_oid batch))"
    "uint (batch_row_id batch) + uint (rows_inserted batch) < 2 ^ 63"
    "history_ok start (ae_before_read env (ws_db st))"
  shows "history_ok start (ws_db st') \<and>
    (\<forall>other state. start_snapshot_id other = start \<and> ReadPublicationState (cx_inline_oid cx) other start (ws_db st') = Inr state \<longrightarrow>
       history_complete other state)"
proof -
  obtain state where r: "ReadPublicationState (cx_inline_oid cx) batch (start_snapshot_id batch) (ae_before_read env (ws_db st)) = Inr state"
    and pub: "publishes batch state (ps_snapshot_id state + 1) (ps_next_row_id state) (ae_before_read env (ws_db st)) (ws_db st')"
    and suc: "uint (ps_snapshot_id state + 1) = uint (ps_snapshot_id state) + 1" and b: "db_bigint (ws_db st')"
    by (rule publish_attempt_publishes [OF assms(1-6)])
  have h: "history_ok start (ws_db st')"
    by (rule publishes_history [OF pub ReadPublicationState_Inr(1) [OF r assms(4)] suc assms(7)])
  then show ?thesis using history_ok_complete [OF _ b] by blast
qed

theorem publication_keeps_history_complete_witness:
  "history_ok 7 (ws_db demo_after)"
proof -
  have "history_ok 7 demo_db" by code_simp
  then show ?thesis
    using publication_keeps_history_complete [OF demo_attempt, of 7] demo_state_facts
    by (simp add: follows_protocol_id)
qed



section \<open>The retry loop\<close>

lemma no_wrap_fits:
  assumes "\<not> a + n < (a :: u64)" "\<not> a + n > INT64_MAX"
  shows "uint a + uint n < 2 ^ 63"
proof -
  have "\<not> uint a + uint n \<ge> 2 ^ 64"
  proof
    assume "uint a + uint n \<ge> 2 ^ 64"
    then have "uint (a + n) = uint a + uint n - 2 ^ 64"
      using uint_lt2p [of a] uint_lt2p [of n] by (simp add: uint_plus_if')
    then show False using assms(1) uint_lt2p [of n] by (simp add: word_less_def)
  qed
  then have "uint (a + n) = uint a + uint n"
    by (simp add: uint_plus_if')
  then show ?thesis using assms(2) by (simp add: INT64_MAX_def word_less_def)
qed

text \<open>What the loop asks of the other transactions: they follow the protocol, keep \<^verbatim>\<open>bigint\<close> ranges, and
  do not touch the tuples of the batch, which they cannot see.\<close>

definition env_follows :: "NativeInlineWriteBatch \<Rightarrow> ('p lake_db \<Rightarrow> 'p lake_db) \<Rightarrow> bool" where
  "env_follows batch f \<longleftrightarrow> follows_protocol f \<and>
     (\<forall>db. filter (own_row batch) (db_heap (f db) (inline_table_oid batch)) = filter (own_row batch) (db_heap db (inline_table_oid batch))) \<and>
     (\<forall>db. db_bigint db \<and> batch_rows_ok batch (db_heap db (inline_table_oid batch)) \<longrightarrow>
        db_bigint (f db) \<and> batch_rows_ok batch (db_heap (f db) (inline_table_oid batch)))"

definition attempt_follows :: "NativeInlineWriteBatch \<Rightarrow> 'p attempt_env \<Rightarrow> bool" where
  "attempt_follows batch env \<longleftrightarrow> env_follows batch (ae_before_read env) \<and> env_follows batch (ae_before_stats env) \<and>
     env_follows batch (ae_before_claim env)"

lemma publish_attempt_False_db:
  assumes "publish_attempt cx env batch rv st = (st', Inr False)"
  shows "ws_db st' = ae_before_claim env (ae_before_stats env (ae_before_read env (ws_db st)))"
  using assms
  by (auto simp: publish_attempt_def Let_def andthen_Inr_iff count_event_def RunPublicationAttempt_def
      split: sum.splits prod.splits bool.splits if_splits option.splits)

text \<open>What the loop reports when it publishes: the state of the database that the last attempt has read.\<close>

definition published_from ::
  "('ty, 'p) writer_context \<Rightarrow> NativeInlineWriteBatch \<Rightarrow> 'p heap_row list \<Rightarrow> 'p lake_db \<Rightarrow> bool" where
  "published_from cx batch own db' \<longleftrightarrow> (\<exists>db state. db_bigint db \<and>
     filter (own_row batch) (db_heap db (inline_table_oid batch)) = own \<and>
     ReadPublicationState (cx_inline_oid cx) batch (start_snapshot_id batch) db = Inr state \<and> check_state cx batch state = Inr () \<and>
     publishes batch state (ps_snapshot_id state + 1) (ps_next_row_id state) db db')"

lemma publish_attempt_published_from:
  assumes "publish_attempt cx env batch rv st = (st', Inr True)" "attempt_follows batch env"
    "uint (batch_row_id batch) + uint (rows_inserted batch) < 2 ^ 63"
    "db_bigint (ws_db st)" "batch_rows_ok batch (db_heap (ws_db st) (inline_table_oid batch))"
  shows "published_from cx batch (filter (own_row batch) (db_heap (ws_db st) (inline_table_oid batch))) (ws_db st')"
proof -
  note E = assms(2) [unfolded attempt_follows_def env_follows_def]
  have db: "db_bigint (ae_before_read env (ws_db st))"
    "batch_rows_ok batch (db_heap (ae_before_read env (ws_db st)) (inline_table_oid batch))"
    "filter (own_row batch) (db_heap (ae_before_read env (ws_db st)) (inline_table_oid batch)) =
     filter (own_row batch) (db_heap (ws_db st) (inline_table_oid batch))"
    using E assms(4,5) by blast+
  obtain state where "ReadPublicationState (cx_inline_oid cx) batch (start_snapshot_id batch) (ae_before_read env (ws_db st)) = Inr state"
    "check_state cx batch state = Inr ()"
    "publishes batch state (ps_snapshot_id state + 1) (ps_next_row_id state) (ae_before_read env (ws_db st)) (ws_db st')"
    by (rule publish_attempt_publishes [OF assms(1) _ _ db(1,2) assms(3)]) (use E in auto)
  with db show ?thesis unfolding published_from_def by blast
qed

lemma publish_loop_publishes:
  assumes "\<And>k. attempt_follows batch (env k)" "uint (batch_row_id batch) + uint (rows_inserted batch) < 2 ^ 63"
    "publish_loop cx env batch left attempt rv st = (st', Inr k)"
    "db_bigint (ws_db st)" "batch_rows_ok batch (db_heap (ws_db st) (inline_table_oid batch))"
  shows "attempt \<le> k \<and> k \<le> attempt + left \<and>
    published_from cx batch (filter (own_row batch) (db_heap (ws_db st) (inline_table_oid batch))) (ws_db st')"
  using assms(3-5)
proof (induction left arbitrary: attempt rv st)
  case (0 attempt rv st)
  have "publish_attempt cx (env attempt) batch rv st = (st', Inr True)" "k = attempt"
    using 0(1) by (auto simp: publish_loop.simps split: prod.splits sum.splits bool.splits)
  then show ?case using publish_attempt_published_from [OF _ assms(1,2) 0(2,3)] by auto
next
  case (Suc left attempt rv st)
  note E = assms(1) [of attempt, unfolded attempt_follows_def env_follows_def]
  consider (pub) "publish_attempt cx (env attempt) batch rv st = (st', Inr True)" "k = attempt"
    | (retry) st1 where "publish_attempt cx (env attempt) batch rv st = (st1, Inr False)"
        "publish_loop cx env batch left (Suc attempt) False st1 = (st', Inr k)"
    using Suc.prems(1) by (auto simp: publish_loop.simps [of cx env batch "Suc left"] split: prod.splits sum.splits bool.splits)
  then show ?case
  proof cases
    case pub
    then show ?thesis using publish_attempt_published_from [OF _ assms(1,2) Suc.prems(2,3)] by auto
  next
    case retry
    have "db_bigint (ws_db st1)" "batch_rows_ok batch (db_heap (ws_db st1) (inline_table_oid batch))"
      "filter (own_row batch) (db_heap (ws_db st1) (inline_table_oid batch)) =
       filter (own_row batch) (db_heap (ws_db st) (inline_table_oid batch))"
      using publish_attempt_False_db [OF retry(1)] E Suc.prems(2,3) by simp_all
    with Suc.IH [OF retry(2) this(1,2)] show ?thesis by auto
  qed
qed

lemma prepare_columns_error: "prepare_columns f xs = Inl e \<Longrightarrow> \<exists>x \<in> set xs. f x = Inl e"
  by (induction xs) (auto simp: andthen_Inl_iff)

lemma publish_attempt_not_exceeded: "snd (publish_attempt cx env batch rv st) \<noteq> Inl RetriesExceeded"
proof -
  have g: "GetRequiredProtocolUInt64 v f \<noteq> Inl RetriesExceeded" for v f
    by (simp add: GetRequiredProtocolUInt64_def split: option.splits)
  have read: "ReadPublicationState io b a d \<noteq> Inl RetriesExceeded" for io b a and d :: "'p lake_db"
    by (auto simp: ReadPublicationState_def Let_def andthen_Inl_iff metadata_version_def g split: list.splits if_splits)
  have check: "check_state cx b s \<noteq> Inl RetriesExceeded" for cx :: "('ty, 'p) writer_context" and b s
    by (auto simp: check_state_def ValidateBinding_def andthen_Inl_iff split: ChangeCheckResult.splits)
  have col: "prepare_column api m inc row ini c \<noteq> Inl RetriesExceeded" for api :: "'ty ducklake_api" and m inc row ini c
    by (auto simp: prepare_column_def Let_def split: prod.splits if_splits)
  have prep: "PrepareMergedColumnStats api m t cs ini rows \<noteq> Inl RetriesExceeded" for api :: "'ty ducklake_api" and m t cs ini rows
    unfolding PrepareMergedColumnStats_def
    by (auto simp: andthen_Inl_iff g col dest!: prepare_columns_error)
  have ptr: "retag_pointers b fs fr ps rows \<noteq> Inl RetriesExceeded" for b fs fr ps and rows :: "'p heap_row list"
    by (induction ps arbitrary: rows) (auto split: option.splits)
  have retag: "RetagPrewrittenRows cx b fs fr d \<noteq> Inl RetriesExceeded" for cx :: "('ty, 'p) writer_context" and b fs fr d
    by (auto simp: RetagPrewrittenRows_def Let_def andthen_Inl_iff RetagPrewrittenRowsInplace_def retag_by_update_def ptr
        split: if_splits)
  have fault: "InjectNativeWriterFault h f \<noteq> Inl RetriesExceeded" for h f
    by (simp add: InjectNativeWriterFault_def)
  have meta: "write_metadata h b s mg fs fr d \<noteq> Inl RetriesExceeded" for h b s mg fs fr and d :: "'p lake_db"
    by (auto simp: write_metadata_def write_table_stats_def ApplyMergedColumnStats_def Let_def andthen_Inl_iff fault split: if_splits)
  have run: "snd (RunPublicationAttempt cx b s mg fs fr d) \<noteq> Inl RetriesExceeded" for cx :: "('ty, 'p) writer_context" and b s mg fs fr d
    by (auto simp: RunPublicationAttempt_def Let_def andthen_Inl_iff fault retag meta split: prod.splits option.splits sum.splits if_splits)
  have run': "RunPublicationAttempt cx b s mg fs fr d \<noteq> (d', Inl RetriesExceeded)" for cx :: "('ty, 'p) writer_context" and b s mg fs fr d d'
    using run [of cx b s mg fs fr d] by (metis snd_conv)
  show ?thesis
    by (auto simp: publish_attempt_def Let_def andthen_Inl_iff fault read check prep run'
        split: sum.splits prod.splits bool.splits if_splits)
qed

lemma PublishNativeInlineWrite_loop:
  assumes "PublishNativeInlineWrite cx pgt turns others env batch st = Some (st', res)" "res \<noteq> Inr NothingToPublish"
    "res \<noteq> Inl ExhaustedRowIds" "\<And>f. res \<noteq> Inl (TestFault f)"
  obtains q rv where "\<not> batch_row_id batch + rows_inserted batch < batch_row_id batch"
    "\<not> batch_row_id batch + rows_inserted batch > INT64_MAX"
    "publish_loop cx env batch (nat (native_writer_max_retry_count (cx_guc cx))) 0 rv (st\<lparr>ws_queue := q\<rparr>) = (st', Inl (projl res)) \<and> isl res
     \<or> (\<exists>k. res = Inr (PublishedAfter k) \<and>
         publish_loop cx env batch (nat (native_writer_max_retry_count (cx_guc cx))) 0 rv (st\<lparr>ws_queue := q\<rparr>) = (st', Inr k))"
proof (cases "await_turn (cx_guc cx) pgt turns others batch (ws_queue st)")
  case None
  then show ?thesis using assms
    by (auto simp: PublishNativeInlineWrite_def InjectNativeWriterFault_def split: if_splits sum.splits)
next
  case (Some t)
  let ?l = "publish_loop cx env batch (nat (native_writer_max_retry_count (cx_guc cx))) 0 (snd t) (st\<lparr>ws_queue := fst t\<rparr>)"
  show ?thesis
    using assms Some that [of "snd t" "fst t"]
    by (cases ?l; cases "snd ?l")
      (auto simp: PublishNativeInlineWrite_def InjectNativeWriterFault_def split: if_splits sum.splits prod.splits)
qed

lemma PublishNativeInlineWrite_published:
  assumes "PublishNativeInlineWrite cx pgt turns others env batch st = Some (st', Inr (PublishedAfter k))"
    "\<And>k. attempt_follows batch (env k)" "db_bigint (ws_db st)"
    "batch_rows_ok batch (db_heap (ws_db st) (inline_table_oid batch))"
  shows "k \<le> nat (native_writer_max_retry_count (cx_guc cx)) \<and>
    published_from cx batch (filter (own_row batch) (db_heap (ws_db st) (inline_table_oid batch))) (ws_db st')"
proof -
  obtain q rv where l: "publish_loop cx env batch (nat (native_writer_max_retry_count (cx_guc cx))) 0 rv (st\<lparr>ws_queue := q\<rparr>) = (st', Inr k)"
    and ids: "\<not> batch_row_id batch + rows_inserted batch < batch_row_id batch" "\<not> batch_row_id batch + rows_inserted batch > INT64_MAX"
    using assms(1) by (rule PublishNativeInlineWrite_loop) auto
  have "uint (batch_row_id batch) + uint (rows_inserted batch) < 2 ^ 63"
    by (rule no_wrap_fits [OF ids])
  from publish_loop_publishes [OF assms(2) this l] assms(3,4) show ?thesis by simp
qed


definition demo_clock :: pg_time where
  "demo_clock = \<lparr>ts_plus_ms = (+), ts_diff_ms = (\<lambda>a b. b - a)\<rparr>"

definition demo_published :: "(string writer_state \<times> (werror + publish_result)) option" where
  "demo_published = PublishNativeInlineWrite demo_cx demo_clock [] id (\<lambda>_. quiet_env) demo_batch demo_state"

lemma env_follows_id: "env_follows batch id"
  by (simp add: env_follows_def follows_protocol_id)


lemma publish_loop_quiet:
  assumes "ae_before_stats (env j) = id" "ae_before_claim (env j) = id"
    "\<And>k db. db_bigint db \<Longrightarrow> db_bigint (ae_before_read (env k) db) \<and> db_bigint (ae_before_stats (env k) db) \<and> db_bigint (ae_before_claim (env k) db)"
    "attempt \<le> j" "j \<le> attempt + left" "db_bigint (ws_db st)"
  shows "snd (publish_loop cx env batch left attempt rv st) \<noteq> Inl RetriesExceeded"
  using assms(4-6)
proof (induction left arbitrary: attempt rv st)
  case (0 attempt rv st)
  then have "attempt = j" by simp
  then show ?case
    using publish_attempt_not_exceeded [of cx "env j" batch rv st] retry_needs_foreign_commit [of cx "env j" batch rv st] 0(3) assms(1,2,3)
    by (auto simp: publish_loop.simps [of cx env batch 0] split: prod.splits sum.splits bool.splits)
next
  case (Suc left attempt rv st)
  show ?case
  proof (cases "attempt = j")
    case True
    then show ?thesis
      using publish_attempt_not_exceeded [of cx "env j" batch rv st] retry_needs_foreign_commit [of cx "env j" batch rv st] Suc.prems(3) assms(1,2,3)
      by (auto simp: publish_loop.simps [of cx env batch "Suc left"] split: prod.splits sum.splits bool.splits)
  next
    case False
    have next_db: "db_bigint (ws_db st1)" if "publish_attempt cx (env attempt) batch rv st = (st1, Inr False)" for st1
      using publish_attempt_False_db [OF that] assms(3) Suc.prems(3) by simp
    show ?thesis
      using publish_attempt_not_exceeded [of cx "env attempt" batch rv st] Suc.IH [of "Suc attempt", OF _ _ next_db] False Suc.prems(1,2)
      by (auto simp: publish_loop.simps [of cx env batch "Suc left"] split: prod.splits sum.splits bool.splits)
  qed
qed

text \<open>C20: one quiet attempt is enough. If during one of the attempts that the retry limit allows no other
  transaction commits between the read of the metadata and the claim, the publication does not
  exhaust its retries: it publishes, or fails with an error of its own.\<close>

theorem quiet_attempt_suffices:
  assumes "j \<le> nat (native_writer_max_retry_count (cx_guc cx))" "ae_before_stats (env j) = id" "ae_before_claim (env j) = id"
    "\<And>k db. db_bigint db \<Longrightarrow> db_bigint (ae_before_read (env k) db) \<and> db_bigint (ae_before_stats (env k) db) \<and> db_bigint (ae_before_claim (env k) db)"
    "db_bigint (ws_db st)"
  shows "PublishNativeInlineWrite cx pgt turns others env batch st \<noteq> Some (st', Inl RetriesExceeded)"
proof
  assume "PublishNativeInlineWrite cx pgt turns others env batch st = Some (st', Inl RetriesExceeded)"
  then obtain q rv where
    "publish_loop cx env batch (nat (native_writer_max_retry_count (cx_guc cx))) 0 rv (st\<lparr>ws_queue := q\<rparr>) = (st', Inl RetriesExceeded)"
    by (rule PublishNativeInlineWrite_loop) auto
  with publish_loop_quiet [of env j, OF assms(2-4), of 0 "nat (native_writer_max_retry_count (cx_guc cx))" "st\<lparr>ws_queue := q\<rparr>" cx batch rv]
    assms(1,5) show False by simp
qed

text \<open>The first attempt loses to another transaction, the second one is quiet.\<close>

definition race_then_quiet :: "nat \<Rightarrow> string attempt_env" where
  "race_then_quiet k = (if k = 0 then racing_env else quiet_env)"

theorem quiet_attempt_suffices_witness:
  "PublishNativeInlineWrite demo_cx demo_clock [] id race_then_quiet demo_batch demo_state \<noteq> Some (demo_after, Inl RetriesExceeded) \<and>
   map_option snd (PublishNativeInlineWrite demo_cx demo_clock [] id race_then_quiet demo_batch demo_state) = Some (Inr (PublishedAfter 1))"
proof
  have "db_bigint (other_commit db)" if "db_bigint db" for db
    using that by (simp add: db_bigint_def other_commit_def bigint_def)
  then show "PublishNativeInlineWrite demo_cx demo_clock [] id race_then_quiet demo_batch demo_state \<noteq> Some (demo_after, Inl RetriesExceeded)"
    using demo_state_facts(1,2)
    by (intro quiet_attempt_suffices [of 1])
      (auto simp: race_then_quiet_def racing_env_def demo_cx_def guc_boot_def)
  show "map_option snd (PublishNativeInlineWrite demo_cx demo_clock [] id race_then_quiet demo_batch demo_state) = Some (Inr (PublishedAfter 1))"
    by code_simp
qed

end
