(* ===== verification/Column_Stats_Props.thy ===== *)
theory Column_Stats_Props
  imports Inline_Producer
begin

text \<open>
  Soundness of the column statistics: the persisted row of a column tells the truth about the values
  of the column, before and after every publication. A minimum is at most every value, a maximum at
  least, and a row that denies nulls or NaNs is right. The proof follows a value from the accumulator
  over the merge to the update of the row.
\<close>

section \<open>What statistics promise\<close>

text \<open>\<open>vals\<close> are the non-null values of the column that are ordered, \<open>sem\<close> reads a bound, \<open>le\<close> is
  the order of the column's type.\<close>

definition in_bounds :: "(string \<Rightarrow> 'v) \<Rightarrow> ('v \<Rightarrow> 'v \<Rightarrow> bool) \<Rightarrow> string option \<Rightarrow> string option \<Rightarrow> 'v set \<Rightarrow> bool" where
  "in_bounds sem le mn mx vals \<longleftrightarrow> (\<forall>s. mn = Some s \<longrightarrow> (\<forall>v \<in> vals. le (sem s) v)) \<and> (\<forall>s. mx = Some s \<longrightarrow> (\<forall>v \<in> vals. le v (sem s)))"

definition covers :: "(string \<Rightarrow> 'v) \<Rightarrow> ('v \<Rightarrow> 'v \<Rightarrow> bool) \<Rightarrow> ('d \<Rightarrow> 'v option) \<Rightarrow> colstat_row \<Rightarrow> 'd cell set \<Rightarrow> bool" where
  "covers sem le val row cells \<longleftrightarrow>
     in_bounds sem le (cs_min row) (cs_max row) {v. \<exists>d. CDatum d \<in> cells \<and> val d = Some v} \<and>
     (cs_contains_null row = Some False \<longrightarrow> CNull \<notin> cells) \<and>
     (cs_contains_nan row = Some False \<longrightarrow> (\<forall>d. CDatum d \<in> cells \<longrightarrow> val d \<noteq> None))"

text \<open>The same for the contribution of a batch, where a missing bound means that there is no value.\<close>

definition contributes :: "(string \<Rightarrow> 'v) \<Rightarrow> ('v \<Rightarrow> 'v \<Rightarrow> bool) \<Rightarrow> ('d \<Rightarrow> 'v option) \<Rightarrow> NativeInlineColumnStat \<Rightarrow> 'd cell set \<Rightarrow> bool" where
  "contributes sem le val c cells \<longleftrightarrow> invalidate_all c \<or>
     (bounds_safe c \<longrightarrow>
        (\<forall>d v. CDatum d \<in> cells \<and> val d = Some v \<longrightarrow>
           in_has_min c \<and> in_has_max c \<and> le (sem (in_min_value c)) v \<and> le v (sem (in_max_value c)))) \<and>
     (CNull \<in> cells \<longrightarrow> observed_null c) \<and>
     ((\<exists>d. CDatum d \<in> cells \<and> val d = None) \<longrightarrow> nan_known c \<and> observed_nan c)"

section \<open>The accumulator\<close>

text \<open>What a column's types mean: a datum that is not a NaN has a value, the output function prints it,
  and the comparison that the column uses agrees with the order.\<close>

definition column_sem ::
  "'d pg_type_api \<Rightarrow> 'd InlineColStatsEntry \<Rightarrow> (string \<Rightarrow> 'v) \<Rightarrow> ('v \<Rightarrow> 'v \<Rightarrow> bool) \<Rightarrow> ('d \<Rightarrow> 'v option) \<Rightarrow> bool" where
  "column_sem pg e sem le val \<longleftrightarrow>
     (\<forall>d. val d = None \<longleftrightarrow> IsNaN pg e d) \<and> (e_floating e \<longrightarrow> e_bounds_safe e \<and> e_ready e) \<and>
     (if e_value_cmp e
      then (\<forall>d v. val d = Some v \<longrightarrow> sem (pg_output_iso pg (e_source_type e) d) = v) \<and>
           (\<forall>c. e_compare e = Some c \<longrightarrow> three_way c \<and>
              (\<forall>d d' v v'. val d = Some v \<and> val d' = Some v' \<and> c d d' \<le> 0 \<longrightarrow> le v v'))
      else (\<forall>d v. val d = Some v \<longrightarrow> sem (pg_output_session pg (e_source_type e) d) = v) \<and>
           (\<forall>s t. strcmp s t \<le> 0 \<longrightarrow> le (sem s) (sem t)))"

text \<open>The datums with a value among the cells.\<close>

definition valued :: "('d \<Rightarrow> 'v option) \<Rightarrow> 'd cell set \<Rightarrow> 'd set" where
  "valued val cells = {d. CDatum d \<in> cells \<and> val d \<noteq> None}"

lemma valued_insert [simp]:
  "valued val {} = {}" "valued val (insert CNull cells) = valued val cells"
  "valued val (insert (CDatum d) cells) = (if val d = None then valued val cells else insert d (valued val cells))"
  by (auto simp: valued_def)

definition bounds_track :: "'d pg_type_api \<Rightarrow> ('d \<Rightarrow> 'v option) \<Rightarrow> 'd InlineColStatsEntry \<Rightarrow> 'd set \<Rightarrow> bool" where
  "bounds_track pg val e V \<longleftrightarrow>
     (if e_value_cmp e
      then e_texts e = None \<and>
           (case e_values e of
              None \<Rightarrow> V = {}
            | Some r \<Rightarrow> val (fst r) \<noteq> None \<and> val (snd r) \<noteq> None \<and> range_ok (the (e_compare e)) r V)
      else e_values e = None \<and>
           (case e_texts e of None \<Rightarrow> V = {} | Some r \<Rightarrow> range_ok strcmp r (pg_output_session pg (e_source_type e) ` V)))"

lemma bounds_track_flags [simp]:
  "bounds_track pg val (e\<lparr>e_observed_null := b\<rparr>) V = bounds_track pg val e V"
  "bounds_track pg val (e\<lparr>e_observed_nan := b\<rparr>) V = bounds_track pg val e V"
  by (simp_all add: bounds_track_def cong: if_cong option.case_cong)

definition tracks :: "'d pg_type_api \<Rightarrow> ('d \<Rightarrow> 'v option) \<Rightarrow> 'd InlineColStatsEntry \<Rightarrow> 'd cell set \<Rightarrow> bool" where
  "tracks pg val e cells \<longleftrightarrow>
     (CNull \<in> cells \<longrightarrow> e_observed_null e) \<and>
     (e_bounds_safe e \<and> e_ready e \<longrightarrow>
        ((\<exists>d. CDatum d \<in> cells \<and> val d = None) \<longrightarrow> e_observed_nan e) \<and> bounds_track pg val e (valued val cells))"

text \<open>The fields that \<^verbatim>\<open>SetupInlineColStatsColumn\<close> has fixed.\<close>

definition same_setup :: "'d InlineColStatsEntry \<Rightarrow> 'd InlineColStatsEntry \<Rightarrow> bool" where
  "same_setup e e' \<longleftrightarrow> e_column_id e' = e_column_id e \<and> e_column_type e' = e_column_type e \<and>
     e_bounds_safe e' = e_bounds_safe e \<and> e_value_cmp e' = e_value_cmp e \<and> e_floating e' = e_floating e \<and>
     e_ready e' = e_ready e \<and> e_source_type e' = e_source_type e \<and> e_compare e' = e_compare e"

lemma same_setup_sem: "same_setup e e' \<Longrightarrow> column_sem pg e' sem le val = column_sem pg e sem le val"
  by (simp add: same_setup_def column_sem_def IsNaN_def cong: if_cong)

lemma same_setup_observe: "same_setup e (observe_entry pg v e)"
  by (simp add: same_setup_def observe_entry_def Let_def split: option.splits)

lemma tracks_null: "tracks pg val e cells \<Longrightarrow> tracks pg val (e\<lparr>e_observed_null := True\<rparr>) (insert CNull cells)"
  by (auto simp: tracks_def)

lemma bounds_track_datum:
  assumes t: "bounds_track pg val e V" and s: "column_sem pg e sem le val" and v: "val v \<noteq> None"
    and e: "e_bounds_safe e" "e_ready e" "\<not> IsNaN pg e v" "e_value_cmp e \<longrightarrow> e_compare e \<noteq> None"
  shows "bounds_track pg val (observe_entry pg v e) (insert v V)"
proof (cases "e_value_cmp e")
  case True
  then obtain c where c: "e_compare e = Some c" using e(4) by blast
  have w: "three_way c" using s c True by (auto simp: column_sem_def)
  have ends: "val (fst (widen c v r)) \<noteq> None \<and> val (snd (widen c v r)) \<noteq> None" if "val (fst r) \<noteq> None" "val (snd r) \<noteq> None" for r
    using that v by (cases r) auto
  show ?thesis
    using t v e c True ends three_way.range_ok_single [OF w, of v] three_way.range_ok_widen [OF w, of _ V v]
    by (cases "e_values e") (simp_all add: bounds_track_def observe_entry_def)
next
  case False
  then show ?thesis
    using t v e strcmp_order.range_ok_single strcmp_order.range_ok_widen_else
    by (cases "e_texts e") (simp_all add: bounds_track_def observe_entry_def Let_def)
qed

lemma tracks_datum:
  assumes t: "tracks pg val e cells" and s: "column_sem pg e sem le val"
    and r: "e_ready e \<and> e_value_cmp e \<longrightarrow> e_compare e \<noteq> None"
  shows "tracks pg val (observe_entry pg v e) (insert (CDatum v) cells)"
proof -
  note same = same_setup_observe [of e pg v, unfolded same_setup_def]
  have nulls: "e_observed_null (observe_entry pg v e) = e_observed_null e"
    by (simp add: observe_entry_def Let_def split: option.splits)
  have nan: "IsNaN pg e v \<longleftrightarrow> val v = None" using s by (simp add: column_sem_def)
  show ?thesis
  proof (cases "e_bounds_safe e \<and> e_ready e")
    case False
    then show ?thesis using t same by (auto simp: tracks_def nulls)
  next
    case True
    have n: "e_observed_nan (observe_entry pg v e) \<longleftrightarrow> e_observed_nan e \<or> IsNaN pg e v"
      using True by (simp add: observe_entry_def Let_def split: option.splits)
    have "observe_entry pg v e = e\<lparr>e_observed_nan := True\<rparr>" if "IsNaN pg e v"
      using that True by (simp add: observe_entry_def)
    then have "bounds_track pg val (observe_entry pg v e) (valued val (insert (CDatum v) cells))"
      using bounds_track_datum [OF _ s _ _ _ _ ] t True r nan by (auto simp: tracks_def)
    then show ?thesis using t True same n nan by (auto simp: tracks_def nulls)
  qed
qed

text \<open>The values of a batch arrive row by row: a sequence of cells, each with its column.\<close>

definition observe_all :: "'d pg_type_api \<Rightarrow> (int \<times> 'd cell) list \<Rightarrow> 'd InlineColStats option \<Rightarrow> 'd InlineColStats option" where
  "observe_all pg events st = fold (\<lambda>(i, c). observe_cell pg i c) events st"

definition column_tracks ::
  "'d pg_type_api \<Rightarrow> ('d \<Rightarrow> 'v option) \<Rightarrow> int \<Rightarrow> nat \<Rightarrow> 'd InlineColStatsEntry \<Rightarrow> 'd cell set \<Rightarrow> 'd InlineColStats \<Rightarrow> bool" where
  "column_tracks pg val n i e0 cells st \<longleftrightarrow> source_count st = n \<and> i < length (entries st) \<and> int i < n \<and>
     same_setup e0 (entries st ! i) \<and> tracks pg val (entries st ! i) cells"

lemma same_setup_trans: "same_setup a b \<Longrightarrow> same_setup b c \<Longrightarrow> same_setup a c"
  by (simp add: same_setup_def)

lemma column_tracks_step:
  assumes t: "column_tracks pg val n i e0 cells st" and s: "column_sem pg e0 sem le val"
    and r: "e_ready e0 \<and> e_value_cmp e0 \<longrightarrow> e_compare e0 \<noteq> None"
  shows "\<exists>st'. observe_cell pg j c (Some st) = Some st' \<and>
    column_tracks pg val n i e0 (if j = int i then insert c cells else cells) st'"
proof (cases "j = int i")
  case False
  then have "nat j \<noteq> i" if "0 \<le> j" using that by auto
  then show ?thesis using False t
    by (cases c) (auto simp: ObserveInlineColStatsNull_def ObserveInlineColStatsDatum_def on_column_def column_tracks_def)
next
  case True
  let ?e = "entries st ! i"
  have e: "same_setup e0 ?e" and tr: "tracks pg val ?e cells" using t by (simp_all add: column_tracks_def)
  show ?thesis
  proof (cases c)
    case CNull
    then show ?thesis using True t e tracks_null [OF tr]
      by (auto simp: ObserveInlineColStatsNull_def on_column_def column_tracks_def same_setup_def)
  next
    case (CDatum d)
    have "column_sem pg ?e sem le val" using same_setup_sem [OF e] s by blast
    then have "tracks pg val (observe_entry pg d ?e) (insert c cells)"
      using tracks_datum [OF tr, of sem le d] r e CDatum by (simp add: same_setup_def)
    then show ?thesis using True t CDatum same_setup_trans [OF e same_setup_observe]
      by (auto simp: ObserveInlineColStatsDatum_def on_column_def column_tracks_def)
  qed
qed

lemma column_tracks_all:
  assumes "column_tracks pg val n i e0 cells st" "column_sem pg e0 sem le val"
    "e_ready e0 \<and> e_value_cmp e0 \<longrightarrow> e_compare e0 \<noteq> None"
  shows "\<exists>st'. observe_all pg events (Some st) = Some st' \<and>
    column_tracks pg val n i e0 (cells \<union> {c. (int i, c) \<in> set events}) st'"
  using assms(1)
proof (induction events arbitrary: cells st)
  case (Cons ev events)
  obtain j c where ev: "ev = (j, c)" by (cases ev)
  obtain st1 where st1: "observe_cell pg j c (Some st) = Some st1"
    "column_tracks pg val n i e0 (if j = int i then insert c cells else cells) st1"
    using column_tracks_step [OF Cons.prems assms(2,3)] by blast
  have "(if j = int i then insert c cells else cells) \<union> {x. (int i, x) \<in> set events} = cells \<union> {x. (int i, x) \<in> set (ev # events)}"
    using ev by auto
  with Cons.IH [OF st1(2)] st1(1) ev show ?case by (auto simp: observe_all_def)
qed (simp add: observe_all_def)

lemma tracks_contributes:
  assumes t: "tracks pg val e cells" and s: "column_sem pg e sem le val"
    and r: "e_ready e \<and> e_value_cmp e \<longrightarrow> e_compare e \<noteq> None"
  shows "contributes sem le val (finalize_entry pg False e) cells"
proof -
  let ?c = "finalize_entry pg False e"
  have nan: "nan_known ?c \<and> observed_nan ?c" if "CDatum d \<in> cells" "val d = None" for d
    using that t s by (auto simp: tracks_def column_sem_def finalize_entry_def Let_def IsNaN_def)
  have bounds: "in_has_min ?c \<and> in_has_max ?c \<and> le (sem (in_min_value ?c)) v \<and> le v (sem (in_max_value ?c))"
    if b: "bounds_safe ?c" and d: "CDatum d \<in> cells" "val d = Some v" for d v
  proof -
    have e: "e_bounds_safe e" "e_ready e" using b by (simp_all add: finalize_entry_def Let_def)
    have tr: "bounds_track pg val e (valued val cells)" and dv: "d \<in> valued val cells"
      using t e d by (auto simp: tracks_def valued_def)
    show ?thesis
    proof (cases "e_value_cmp e")
      case True
      then obtain c where c: "e_compare e = Some c" using r e by blast
      obtain lo hi where v: "e_values e = Some (lo, hi)" "e_texts e = None"
        using tr True dv by (auto simp: bounds_track_def split: option.splits)
      obtain vl vh where "val lo = Some vl" "val hi = Some vh" and "c lo d \<le> 0" "c d hi \<le> 0"
        using tr True v c dv by (auto simp: bounds_track_def range_ok_def)
      then show ?thesis using s True c v d(2) by (simp add: column_sem_def finalize_entry_def Let_def)
    next
      case False
      obtain lo hi where v: "e_values e = None" "e_texts e = Some (lo, hi)"
        using tr False dv by (auto simp: bounds_track_def split: option.splits)
      then show ?thesis using s False v d(2) tr dv
        by (auto simp: column_sem_def finalize_entry_def Let_def bounds_track_def range_ok_def) metis+
    qed
  qed
  have "CNull \<in> cells \<longrightarrow> observed_null ?c" using t by (simp add: tracks_def finalize_entry_def Let_def)
  with nan bounds show ?thesis unfolding contributes_def by blast
qed

lemma setup_all_nth:
  assumes "source_count st = int (length srcs)"
  shows "\<exists>st'. setup_all pg srcs (Some st) = Some st' \<and> source_count st' = source_count st \<and>
    length (entries st') = length (entries st) \<and>
    (\<forall>i < length (entries st). entries st' ! i = (if i < length srcs then setup_entry pg (srcs ! i) (entries st ! i) else entries st ! i))"
proof -
  have "\<exists>st'. fold (\<lambda>i. SetupInlineColStatsColumn pg (int i) (srcs ! i)) [0..<k] (Some st) = Some st' \<and>
      source_count st' = source_count st \<and> length (entries st') = length (entries st) \<and>
      (\<forall>i < length (entries st). entries st' ! i = (if i < k then setup_entry pg (srcs ! i) (entries st ! i) else entries st ! i))"
    if "k \<le> length srcs" for k
    using that
  proof (induction k)
    case (Suc k)
    then obtain st1 where st1: "fold (\<lambda>i. SetupInlineColStatsColumn pg (int i) (srcs ! i)) [0..<k] (Some st) = Some st1"
      "source_count st1 = source_count st" "length (entries st1) = length (entries st)"
      "\<forall>i < length (entries st). entries st1 ! i = (if i < k then setup_entry pg (srcs ! i) (entries st ! i) else entries st ! i)"
      by auto
    let ?st2 = "if k < length (entries st1) then st1\<lparr>entries := (entries st1)[k := setup_entry pg (srcs ! k) (entries st1 ! k)]\<rparr> else st1"
    have "SetupInlineColStatsColumn pg (int k) (srcs ! k) (Some st1) = Some ?st2"
      using st1(2) Suc.prems assms by (simp add: SetupInlineColStatsColumn_def on_column_def)
    then show ?case
      using st1 by (intro exI [of _ ?st2]) (auto simp: nth_list_update less_Suc_eq)
  qed simp
  from this [of "length srcs"] show ?thesis by (simp add: setup_all_def)
qed

lemma created_fresh:
  assumes "CreateInlineColStats types t n rows = Inr st" "i < length (entries st)"
  shows "source_count st = n" "e_values (entries st ! i) = None" "e_texts (entries st ! i) = None"
    "\<not> e_ready (entries st ! i)" "e_floating (entries st ! i) \<longrightarrow> e_bounds_safe (entries st ! i)"
  using assms
  by (auto simp: CreateInlineColStats_def Let_def new_entry_def GetTypeProperties_def split: option.splits if_splits sum.splits dl_exn.splits)

lemma setup_entry_facts:
  "e_values (setup_entry pg src e) = e_values e" "e_texts (setup_entry pg src e) = e_texts e"
  "\<not> e_ready e \<Longrightarrow> e_ready (setup_entry pg src e) \<and> e_value_cmp (setup_entry pg src e) \<longrightarrow> e_compare (setup_entry pg src e) \<noteq> None"
  by (auto simp: setup_entry_def Let_def split: option.splits)

lemma tracks_fresh: "e_values e = None \<Longrightarrow> e_texts e = None \<Longrightarrow> tracks pg val e {}"
  by (simp add: tracks_def bounds_track_def)

lemma accumulated:
  assumes "CreateInlineColStats types t (int (length srcs)) rows = Inr st0" "i < length srcs" "i < length (entries st0)"
    "setup_all pg srcs (Some st0) = Some st1" "column_sem pg (entries st1 ! i) sem le val"
  shows "\<exists>st2. observe_all pg events (Some st1) = Some st2 \<and> i < length (entries st2) \<and>
    contributes sem le val (FinalizeInlineColStats pg (Some st2) ! i) {c. (int i, c) \<in> set events}"
proof -
  note F = created_fresh [OF assms(1,3)]
  have s1: "source_count st1 = int (length srcs)" "i < length (entries st1)" "entries st1 ! i = setup_entry pg (srcs ! i) (entries st0 ! i)"
    using setup_all_nth [OF F(1), of pg] assms(2,3,4) F(1) by auto
  let ?e = "entries st1 ! i"
  have r: "e_ready ?e \<and> e_value_cmp ?e \<longrightarrow> e_compare ?e \<noteq> None" using setup_entry_facts(3) [OF F(4)] s1(3) by metis
  have "column_tracks pg val (int (length srcs)) i ?e {} st1"
    using s1 assms(2) F(2,3) by (auto simp: column_tracks_def same_setup_def setup_entry_facts tracks_fresh)
  from column_tracks_all [OF this assms(5) r, of events] obtain st2 where
    st2: "observe_all pg events (Some st1) = Some st2" "column_tracks pg val (int (length srcs)) i ?e {c. (int i, c) \<in> set events} st2"
    by auto
  let ?e2 = "entries st2 ! i"
  have e2: "same_setup ?e ?e2" "tracks pg val ?e2 {c. (int i, c) \<in> set events}" "i < length (entries st2)" "source_count st2 = int (length srcs)"
    using st2(2) by (simp_all add: column_tracks_def)
  have "column_sem pg ?e2 sem le val" using same_setup_sem [OF e2(1)] assms(5) by blast
  then have "contributes sem le val (finalize_entry pg False ?e2) {c. (int i, c) \<in> set events}"
    using tracks_contributes [OF e2(2)] r e2(1) by (simp add: same_setup_def)
  then show ?thesis using st2(1) e2(3,4) assms(2) by (auto simp: FinalizeInlineColStats_def nth_enumerate_eq)
qed

lemma observe_all_Some:
  "\<exists>st'. observe_all pg events (Some st) = Some st' \<and> source_count st' = source_count st \<and> length (entries st') = length (entries st)"
proof (induction events arbitrary: st)
  case (Cons ev events)
  have on: "\<exists>st1. on_column j f (Some st) = Some st1 \<and> source_count st1 = source_count st \<and> length (entries st1) = length (entries st)" for j f
    by (simp add: on_column_def)
  obtain st1 where "observe_cell pg (fst ev) (snd ev) (Some st) = Some st1" "source_count st1 = source_count st"
    "length (entries st1) = length (entries st)"
    using on by (cases "snd ev") (auto simp: ObserveInlineColStatsNull_def ObserveInlineColStatsDatum_def)
  then show ?case using Cons.IH [of st1] by (auto simp: observe_all_def split: prod.splits)
qed (simp add: observe_all_def)

text \<open>C12: the accumulator tells the truth about a batch. Whatever rows arrive, every contribution that
  \<^verbatim>\<open>FinalizeInlineColStats\<close> returns covers the values that were observed for its column: where it
  claims safe bounds they enclose every value, an unseen bound means that there is no value, and nulls
  and NaNs are flagged. Columns below the top level are marked for invalidation.\<close>

theorem accumulated_stats_contribute:
  assumes "CreateInlineColStats types t (int (length srcs)) rows = Inr st0" "setup_all pg srcs (Some st0) = Some st1"
    "\<forall>i < length srcs. i < length (entries st1) \<longrightarrow> column_sem pg (entries st1 ! i) (sem i) (le i) (val i)"
  shows "\<exists>st2. observe_all pg events (Some st1) = Some st2 \<and>
    (\<forall>i < length (FinalizeInlineColStats pg (Some st2)).
       contributes (sem i) (le i) (val i) (FinalizeInlineColStats pg (Some st2) ! i) {c. (int i, c) \<in> set events})"
proof -
  obtain st2 where st2: "observe_all pg events (Some st1) = Some st2" "source_count st2 = source_count st1"
    "length (entries st2) = length (entries st1)" using observe_all_Some by blast
  have src: "source_count st0 = int (length srcs)" using assms(1)
    by (auto simp: CreateInlineColStats_def Let_def split: option.splits if_splits)
  have st1: "source_count st1 = int (length srcs)" "length (entries st1) = length (entries st0)"
    using setup_all_nth [OF src, of pg] assms(2) src by auto
  have "contributes (sem i) (le i) (val i) (FinalizeInlineColStats pg (Some st2) ! i) {c. (int i, c) \<in> set events}"
    if "i < length (FinalizeInlineColStats pg (Some st2))" for i
  proof -
    have i: "i < length (entries st2)" using that by (simp add: FinalizeInlineColStats_def)
    show ?thesis
    proof (cases "i < length srcs")
      case True
      then show ?thesis using accumulated [OF assms(1) True _ assms(2), of "sem i" "le i" "val i" events] assms(3) i st1(2) st2 by auto
    next
      case False
      then show ?thesis using i st1(1) st2(2)
        by (simp add: contributes_def FinalizeInlineColStats_def nth_enumerate_eq finalize_entry_def Let_def)
    qed
  qed
  with st2(1) show ?thesis by blast
qed

text \<open>A \<^verbatim>\<open>VARCHAR\<close> column with the byte order, beside a nested column.\<close>

definition varchar_pg :: "string pg_type_api" where
  "varchar_pg = \<lparr>pg_output_iso = (\<lambda>_ s. s), pg_output_session = (\<lambda>_ s. s), pg_cmp = (\<lambda>_. Some strcmp), pg_isnan = (\<lambda>_. False)\<rparr>"

definition varchar_types :: ducklake_types where
  "varchar_types = \<lparr>dt_id = (\<lambda>_. Inr LT_VARCHAR), dt_RequiresValueComparison = (\<lambda>_. False)\<rparr>"

definition varchar_columns :: "column_row list" where
  "varchar_columns =
    [\<lparr>co_table = 1, co_column = Some 2, co_end = None, co_type = Some ''varchar'', co_parent = Some 1, co_order = Some 2\<rparr>,
     \<lparr>co_table = 1, co_column = Some 1, co_end = None, co_type = Some ''varchar'', co_parent = None, co_order = Some 1\<rparr>]"

definition varchar_stats :: "string InlineColStats" where
  "varchar_stats = projr (CreateInlineColStats varchar_types 1 1 (Some varchar_columns))"

definition varchar_ready :: "string InlineColStats" where
  "varchar_ready = the (setup_all varchar_pg [25] (Some varchar_stats))"

definition varchar_events :: "(int \<times> string cell) list" where
  "varchar_events = [(0, CDatum ''k''), (0, CNull), (0, CDatum ''a''), (0, CDatum ''f'')]"

definition varchar_batch :: "NativeInlineColumnStat list" where
  "varchar_batch = FinalizeInlineColStats varchar_pg (observe_all varchar_pg varchar_events (Some varchar_ready))"

lemma varchar_created: "CreateInlineColStats varchar_types 1 1 (Some varchar_columns) = Inr varchar_stats"
  "setup_all varchar_pg [25] (Some varchar_stats) = Some varchar_ready"
  "length (entries varchar_ready) = 2" "\<not> e_value_cmp (entries varchar_ready ! 0)" "\<not> e_floating (entries varchar_ready ! 0)"
proof -
  have "\<not> isl (CreateInlineColStats varchar_types 1 1 (Some varchar_columns) :: werror + string InlineColStats)" by code_simp
  then show "CreateInlineColStats varchar_types 1 1 (Some varchar_columns) = Inr varchar_stats"
    by (simp add: varchar_stats_def)
  have "\<not> Option.is_none (setup_all varchar_pg [25] (Some varchar_stats))" by code_simp
  then show "setup_all varchar_pg [25] (Some varchar_stats) = Some varchar_ready"
    by (simp add: varchar_ready_def Option.is_none_def)
  show "length (entries varchar_ready) = 2" "\<not> e_value_cmp (entries varchar_ready ! 0)" "\<not> e_floating (entries varchar_ready ! 0)"
    by code_simp+
qed

lemma varchar_batch_eval: "map (\<lambda>c. (in_column_id c, invalidate_all c, in_min_value c, in_max_value c, observed_null c)) varchar_batch =
    [(1, False, ''a'', ''k'', True), (2, True, [], [], False)]"
  by code_simp

lemma varchar_sem: "column_sem varchar_pg (entries varchar_ready ! 0) id (\<lambda>s t. strcmp s t \<le> 0) Some"
  using varchar_created(4,5) by (simp add: column_sem_def varchar_pg_def IsNaN_def)

theorem accumulated_stats_contribute_witness:
  "contributes id (\<lambda>s t. strcmp s t \<le> 0) Some (varchar_batch ! 0) {CDatum ''k'', CNull, CDatum ''a'', CDatum ''f''}"
proof -
  have created: "CreateInlineColStats varchar_types 1 (int (length [25 :: oid])) (Some varchar_columns) = Inr varchar_stats"
    using varchar_created(1) by simp
  have sem: "\<forall>i < length [25 :: oid]. i < length (entries varchar_ready) \<longrightarrow>
    column_sem varchar_pg (entries varchar_ready ! i) id (\<lambda>s t. strcmp s t \<le> 0) Some"
    using varchar_sem by simp
  obtain st2 where st2: "observe_all varchar_pg varchar_events (Some varchar_ready) = Some st2"
    "\<forall>i < length (FinalizeInlineColStats varchar_pg (Some st2)). contributes id (\<lambda>s t. strcmp s t \<le> 0) Some
       (FinalizeInlineColStats varchar_pg (Some st2) ! i) {c. (int i, c) \<in> set varchar_events}"
    using accumulated_stats_contribute [OF created varchar_created(2) sem] by blast
  have batch: "FinalizeInlineColStats varchar_pg (Some st2) = varchar_batch" by (simp add: varchar_batch_def st2(1))
  have "length varchar_batch = 2" by code_simp
  moreover have "{c. (int 0, c) \<in> set varchar_events} = {CDatum ''k'', CNull, CDatum ''a'', CDatum ''f''}"
    unfolding varchar_events_def by auto
  ultimately show ?thesis using spec [OF st2(2), of 0] unfolding batch by simp
qed

section \<open>The merge\<close>

text \<open>What the writer relies on in DuckLake for a column type: the order is a preorder, the canonical text
  of a bound denotes the same value, a persisted bound is kept by the conversion, and merging takes a
  bound only if both sides have one, and then one that suits both; a side without valid values
  changes nothing.\<close>

definition merge_laws :: "'ty ducklake_api \<Rightarrow> 'ty \<Rightarrow> (string \<Rightarrow> 'v) \<Rightarrow> ('v \<Rightarrow> 'v \<Rightarrow> bool) \<Rightarrow> bool" where
  "merge_laws api ty sem le \<longleftrightarrow>
     (\<forall>x y z. le x y \<and> le y z \<longrightarrow> le x z) \<and>
     (\<forall>t s. dl_DefaultCastToString api ty t = Inr s \<longrightarrow> sem s = sem t) \<and>
     (\<forall>g c. dl_FromGlobalStats api ty g = Inr c \<longrightarrow>
        (\<forall>m. gs_min g = Some m \<longrightarrow> dc_min c = Some m \<and> dc_any_valid c) \<and>
        (\<forall>m. gs_max g = Some m \<longrightarrow> dc_max c = Some m \<and> dc_any_valid c)) \<and>
     (\<forall>a b c. dl_MergeStats api ty a b = Inr c \<longrightarrow>
        (\<not> dc_any_valid b \<longrightarrow> dc_min c = dc_min a \<and> dc_max c = dc_max a) \<and>
        (dc_any_valid b \<longrightarrow>
           (\<forall>s. dc_min c = Some s \<longrightarrow> (\<exists>m. dc_min b = Some m \<and> le (sem s) (sem m)) \<and>
              (dc_any_valid a \<longrightarrow> (\<exists>m. dc_min a = Some m \<and> le (sem s) (sem m)))) \<and>
           (\<forall>s. dc_max c = Some s \<longrightarrow> (\<exists>m. dc_max b = Some m \<and> le (sem m) (sem s)) \<and>
              (dc_any_valid a \<longrightarrow> (\<exists>m. dc_max a = Some m \<and> le (sem m) (sem s))))))"

lemma merge_lawsD:
  assumes "merge_laws api ty sem le"
  shows "le x y \<Longrightarrow> le y z \<Longrightarrow> le x z"
    "dl_DefaultCastToString api ty t = Inr u \<Longrightarrow> sem u = sem t"
    "dl_FromGlobalStats api ty g = Inr c \<Longrightarrow> gs_min g = Some m \<Longrightarrow> dc_min c = Some m \<and> dc_any_valid c"
    "dl_FromGlobalStats api ty g = Inr c \<Longrightarrow> gs_max g = Some m \<Longrightarrow> dc_max c = Some m \<and> dc_any_valid c"
    "dl_MergeStats api ty a b = Inr c \<Longrightarrow> \<not> dc_any_valid b \<Longrightarrow> dc_min c = dc_min a \<and> dc_max c = dc_max a"
    "dl_MergeStats api ty a b = Inr c \<Longrightarrow> dc_any_valid b \<Longrightarrow> dc_min c = Some s \<Longrightarrow>
       (\<exists>m. dc_min b = Some m \<and> le (sem s) (sem m)) \<and> (dc_any_valid a \<longrightarrow> (\<exists>m. dc_min a = Some m \<and> le (sem s) (sem m)))"
    "dl_MergeStats api ty a b = Inr c \<Longrightarrow> dc_any_valid b \<Longrightarrow> dc_max c = Some s \<Longrightarrow>
       (\<exists>m. dc_max b = Some m \<and> le (sem m) (sem s)) \<and> (dc_any_valid a \<longrightarrow> (\<exists>m. dc_max a = Some m \<and> le (sem m) (sem s)))"
  using assms unfolding merge_laws_def by blast+

lemma optional_cast_Inr:
  assumes "optional_cast api ty present v = Inr m" "merge_laws api ty sem le"
  shows "(m = None \<longleftrightarrow> \<not> present) \<and> (\<forall>s. m = Some s \<longrightarrow> sem s = sem v)"
  using assms(1) merge_lawsD(2) [OF assms(2)] by (auto simp: optional_cast_def andthen_Inr_iff split: if_splits)

text \<open>The merged bounds hold for the old values, where there was a bound, and for the values of the batch.\<close>

lemma merge_in_ducklake_bounds:
  assumes m: "merge_in_ducklake api inc g = Inr c" and ty: "dl_FromString api (in_column_type inc) = Inr ty"
    and laws: "merge_laws api ty sem le"
    and old: "in_bounds sem le (gs_min g) (gs_max g) V" and new: "\<forall>v \<in> W.
      in_has_min inc \<and> in_has_max inc \<and> le (sem (in_min_value inc)) v \<and> le v (sem (in_max_value inc))"
  shows "dc_min c = Some s \<Longrightarrow> v \<in> W \<or> v \<in> V \<and> gs_min g \<noteq> None \<Longrightarrow> le (sem s) v"
    and "dc_max c = Some s \<Longrightarrow> v \<in> W \<or> v \<in> V \<and> gs_max g \<noteq> None \<Longrightarrow> le v (sem s)"
proof -
  obtain cur mn mx where cur: "dl_FromGlobalStats api ty g = Inr cur"
    and mn: "optional_cast api ty (in_has_min inc) (in_min_value inc) = Inr mn"
    and mx: "optional_cast api ty (in_has_max inc) (in_max_value inc) = Inr mx"
    and c: "dl_MergeStats api ty cur \<lparr>dc_min = mn, dc_max = mx, dc_any_valid = (mn \<noteq> None \<or> mx \<noteq> None),
          dc_null_count = Some (if observed_null inc then 1 else 0),
          dc_contains_nan = (if nan_known inc then Some (observed_nan inc) else None)\<rparr> = Inr c"
    using m ty by (auto simp: merge_in_ducklake_def andthen_Inr_iff)
  note L = merge_lawsD [OF laws] and N = optional_cast_Inr [OF mn laws] and X = optional_cast_Inr [OF mx laws]
  have valid: "mn \<noteq> None \<or> mx \<noteq> None" if "v \<in> W" for v using bspec [OF new that] N by auto
  {
    assume s: "dc_min c = Some s" and v: "v \<in> W \<or> v \<in> V \<and> gs_min g \<noteq> None"
    show "le (sem s) v"
    proof (cases "v \<in> W")
      case True
      from L(6) [OF c _ s] valid [OF True] obtain t where "mn = Some t" "le (sem s) (sem t)" by auto
      then show ?thesis using N bspec [OF new True] L(1) by metis
    next
      case False
      then obtain t where t: "gs_min g = Some t" "v \<in> V" using v by auto
      have "le (sem t) v" using old t by (simp add: in_bounds_def)
      moreover have "sem s = sem t \<or> le (sem s) (sem t)"
        using L(3) [OF cur t(1)] L(5) [OF c] L(6) [OF c _ s] s by fastforce
      ultimately show ?thesis using L(1) by metis
    qed
  }
  {
    assume s: "dc_max c = Some s" and v: "v \<in> W \<or> v \<in> V \<and> gs_max g \<noteq> None"
    show "le v (sem s)"
    proof (cases "v \<in> W")
      case True
      from L(7) [OF c _ s] valid [OF True] obtain t where "mx = Some t" "le (sem t) (sem s)" by auto
      then show ?thesis using X bspec [OF new True] L(1) by metis
    next
      case False
      then obtain t where t: "gs_max g = Some t" "v \<in> V" using v by auto
      have "le v (sem t)" using old t by (simp add: in_bounds_def)
      moreover have "sem s = sem t \<or> le (sem t) (sem s)"
        using L(4) [OF cur t(1)] L(5) [OF c] L(7) [OF c _ s] s by fastforce
      ultimately show ?thesis using L(1) by metis
    qed
  }
qed

text \<open>What a merged entry writes into a row.\<close>

lemma covers_apply_merged:
  "covers sem le val (apply_merged m row) cells \<longleftrightarrow>
     in_bounds sem le (if mc_has_min m then mc_min_value m else None) (if mc_has_max m then mc_max_value m else None)
       {v. \<exists>d. CDatum d \<in> cells \<and> val d = Some v} \<and>
     (mc_has_contains_null m \<and> \<not> mc_contains_null m \<longrightarrow> CNull \<notin> cells) \<and>
     (mc_has_contains_nan m \<and> \<not> mc_contains_nan m \<longrightarrow> (\<forall>d. CDatum d \<in> cells \<longrightarrow> val d \<noteq> None))"
  by (auto simp: covers_def apply_merged_def)

lemma covers_zero_merged: "covers sem le val (apply_merged (zero_merged cid) row) cells"
  by (simp add: covers_apply_merged zero_merged_def in_bounds_def)

lemma contributes_nan:
  "contributes sem le val c cells \<Longrightarrow> \<not> invalidate_all c \<Longrightarrow> CDatum d \<in> cells \<Longrightarrow> val d = None \<Longrightarrow> nan_known c \<and> observed_nan c"
  unfolding contributes_def by blast

lemma MergeColumnStat_covers:
  assumes m: "MergeColumnStat api mem inc (cs_min row) (cs_max row) (cs_contains_null row) (cs_contains_nan row)
      (cs_extra row) initializing (zero_merged cid) = (m, res)" "res \<noteq> MergeOUT_OF_MEMORY"
    and laws: "\<And>ty. dl_FromString api (in_column_type inc) = Inr ty \<Longrightarrow> merge_laws api ty sem le"
    and old: "covers sem le val row prior" and new: "contributes sem le val inc cells"
    and first: "initializing \<Longrightarrow> prior = {}"
  shows "covers sem le val (apply_merged m row') (prior \<union> cells)"
proof (cases "invalidate_all inc")
  case True
  then show ?thesis using m by (auto simp: MergeColumnStat_def covers_zero_merged)
next
  case False
  let ?V = "{v. \<exists>d. CDatum d \<in> prior \<and> val d = Some v}" and ?W = "{v. \<exists>d. CDatum d \<in> cells \<and> val d = Some v}"
  let ?g = "\<lparr>gs_column_id = in_column_id inc, gs_min = cs_min row, gs_max = cs_max row,
     gs_contains_null = cs_contains_null row, gs_contains_nan = cs_contains_nan row, gs_extra = cs_extra row\<rparr>"
  have flags: "mc_has_contains_null m = (initializing \<or> cs_contains_null row \<noteq> None)"
    "mc_contains_null m = (cs_contains_null row = Some True \<or> observed_null inc)"
    "mc_has_contains_nan m = (cs_contains_nan row \<noteq> None)"
    "mc_contains_nan m = (cs_contains_nan row = Some True \<or> (nan_known inc \<and> observed_nan inc))"
    using m False
    by (auto simp: MergeColumnStat_def store_bounds_def Let_def split: if_splits sum.splits dl_exn.splits option.splits)
  have "in_bounds sem le (if mc_has_min m then mc_min_value m else None) (if mc_has_max m then mc_max_value m else None) (?V \<union> ?W)"
  proof (cases "bounds_safe inc \<and> (\<exists>c. merge_in_ducklake api inc ?g = Inr c)")
    case no: False
    then have "\<not> mc_has_min m" "\<not> mc_has_max m"
      using m False by (auto simp: MergeColumnStat_def Let_def zero_merged_def split: if_splits sum.splits dl_exn.splits)
    then show ?thesis by (simp add: in_bounds_def)
  next
    case True
    then obtain c where b: "bounds_safe inc" and c: "merge_in_ducklake api inc ?g = Inr c" by blast
    obtain ty where ty: "dl_FromString api (in_column_type inc) = Inr ty"
      using c by (auto simp: merge_in_ducklake_def andthen_Inr_iff)
    have W: "\<forall>v \<in> ?W. in_has_min inc \<and> in_has_max inc \<and> le (sem (in_min_value inc)) v \<and> le v (sem (in_max_value inc))"
      using new b False unfolding contributes_def by blast
    have V: "in_bounds sem le (gs_min ?g) (gs_max ?g) ?V" using old by (simp add: covers_def)
    note B = merge_in_ducklake_bounds [OF c ty laws [OF ty] V W]
    have has: "mc_has_min m \<longrightarrow> mc_min_value m = dc_min c \<and> (initializing \<or> cs_min row \<noteq> None)"
      "mc_has_max m \<longrightarrow> mc_max_value m = dc_max c \<and> (initializing \<or> cs_max row \<noteq> None)"
      using m False b c
      by (auto simp: MergeColumnStat_def store_bounds_def CopyToMalloc_def Let_def split: if_splits option.splits)
    have V0: "initializing \<Longrightarrow> ?V = {}" using first by simp
    show ?thesis unfolding in_bounds_def
    proof (intro conjI allI impI ballI)
      fix t v assume t: "(if mc_has_min m then mc_min_value m else None) = Some t" and v: "v \<in> ?V \<union> ?W"
      then have h: "dc_min c = Some t" "initializing \<or> cs_min row \<noteq> None" using has(1) by (simp_all split: if_splits)
      have "v \<in> ?W \<or> v \<in> ?V \<and> gs_min ?g \<noteq> None" using h(2) v V0 by simp blast
      then show "le (sem t) v" by (rule B(1) [OF h(1)])
    next
      fix t v assume t: "(if mc_has_max m then mc_max_value m else None) = Some t" and v: "v \<in> ?V \<union> ?W"
      then have h: "dc_max c = Some t" "initializing \<or> cs_max row \<noteq> None" using has(2) by (simp_all split: if_splits)
      have "v \<in> ?W \<or> v \<in> ?V \<and> gs_max ?g \<noteq> None" using h(2) v V0 by simp blast
      then show "le v (sem t)" by (rule B(2) [OF h(1)])
    qed
  qed
  moreover have "{v. \<exists>d. CDatum d \<in> prior \<union> cells \<and> val d = Some v} = ?V \<union> ?W" by auto
  moreover have "CNull \<notin> prior \<union> cells" if "mc_has_contains_null m" "\<not> mc_contains_null m"
  proof -
    have "CNull \<notin> cells" using new False that(2) unfolding flags contributes_def by blast
    moreover have "CNull \<notin> prior"
      using old first that unfolding flags covers_def by (cases "cs_contains_null row") auto
    ultimately show ?thesis by simp
  qed
  moreover have "val d \<noteq> None" if "mc_has_contains_nan m" "\<not> mc_contains_nan m" "CDatum d \<in> prior \<union> cells" for d
  proof -
    have "cs_contains_nan row = Some False" using that(1,2) unfolding flags by auto
    then have "CDatum d \<in> prior \<Longrightarrow> val d \<noteq> None" using old by (simp add: covers_def)
    moreover have "CDatum d \<in> cells \<Longrightarrow> val d \<noteq> None" using contributes_nan [OF new False] that(2) unfolding flags by auto
    ultimately show ?thesis using that(3) by blast
  qed
  ultimately show ?thesis unfolding covers_apply_merged by simp
qed

lemma MoveMergedBoundsToContext_same: "MoveMergedBoundsToContext mem m = (m', True) \<Longrightarrow> m' = m"
  by (cases m; cases "mc_min_value m"; cases "mc_max_value m")
    (auto simp: MoveMergedBoundsToContext_def context_copy_def split: if_splits)

lemma prepare_column_merge:
  assumes "prepare_column api mem inc row initializing cid = Inr m"
  obtains m0 res where "(case inc of
         None \<Rightarrow> (zero_merged cid, MergeOK)
       | Some i \<Rightarrow> MergeColumnStat api mem i (cs_min row) (cs_max row) (cs_contains_null row)
                    (cs_contains_nan row) (cs_extra row) initializing (zero_merged cid)) = (m0, res)"
    "res \<noteq> MergeOUT_OF_MEMORY"
    "m = m0\<lparr>mc_changed := ColumnStatsChanged m0 (cs_min row) (cs_max row) (cs_contains_null row) (cs_contains_nan row) (cs_extra row)\<rparr>"
proof -
  obtain m0 res where m0: "(case inc of
         None \<Rightarrow> (zero_merged cid, MergeOK)
       | Some i \<Rightarrow> MergeColumnStat api mem i (cs_min row) (cs_max row) (cs_contains_null row)
                    (cs_contains_nan row) (cs_extra row) initializing (zero_merged cid)) = (m0, res)" by fastforce
  obtain moved ok where mv: "(if res = MergeOK then MoveMergedBoundsToContext mem m0 else (m0, True)) = (moved, ok)" by fastforce
  have "res \<noteq> MergeOUT_OF_MEMORY" "ok"
    "m = moved\<lparr>mc_changed := ColumnStatsChanged moved (cs_min row) (cs_max row) (cs_contains_null row) (cs_contains_nan row) (cs_extra row)\<rparr>"
    using assms unfolding prepare_column_def m0 Let_def prod.case mv by (simp_all split: if_splits)
  moreover from this(2) have "moved = m0" using mv MoveMergedBoundsToContext_same by (auto split: if_splits)
  ultimately show thesis using that m0 by simp
qed

lemma apply_merged_changed [simp]: "apply_merged (m\<lparr>mc_changed := b\<rparr>) row = apply_merged m row"
  by (simp add: apply_merged_def)

lemma prepare_column_covers:
  assumes p: "prepare_column api mem (Some inc) row initializing cid = Inr m"
    and laws: "\<And>ty. dl_FromString api (in_column_type inc) = Inr ty \<Longrightarrow> merge_laws api ty sem le"
    and old: "covers sem le val row prior" and new: "contributes sem le val inc cells"
    and first: "initializing \<Longrightarrow> prior = {}"
  shows "covers sem le val (apply_merged m row') (prior \<union> cells)"
proof (rule prepare_column_merge [OF p])
  fix m0 res
  assume m0: "(case Some inc of
         None \<Rightarrow> (zero_merged cid, MergeOK)
       | Some i \<Rightarrow> MergeColumnStat api mem i (cs_min row) (cs_max row) (cs_contains_null row)
                    (cs_contains_nan row) (cs_extra row) initializing (zero_merged cid)) = (m0, res)" "res \<noteq> MergeOUT_OF_MEMORY"
    and m: "m = m0\<lparr>mc_changed := ColumnStatsChanged m0 (cs_min row) (cs_max row) (cs_contains_null row) (cs_contains_nan row) (cs_extra row)\<rparr>"
  show ?thesis
    using MergeColumnStat_covers [OF m0(1) [unfolded option.case] m0(2) laws old new first] by (simp add: m)
qed

lemma MergeColumnStat_id: "MergeColumnStat api mem i a b c d e f m = (m0, res) \<Longrightarrow> mc_column_id m0 = mc_column_id m"
  by (auto simp: MergeColumnStat_def store_bounds_def Let_def split: if_splits sum.splits dl_exn.splits option.splits)

lemma prepare_column_facts:
  assumes "prepare_column api mem inc row initializing cid = Inr m"
  shows "mc_column_id m = cid" "\<not> mc_changed m \<Longrightarrow> apply_merged m row = row"
    "inc = None \<Longrightarrow> covers sem le val (apply_merged m row') cells"
proof -
  obtain m0 res where m0: "(case inc of
         None \<Rightarrow> (zero_merged cid, MergeOK)
       | Some i \<Rightarrow> MergeColumnStat api mem i (cs_min row) (cs_max row) (cs_contains_null row)
                    (cs_contains_nan row) (cs_extra row) initializing (zero_merged cid)) = (m0, res)"
    and m: "m = m0\<lparr>mc_changed := ColumnStatsChanged m0 (cs_min row) (cs_max row) (cs_contains_null row) (cs_contains_nan row) (cs_extra row)\<rparr>"
    by (rule prepare_column_merge [OF assms])
  show "mc_column_id m = cid" using m0 MergeColumnStat_id by (fastforce simp: m zero_merged_def split: option.splits)
  show "inc = None \<Longrightarrow> covers sem le val (apply_merged m row') cells" using m0 by (auto simp: m covers_zero_merged)
  assume "\<not> mc_changed m"
  then have "\<not> ColumnStatsChanged m0 (cs_min row) (cs_max row) (cs_contains_null row) (cs_contains_nan row) (cs_extra row)"
    by (simp add: m)
  then show "apply_merged m row = row"
    by (cases row; cases "cs_contains_null row"; cases "cs_contains_nan row")
      (auto simp: m ColumnStatsChanged_def apply_merged_def split: if_splits)
qed

section \<open>All columns of a table\<close>

text \<open>The meaning of each column of the table, by column id.\<close>

record ('d, 'v) meaning =
  m_sem :: "string \<Rightarrow> 'v"
  m_le :: "'v \<Rightarrow> 'v \<Rightarrow> bool"
  m_val :: "'d \<Rightarrow> 'v option"

definition column_covers :: "(u64 \<Rightarrow> ('d, 'v) meaning) \<Rightarrow> u64 \<Rightarrow> colstat_row \<Rightarrow> 'd cell set \<Rightarrow> bool" where
  "column_covers M c = covers (m_sem (M c)) (m_le (M c)) (m_val (M c))"

text \<open>The statistics rows of the table cover the cells of its columns.\<close>

definition table_covers :: "(u64 \<Rightarrow> ('d, 'v) meaning) \<Rightarrow> u64 \<Rightarrow> colstat_row list \<Rightarrow> (u64 \<Rightarrow> 'd cell set) \<Rightarrow> bool" where
  "table_covers M t rows cells \<longleftrightarrow>
     (\<forall>row \<in> set rows. cs_table row = uint t \<longrightarrow> (\<forall>c. cs_column row = Some (uint c) \<longrightarrow> column_covers M c row (cells c)))"

definition batch_contributes ::
  "'ty ducklake_api \<Rightarrow> (u64 \<Rightarrow> ('d, 'v) meaning) \<Rightarrow> NativeInlineColumnStat list \<Rightarrow> (u64 \<Rightarrow> 'd cell set) \<Rightarrow> bool" where
  "batch_contributes api M stats cells \<longleftrightarrow>
     (\<forall>inc \<in> set stats. let c = in_column_id inc in
        contributes (m_sem (M c)) (m_le (M c)) (m_val (M c)) inc (cells c) \<and>
        (\<forall>ty. dl_FromString api (in_column_type inc) = Inr ty \<longrightarrow> merge_laws api ty (m_sem (M c)) (m_le (M c))))"

lemma prepare_columns_all2: "prepare_columns f xs = Inr ms \<longleftrightarrow> list_all2 (\<lambda>x m. f x = Inr m) xs ms"
  by (induction xs arbitrary: ms) (auto simp: andthen_Inr_iff list_all2_Cons1)

lemma list_all2_members:
  assumes "list_all2 P xs ys"
  shows "y \<in> set ys \<Longrightarrow> \<exists>x \<in> set xs. P x y" "x \<in> set xs \<Longrightarrow> \<exists>y \<in> set ys. P x y"
  using assms by (induction rule: list_all2_induct) auto

lemma find_member: "find P xs = Some x \<Longrightarrow> x \<in> set xs \<and> P x"
  by (auto simp: find_Some_iff)

lemma FindIncoming_Some: "FindIncomingColumnStat stats c = Some inc \<Longrightarrow> inc \<in> set stats \<and> in_column_id inc = c"
  by (auto simp: FindIncomingColumnStat_def dest: find_member)

lemma prepare_one_covers:
  assumes "prepare_column api mem inc row initializing c = Inr m" "\<And>i. inc = Some i \<Longrightarrow> i \<in> set stats \<and> in_column_id i = c"
    "batch_contributes api M stats cells" "column_covers M c row (prior c)" "initializing \<Longrightarrow> prior c = {}"
  shows "column_covers M (mc_column_id m) (apply_merged m row') (prior (mc_column_id m) \<union> cells (mc_column_id m))"
proof (cases inc)
  case None
  then show ?thesis using prepare_column_facts(3) [OF assms(1)] by (simp add: column_covers_def)
next
  case (Some i)
  have i: "contributes (m_sem (M c)) (m_le (M c)) (m_val (M c)) i (cells c)"
    "\<And>ty. dl_FromString api (in_column_type i) = Inr ty \<Longrightarrow> merge_laws api ty (m_sem (M c)) (m_le (M c))"
    using assms(2) [OF Some] assms(3) by (auto simp: batch_contributes_def Let_def)
  show ?thesis
    using prepare_column_covers [OF assms(1) [unfolded Some] i(2) assms(4) [unfolded column_covers_def] i(1) assms(5)]
      prepare_column_facts(1) [OF assms(1)] by (simp add: column_covers_def)
qed

lemma prepared_update:
  assumes p: "PrepareMergedColumnStats api mem t stats False rows = Inr prepared"
    and b: "\<forall>row \<in> set rows. \<forall>n. cs_column row = Some n \<longrightarrow> bigint n"
    and c: "table_covers M t rows prior" "batch_contributes api M stats cells"
  shows "\<forall>m \<in> set prepared. column_covers M (mc_column_id m) (apply_merged m row') (prior (mc_column_id m) \<union> cells (mc_column_id m))"
    and "\<forall>row \<in> set rows. cs_table row = uint t \<longrightarrow> (\<exists>m \<in> set prepared. cs_column row = Some (uint (mc_column_id m)) \<and>
           (mc_changed m \<or> apply_merged m row = row))"
proof -
  let ?mine = "filter (\<lambda>row. cs_table row = uint t) rows"
  have a2: "list_all2 (\<lambda>row m. andthen (GetRequiredProtocolUInt64 (cs_column row) ''column_id'') (\<lambda>cid.
      prepare_column api mem (FindIncomingColumnStat stats cid) row False cid) = Inr m) ?mine prepared"
    using p by (simp add: PrepareMergedColumnStats_def prepare_columns_all2)
  have one: "\<exists>cid. cs_column row = Some (uint cid) \<and> prepare_column api mem (FindIncomingColumnStat stats cid) row False cid = Inr m"
    if "row \<in> set ?mine" "andthen (GetRequiredProtocolUInt64 (cs_column row) ''column_id'') (\<lambda>cid.
      prepare_column api mem (FindIncomingColumnStat stats cid) row False cid) = Inr m" for row m
    using that GetRequired_Inr(1) b by (fastforce simp: andthen_Inr_iff)
  show "\<forall>m \<in> set prepared. column_covers M (mc_column_id m) (apply_merged m row') (prior (mc_column_id m) \<union> cells (mc_column_id m))"
  proof
    fix m assume "m \<in> set prepared"
    from list_all2_members(1) [OF a2 this] obtain row where row: "row \<in> set ?mine" "andthen (GetRequiredProtocolUInt64 (cs_column row) ''column_id'') (\<lambda>cid.
      prepare_column api mem (FindIncomingColumnStat stats cid) row False cid) = Inr m" by blast
    from one [OF this] obtain cid where cid: "cs_column row = Some (uint cid)"
      "prepare_column api mem (FindIncomingColumnStat stats cid) row False cid = Inr m" by blast
    show "column_covers M (mc_column_id m) (apply_merged m row') (prior (mc_column_id m) \<union> cells (mc_column_id m))"
      using row(1) cid(1) c(1) by (intro prepare_one_covers [OF cid(2) FindIncoming_Some c(2)]) (auto simp: table_covers_def)
  qed
  show "\<forall>row \<in> set rows. cs_table row = uint t \<longrightarrow> (\<exists>m \<in> set prepared. cs_column row = Some (uint (mc_column_id m)) \<and>
           (mc_changed m \<or> apply_merged m row = row))"
  proof (intro ballI impI)
    fix row assume "row \<in> set rows" "cs_table row = uint t"
    then have r: "row \<in> set ?mine" by simp
    from list_all2_members(2) [OF a2 this] obtain m where m: "m \<in> set prepared" "andthen (GetRequiredProtocolUInt64 (cs_column row) ''column_id'') (\<lambda>cid.
      prepare_column api mem (FindIncomingColumnStat stats cid) row False cid) = Inr m" by blast
    from one [OF r m(2)] m(1) prepare_column_facts(1,2)
    show "\<exists>m \<in> set prepared. cs_column row = Some (uint (mc_column_id m)) \<and> (mc_changed m \<or> apply_merged m row = row)"
      by metis
  qed
qed

lemma apply_covers:
  assumes a: "ApplyMergedColumnStats t prepared rows = Inr rows'"
    and p: "\<And>row'. \<forall>m \<in> set prepared. column_covers M (mc_column_id m) (apply_merged m row') (cells (mc_column_id m))"
    and q: "\<forall>row \<in> set rows. cs_table row = uint t \<longrightarrow> (\<forall>c. cs_column row = Some (uint c) \<longrightarrow>
      column_covers M c row (cells c) \<or> (\<exists>m \<in> set prepared. mc_column_id m = c \<and> mc_changed m))"
  shows "table_covers M t rows' cells"
proof -
  let ?ch = "filter mc_changed prepared"
  let ?f = "\<lambda>row. case matching_update t ?ch row of None \<Rightarrow> row | Some m \<Rightarrow> apply_merged m row"
  have "rows' = map ?f rows"
  proof (cases "?ch = []")
    case True
    then have "?f row = row" for row by (simp add: matching_update_def)
    then show ?thesis using a True by (simp add: ApplyMergedColumnStats_def)
  next
    case False
    then show ?thesis using a by (simp add: ApplyMergedColumnStats_def Let_def split: if_splits)
  qed
  moreover have "column_covers M c (?f row) (cells c)"
    if row: "row \<in> set rows" "cs_table (?f row) = uint t" "cs_column (?f row) = Some (uint c)" for row c
  proof (cases "matching_update t ?ch row")
    case None
    then have rc: "cs_table row = uint t" "cs_column row = Some (uint c)" using row by simp_all
    have "\<not> (\<exists>m \<in> set prepared. mc_column_id m = c \<and> mc_changed m)"
      using None rc by (auto simp: matching_update_def find_None_iff)
    then show ?thesis using q row(1) rc None by auto
  next
    case (Some m)
    then have m: "m \<in> set prepared" "cs_column row = Some (uint (mc_column_id m))"
      by (auto simp: matching_update_def split: if_splits dest!: find_member)
    then have "c = mc_column_id m" using row(3) Some by (simp add: apply_merged_def word_uint_eq_iff)
    then show ?thesis using p m(1) Some by simp
  qed
  ultimately show ?thesis by (auto simp: table_covers_def)
qed

end
