(* ===== verification/Published_Stats_Props.thy ===== *)
theory Published_Stats_Props
  imports Native_Inline_Writer_Props Column_Stats_Props
begin

text \<open>
  The column statistics across a whole publication: what the accumulator contributes, what an attempt
  merges into the statistics it read, and what the update leaves in the metadata.
\<close>

lemma column_covers_unknown: "column_covers M c ((no_colstat t)\<lparr>cs_column := n\<rparr>) cells"
  by (simp add: column_covers_def covers_def in_bounds_def no_colstat_def)

lemma prepared_first:
  assumes p: "PrepareMergedColumnStats api mem t stats True rows = Inr prepared" and b: "batch_contributes api M stats cells"
  shows "\<forall>m \<in> set prepared. column_covers M (mc_column_id m) (apply_merged m row') (cells (mc_column_id m))"
proof
  fix m assume "m \<in> set prepared"
  have a2: "list_all2 (\<lambda>inc m. prepare_column api mem (Some inc) (no_colstat (uint t)) True (in_column_id inc) = Inr m) stats prepared"
    using p by (simp add: PrepareMergedColumnStats_def prepare_columns_all2)
  from list_all2_members(1) [OF a2 \<open>m \<in> set prepared\<close>] obtain inc where
    inc: "inc \<in> set stats" "prepare_column api mem (Some inc) (no_colstat (uint t)) True (in_column_id inc) = Inr m" by blast
  have "column_covers M (mc_column_id m) (apply_merged m row') ((\<lambda>_. {}) (mc_column_id m) \<union> cells (mc_column_id m))"
    using inc(1) by (intro prepare_one_covers [OF inc(2) _ b]) (auto simp: column_covers_def covers_def in_bounds_def no_colstat_def)
  then show "column_covers M (mc_column_id m) (apply_merged m row') (cells (mc_column_id m))" by simp
qed

lemma publish_attempt_merged:
  assumes "publish_attempt cx env batch rv st = (st', Inr True)"
  obtains state merged c c' where
    "ReadPublicationState (cx_inline_oid cx) batch (start_snapshot_id batch) (ae_before_read env (ws_db st)) = Inr state"
    "PrepareMergedColumnStats (cx_api cx) (cx_memory cx) (table_id batch) (column_stats batch) (\<not> has_table_stats state)
       (db_colstats (ae_before_stats env (ae_before_read env (ws_db st)))) = Inr merged"
    "RunPublicationAttempt cx batch state merged (ps_snapshot_id state + 1) (ps_next_row_id state)
       (ae_before_claim env (ae_before_stats env (ae_before_read env (ws_db st))), c) = ((ws_db st', c'), Inr True)"
  using assms that
  by (auto simp: publish_attempt_def Let_def andthen_Inr_iff split: sum.splits prod.splits bool.splits)

lemma RetagPrewrittenRows_colstats: "RetagPrewrittenRows cx batch fs fr db = Inr db' \<Longrightarrow>
    db_colstats db' = db_colstats db \<and> db_columns db' = db_columns db"
  by (auto simp: RetagPrewrittenRows_def Let_def andthen_Inr_iff split: if_splits)

lemma RunPublicationAttempt_colstats:
  assumes "RunPublicationAttempt cx batch state merged fs fr (db, c) = ((db', c'), Inr True)"
  shows "ApplyMergedColumnStats (table_id batch) merged
      (db_colstats db @ (if has_table_stats state then []
         else map (\<lambda>k. (no_colstat (uint (table_id batch)))\<lparr>cs_column := co_column k\<rparr>)
                (filter (\<lambda>k. co_table k = uint (table_id batch) \<and> co_end k = None) (db_columns db)))) = Inr (db_colstats db')"
proof -
  obtain db1 db2 where db1: "claim_snapshot state fs db = Some db1"
    and db2: "(if needs_retag batch fs fr then RetagPrewrittenRows cx batch fs fr db1 else Inr db1) = Inr db2"
    and m: "write_metadata (cx_guc cx) batch state merged fs fr db2 = Inr db'"
    using assms by (auto simp: RunPublicationAttempt_def Let_def andthen_Inr_iff split: option.splits sum.splits if_splits)
  have "db_colstats db2 = db_colstats db \<and> db_columns db2 = db_columns db"
    using db1 db2 RetagPrewrittenRows_colstats by (fastforce simp: claim_snapshot_def split: if_splits)
  then show ?thesis
    using m by (auto simp: write_metadata_def write_table_stats_def Let_def andthen_Inr_iff split: if_splits)
qed

lemma attempt_covers:
  assumes m: "PrepareMergedColumnStats api mem (table_id batch) stats (\<not> has_table_stats state) (db_colstats db) = Inr merged"
    and run: "RunPublicationAttempt cx batch state merged fs fr (db, c) = ((db', c'), Inr True)"
    and b: "\<forall>row \<in> set (db_colstats db). \<forall>n. cs_column row = Some n \<longrightarrow> bigint n"
    and old: "table_covers M (table_id batch) (db_colstats db) prior" and new: "batch_contributes api M stats cells"
    and first: "\<not> has_table_stats state \<Longrightarrow>
      (\<forall>row \<in> set (db_colstats db). cs_table row \<noteq> uint (table_id batch)) \<and> (\<forall>c. prior c = {})"
  shows "table_covers M (table_id batch) (db_colstats db') (\<lambda>c. prior c \<union> cells c)"
proof (cases "has_table_stats state")
  case True
  have m': "PrepareMergedColumnStats api mem (table_id batch) stats False (db_colstats db) = Inr merged"
    using m True by simp
  note P = prepared_update [OF m' b old new]
  show ?thesis
  proof (rule apply_covers)
    show "ApplyMergedColumnStats (table_id batch) merged (db_colstats db) = Inr (db_colstats db')"
      using RunPublicationAttempt_colstats [OF run] True by simp
    show "\<forall>m \<in> set merged. column_covers M (mc_column_id m) (apply_merged m row') (prior (mc_column_id m) \<union> cells (mc_column_id m))" for row'
      by (rule P(1))
    show "\<forall>row \<in> set (db_colstats db). cs_table row = uint (table_id batch) \<longrightarrow> (\<forall>c. cs_column row = Some (uint c) \<longrightarrow>
        column_covers M c row (prior c \<union> cells c) \<or> (\<exists>m \<in> set merged. mc_column_id m = c \<and> mc_changed m))"
    proof (intro ballI impI allI)
      fix row and c :: u64 assume row: "row \<in> set (db_colstats db)" "cs_table row = uint (table_id batch)" "cs_column row = Some (uint c)"
      then obtain m where m: "m \<in> set merged" "uint (mc_column_id m) = uint c" "mc_changed m \<or> apply_merged m row = row"
        using P(2) by fastforce
      from m(1) word_uint_eq_iff [THEN iffD2, OF m(2)] m(3)
      show "column_covers M c row (prior c \<union> cells c) \<or> (\<exists>m \<in> set merged. mc_column_id m = c \<and> mc_changed m)"
        using P(1) [of row] by metis
    qed
  qed
next
  case False
  let ?fresh = "map (\<lambda>k. (no_colstat (uint (table_id batch)))\<lparr>cs_column := co_column k\<rparr>)
    (filter (\<lambda>k. co_table k = uint (table_id batch) \<and> co_end k = None) (db_columns db))"
  have "table_covers M (table_id batch) (db_colstats db') cells"
  proof (rule apply_covers)
    show "ApplyMergedColumnStats (table_id batch) merged (db_colstats db @ ?fresh) = Inr (db_colstats db')"
      using RunPublicationAttempt_colstats [OF run] False by simp
    show "\<forall>m \<in> set merged. column_covers M (mc_column_id m) (apply_merged m row') (cells (mc_column_id m))" for row'
      using m False by (intro prepared_first [OF _ new]) simp
    show "\<forall>row \<in> set (db_colstats db @ ?fresh). cs_table row = uint (table_id batch) \<longrightarrow> (\<forall>c. cs_column row = Some (uint c) \<longrightarrow>
        column_covers M c row (cells c) \<or> (\<exists>m \<in> set merged. mc_column_id m = c \<and> mc_changed m))"
      using first [OF False] by (auto simp: column_covers_unknown)
  qed
  then show ?thesis using first [OF False] by simp
qed

text \<open>C11: publications keep the column statistics true. If the statistics rows of the table cover the
  values of its columns, and the contributions of the batch cover the values of the batch, then after
  a publication, over whatever other transactions have committed in between, the rows cover the old
  and the new values together: every minimum and maximum holds, and where a row denies nulls or NaNs
  there is none. A table without statistics is empty.\<close>

theorem published_stats_cover:
  assumes "publish_attempt cx env batch rv st = (st', Inr True)"
    "follows_protocol (ae_before_stats env)" "follows_protocol (ae_before_claim env)"
    "db_bigint (ae_before_read env (ws_db st))"
    "\<forall>row \<in> set (db_colstats (ae_before_read env (ws_db st))). \<forall>n. cs_column row = Some n \<longrightarrow> bigint n"
    "table_covers M (table_id batch) (db_colstats (ae_before_read env (ws_db st))) prior"
    "batch_contributes (cx_api cx) M (column_stats batch) cells"
    "(\<forall>s \<in> set (db_stats (ae_before_read env (ws_db st))). st_table s \<noteq> uint (table_id batch)) \<Longrightarrow>
      (\<forall>row \<in> set (db_colstats (ae_before_read env (ws_db st))). cs_table row \<noteq> uint (table_id batch)) \<and> (\<forall>c. prior c = {})"
  shows "table_covers M (table_id batch) (db_colstats (ws_db st')) (\<lambda>c. prior c \<union> cells c)"
proof -
  let ?db = "ae_before_read env (ws_db st)"
  obtain state merged c c' where
    r: "ReadPublicationState (cx_inline_oid cx) batch (start_snapshot_id batch) ?db = Inr state"
    and m: "PrepareMergedColumnStats (cx_api cx) (cx_memory cx) (table_id batch) (column_stats batch) (\<not> has_table_stats state)
       (db_colstats (ae_before_stats env ?db)) = Inr merged"
    and run: "RunPublicationAttempt cx batch state merged (ps_snapshot_id state + 1) (ps_next_row_id state)
       (ae_before_claim env (ae_before_stats env ?db), c) = ((ws_db st', c'), Inr True)"
    by (rule publish_attempt_merged [OF assms(1)])
  note R = ReadPublicationState_Inr [OF r assms(4)]
  have "uint (ps_snapshot_id state + 1) \<notin> sr_id ` set (db_snapshots (ae_before_claim env (ae_before_stats env ?db)))"
    using run by (auto simp: RunPublicationAttempt_def claim_snapshot_def list_ex_iff split: option.splits if_splits)
  then have same: "ae_before_stats env ?db = ?db" "ae_before_claim env ?db = ?db"
    using claim_means_untouched [OF assms(2,3) R(1)] uint_Suc_small [OF R(2)] by simp_all
  show ?thesis
  proof (rule attempt_covers [OF m [unfolded same] run [unfolded same] assms(5,6,7)])
    assume "\<not> has_table_stats state"
    then have "\<forall>s \<in> set (db_stats ?db). st_table s \<noteq> uint (table_id batch)"
      using R(4) by (simp add: table_stats_of_def filter_empty_conv)
    then show "(\<forall>row \<in> set (db_colstats ?db). cs_table row \<noteq> uint (table_id batch)) \<and> (\<forall>c. prior c = {})" by (rule assms(8))
  qed
qed

text \<open>The \<^verbatim>\<open>VARCHAR\<close> column of a table with the values \<^verbatim>\<open>b\<close> and \<^verbatim>\<open>m\<close>, and a batch that adds \<^verbatim>\<open>k\<close>, \<^verbatim>\<open>a\<close>,
  \<^verbatim>\<open>f\<close> and a null.\<close>

definition varchar_merge :: "column_stats \<Rightarrow> column_stats \<Rightarrow> column_stats" where
  "varchar_merge a b =
     (if \<not> dc_any_valid b then a else if \<not> dc_any_valid a then b
      else a\<lparr>dc_min := (case (dc_min a, dc_min b) of (Some x, Some y) \<Rightarrow> Some (if strcmp y x \<le> 0 then y else x) | _ \<Rightarrow> None),
             dc_max := (case (dc_max a, dc_max b) of (Some x, Some y) \<Rightarrow> Some (if strcmp x y \<le> 0 then y else x) | _ \<Rightarrow> None)\<rparr>)"

definition varchar_api :: "unit ducklake_api" where
  "varchar_api = \<lparr>dl_FromString = (\<lambda>_. Inr ()),
     dl_FromGlobalStats = (\<lambda>_ g. Inr \<lparr>dc_min = gs_min g, dc_max = gs_max g, dc_any_valid = (gs_min g \<noteq> None \<or> gs_max g \<noteq> None),
       dc_null_count = None, dc_contains_nan = None\<rparr>),
     dl_DefaultCastToString = (\<lambda>_. Inr), dl_MergeStats = (\<lambda>_ a b. Inr (varchar_merge a b))\<rparr>"

definition varchar_row :: colstat_row where
  "varchar_row = \<lparr>cs_table = 1, cs_column = Some 1, cs_min = Some ''b'', cs_max = Some ''m'', cs_contains_null = Some False,
     cs_contains_nan = None, cs_extra = None\<rparr>"

definition varchar_db :: "string lake_db" where
  "varchar_db = demo_db\<lparr>db_colstats := [varchar_row]\<rparr>"

definition varchar_state :: "string writer_state" where
  "varchar_state = demo_state\<lparr>ws_db := varchar_db\<rparr>"

definition varchar_cx :: "(unit, string) writer_context" where
  "varchar_cx = demo_cx\<lparr>cx_api := varchar_api\<rparr>"

definition varchar_contribution :: "NativeInlineColumnStat list" where
  "varchar_contribution =
    [\<lparr>in_column_id = 1, in_column_type = ''varchar'', invalidate_all = False, bounds_safe = True, in_has_min = True,
      in_has_max = True, in_min_value = ''a'', in_max_value = ''k'', observed_null = True, nan_known = False, observed_nan = False\<rparr>,
     \<lparr>in_column_id = 2, in_column_type = ''varchar'', invalidate_all = True, bounds_safe = False, in_has_min = False,
      in_has_max = False, in_min_value = [], in_max_value = [], observed_null = False, nan_known = False, observed_nan = False\<rparr>]"

lemma varchar_contribution: "varchar_batch = varchar_contribution"
  by code_simp

definition varchar_write :: NativeInlineWriteBatch where
  "varchar_write = demo_batch\<lparr>column_stats := varchar_contribution\<rparr>"

definition varchar_meaning :: "u64 \<Rightarrow> (string, string) meaning" where
  "varchar_meaning c = \<lparr>m_sem = id, m_le = (\<lambda>s t. strcmp s t \<le> 0), m_val = Some\<rparr>"

definition varchar_after :: "string writer_state" where
  "varchar_after = fst (publish_attempt varchar_cx quiet_env varchar_write False varchar_state)"

lemma varchar_attempt: "publish_attempt varchar_cx quiet_env varchar_write False varchar_state = (varchar_after, Inr True)"
proof -
  have "snd (publish_attempt varchar_cx quiet_env varchar_write False varchar_state) = Inr True" by code_simp
  then show ?thesis by (simp add: varchar_after_def prod_eq_iff)
qed

lemma varchar_after_eval: "map (\<lambda>r. (cs_min r, cs_max r, cs_contains_null r)) (db_colstats (ws_db varchar_after)) =
    [(Some ''a'', Some ''m'', Some True)]"
  by code_simp

lemma varchar_laws: "merge_laws varchar_api ty id (\<lambda>s t. strcmp s t \<le> 0)"
  unfolding merge_laws_def varchar_api_def
proof (simp, intro conjI allI impI)
  show "strcmp x z \<le> 0" if "strcmp x y \<le> 0 \<and> strcmp y z \<le> 0" for x y z using that strcmp_trans by blast
qed (auto simp: varchar_merge_def strcmp_order.le_refl strcmp_order.not_less split: option.splits if_splits dest: strcmp_order.not_less)

theorem published_stats_cover_witness:
  "table_covers varchar_meaning 1 (db_colstats (ws_db varchar_after))
     (\<lambda>c. (if c = 1 then {CDatum ''b'', CDatum ''m''} else {}) \<union> (if c = 1 then {CDatum ''k'', CNull, CDatum ''a'', CDatum ''f''} else {}))"
proof -
  have w: "ws_db varchar_state = varchar_db" "db_colstats varchar_db = [varchar_row]" "table_id varchar_write = 1"
    "column_stats varchar_write = varchar_contribution" "cx_api varchar_cx = varchar_api" "db_stats varchar_db = db_stats demo_db"
    "db_snapshots varchar_db = db_snapshots demo_db"
    by (simp_all add: varchar_state_def varchar_db_def varchar_write_def varchar_cx_def demo_batch_def)
  have prior: "table_covers varchar_meaning 1 [varchar_row] (\<lambda>c. if c = 1 then {CDatum ''b'', CDatum ''m''} else {})"
    by (auto simp: table_covers_def varchar_row_def column_covers_def covers_def in_bounds_def varchar_meaning_def)
  have new: "batch_contributes varchar_api varchar_meaning varchar_contribution
      (\<lambda>c. if c = 1 then {CDatum ''k'', CNull, CDatum ''a'', CDatum ''f''} else {})"
    by (auto simp: batch_contributes_def varchar_contribution_def contributes_def varchar_meaning_def Let_def varchar_laws)
  have big: "db_bigint varchar_db" using demo_state_facts(2) by (simp add: db_bigint_def w)
  have first: "\<not> (\<forall>s \<in> set (db_stats varchar_db). st_table s \<noteq> uint (table_id varchar_write))"
    by (simp add: w demo_db_def)
  show ?thesis
    using published_stats_cover [OF varchar_attempt, of varchar_meaning
        "\<lambda>c. if c = 1 then {CDatum ''b'', CDatum ''m''} else {}"
        "\<lambda>c. if c = 1 then {CDatum ''k'', CNull, CDatum ''a'', CDatum ''f''} else {}"] prior new big first
    by (auto simp: w follows_protocol_id varchar_row_def bigint_def)
qed

end
