(* ===== verification/Inline_Producer_Props.thy ===== *)
theory Inline_Producer_Props
  imports Inline_Producer Published_Stats_Props
begin

text \<open>
  The prewrite: whatever the size of the buffer, the inline table grows by exactly the source rows, in
  their order, under consecutive row ids from the candidate on, and the batch knows its tuples. This is
  what a publication starts from.
\<close>

section \<open>What the prewrite leaves\<close>

text \<open>PostgreSQL gives the new tuples of a call addresses of their own, as long as the heap has room: at
  most \<open>2 ^ 32\<close> blocks with less than 300 tuples each.\<close>

definition heap_limit :: nat where "heap_limit = 2 ^ 40"

definition fresh_tids :: "'d prewrite_env \<Rightarrow> bool" where
  "fresh_tids env \<longleftrightarrow> (\<forall>heap n. length heap + n \<le> heap_limit \<longrightarrow> length (pe_tids env heap n) = n \<and>
     distinct (pe_tids env heap n) \<and> set (pe_tids env heap n) \<inter> h_tid ` set heap = {})"

lemma below_limit: "n \<le> heap_limit \<Longrightarrow> n < 2 ^ 63" "n \<le> heap_limit \<Longrightarrow> n < 2 ^ 64"
  by (simp_all add: heap_limit_def)

definition new_slots :: "'d prewrite_env \<Rightarrow> producer_column list \<Rightarrow> u64 \<Rightarrow> u64 \<Rightarrow> 'd cell list list \<Rightarrow> 'd buffered list" where
  "new_slots env cols begin_snapshot row_id rows =
     map (\<lambda>(i, cells). (row_id + of_nat i, begin_snapshot, map2 (store_cell (pe_types env)) cols cells)) (enumerate 0 rows)"

lemma new_slots_snoc:
  "new_slots env cols b r (rows @ [cells]) = new_slots env cols b r rows @ [(r + of_nat (length rows), b, map2 (store_cell (pe_types env)) cols cells)]"
  by (simp add: new_slots_def enumerate_append_eq)

lemma length_new_slots [simp]: "length (new_slots env cols b r rows) = length rows"
  by (simp add: new_slots_def)

text \<open>The fields of a batch that recording rows does not touch.\<close>

definition same_batch :: "NativeInlineWriteBatch \<Rightarrow> NativeInlineWriteBatch \<Rightarrow> bool" where
  "same_batch b b' \<longleftrightarrow> b' = b\<lparr>row_pointers := row_pointers b', row_pointer_capacity := row_pointer_capacity b',
     row_pointer_tracking_enabled := row_pointer_tracking_enabled b'\<rparr>"

lemma same_batch_refl: "same_batch b b"
  by (simp add: same_batch_def)

lemma same_batch_trans: "same_batch a b \<Longrightarrow> same_batch b c \<Longrightarrow> same_batch a c"
  unfolding same_batch_def by (cases a; cases b; cases c) simp

lemma RecordNativeInlineWriteRows_same: "same_batch b (RecordNativeInlineWriteRows tids b)"
  by (cases b) (simp add: RecordNativeInlineWriteRows_def stop_tracking_def same_batch_def Let_def)

lemma RecordNativeInlineWriteRows_pointers:
  assumes "row_pointer_tracking_enabled (RecordNativeInlineWriteRows tids b)" "length tids < 2 ^ 64"
  shows "row_pointer_tracking_enabled b" "row_pointers (RecordNativeInlineWriteRows tids b) = row_pointers b @ somes tids"
    "None \<notin> set tids"
  using assms
  by (auto simp: RecordNativeInlineWriteRows_def stop_tracking_def Let_def word_of_nat_eq_0_iff split: if_splits dest!: nat_dvd_not_less [rotated])

definition prewrite_inv ::
  "'d prewrite_env \<Rightarrow> producer_column list \<Rightarrow> u64 \<Rightarrow> 'd prewrite \<Rightarrow> 'd cell list list \<Rightarrow> nat \<Rightarrow> tid list \<Rightarrow> 'd prewrite \<Rightarrow> bool" where
  "prewrite_inv env cols b pw0 done k tids pw \<longleftrightarrow>
     (let S = new_slots env cols b (pw_row_id pw0) done in
      k \<le> length done \<and> length tids = k \<and> distinct tids \<and> set tids \<inter> h_tid ` set (pw_heap pw0) = {} \<and>
      pw_heap pw = pw_heap pw0 @ map2 (heap_tuple (pe_xid env) (pe_cid env)) tids (take k S) \<and> pw_slots pw = drop k S \<and>
      pw_row_id pw = pw_row_id pw0 + of_nat (length done) \<and> pw_rows_inserted pw = pw_rows_inserted pw0 + of_nat k \<and>
      pw_col_stats pw = fold (observe_row (pe_types env)) done (pw_col_stats pw0) \<and> same_batch (pw_batch pw0) (pw_batch pw) \<and>
      (row_pointer_tracking_enabled (pw_batch pw) \<longrightarrow>
         row_pointer_tracking_enabled (pw_batch pw0) \<and> row_pointers (pw_batch pw) = row_pointers (pw_batch pw0) @ tids))"

lemma h_tid_heap_tuple [simp]: "h_tid (heap_tuple x c t s) = t"
  by (cases s) (simp add: heap_tuple_def)

lemma tids_of_tuples: "length ts = length ss \<Longrightarrow> h_tid ` set (map2 (heap_tuple x c) ts ss) = set ts"
  by (induction ts ss rule: list_induct2) auto

lemma flush_inv:
  assumes i: "prewrite_inv env cols b pw0 done k tids pw" and f: "fresh_tids env" and lim: "length (pw_heap pw0) + length done \<le> heap_limit"
  shows "\<exists>tids'. prewrite_inv env cols b pw0 done (length done) tids' (flush_slots env pw)"
proof -
  let ?S = "new_slots env cols b (pw_row_id pw0) done" and ?n = "length (pw_slots pw)"
  let ?new = "pe_tids env (pw_heap pw) ?n" and ?ht = "heap_tuple (pe_xid env) (pe_cid env)"
  have I: "k \<le> length done" "length tids = k" "distinct tids" "set tids \<inter> h_tid ` set (pw_heap pw0) = {}"
    "pw_heap pw = pw_heap pw0 @ map2 ?ht tids (take k ?S)" "pw_slots pw = drop k ?S"
    "pw_row_id pw = pw_row_id pw0 + of_nat (length done)" "pw_rows_inserted pw = pw_rows_inserted pw0 + of_nat k"
    "pw_col_stats pw = fold (observe_row (pe_types env)) done (pw_col_stats pw0)" "same_batch (pw_batch pw0) (pw_batch pw)"
    "row_pointer_tracking_enabled (pw_batch pw) \<longrightarrow>
         row_pointer_tracking_enabled (pw_batch pw0) \<and> row_pointers (pw_batch pw) = row_pointers (pw_batch pw0) @ tids"
    using i by (simp_all add: prewrite_inv_def Let_def)
  have len: "?n = length done - k" using I(6) by simp
  have n: "length done < 2 ^ 64" using lim by (intro below_limit) simp
  have "length (pw_heap pw) + ?n \<le> heap_limit" using I(1,2,5) len lim by simp
  then have new: "length ?new = ?n" "distinct ?new" "set ?new \<inter> h_tid ` set (pw_heap pw) = {}" using f by (simp_all add: fresh_tids_def)
  have "h_tid ` set (map2 ?ht tids (take k ?S)) = set tids" using I(1,2) by (intro tids_of_tuples) simp
  then have "h_tid ` set (pw_heap pw) = h_tid ` set (pw_heap pw0) \<union> set tids" using I(5) by (simp add: image_Un)
  then have d: "distinct (tids @ ?new)" "set (tids @ ?new) \<inter> h_tid ` set (pw_heap pw0) = {}" using I(3,4) new by auto
  have "map2 ?ht (tids @ ?new) ?S = map2 ?ht (tids @ ?new) (take k ?S @ drop k ?S)" by simp
  also have "\<dots> = map2 ?ht tids (take k ?S) @ map2 ?ht ?new (drop k ?S)"
    using I(1,2) new(1) len by (subst zip_append) auto
  finally have h: "pw_heap pw @ map2 ?ht ?new (pw_slots pw) = pw_heap pw0 @ map2 ?ht (tids @ ?new) ?S"
    using I(5,6) by simp
  let ?opt = "map (\<lambda>t. if ItemPointerIsValid t then Some t else None) ?new"
  have somes: "somes ?opt = ?new" if "None \<notin> set ?opt"
  proof -
    have "?opt = map Some ?new" using that by auto
    then show ?thesis by (simp only: somes_map_Some)
  qed
  have ptr: "row_pointer_tracking_enabled (pw_batch pw0) \<and> row_pointers (RecordNativeInlineWriteRows ?opt (pw_batch pw)) = row_pointers (pw_batch pw0) @ tids @ ?new"
    if "row_pointer_tracking_enabled (RecordNativeInlineWriteRows ?opt (pw_batch pw))"
    using RecordNativeInlineWriteRows_pointers [OF that] somes I(11) new(1) len n by auto
  have k: "of_nat k + of_nat ?n = (of_nat (length done) :: u64)" using len I(1) by (simp flip: of_nat_add)
  have "prewrite_inv env cols b pw0 done (length done) (tids @ ?new) (flush_slots env pw)"
    unfolding prewrite_inv_def Let_def
    using I(1,2,7-10) len new(1) d h ptr k same_batch_trans [OF I(10) RecordNativeInlineWriteRows_same]
    by (simp add: flush_slots_def Let_def add.assoc)
  then show ?thesis by blast
qed

lemma put_row_inv:
  assumes i: "prewrite_inv env cols b pw0 done k tids pw" and f: "fresh_tids env"
    and n: "length (pw_heap pw0) + Suc (length done) \<le> heap_limit"
  shows "\<exists>k tids. prewrite_inv env cols b pw0 (done @ [cells]) k tids (put_row env bs cols b copy cells pw)"
proof -
  define pwc where "pwc = (if copy then pw\<lparr>pw_counters := NativeWriterStatsAdd NW_COPY_ROWS_CONSUMED 1 (pw_counters pw)\<rparr> else pw)"
  define pw1 where "pw1 = pwc\<lparr>pw_slots := pw_slots pwc @ [(pw_row_id pwc, b, map2 (store_cell (pe_types env)) cols cells)],
      pw_row_id := pw_row_id pwc + 1, pw_col_stats := observe_row (pe_types env) cells (pw_col_stats pwc)\<rparr>"
  have eq: "put_row env bs cols b copy cells pw = (if length (pw_slots pw1) \<ge> bs then flush_slots env pw1 else pw1)"
    by (simp add: put_row_def Let_def pw1_def pwc_def)
  have "prewrite_inv env cols b pw0 done k tids pwc" using i by (simp add: prewrite_inv_def pwc_def)
  then have one: "prewrite_inv env cols b pw0 (done @ [cells]) k tids pw1"
    by (auto simp: prewrite_inv_def Let_def new_slots_snoc pw1_def)
  have "length (pw_heap pw0) + length (done @ [cells]) \<le> heap_limit" using n by simp
  from flush_inv [OF one f this] one show ?thesis unfolding eq by (cases "length (pw_slots pw1) \<ge> bs") auto
qed

text \<open>The whole prewrite.\<close>

lemma prewrite_rows_inv:
  assumes f: "fresh_tids env" and n: "length (pw_heap pw) + length rows \<le> heap_limit" and s: "pw_slots pw = []"
  shows "\<exists>tids. prewrite_inv env cols b pw rows (length rows) tids (prewrite_rows env bs cols b copy rows pw)"
proof -
  have "\<exists>k tids. prewrite_inv env cols b pw done k tids (fold (put_row env bs cols b copy) done pw)" 
    if "length (pw_heap pw) + length done \<le> heap_limit" for "done"
    using that
  proof (induction "done" rule: rev_induct)
    case Nil
    have "prewrite_inv env cols b pw [] 0 [] pw" using s by (simp add: prewrite_inv_def new_slots_def same_batch_refl)
    then show ?case by auto
  next
    case (snoc cells "done")
    then obtain k tids where "prewrite_inv env cols b pw done k tids (fold (put_row env bs cols b copy) done pw)" by auto
    from put_row_inv [OF this f, of cells bs copy] snoc.prems show ?case by simp
  qed
  from this [OF n] obtain k tids where i: "prewrite_inv env cols b pw rows k tids (fold (put_row env bs cols b copy) rows pw)" by blast
  show ?thesis
  proof (cases "pw_slots (fold (put_row env bs cols b copy) rows pw) = []")
    case True
    then have "k = length rows" using i by (simp add: prewrite_inv_def Let_def)
    then show ?thesis using i True by (auto simp: prewrite_rows_def Let_def)
  next
    case False
    then show ?thesis using flush_inv [OF i f n] by (simp add: prewrite_rows_def Let_def)
  qed
qed

section \<open>The batch that the prewrite hands to the publication\<close>

text \<open>The source rows as the inline table shows them: numbered from the first row id, valid from a snapshot on.\<close>

definition source_rows ::
  "'d prewrite_env \<Rightarrow> producer_column list \<Rightarrow> u64 \<Rightarrow> u64 \<Rightarrow> 'd cell list list \<Rightarrow>
   (int option \<times> int option \<times> int option \<times> 'd stored list) list" where
  "source_rows env cols snapshot row_id rows =
     map (\<lambda>(i, cells). (Some (uint row_id + int i), Some (uint snapshot), None, map2 (store_cell (pe_types env)) cols cells)) (enumerate 0 rows)"

text \<open>The command has written nothing to the table before, and addresses name tuples.\<close>

definition first_write :: "'d prewrite_env \<Rightarrow> 'p heap_row list \<Rightarrow> bool" where
  "first_write env heap \<longleftrightarrow> distinct (map h_tid heap) \<and> (\<forall>r \<in> set heap. \<not> (h_xmin r = pe_xid env \<and> h_cmin r = pe_cid env))"

lemma uint_of_nat_small:
  assumes "int n < 2 ^ 63"
  shows "uint (of_nat n :: u64) = int n"
proof -
  have "n < 2 ^ 64" using assms by simp
  then show ?thesis by (simp add: unsigned_of_nat take_bit_nat_eq_self)
qed

lemma sint_row_id:
  assumes "uint (r :: u64) + int n < 2 ^ 63" "i < n"
  shows "sint (r + of_nat i) = uint r + int i"
proof -
  have i: "uint (of_nat i :: u64) = int i"
    using assms uint_ge_0 [of r] by (intro uint_of_nat_small) linarith
  then have "uint (r + of_nat i) = uint r + int i" using assms by (subst uint_add_small) auto
  then show ?thesis using assms sint_small [of "r + of_nat i"] by simp
qed

lemma heap_tuple_content:
  assumes "uint (r :: u64) + int (length rows) < 2 ^ 63" "uint (b :: u64) < 2 ^ 63" "length tids = length rows"
  shows "map content (map2 (heap_tuple x c) tids (new_slots env cols b r rows)) = source_rows env cols b r rows"
proof (rule nth_equalityI)
  show "map content (map2 (heap_tuple x c) tids (new_slots env cols b r rows)) ! i = source_rows env cols b r rows ! i"
    if "i < length (map content (map2 (heap_tuple x c) tids (new_slots env cols b r rows)))" for i
    using that assms sint_row_id [OF assms(1)] sint_small [OF assms(2)]
    by (simp add: new_slots_def source_rows_def nth_enumerate_eq heap_tuple_def content_def)
qed (use assms in \<open>simp add: source_rows_def\<close>)

lemma own_row_content:
  assumes "h_xmin r = batch_owner_xid batch" "h_cmin r = batch_owner_command_id batch"
    "content r \<in> set (source_rows env cols (batch_snapshot_id batch) (batch_row_id batch) rows)"
    "rows_inserted batch = of_nat (length rows)" "uint (batch_row_id batch) + int (length rows) < 2 ^ 63"
  shows "own_row batch r"
proof -
  have "uint (of_nat (length rows) :: u64) = int (length rows)"
    using assms(5) uint_ge_0 [of "batch_row_id batch"] by (intro uint_of_nat_small) linarith
  then have "uint (batch_row_id batch + rows_inserted batch) = uint (batch_row_id batch) + int (length rows)"
    using assms(4,5) by (subst uint_add_small) auto
  then show ?thesis using assms(1-3)
    by (auto simp: own_row_def content_def source_rows_def in_set_enumerate_eq)
qed

lemma same_batch_fields:
  assumes "same_batch b b'"
  shows "batch_snapshot_id b' = batch_snapshot_id b" "batch_row_id b' = batch_row_id b" "batch_owner_xid b' = batch_owner_xid b"
    "batch_owner_command_id b' = batch_owner_command_id b" "inline_table_oid b' = inline_table_oid b" "table_id b' = table_id b"
    "start_snapshot_id b' = start_snapshot_id b" "schema_version b' = schema_version b" "batch_reservation b' = batch_reservation b"
  using assms by (cases b; cases b'; simp add: same_batch_def)+

lemma prewritten_batch:
  fixes batch :: NativeInlineWriteBatch
  assumes i: "prewrite_inv env cols (batch_snapshot_id (pw_batch pw0)) pw0 rows (length rows) tids pw"
    and start: "row_pointers (pw_batch pw0) = []" "pw_row_id pw0 = batch_row_id (pw_batch pw0)" "pw_rows_inserted pw0 = 0"
      "batch_owner_xid (pw_batch pw0) = pe_xid env" "batch_owner_command_id (pw_batch pw0) = pe_cid env"
    and heap: "first_write env (pw_heap pw0)"
    and fit: "uint (batch_row_id (pw_batch pw0)) + int (length rows) < 2 ^ 63" "uint (batch_snapshot_id (pw_batch pw0)) < 2 ^ 63"
    and b: "batch = (pw_batch pw)\<lparr>rows_inserted := pw_rows_inserted pw, column_stats := cs\<rparr>"
  shows "batch_rows_ok batch (pw_heap pw)" "rows_inserted batch = of_nat (length rows)"
    "map content (filter (own_row batch) (pw_heap pw)) = source_rows env cols (batch_snapshot_id batch) (batch_row_id batch) rows"
    "filter (own_row batch) (pw_heap pw) = drop (length (pw_heap pw0)) (pw_heap pw)"
proof -
  define new where "new = map2 (heap_tuple (pe_xid env) (pe_cid env)) tids (new_slots env cols (batch_snapshot_id batch) (batch_row_id batch) rows)"
  have I: "length tids = length rows" "distinct tids" "set tids \<inter> h_tid ` set (pw_heap pw0) = {}"
    "pw_rows_inserted pw = of_nat (length rows)" "same_batch (pw_batch pw0) (pw_batch pw)"
    "row_pointer_tracking_enabled (pw_batch pw) \<longrightarrow> row_pointers (pw_batch pw) = tids"
    using i start by (simp_all add: prewrite_inv_def Let_def)
  note same = same_batch_fields [OF I(5)]
  have h: "pw_heap pw = pw_heap pw0 @ new" using i start same b by (simp add: prewrite_inv_def Let_def new_def)
  have f: "uint (batch_row_id batch) + int (length rows) < 2 ^ 63" "uint (batch_snapshot_id batch) < 2 ^ 63"
    "batch_owner_xid batch = pe_xid env" "batch_owner_command_id batch = pe_cid env"
    using fit start same b by simp_all
  show n: "rows_inserted batch = of_nat (length rows)" using I(4) b by simp
  have c: "map content new = source_rows env cols (batch_snapshot_id batch) (batch_row_id batch) rows"
    unfolding new_def by (rule heap_tuple_content [OF f(1,2) I(1)])
  have x: "\<forall>r \<in> set new. h_xmin r = batch_owner_xid batch \<and> h_cmin r = batch_owner_command_id batch"
    using f(3,4) by (auto simp: new_def heap_tuple_def split: prod.splits)
  have own: "\<forall>r \<in> set new. own_row batch r"
  proof
    fix r assume r: "r \<in> set new"
    then have "content r \<in> set (source_rows env cols (batch_snapshot_id batch) (batch_row_id batch) rows)"
      unfolding c [symmetric] by simp
    then show "own_row batch r" using x r by (intro own_row_content [OF _ _ _ n f(1)]) auto
  qed
  have old: "\<forall>r \<in> set (pw_heap pw0). \<not> own_row batch r"
    using heap f(3,4) by (auto simp: first_write_def own_row_def)
  have own_new: "filter (own_row batch) (pw_heap pw) = new" unfolding h using own old by (simp add: filter_id_conv filter_empty_conv)
  then show "filter (own_row batch) (pw_heap pw) = drop (length (pw_heap pw0)) (pw_heap pw)"
    "map content (filter (own_row batch) (pw_heap pw)) = source_rows env cols (batch_snapshot_id batch) (batch_row_id batch) rows"
    using c h by simp_all
  have "map h_tid new = tids" using I(1) by (intro nth_equalityI) (auto simp: new_def)
  then have tids: "distinct (map h_tid (pw_heap pw))" "h_tid ` set new = set tids" "length new = length rows"
    using I(1,2,3) heap unfolding h first_write_def by (metis distinct_append inf_commute list.set_map map_append, metis list.set_map, metis length_map)
  have "{r \<in> set (pw_heap pw). own_row batch r} = set new" using own_new by (metis set_filter)
  moreover have "uint (rows_inserted batch) = int (length rows)"
    unfolding n using f(1) uint_ge_0 [of "batch_row_id batch"] by (intro uint_of_nat_small) linarith
  ultimately show "batch_rows_ok batch (pw_heap pw)"
    using tids I(2,6) own_new b unfolding batch_rows_ok_def by simp
qed

end
