(* ===== verification/Native_Writer_Queue_Inv.thy ===== *)
theory Native_Writer_Queue_Inv
  imports Native_Writer_Queue
begin

text \<open>
  The invariant of the reservation queue and its preservation by every critical section: tickets
  are unique, the live candidates of a catalog grow strictly with the ticket, and the row-id
  ranges of live reservations of one table do not overlap.

  Most operations only invalidate, release or commit slots; they are related by \<open>shrinks\<close>, which
  keeps the invariant. The three that add information (filling a slot, assigning a row id and
  reporting a row count) are treated one by one.
\<close>

section \<open>Live slots and the invariant\<close>

definition live :: "ReservationSlot \<Rightarrow> bool" where
  "live s \<longleftrightarrow> in_use s \<and> valid s"

definition pending :: "ReservationSlot \<Rightarrow> bool" where
  "pending s \<longleftrightarrow> live s \<and> \<not> committed s"

text \<open>What the invariant reads of a live slot.\<close>

definition core :: "ReservationSlot \<Rightarrow> ReservationSlot" where
  "core s = s\<lparr>committed := False, queue_wait_blocker_ticket := 0, queue_wait_deadline := 0\<rparr>"

definition tickets_ok :: "nat \<Rightarrow> queue \<Rightarrow> bool" where
  "tickets_ok cap q \<longleftrightarrow>
     length (slots q) = MAX_RESERVATIONS \<and> cap \<le> MAX_RESERVATIONS \<and>
     (\<forall>i < length (slots q). in_use (slot_at q i) \<longrightarrow> i < cap \<and> ticket (slot_at q i) < next_ticket q) \<and>
     (\<forall>i < length (slots q). \<forall>j < length (slots q). in_use (slot_at q i) \<and> in_use (slot_at q j) \<and>
        ticket (slot_at q i) = ticket (slot_at q j) \<longrightarrow> i = j)"

definition snapshots_ordered :: "queue \<Rightarrow> bool" where
  "snapshots_ordered q \<longleftrightarrow>
     (\<forall>i < length (slots q). \<forall>j < length (slots q).
        live (slot_at q i) \<and> live (slot_at q j) \<and> SameCatalog (catalog (slot_at q i)) (catalog (slot_at q j)) \<and>
        ticket (slot_at q i) < ticket (slot_at q j) \<longrightarrow>
        candidate_snapshot_id (slot_at q i) < candidate_snapshot_id (slot_at q j))"

definition rows_before :: "ReservationSlot \<Rightarrow> ReservationSlot \<Rightarrow> bool" where
  "rows_before s t \<longleftrightarrow> row_assigned s \<and> row_count_known s \<and>
     unat (candidate_row_id s) + unat (row_count s) \<le> unat (candidate_row_id t)"

definition rows_ordered :: "queue \<Rightarrow> bool" where
  "rows_ordered q \<longleftrightarrow>
     (\<forall>i < length (slots q). \<forall>j < length (slots q).
        live (slot_at q i) \<and> live (slot_at q j) \<and> SameCatalog (catalog (slot_at q i)) (catalog (slot_at q j)) \<and>
        slot_table_id (slot_at q i) = slot_table_id (slot_at q j) \<and>
        ticket (slot_at q i) < ticket (slot_at q j) \<and> row_assigned (slot_at q j) \<longrightarrow>
        rows_before (slot_at q i) (slot_at q j))"

definition counts_bounded :: "queue \<Rightarrow> bool" where
  "counts_bounded q \<longleftrightarrow>
     (\<forall>i < length (slots q). live (slot_at q i) \<and> row_count_known (slot_at q i) \<longrightarrow>
        row_count (slot_at q i) \<le> INT64_MAX)"

definition queue_inv :: "nat \<Rightarrow> queue \<Rightarrow> bool" where
  "queue_inv cap q \<longleftrightarrow> tickets_ok cap q \<and> snapshots_ordered q \<and> rows_ordered q \<and> counts_bounded q"

lemma zero_slot_simps [simp]:
  "\<not> in_use zero_slot" "\<not> valid zero_slot" "\<not> committed zero_slot" "\<not> live zero_slot"
  by (simp_all add: zero_slot_def live_def)

lemma set_slot_simps [simp]:
  "slots (set_slot i s q) = (slots q)[i := s]"
  "next_ticket (set_slot i s q) = next_ticket q"
  by (simp_all add: set_slot_def)

lemma SameCatalog_iff: "SameCatalog a b \<longleftrightarrow> a = b"
  by (cases a; cases b) (simp add: SameCatalog_def)

lemma SameOwner_iff: "SameOwner a b \<longleftrightarrow> a = b"
  by (cases a; cases b) (auto simp: SameOwner_def)

lemma core_eqD:
  assumes "core s = core t"
  shows "catalog s = catalog t" "ticket s = ticket t" "slot_table_id s = slot_table_id t"
    "candidate_snapshot_id s = candidate_snapshot_id t" "candidate_row_id s = candidate_row_id t"
    "row_assigned s = row_assigned t" "row_count_known s = row_count_known t"
    "row_count s = row_count t" "in_use s = in_use t" "valid s = valid t"
  using assms by (cases s; cases t; simp add: core_def)+

lemma queue_startup_inv: "cap \<le> MAX_RESERVATIONS \<Longrightarrow> queue_inv cap QueueShmemStartup"
  by (simp add: queue_inv_def tickets_ok_def snapshots_ordered_def rows_ordered_def counts_bounded_def
      QueueShmemStartup_def)

section \<open>Operations that only take away\<close>

definition shrinks :: "queue \<Rightarrow> queue \<Rightarrow> bool" where
  "shrinks q q' \<longleftrightarrow> length (slots q') = length (slots q) \<and> next_ticket q' = next_ticket q \<and>
     (\<forall>i < length (slots q).
        (in_use (slot_at q' i) \<longrightarrow> in_use (slot_at q i) \<and> ticket (slot_at q' i) = ticket (slot_at q i)) \<and>
        (live (slot_at q' i) \<longrightarrow> live (slot_at q i) \<and> core (slot_at q' i) = core (slot_at q i) \<and>
           (committed (slot_at q i) \<longrightarrow> committed (slot_at q' i))))"

lemma shrinks_refl [simp]: "shrinks q q"
  by (simp add: shrinks_def)

lemma shrinks_trans [trans]: "shrinks q1 q2 \<Longrightarrow> shrinks q2 q3 \<Longrightarrow> shrinks q1 q3"
  by (auto simp: shrinks_def)

lemma shrinksI:
  assumes "length (slots q') = length (slots q)" "next_ticket q' = next_ticket q"
    and "\<And>i. i < length (slots q) \<Longrightarrow> in_use (slot_at q' i) \<Longrightarrow>
           in_use (slot_at q i) \<and> ticket (slot_at q' i) = ticket (slot_at q i)"
    and "\<And>i. i < length (slots q) \<Longrightarrow> live (slot_at q' i) \<Longrightarrow>
           live (slot_at q i) \<and> core (slot_at q' i) = core (slot_at q i) \<and>
           (committed (slot_at q i) \<longrightarrow> committed (slot_at q' i))"
  shows "shrinks q q'"
  using assms by (auto simp: shrinks_def)

lemma shrinks_live:
  assumes "shrinks q q'" "i < length (slots q)" "live (slot_at q' i)"
  shows "live (slot_at q i)" "core (slot_at q' i) = core (slot_at q i)"
    "ticket (slot_at q' i) = ticket (slot_at q i)" "catalog (slot_at q' i) = catalog (slot_at q i)"
    "slot_table_id (slot_at q' i) = slot_table_id (slot_at q i)"
    "candidate_snapshot_id (slot_at q' i) = candidate_snapshot_id (slot_at q i)"
    "candidate_row_id (slot_at q' i) = candidate_row_id (slot_at q i)"
    "row_assigned (slot_at q' i) = row_assigned (slot_at q i)"
    "row_count_known (slot_at q' i) = row_count_known (slot_at q i)"
    "row_count (slot_at q' i) = row_count (slot_at q i)"
proof -
  show "live (slot_at q i)" and c: "core (slot_at q' i) = core (slot_at q i)"
    using assms by (auto simp: shrinks_def)
  note core_eqD [OF c]
  then show "ticket (slot_at q' i) = ticket (slot_at q i)" "catalog (slot_at q' i) = catalog (slot_at q i)"
    "slot_table_id (slot_at q' i) = slot_table_id (slot_at q i)"
    "candidate_snapshot_id (slot_at q' i) = candidate_snapshot_id (slot_at q i)"
    "candidate_row_id (slot_at q' i) = candidate_row_id (slot_at q i)"
    "row_assigned (slot_at q' i) = row_assigned (slot_at q i)"
    "row_count_known (slot_at q' i) = row_count_known (slot_at q i)"
    "row_count (slot_at q' i) = row_count (slot_at q i)" by simp_all
qed

lemma shrinks_in_use:
  assumes "shrinks q q'" "i < length (slots q)" "in_use (slot_at q' i)"
  shows "in_use (slot_at q i)" "ticket (slot_at q' i) = ticket (slot_at q i)"
  using assms by (simp_all add: shrinks_def)

lemma tickets_ok_in_use:
  assumes "tickets_ok cap q" "i < length (slots q)" "in_use (slot_at q i)"
  shows "i < cap" "ticket (slot_at q i) < next_ticket q"
  using assms by (simp_all add: tickets_ok_def)

lemma tickets_ok_unique:
  assumes "tickets_ok cap q" "i < length (slots q)" "j < length (slots q)"
    "in_use (slot_at q i)" "in_use (slot_at q j)" "ticket (slot_at q i) = ticket (slot_at q j)"
  shows "i = j"
  using assms unfolding tickets_ok_def by blast

lemma shrinks_tickets_ok:
  assumes ok: "tickets_ok cap q" and sh: "shrinks q q'"
  shows "tickets_ok cap q'"
proof -
  have len: "length (slots q') = length (slots q)" and nt: "next_ticket q' = next_ticket q"
    using sh by (simp_all add: shrinks_def)
  show ?thesis
    unfolding tickets_ok_def len nt
  proof (intro conjI allI impI; (elim conjE)?)
    fix i assume i: "i < length (slots q)" "in_use (slot_at q' i)"
    note s = shrinks_in_use [OF sh i]
    show "i < cap" "ticket (slot_at q' i) < next_ticket q"
      using tickets_ok_in_use [OF ok i(1) s(1)] s(2) by simp_all
  next
    fix i j assume ij: "i < length (slots q)" "j < length (slots q)" "in_use (slot_at q' i)" "in_use (slot_at q' j)"
      and t: "ticket (slot_at q' i) = ticket (slot_at q' j)"
    show "i = j"
      using tickets_ok_unique [OF ok ij(1,2)] shrinks_in_use [OF sh ij(1,3)] shrinks_in_use [OF sh ij(2,4)] t by simp
  qed (use ok in \<open>simp_all add: tickets_ok_def\<close>)
qed

lemma shrinks_snapshots_ordered:
  assumes ord: "snapshots_ordered q" and sh: "shrinks q q'"
  shows "snapshots_ordered q'"
  unfolding snapshots_ordered_def
proof (intro allI impI, elim conjE)
  fix i j
  assume ij: "i < length (slots q')" "j < length (slots q')" and li: "live (slot_at q' i)" and lj: "live (slot_at q' j)"
    and c: "SameCatalog (catalog (slot_at q' i)) (catalog (slot_at q' j))"
    and t: "ticket (slot_at q' i) < ticket (slot_at q' j)"
  have ij': "i < length (slots q)" "j < length (slots q)" using ij sh by (simp_all add: shrinks_def)
  note si = shrinks_live [OF sh ij'(1) li] and sj = shrinks_live [OF sh ij'(2) lj]
  have "candidate_snapshot_id (slot_at q i) < candidate_snapshot_id (slot_at q j)"
    using ord ij' si(1) sj(1) c t unfolding snapshots_ordered_def si(3,4) sj(3,4) by blast
  then show "candidate_snapshot_id (slot_at q' i) < candidate_snapshot_id (slot_at q' j)"
    by (simp only: si(6) sj(6))
qed

lemma shrinks_rows_ordered:
  assumes ord: "rows_ordered q" and sh: "shrinks q q'"
  shows "rows_ordered q'"
  unfolding rows_ordered_def
proof (intro allI impI, elim conjE)
  fix i j
  assume ij: "i < length (slots q')" "j < length (slots q')" and li: "live (slot_at q' i)" and lj: "live (slot_at q' j)"
    and c: "SameCatalog (catalog (slot_at q' i)) (catalog (slot_at q' j))"
    and tab: "slot_table_id (slot_at q' i) = slot_table_id (slot_at q' j)"
    and t: "ticket (slot_at q' i) < ticket (slot_at q' j)" and r: "row_assigned (slot_at q' j)"
  have ij': "i < length (slots q)" "j < length (slots q)" using ij sh by (simp_all add: shrinks_def)
  note si = shrinks_live [OF sh ij'(1) li] and sj = shrinks_live [OF sh ij'(2) lj]
  have "rows_before (slot_at q i) (slot_at q j)"
    using ord ij' si(1) sj(1) c t tab r unfolding rows_ordered_def si(3-5) sj(3-5,8) by blast
  then show "rows_before (slot_at q' i) (slot_at q' j)"
    by (simp only: rows_before_def si(7-10) sj(7))
qed

lemma shrinks_counts_bounded:
  assumes "counts_bounded q" and sh: "shrinks q q'"
  shows "counts_bounded q'"
  unfolding counts_bounded_def
proof (intro allI impI, elim conjE)
  fix i
  assume i: "i < length (slots q')" and li: "live (slot_at q' i)" and k: "row_count_known (slot_at q' i)"
  have i': "i < length (slots q)" using i sh by (simp add: shrinks_def)
  note si = shrinks_live [OF sh i' li]
  show "row_count (slot_at q' i) \<le> INT64_MAX"
    using assms(1) i' si(1) k unfolding counts_bounded_def si(9,10) by blast
qed

lemma queue_inv_shrinks: "queue_inv cap q \<Longrightarrow> shrinks q q' \<Longrightarrow> queue_inv cap q'"
  unfolding queue_inv_def
  using shrinks_tickets_ok shrinks_snapshots_ordered shrinks_rows_ordered shrinks_counts_bounded by blast

lemma shrinks_zero_slot: "shrinks q (set_slot i zero_slot q)"
  by (rule shrinksI) (auto simp: nth_update_in split: if_splits)

lemma shrinks_InvalidateFrom: "shrinks q (InvalidateFrom cap cat t q)"
  by (rule shrinksI) (auto simp: InvalidateFrom_def nth_map_upto live_def split: if_splits)

lemma shrinks_ReclaimInvalidSlots: "shrinks q (ReclaimInvalidSlots cap q)"
  by (rule shrinksI) (auto simp: ReclaimInvalidSlots_def nth_map_upto split: if_splits)

lemma shrinks_release: "shrinks q (set_slot i zero_slot (InvalidateFrom cap cat t q))"
  by (rule shrinks_trans [OF shrinks_InvalidateFrom shrinks_zero_slot])

lemma shrinks_reset_catalog: "shrinks q (reset_catalog cap cat q)"
  unfolding reset_catalog_def InvalidateCatalog_def
  by (rule shrinks_trans [OF shrinks_InvalidateFrom shrinks_ReclaimInvalidSlots])

lemma shrinks_drop_stale: "shrinks q (drop_stale cap a q)"
proof -
  let ?q = "ReclaimInvalidSlots cap q"
  have "drop_stale cap a q = ?q \<or> drop_stale cap a q = reset_catalog cap (ra_catalog a) ?q"
    by (simp add: drop_stale_def Let_def split: option.splits)
  then show ?thesis
    using shrinks_ReclaimInvalidSlots shrinks_trans shrinks_reset_catalog by metis
qed

lemma shrinks_ReclaimOldestCommittedAnchor: "shrinks q (fst (ReclaimOldestCommittedAnchor cap q))"
  by (simp add: ReclaimOldestCommittedAnchor_def shrinks_zero_slot split: option.splits)

lemma shrinks_reserve_pass: "shrinks q (fst (reserve_pass cap a q))"
proof -
  let ?q = "drop_stale cap a q"
  have "fst (reserve_pass cap a q) = ?q \<or> fst (reserve_pass cap a q) = fst (ReclaimOldestCommittedAnchor cap ?q)"
    by (simp add: reserve_pass_def Let_def split: option.splits prod.splits)
  then show ?thesis
    using shrinks_drop_stale shrinks_trans shrinks_ReclaimOldestCommittedAnchor by metis
qed

lemma shrinks_ReclaimInactiveOwner: "shrinks q (fst (ReclaimInactiveOwner cap procs c q))"
  by (simp add: ReclaimInactiveOwner_def shrinks_release split: option.splits)

lemma shrinks_ReclaimInactiveOwners: "shrinks q (ReclaimInactiveOwners cap procs q)"
proof -
  have "shrinks q (fold (\<lambda>b q. fst (ReclaimInactiveOwner cap procs (Some b) q)) bs q)" for bs
  proof (induction bs arbitrary: q)
    case (Cons b bs)
    show ?case
      using shrinks_trans [OF shrinks_ReclaimInactiveOwner Cons] by simp
  qed simp
  then show ?thesis by (simp add: ReclaimInactiveOwners_def)
qed

lemma shrinks_AbandonReservation: "shrinks q (AbandonReservation cap r q)"
  by (simp add: AbandonReservation_def shrinks_release split: option.splits)

lemma shrinks_commit_anchor: "shrinks q (commit_anchor cap i q)"
  by (rule shrinksI)
     (auto simp: commit_anchor_def Let_def nth_update_in core_def live_def split: if_splits)

lemma shrinks_refresh_deadline: "shrinks q (set_slot i (refresh_deadline pgt b now blk (slot_at q i)) q)"
  by (rule shrinksI)
     (auto simp: refresh_deadline_def nth_update_in core_def live_def split: if_splits)

lemmas shrinks_ops =
  shrinks_InvalidateFrom shrinks_release shrinks_commit_anchor shrinks_AbandonReservation
  shrinks_ReclaimInactiveOwner shrinks_ReclaimInactiveOwners shrinks_reserve_pass

lemma shrinks_RemoveLocalReservation:
  "\<exists>q'. fst (RemoveLocalReservation cap c (Some q, lcl)) = Some q' \<and> shrinks q q'"
  by (simp add: RemoveLocalReservation_def shrinks_ops split: option.splits)

lemma shrinks_Validate:
  "\<exists>q'. fst (ValidateNativeWriterReservation cap r sid rid (Some q)) = Some q' \<and> shrinks q q'"
  by (simp add: ValidateNativeWriterReservation_def Let_def shrinks_ops split: option.splits)

lemma shrinks_Invalidate:
  "\<exists>q'. InvalidateNativeWriterReservation cap r (Some q) = Some q' \<and> shrinks q q'"
  by (simp add: InvalidateNativeWriterReservation_def shrinks_ops split: option.splits)

section \<open>Operations that add information\<close>

text \<open>How a new or changed slot must fit between the live slots of its catalog.\<close>

definition fits :: "nat \<Rightarrow> ReservationSlot \<Rightarrow> queue \<Rightarrow> bool" where
  "fits i s q \<longleftrightarrow>
     (\<forall>j < length (slots q). j \<noteq> i \<and> live (slot_at q j) \<and> catalog (slot_at q j) = catalog s \<longrightarrow>
        (ticket (slot_at q j) < ticket s \<longrightarrow> candidate_snapshot_id (slot_at q j) < candidate_snapshot_id s) \<and>
        (ticket s < ticket (slot_at q j) \<longrightarrow> candidate_snapshot_id s < candidate_snapshot_id (slot_at q j)))"

definition fits_rows :: "nat \<Rightarrow> ReservationSlot \<Rightarrow> queue \<Rightarrow> bool" where
  "fits_rows i s q \<longleftrightarrow>
     (\<forall>j < length (slots q). j \<noteq> i \<and> live (slot_at q j) \<and> catalog (slot_at q j) = catalog s \<and>
          slot_table_id (slot_at q j) = slot_table_id s \<longrightarrow>
        (ticket (slot_at q j) < ticket s \<and> row_assigned s \<longrightarrow> rows_before (slot_at q j) s) \<and>
        (ticket s < ticket (slot_at q j) \<and> row_assigned (slot_at q j) \<longrightarrow> rows_before s (slot_at q j)))"

lemma tickets_ok_update:
  assumes ok: "tickets_ok cap q" and i: "i < cap" and t: "ticket s < nt" "next_ticket q \<le> nt"
    and new: "\<And>j. j < length (slots q) \<Longrightarrow> j \<noteq> i \<Longrightarrow> in_use (slot_at q j) \<Longrightarrow> ticket (slot_at q j) \<noteq> ticket s"
  shows "tickets_ok cap ((set_slot i s q)\<lparr>next_ticket := nt\<rparr>)"
proof -
  let ?q = "(set_slot i s q)\<lparr>next_ticket := nt\<rparr>"
  have at: "slot_at ?q j = (if i = j then s else slot_at q j)" if "j < length (slots q)" for j
    using that by (simp add: nth_update_in)
  have len: "length (slots ?q) = length (slots q)" by simp
  have old: "ticket (slot_at q j) < nt" if "j < length (slots q)" "in_use (slot_at q j)" for j
    using tickets_ok_in_use(2) [OF ok that] t(2) by (rule less_le_trans)
  show ?thesis
    unfolding tickets_ok_def len
  proof (intro conjI allI impI; (elim conjE)?)
    fix j assume j: "j < length (slots q)" "in_use (slot_at ?q j)"
    show "j < cap" "ticket (slot_at ?q j) < next_ticket ?q"
      using j i t(1) old tickets_ok_in_use(1) [OF ok] unfolding at [OF j(1)] by (auto split: if_splits)
  next
    fix j k assume jk: "j < length (slots q)" "k < length (slots q)" "in_use (slot_at ?q j)" "in_use (slot_at ?q k)"
      and tk: "ticket (slot_at ?q j) = ticket (slot_at ?q k)"
    show "j = k"
    proof (cases "j = i \<or> k = i")
      case True
      then show ?thesis
        using jk tk new unfolding at [OF jk(1)] at [OF jk(2)] by (auto split: if_splits)
    next
      case False
      then show ?thesis
        using tickets_ok_unique [OF ok jk(1,2)] jk(3,4) tk unfolding at [OF jk(1)] at [OF jk(2)] by simp
    qed
  qed (use ok in \<open>simp_all add: tickets_ok_def\<close>)
qed

lemma queue_inv_update:
  assumes inv: "queue_inv cap q" and i: "i < cap" and t: "ticket s < nt" "next_ticket q \<le> nt"
    and new: "\<And>j. j < length (slots q) \<Longrightarrow> j \<noteq> i \<Longrightarrow> in_use (slot_at q j) \<Longrightarrow> ticket (slot_at q j) \<noteq> ticket s"
    and fit: "live s \<Longrightarrow> fits i s q" "live s \<Longrightarrow> fits_rows i s q"
    and cnt: "live s \<Longrightarrow> row_count_known s \<Longrightarrow> row_count s \<le> INT64_MAX"
  shows "queue_inv cap ((set_slot i s q)\<lparr>next_ticket := nt\<rparr>)"
proof -
  let ?q = "(set_slot i s q)\<lparr>next_ticket := nt\<rparr>"
  have ok: "tickets_ok cap q" and so: "snapshots_ordered q" and ro: "rows_ordered q" and cb: "counts_bounded q"
    using inv by (simp_all add: queue_inv_def)
  have at: "slot_at ?q j = (if i = j then s else slot_at q j)" if "j < length (slots q)" for j
    using that by (simp add: nth_update_in)
  have "snapshots_ordered ?q"
    unfolding snapshots_ordered_def
  proof (intro allI impI, elim conjE)
    fix j k
    assume jk: "j < length (slots ?q)" "k < length (slots ?q)" and l: "live (slot_at ?q j)" "live (slot_at ?q k)"
      and c: "SameCatalog (catalog (slot_at ?q j)) (catalog (slot_at ?q k))"
      and tk: "ticket (slot_at ?q j) < ticket (slot_at ?q k)"
    have jk': "j < length (slots q)" "k < length (slots q)" using jk by simp_all
    show "candidate_snapshot_id (slot_at ?q j) < candidate_snapshot_id (slot_at ?q k)"
    proof (cases "j = i \<or> k = i")
      case True
      with tk have "j = i \<and> k \<noteq> i \<or> k = i \<and> j \<noteq> i" by auto
      then show ?thesis
        using fit(1) l c tk jk' unfolding fits_def at [OF jk'(1)] at [OF jk'(2)] SameCatalog_iff by force
    next
      case False
      then show ?thesis
        using so l c tk jk' unfolding snapshots_ordered_def at [OF jk'(1)] at [OF jk'(2)] by simp
    qed
  qed
  moreover have "rows_ordered ?q"
    unfolding rows_ordered_def
  proof (intro allI impI, elim conjE)
    fix j k
    assume jk: "j < length (slots ?q)" "k < length (slots ?q)" and l: "live (slot_at ?q j)" "live (slot_at ?q k)"
      and c: "SameCatalog (catalog (slot_at ?q j)) (catalog (slot_at ?q k))"
      and tab: "slot_table_id (slot_at ?q j) = slot_table_id (slot_at ?q k)"
      and tk: "ticket (slot_at ?q j) < ticket (slot_at ?q k)" and ra: "row_assigned (slot_at ?q k)"
    have jk': "j < length (slots q)" "k < length (slots q)" using jk by simp_all
    show "rows_before (slot_at ?q j) (slot_at ?q k)"
    proof (cases "j = i \<or> k = i")
      case True
      with tk have "j = i \<and> k \<noteq> i \<or> k = i \<and> j \<noteq> i" by auto
      then show ?thesis
        using fit(2) l c tab tk ra jk' unfolding fits_rows_def at [OF jk'(1)] at [OF jk'(2)] SameCatalog_iff by force
    next
      case False
      then show ?thesis
        using ro l c tab tk ra jk' unfolding rows_ordered_def at [OF jk'(1)] at [OF jk'(2)] by simp
    qed
  qed
  moreover have "counts_bounded ?q"
    using cb cnt by (auto simp: counts_bounded_def nth_update_in)
  ultimately show ?thesis
    using tickets_ok_update [OF ok i t new] by (simp add: queue_inv_def)
qed

subsection \<open>The last earlier reservation\<close>

definition prior_to :: "queue \<Rightarrow> ReservationSlot \<Rightarrow> bool \<Rightarrow> nat \<Rightarrow> bool" where
  "prior_to q s same_table j \<longleftrightarrow> live (slot_at q j) \<and> catalog (slot_at q j) = catalog s \<and>
     ticket (slot_at q j) < ticket s \<and> (same_table \<longrightarrow> slot_table_id (slot_at q j) = slot_table_id s)"

lemma LastPriorSlot_alt:
  "LastPriorSlot cap q s st = scan_max (\<lambda>i. ticket (slot_at q i)) (prior_to q s st) cap"
  unfolding LastPriorSlot_def
  by (rule arg_cong [where f = "\<lambda>P. scan_max (\<lambda>i. ticket (slot_at q i)) P cap"])
     (auto simp: prior_to_def live_def SameCatalog_iff Let_def fun_eq_iff not_le)

lemma LastPriorSlot_None: "LastPriorSlot cap q s st = None \<Longrightarrow> j < cap \<Longrightarrow> \<not> prior_to q s st j"
  by (simp add: LastPriorSlot_alt scan_max_None)

lemma LastPriorSlot_Some:
  assumes "LastPriorSlot cap q s st = Some p"
  shows "p < cap" "prior_to q s st p"
    "\<And>j. j < cap \<Longrightarrow> prior_to q s st j \<Longrightarrow> ticket (slot_at q j) \<le> ticket (slot_at q p)"
  using scan_max_Some [OF assms [unfolded LastPriorSlot_alt]] by auto

text \<open>Only the ticket, the catalog and the table of the current slot matter, and the slot itself
  is not among the candidates.\<close>

lemma LastPriorSlot_cong:
  assumes "ticket s = ticket s'" "catalog s = catalog s'" "slot_table_id s = slot_table_id s'"
    and "live x \<Longrightarrow> ticket s \<le> ticket x" "live y \<Longrightarrow> ticket s \<le> ticket y" and "cap \<le> length (slots q)"
  shows "LastPriorSlot cap (set_slot i x q) s st = LastPriorSlot cap (set_slot i y q) s' st"
proof -
  have "scan_max (\<lambda>k. ticket (slot_at (set_slot i x q) k)) (prior_to (set_slot i x q) s st) n =
        scan_max (\<lambda>k. ticket (slot_at (set_slot i y q) k)) (prior_to (set_slot i y q) s' st) n"
    if "n \<le> length (slots q)" for n
    using that
  proof (induction n)
    case (Suc n)
    let ?P = "prior_to (set_slot i x q) s st" and ?P' = "prior_to (set_slot i y q) s' st"
    have P: "?P k = ?P' k" if "k < length (slots q)" for k
      using that assms by (auto simp: prior_to_def nth_update_in)
    have "scan_max (\<lambda>k. ticket (slot_at (set_slot i x q) k)) ?P n =
          scan_max (\<lambda>k. ticket (slot_at (set_slot i y q) k)) ?P' n"
      using Suc by simp
    moreover have "ticket (slot_at (set_slot i x q) k) = ticket (slot_at (set_slot i y q) k)"
      if "k < length (slots q)" "?P' k" for k
      using that assms P [OF that(1)] by (auto simp: prior_to_def nth_update_in split: if_splits)
    moreover have "k < n \<and> ?P' k" if "scan_max (\<lambda>k. ticket (slot_at (set_slot i y q) k)) ?P' n = Some k" for k
      using scan_max_Some [OF that] by blast
    ultimately show ?case
      using Suc.prems P [of n] by (auto simp: scan_max_def split: option.splits)
  qed (simp add: scan_max_def)
  then show ?thesis using assms(6) by (simp add: LastPriorSlot_alt)
qed

lemma queue_inv_facts:
  assumes "queue_inv cap q"
  shows "tickets_ok cap q" "snapshots_ordered q" "rows_ordered q" "counts_bounded q"
    "length (slots q) = MAX_RESERVATIONS" "cap \<le> length (slots q)"
  using assms by (simp_all add: queue_inv_def tickets_ok_def)

lemma live_in_use: "live s \<Longrightarrow> in_use s"
  by (simp add: live_def)

lemma rows_orderedD:
  assumes "queue_inv cap q" "i < length (slots q)" "j < length (slots q)" "live (slot_at q i)" "live (slot_at q j)"
    "catalog (slot_at q i) = catalog (slot_at q j)" "slot_table_id (slot_at q i) = slot_table_id (slot_at q j)"
    "ticket (slot_at q i) < ticket (slot_at q j)" "row_assigned (slot_at q j)"
  shows "rows_before (slot_at q i) (slot_at q j)"
  using assms unfolding queue_inv_def rows_ordered_def SameCatalog_iff by blast

lemma snapshots_orderedD:
  assumes "queue_inv cap q" "i < length (slots q)" "j < length (slots q)" "live (slot_at q i)" "live (slot_at q j)"
    "catalog (slot_at q i) = catalog (slot_at q j)" "ticket (slot_at q i) < ticket (slot_at q j)"
  shows "candidate_snapshot_id (slot_at q i) < candidate_snapshot_id (slot_at q j)"
  using assms unfolding queue_inv_def snapshots_ordered_def SameCatalog_iff by blast

lemma rows_before_frontier:
  assumes inv: "queue_inv cap q" and last: "LastPriorSlot cap q s True = Some p"
    and p: "row_assigned (slot_at q p)" "row_count_known (slot_at q p)"
      "candidate_row_id (slot_at q p) \<le> INT64_MAX - row_count (slot_at q p)"
    and new: "candidate_row_id s' = candidate_row_id (slot_at q p) + row_count (slot_at q p)"
    and j: "j < length (slots q)" "prior_to q s True j"
  shows "rows_before (slot_at q j) s'"
proof -
  note F = queue_inv_facts [OF inv]
  note L = LastPriorSlot_Some [OF last]
  have pl: "p < length (slots q)" using L(1) F(6) by simp
  have jc: "j < cap" using tickets_ok_in_use(1) [OF F(1) j(1)] j(2) by (simp add: prior_to_def live_def)
  have "row_count (slot_at q p) \<le> INT64_MAX"
    using F(4) pl L(2) p(2) by (simp add: counts_bounded_def prior_to_def)
  note sum = unat_add_guarded(1) [OF this p(3)]
  have pp: "rows_before (slot_at q p) s'"
    using p new by (simp add: rows_before_def sum)
  show ?thesis
  proof (cases "j = p")
    case False
    then have "ticket (slot_at q j) \<noteq> ticket (slot_at q p)"
      using tickets_ok_unique [OF F(1) j(1) pl] j(2) L(2) by (auto simp: prior_to_def live_def)
    then have "ticket (slot_at q j) < ticket (slot_at q p)" using L(3) [OF jc j(2)] by simp
    then have "rows_before (slot_at q j) (slot_at q p)"
      using rows_orderedD [OF inv j(1) pl] j(2) L(2) p(1) by (simp add: prior_to_def)
    with pp show ?thesis by (simp add: rows_before_def)
  qed (use pp in simp)
qed

lemma fits_same:
  assumes inv: "queue_inv cap q" and i: "i < length (slots q)" "live (slot_at q i)"
    and eq: "ticket s = ticket (slot_at q i)" "catalog s = catalog (slot_at q i)"
      "candidate_snapshot_id s = candidate_snapshot_id (slot_at q i)"
  shows "fits i s q"
  using queue_inv_facts(2) [OF inv] i unfolding fits_def snapshots_ordered_def SameCatalog_iff eq by auto

lemma set_slot_next_ticket: "(set_slot i s q)\<lparr>next_ticket := next_ticket q\<rparr> = set_slot i s q"
  by (cases q) (simp add: set_slot_def)

text \<open>An update of a live slot that keeps its ticket, catalog, table and snapshot candidate.\<close>

lemma queue_inv_refine_slot:
  assumes inv: "queue_inv cap q" and i: "i < length (slots q)" "live (slot_at q i)"
    and eq: "ticket s = ticket (slot_at q i)" "catalog s = catalog (slot_at q i)"
      "candidate_snapshot_id s = candidate_snapshot_id (slot_at q i)"
    and rows: "fits_rows i s q" and cnt: "row_count_known s \<Longrightarrow> row_count s \<le> INT64_MAX"
  shows "queue_inv cap (set_slot i s q)"
proof -
  note F = queue_inv_facts [OF inv]
  have iu: "in_use (slot_at q i)" using i(2) by (rule live_in_use)
  have "ticket s < next_ticket q" using tickets_ok_in_use(2) [OF F(1) i(1) iu] eq(1) by simp
  moreover have "ticket (slot_at q j) \<noteq> ticket s" if "j < length (slots q)" "j \<noteq> i" "in_use (slot_at q j)" for j
    using tickets_ok_unique [OF F(1) that(1) i(1) that(3) iu] that(2) eq(1) by auto
  ultimately have "queue_inv cap ((set_slot i s q)\<lparr>next_ticket := next_ticket q\<rparr>)"
    using queue_inv_update [OF inv tickets_ok_in_use(1) [OF F(1) i(1) iu], of s "next_ticket q"]
      fits_same [OF inv i eq] rows cnt by auto
  then show ?thesis by (simp only: set_slot_next_ticket)
qed

lemma assign_row_inv:
  assumes inv: "queue_inv cap q" and i: "i < length (slots q)" "live (slot_at q i)"
  shows "queue_inv cap (fst (assign_row cap i q))"
proof (cases "LastPriorSlot cap q (slot_at q i) True")
  case None
  then show ?thesis using inv by (simp add: assign_row_def Let_def)
next
  case (Some p)
  let ?s = "slot_at q i" and ?p = "slot_at q p"
  note F = queue_inv_facts [OF inv] and L = LastPriorSlot_Some [OF Some]
  have pl: "p < length (slots q)" using L(1) F(6) by simp
  show ?thesis
  proof (cases "row_assigned ?p \<and> row_count_known ?p \<and> candidate_row_id ?p \<le> INT64_MAX - row_count ?p")
    case True
    let ?n = "?s\<lparr>candidate_row_id := candidate_row_id ?p + row_count ?p, row_assigned := True\<rparr>"
    have cp: "row_count ?p \<le> INT64_MAX"
      using F(4) pl L(2) True by (simp add: counts_bounded_def prior_to_def)
    have "fits_rows i ?n q"
      unfolding fits_rows_def
    proof (intro allI impI, elim conjE, intro conjI impI; elim conjE)
      fix j assume j: "j < length (slots q)" "live (slot_at q j)" "catalog (slot_at q j) = catalog ?n"
        "slot_table_id (slot_at q j) = slot_table_id ?n" "ticket (slot_at q j) < ticket ?n"
      then have "prior_to q ?s True j" by (simp add: prior_to_def)
      then show "rows_before (slot_at q j) ?n"
        using rows_before_frontier [OF inv Some _ _ _ _ j(1)] True by simp
    next
      fix j assume j: "j < length (slots q)" "live (slot_at q j)" "catalog (slot_at q j) = catalog ?n"
        "slot_table_id (slot_at q j) = slot_table_id ?n" "ticket ?n < ticket (slot_at q j)" "row_assigned (slot_at q j)"
      then have sj: "rows_before ?s (slot_at q j)"
        using rows_orderedD [OF inv i(1) j(1) i(2)] by simp
      then have "rows_before ?p ?s"
        using rows_orderedD [OF inv pl i(1)] i(2) L(2) by (simp add: prior_to_def rows_before_def)
      with sj show "rows_before ?n (slot_at q j)"
        using unat_add_guarded(1) [OF cp] True by (simp add: rows_before_def)
    qed
    moreover have "row_count_known ?n \<Longrightarrow> row_count ?n \<le> INT64_MAX"
      using F(4) i by (simp add: counts_bounded_def)
    ultimately have "queue_inv cap (set_slot i ?n q)"
      using queue_inv_refine_slot [OF inv i, of ?n] by simp
    then show ?thesis using True Some by (simp add: assign_row_def Let_def)
  next
    case False
    then show ?thesis
      using Some inv queue_inv_shrinks [OF inv shrinks_InvalidateFrom] by (auto simp: assign_row_def Let_def)
  qed
qed

lemma FindSlot_Some:
  assumes "FindSlot cap q r = Some i"
  shows "i < cap" "in_use (slot_at q i)" "ticket (slot_at q i) = res_ticket r" "active r" "i = unat (slot_no r)"
  using assms by (auto simp: FindSlot_def Let_def split: if_splits)

lemma Complete_inv:
  assumes inv: "queue_inv cap q" and n: "n \<le> INT64_MAX"
    and c: "CompleteNativeWriterReservation cap r n (Some q) = (Some q', b)"
  shows "queue_inv cap q'"
proof (cases "FindSlot cap q r")
  case None
  then show ?thesis using inv c by (auto simp: CompleteNativeWriterReservation_def split: if_splits)
next
  case (Some i)
  let ?s = "slot_at q i"
  let ?n = "?s\<lparr>row_count := n, row_count_known := True\<rparr>"
  note F = queue_inv_facts [OF inv] and S = FindSlot_Some [OF Some]
  have il: "i < length (slots q)" using S(1) F(6) by simp
  show ?thesis
  proof (cases "valid ?s \<and> \<not> ((row_count_known ?s \<and> row_count ?s \<noteq> n) \<or> n = 0)")
    case True
    then have l: "live ?s" using S(2) by (simp add: live_def)
    have "fits_rows i ?n q"
      unfolding fits_rows_def
    proof (intro allI impI, elim conjE, intro conjI impI; elim conjE)
      fix j assume j: "j < length (slots q)" "live (slot_at q j)" "catalog (slot_at q j) = catalog ?n"
        "slot_table_id (slot_at q j) = slot_table_id ?n" "ticket (slot_at q j) < ticket ?n" "row_assigned ?n"
      then have "rows_before (slot_at q j) ?s"
        using rows_orderedD [OF inv j(1) il j(2) l] by simp
      then show "rows_before (slot_at q j) ?n" by (simp add: rows_before_def)
    next
      fix j assume j: "j < length (slots q)" "live (slot_at q j)" "catalog (slot_at q j) = catalog ?n"
        "slot_table_id (slot_at q j) = slot_table_id ?n" "ticket ?n < ticket (slot_at q j)" "row_assigned (slot_at q j)"
      then have "rows_before ?s (slot_at q j)"
        using rows_orderedD [OF inv il j(1) l] by simp
      then show "rows_before ?n (slot_at q j)" using True by (simp add: rows_before_def)
    qed
    then have "queue_inv cap (set_slot i ?n q)"
      using queue_inv_refine_slot [OF inv il l, of ?n] n by simp
    then show ?thesis
      using c True Some S(4) by (auto simp: CompleteNativeWriterReservation_def Let_def)
  next
    case False
    then show ?thesis
      using c Some S(4) inv queue_inv_shrinks [OF inv shrinks_InvalidateFrom]
      by (auto simp: CompleteNativeWriterReservation_def Let_def split: if_splits)
  qed
qed

subsection \<open>Filling a slot\<close>

lemma LastPriorSlot_next_ticket [simp]:
  "LastPriorSlot cap (q\<lparr>next_ticket := n\<rparr>) s st = LastPriorSlot cap q s st"
  by (simp add: LastPriorSlot_def)

lemma set_slot_self: "i < length (slots q) \<Longrightarrow> set_slot i (slot_at q i) q = q"
  by (cases q) (simp add: set_slot_def)

lemma LastPriorSlot_ignore:
  assumes "i < length (slots q)" "\<not> live (slot_at q i)" "cap \<le> length (slots q)"
    and "ticket s \<le> ticket x" and "ticket s = ticket s'" "catalog s = catalog s'" "slot_table_id s = slot_table_id s'"
  shows "LastPriorSlot cap (set_slot i x q) s st = LastPriorSlot cap q s' st"
  using LastPriorSlot_cong [OF assms(5-7), of x "slot_at q i" cap q i st] assms(1-4) set_slot_self [OF assms(1)]
  by simp

lemma fresh_slot_simps [simp]:
  "ticket (fresh_slot a t) = t" "catalog (fresh_slot a t) = ra_catalog a" "slot_table_id (fresh_slot a t) = ra_table_id a"
  "in_use (fresh_slot a t)" "valid (fresh_slot a t)" "\<not> committed (fresh_slot a t)" "\<not> row_assigned (fresh_slot a t)"
  "row_count_known (fresh_slot a t) = ra_row_count_known a" "row_count (fresh_slot a t) = ra_row_count a"
  by (simp_all add: fresh_slot_def zero_slot_def)

lemma with_snapshot_simps [simp]:
  "ticket (with_snapshot cap a q s) = ticket s" "catalog (with_snapshot cap a q s) = catalog s"
  "slot_table_id (with_snapshot cap a q s) = slot_table_id s" "in_use (with_snapshot cap a q s) = in_use s"
  "row_count_known (with_snapshot cap a q s) = row_count_known s" "row_count (with_snapshot cap a q s) = row_count s"
  "valid (with_snapshot cap a q s) = candidate_valid cap q s" "row_assigned (with_snapshot cap a q s) = row_assigned s"
  "committed (with_snapshot cap a q s) = committed s"
  by (simp_all add: with_snapshot_def)

lemma with_row_simps [simp]:
  "ticket (with_row cap a q s) = ticket s" "catalog (with_row cap a q s) = catalog s"
  "slot_table_id (with_row cap a q s) = slot_table_id s" "in_use (with_row cap a q s) = in_use s"
  "row_count_known (with_row cap a q s) = row_count_known s" "row_count (with_row cap a q s) = row_count s"
  "valid (with_row cap a q s) = valid s" "candidate_snapshot_id (with_row cap a q s) = candidate_snapshot_id s"
  "committed (with_row cap a q s) = committed s"
  by (simp_all add: with_row_def Let_def split: option.splits)

text \<open>The slot that \<open>fill_slot\<close> writes, over the queue before the call.\<close>

definition filled_slot :: "nat \<Rightarrow> reserve_args \<Rightarrow> queue \<Rightarrow> ReservationSlot" where
  "filled_slot cap a q = with_row cap a q (with_snapshot cap a q (fresh_slot a (next_ticket q)))"

lemma fill_slot_eq:
  assumes i: "i < length (slots q)" "\<not> live (slot_at q i)" and cap: "cap \<le> length (slots q)"
  shows "fill_slot cap a i q = (set_slot i (filled_slot cap a q) q)\<lparr>next_ticket := next_ticket q + 1\<rparr>"
proof -
  let ?s0 = "fresh_slot a (next_ticket q)"
  let ?q0 = "(set_slot i ?s0 q)\<lparr>next_ticket := next_ticket q + 1\<rparr>"
  have P0: "LastPriorSlot cap ?q0 ?s0 st = LastPriorSlot cap q ?s0 st" for st
    by (simp add: LastPriorSlot_ignore [OF i cap])
  have ne: "(slots q)[i := x] ! p = slot_at q p" if "LastPriorSlot cap q s st = Some p" for p s st x
    using LastPriorSlot_Some(2) [OF that] i(2) by (cases "p = i") (simp_all add: prior_to_def)
  have s1: "with_snapshot cap a ?q0 ?s0 = with_snapshot cap a q ?s0"
    unfolding with_snapshot_def candidate_valid_def P0
    by (cases "LastPriorSlot cap q ?s0 False") (simp_all add: ne)
  let ?s1 = "with_snapshot cap a q ?s0"
  let ?q1 = "set_slot i ?s1 ?q0"
  have q1: "?q1 = (set_slot i ?s1 q)\<lparr>next_ticket := next_ticket q + 1\<rparr>"
    by (simp add: set_slot_def)
  have P1: "LastPriorSlot cap ?q1 ?s1 st = LastPriorSlot cap q ?s1 st" for st
    unfolding q1 by (simp add: LastPriorSlot_ignore [OF i cap])
  have s2: "with_row cap a ?q1 ?s1 = with_row cap a q ?s1"
    unfolding with_row_def P1 by (cases "LastPriorSlot cap q ?s1 True") (simp_all add: ne)
  show ?thesis
    unfolding fill_slot_def Let_def s1 s2 filled_slot_def by (simp add: set_slot_def)
qed

lemma filled_slot_snapshot:
  assumes inv: "queue_inv cap q" and l: "live (filled_slot cap a q)"
    and j: "j < length (slots q)" "live (slot_at q j)" "catalog (slot_at q j) = ra_catalog a"
  shows "candidate_snapshot_id (slot_at q j) < candidate_snapshot_id (filled_slot cap a q)"
proof -
  let ?s = "fresh_slot a (next_ticket q)"
  note F = queue_inv_facts [OF inv]
  have jt: "ticket (slot_at q j) < next_ticket q" "j < cap"
    using tickets_ok_in_use [OF F(1) j(1) live_in_use [OF j(2)]] by simp_all
  then have pj: "prior_to q ?s False j" using j by (simp add: prior_to_def)
  then obtain p where last: "LastPriorSlot cap q ?s False = Some p"
    using LastPriorSlot_None [OF _ jt(2)] by (cases "LastPriorSlot cap q ?s False") auto
  note L = LastPriorSlot_Some [OF last]
  have pl: "p < length (slots q)" using L(1) F(6) by simp
  have v: "candidate_snapshot_id (slot_at q p) < INT64_MAX" "candidate_valid cap q ?s"
    using l last by (auto simp: filled_slot_def live_def candidate_valid_def)
  have "candidate_snapshot_id (slot_at q j) \<le> candidate_snapshot_id (slot_at q p)"
  proof (cases "j = p")
    case False
    then have "ticket (slot_at q j) \<noteq> ticket (slot_at q p)"
      using tickets_ok_unique [OF F(1) j(1) pl live_in_use [OF j(2)]] L(2) by (auto simp: prior_to_def live_def)
    then have "ticket (slot_at q j) < ticket (slot_at q p)" using L(3) [OF jt(2) pj] by simp
    then show ?thesis
      using snapshots_orderedD [OF inv j(1) pl j(2)] L(2) j(3) by (simp add: prior_to_def)
  qed simp
  also have "\<dots> < candidate_snapshot_id (slot_at q p) + 1" using less_Suc_guarded [OF v(1)] .
  also have "\<dots> = candidate_snapshot_id (filled_slot cap a q)"
    using last v(2) by (simp add: filled_slot_def with_snapshot_def)
  finally show ?thesis .
qed

lemma filled_slot_rows:
  assumes inv: "queue_inv cap q" and ra: "row_assigned (filled_slot cap a q)"
    and j: "j < length (slots q)" "live (slot_at q j)" "catalog (slot_at q j) = ra_catalog a"
      "slot_table_id (slot_at q j) = ra_table_id a"
  shows "rows_before (slot_at q j) (filled_slot cap a q)"
proof -
  let ?s = "with_snapshot cap a q (fresh_slot a (next_ticket q))"
  note F = queue_inv_facts [OF inv]
  have jt: "ticket (slot_at q j) < next_ticket q" "j < cap"
    using tickets_ok_in_use [OF F(1) j(1) live_in_use [OF j(2)]] by simp_all
  then have pj: "prior_to q ?s True j" using j by (simp add: prior_to_def)
  then obtain p where last: "LastPriorSlot cap q ?s True = Some p"
    using LastPriorSlot_None [OF _ jt(2)] by (cases "LastPriorSlot cap q ?s True") auto
  then have "row_assigned (slot_at q p) \<and> row_count_known (slot_at q p) \<and>
      candidate_row_id (slot_at q p) \<le> INT64_MAX - row_count (slot_at q p) \<and>
      candidate_row_id (filled_slot cap a q) = candidate_row_id (slot_at q p) + row_count (slot_at q p)"
    using ra by (auto simp: filled_slot_def with_row_def Let_def split: if_splits)
  then show ?thesis
    using rows_before_frontier [OF inv last _ _ _ _ j(1) pj] by blast
qed

lemma fill_slot_inv:
  assumes inv: "queue_inv cap q" and i: "i < cap" "\<not> in_use (slot_at q i)"
    and nt: "next_ticket q \<noteq> UINT64_MAX" and rc: "ra_row_count a \<le> INT64_MAX"
  shows "queue_inv cap (fill_slot cap a i q)"
proof -
  let ?s = "filled_slot cap a q"
  note F = queue_inv_facts [OF inv]
  have il: "i < length (slots q)" using i(1) F(6) by simp
  have "next_ticket q < next_ticket q + 1" using less_Suc_not_max [OF nt] .
  moreover have tk: "ticket ?s = next_ticket q" "catalog ?s = ra_catalog a" "slot_table_id ?s = ra_table_id a"
    by (simp_all add: filled_slot_def)
  moreover have lt: "ticket (slot_at q j) < next_ticket q" if "j < length (slots q)" "in_use (slot_at q j)" for j
    using tickets_ok_in_use(2) [OF F(1) that] .
  moreover have "fits i ?s q" if "live ?s"
    unfolding fits_def tk using lt live_in_use filled_slot_snapshot [OF inv that] by (auto dest: less_asym)
  moreover have "fits_rows i ?s q" if "live ?s"
    unfolding fits_rows_def tk using lt live_in_use filled_slot_rows [OF inv] by (auto dest: less_asym)
  moreover have "row_count_known ?s \<Longrightarrow> row_count ?s \<le> INT64_MAX"
    using rc by (simp add: filled_slot_def)
  ultimately have "queue_inv cap ((set_slot i ?s q)\<lparr>next_ticket := next_ticket q + 1\<rparr>)"
    by (intro queue_inv_update [OF inv i(1)]) (auto dest: less_imp_neq)
  then show ?thesis
    using i(2) fill_slot_eq [OF il _ F(6)] by (simp add: live_def)
qed

lemma reserve_pass_free:
  assumes "reserve_pass cap a q = (q', Some i)"
  shows "i < cap" "\<not> in_use (slot_at q' i)"
  using assms find_index_Some
  by (force simp: reserve_pass_def free_slot_def Let_def split: option.splits prod.splits if_splits)+

lemma ReserveCritical_inv:
  assumes inv: "queue_inv cap q" and rc: "ra_row_count a \<le> INT64_MAX"
  shows "queue_inv cap (fst (ReserveCritical cap a q))"
proof (cases "reserve_pass cap a q")
  case (Pair q' r)
  then have inv': "queue_inv cap q'"
    using queue_inv_shrinks [OF inv shrinks_reserve_pass [of q cap a]] by simp
  show ?thesis
  proof (cases r)
    case (Some i)
    with Pair inv' fill_slot_inv [OF inv' reserve_pass_free [OF Pair [unfolded Some]] _ rc] show ?thesis
      by (simp add: ReserveCritical_def)
  qed (use Pair inv' in \<open>simp add: ReserveCritical_def\<close>)
qed

lemma WaitCheck_inv:
  assumes inv: "queue_inv cap q"
  shows "queue_inv cap (fst (WaitCheck pgt cap budget pw r now q))"
proof (cases "FindSlot cap q r")
  case None
  then show ?thesis using inv by (simp add: WaitCheck_def)
next
  case (Some i)
  note F = queue_inv_facts [OF inv] and S = FindSlot_Some [OF Some]
  obtain q1 rd where q1: "(if pw then (q, publication_ready cap i q) else assign_row cap i q) = (q1, rd)"
    by (cases "if pw then (q, publication_ready cap i q) else assign_row cap i q")
  have "queue_inv cap q1" if "valid (slot_at q i)"
    using q1 inv assign_row_inv [OF inv, of i] S(1,2) F(6) that by (auto simp: live_def split: if_splits)
  then show ?thesis
    using Some q1 inv queue_inv_shrinks [OF _ shrinks_refresh_deadline]
    by (simp add: WaitCheck_def Let_def)
qed

end
