(* ===== verification/Native_Writer_Queue_System.thy ===== *)
theory Native_Writer_Queue_System
  imports Native_Writer_Queue_Inv
begin

text \<open>
  The reservation queue as a system of backends: each rule of \<open>sys_step\<close> is one critical section of
  \<^verbatim>\<open>native_writer_queue.cpp\<close>, run by one backend on the shared queue and its own static
  \<^verbatim>\<open>local_reservation\<close>. Every interleaving of the backends is a run of the relation.

  The reservation handle of a wait, completion, validation or invalidation is any value, so a
  stale or forged handle is covered. Row counts are below \<open>2^63\<close>: a statement cannot count more.
\<close>

section \<open>The step relation\<close>

record queue_sys =
  shared :: queue
  locals :: "nat \<Rightarrow> LocalReservation"

text \<open>The capacity setting is bounded by the size of the slot array.\<close>

definition sys_start :: "nat \<Rightarrow> queue_sys \<Rightarrow> bool" where
  "sys_start cap s \<longleftrightarrow> cap \<le> MAX_RESERVATIONS \<and> shared s = QueueShmemStartup \<and> locals s = (\<lambda>_. no_local)"

inductive sys_step :: "nat \<Rightarrow> queue_sys \<Rightarrow> queue_sys \<Rightarrow> bool" for cap :: nat where
  reserve: "\<not> active (local_reservation (locals s b)) \<Longrightarrow> ra_row_count a \<le> INT64_MAX \<Longrightarrow>
     ReserveCritical cap a (shared s) = (q, Some i) \<Longrightarrow>
     sys_step cap s (s\<lparr>shared := q, locals := (locals s)(b := local_of q i)\<rparr>)"
| reserve_none: "ReserveCritical cap a (shared s) = (q, None) \<Longrightarrow> sys_step cap s (s\<lparr>shared := q\<rparr>)"
| wait_check: "WaitCheck pgt cap budget publication_wait r now (shared s) = (q, v) \<Longrightarrow>
     sys_step cap s (s\<lparr>shared := q\<rparr>)"
| reclaim_owner: "ReclaimInactiveOwner cap procs c (shared s) = (q, reclaimed) \<Longrightarrow>
     sys_step cap s (s\<lparr>shared := q\<rparr>)"
| abandon: "sys_step cap s (s\<lparr>shared := AbandonReservation cap r (shared s)\<rparr>)"
| complete: "n \<le> INT64_MAX \<Longrightarrow> CompleteNativeWriterReservation cap r n (Some (shared s)) = (Some q, ok) \<Longrightarrow>
     sys_step cap s (s\<lparr>shared := q\<rparr>)"
| validate: "ValidateNativeWriterReservation cap r sid rid (Some (shared s)) = (Some q, ok) \<Longrightarrow>
     sys_step cap s (s\<lparr>shared := q\<rparr>)"
| invalidate: "InvalidateNativeWriterReservation cap r (Some (shared s)) = Some q \<Longrightarrow>
     sys_step cap s (s\<lparr>shared := q\<rparr>)"
| mark: "sys_step cap s (s\<lparr>locals := (locals s)(b := MarkNativeWriterReservationPublished r (locals s b))\<rparr>)"
| xact_end: "QueueXactCallback cap ev (Some (shared s), locals s b) = (Some q, l) \<Longrightarrow>
     sys_step cap s (s\<lparr>shared := q, locals := (locals s)(b := l)\<rparr>)"
| backend_exit: "QueueBackendExit cap (Some (shared s), locals s b) = (Some q, l) \<Longrightarrow>
     sys_step cap s (s\<lparr>shared := q, locals := (locals s)(b := l)\<rparr>)"

section \<open>What a reservation gets\<close>

lemma ReserveCritical_Some:
  assumes inv: "queue_inv cap q" and r: "ReserveCritical cap a q = (q', Some i)"
  obtains q1 where "reserve_pass cap a q = (q1, Some i)" "shrinks q q1" "queue_inv cap q1" "i < cap"
    "\<not> in_use (slot_at q1 i)" "next_ticket q1 = next_ticket q" "next_ticket q \<noteq> UINT64_MAX"
    "q' = (set_slot i (filled_slot cap a q1) q1)\<lparr>next_ticket := next_ticket q + 1\<rparr>"
    "slot_at q' i = filled_slot cap a q1"
proof -
  obtain q1 where p: "reserve_pass cap a q = (q1, Some i)" and q': "q' = fill_slot cap a i q1"
    and nt: "next_ticket q1 \<noteq> UINT64_MAX"
    using r by (auto simp: ReserveCritical_def split: prod.splits option.splits if_splits)
  have sh: "shrinks q q1" using shrinks_reserve_pass [of q cap a] p by simp
  then have eq: "next_ticket q1 = next_ticket q" by (simp add: shrinks_def)
  note inv1 = queue_inv_shrinks [OF inv sh] and free = reserve_pass_free [OF p]
  have il: "i < length (slots q1)" using free(1) queue_inv_facts(6) [OF inv1] by simp
  have "q' = (set_slot i (filled_slot cap a q1) q1)\<lparr>next_ticket := next_ticket q + 1\<rparr>"
    using fill_slot_eq [OF il _ queue_inv_facts(6) [OF inv1]] free(2) eq q' by (simp add: live_def)
  with that [OF p sh inv1 free eq] nt eq il show ?thesis by simp
qed

lemma ReserveCritical_slot:
  assumes inv: "queue_inv cap q" and r: "ReserveCritical cap a q = (q', Some i)"
  shows "i < cap" "in_use (slot_at q' i)" "ticket (slot_at q' i) = next_ticket q" "catalog (slot_at q' i) = ra_catalog a"
    "slot_table_id (slot_at q' i) = ra_table_id a" "\<not> committed (slot_at q' i)"
    "next_ticket q' = next_ticket q + 1" "next_ticket q < next_ticket q'" 
proof -
  obtain q1 where q1: "i < cap" "next_ticket q1 = next_ticket q" "next_ticket q \<noteq> UINT64_MAX"
    "q' = (set_slot i (filled_slot cap a q1) q1)\<lparr>next_ticket := next_ticket q + 1\<rparr>" "slot_at q' i = filled_slot cap a q1"
    by (rule ReserveCritical_Some [OF inv r])
  show "i < cap" by (rule q1(1))
  show "next_ticket q' = next_ticket q + 1" using q1(4) by simp
  then show "next_ticket q < next_ticket q'" using less_Suc_not_max [OF q1(3)] by simp
  show "in_use (slot_at q' i)" "ticket (slot_at q' i) = next_ticket q" "catalog (slot_at q' i) = ra_catalog a"
    "slot_table_id (slot_at q' i) = ra_table_id a" "\<not> committed (slot_at q' i)"
    unfolding q1(5) by (simp_all add: filled_slot_def q1(2))
qed

section \<open>The invariant of the system\<close>

definition handles_ok :: "queue_sys \<Rightarrow> bool" where
  "handles_ok s \<longleftrightarrow>
     (\<forall>b. active (local_reservation (locals s b)) \<longrightarrow>
        res_ticket (local_reservation (locals s b)) < next_ticket (shared s)) \<and>
     (\<forall>b c. b \<noteq> c \<and> active (local_reservation (locals s b)) \<and> active (local_reservation (locals s c)) \<longrightarrow>
        res_ticket (local_reservation (locals s b)) \<noteq> res_ticket (local_reservation (locals s c)))"

definition sys_inv :: "nat \<Rightarrow> queue_sys \<Rightarrow> bool" where
  "sys_inv cap s \<longleftrightarrow> queue_inv cap (shared s) \<and> handles_ok s"

lemma handles_ok_mono:
  assumes "handles_ok s" "next_ticket (shared s) \<le> next_ticket (shared t)"
    and "\<And>b. active (local_reservation (locals t b)) \<Longrightarrow> local_reservation (locals t b) = local_reservation (locals s b)"
  shows "handles_ok t"
  using assms unfolding handles_ok_def by (metis less_le_trans)

text \<open>Nothing becomes pending, and what stays pending keeps its ticket and catalog.\<close>

definition no_new_pending :: "queue \<Rightarrow> queue \<Rightarrow> bool" where
  "no_new_pending q q' \<longleftrightarrow> length (slots q') = length (slots q) \<and>
     (\<forall>j < length (slots q). pending (slot_at q' j) \<longrightarrow> pending (slot_at q j) \<and>
        ticket (slot_at q' j) = ticket (slot_at q j) \<and> catalog (slot_at q' j) = catalog (slot_at q j))"

lemma no_new_pending_shrinks: "shrinks q q' \<Longrightarrow> no_new_pending q q'"
  unfolding no_new_pending_def shrinks_def pending_def using core_eqD(1,2) by blast

lemma no_new_pending_trans: "no_new_pending q1 q2 \<Longrightarrow> no_new_pending q2 q3 \<Longrightarrow> no_new_pending q1 q3"
  by (simp add: no_new_pending_def)

lemma no_new_pending_set:
  assumes "ticket s = ticket (slot_at q i)" "catalog s = catalog (slot_at q i)" "pending s \<Longrightarrow> pending (slot_at q i)"
  shows "no_new_pending q (set_slot i s q)"
  using assms by (auto simp: no_new_pending_def nth_update_in)

lemma no_new_pending_assign_row: "no_new_pending q (fst (assign_row cap i q))"
  by (auto simp: assign_row_def Let_def no_new_pending_shrinks shrinks_InvalidateFrom pending_def live_def
      intro!: no_new_pending_set split: option.splits)

lemma no_new_pending_WaitCheck: "no_new_pending q (fst (WaitCheck pgt cap budget pw r now q))"
proof (cases "FindSlot cap q r")
  case (Some i)
  obtain q1 rd where q1: "(if pw then (q, publication_ready cap i q) else assign_row cap i q) = (q1, rd)"
    by (cases "if pw then (q, publication_ready cap i q) else assign_row cap i q")
  then have "no_new_pending q q1"
    using no_new_pending_assign_row [of q cap i] no_new_pending_shrinks [of q q] by (auto split: if_splits)
  moreover from this have "no_new_pending q (set_slot i (refresh_deadline pgt budget now b (slot_at q1 i)) q1)" for b
    by (rule no_new_pending_trans) (rule no_new_pending_shrinks [OF shrinks_refresh_deadline])
  ultimately show ?thesis using Some q1 no_new_pending_shrinks [of q q] by (simp add: WaitCheck_def Let_def)
qed (simp add: WaitCheck_def no_new_pending_shrinks)

lemma no_new_pending_Complete:
  "CompleteNativeWriterReservation cap r n (Some q) = (Some q', ok) \<Longrightarrow> no_new_pending q q'"
  by (auto simp: CompleteNativeWriterReservation_def Let_def no_new_pending_shrinks shrinks_InvalidateFrom
      pending_def live_def intro!: no_new_pending_set split: option.splits if_splits)

text \<open>No critical section but a reservation draws a ticket.\<close>

lemma next_ticket_assign_row: "next_ticket (fst (assign_row cap i q)) = next_ticket q"
  by (simp add: assign_row_def Let_def InvalidateFrom_def split: option.splits)

lemma next_ticket_WaitCheck: "next_ticket (fst (WaitCheck pgt cap budget pw r now q)) = next_ticket q"
proof (cases "FindSlot cap q r")
  case (Some i)
  obtain q1 rd where q1: "(if pw then (q, publication_ready cap i q) else assign_row cap i q) = (q1, rd)"
    by (cases "if pw then (q, publication_ready cap i q) else assign_row cap i q")
  then have "next_ticket q1 = next_ticket q"
    using next_ticket_assign_row [of cap i q] by (auto split: if_splits)
  then show ?thesis using Some q1 by (simp add: WaitCheck_def Let_def)
qed (simp add: WaitCheck_def)

lemma next_ticket_Complete:
  "CompleteNativeWriterReservation cap r n (Some q) = (Some q', ok) \<Longrightarrow> next_ticket q' = next_ticket q"
  by (auto simp: CompleteNativeWriterReservation_def Let_def InvalidateFrom_def split: option.splits if_splits)

lemma local_RemoveLocalReservation: "snd (RemoveLocalReservation cap c st) = no_local"
  by (cases st) (simp add: RemoveLocalReservation_def split: option.splits)

lemma QueueXactCallback_cases:
  obtains c where "QueueXactCallback cap ev st = RemoveLocalReservation cap c st"
  | "QueueXactCallback cap ev st = st"
  by (cases ev) auto

text \<open>A step other than a reservation either only takes away, or keeps the invariant and the
  ticket counter; no such step gives a backend a handle.\<close>

lemma sys_step_cases [consumes 2, case_names reserved other]:
  assumes inv: "queue_inv cap (shared s)" and step: "sys_step cap s t"
  obtains (reserved) b a q i where "ReserveCritical cap a (shared s) = (q, Some i)" "ra_row_count a \<le> INT64_MAX"
      "\<not> active (local_reservation (locals s b))" "t = s\<lparr>shared := q, locals := (locals s)(b := local_of q i)\<rparr>"
  | (other) "queue_inv cap (shared t)" "next_ticket (shared t) = next_ticket (shared s)"
      "no_new_pending (shared s) (shared t)"
      "\<And>b. active (local_reservation (locals t b)) \<Longrightarrow> local_reservation (locals t b) = local_reservation (locals s b)"
proof -
  have shr: thesis if "shrinks (shared s) (shared t)"
      "\<And>b. active (local_reservation (locals t b)) \<Longrightarrow> local_reservation (locals t b) = local_reservation (locals s b)"
    using other [OF queue_inv_shrinks [OF inv that(1)] _ no_new_pending_shrinks [OF that(1)] that(2)] that(1)
    by (simp add: shrinks_def)
  have gone: thesis if "RemoveLocalReservation cap c (Some (shared s), locals s b) = (Some q, l)"
      "t = s\<lparr>shared := q, locals := (locals s)(b := l)\<rparr>" for c b q l
  proof (rule shr)
    have l: "l = no_local" using local_RemoveLocalReservation [of cap c "(Some (shared s), locals s b)"] that(1) by simp
    show "shrinks (shared s) (shared t)"
      using that shrinks_RemoveLocalReservation [of cap c "shared s" "locals s b"] by simp
    show "local_reservation (locals t d) = local_reservation (locals s d)" if "active (local_reservation (locals t d))" for d
      using that \<open>t = _\<close> l by (simp add: no_local_def no_reservation_def split: if_splits)
  qed
  show ?thesis
    using step
  proof cases
    case (reserve b a q i)
    then show ?thesis using reserved by blast
  next
    case (reserve_none a q)
    moreover have "shrinks (shared s) q"
      using reserve_none(2) shrinks_reserve_pass [of "shared s" cap a]
      by (auto simp: ReserveCritical_def split: prod.splits option.splits if_splits)
    ultimately show ?thesis by (intro shr) simp_all
  next
    case (wait_check pgt budget pw r now q v)
    moreover have "queue_inv cap q" using WaitCheck_inv [OF inv, of pgt budget pw r now] wait_check(2) by simp
    moreover have "next_ticket q = next_ticket (shared s)"
      using next_ticket_WaitCheck [of pgt cap budget pw r now "shared s"] wait_check(2) by simp
    moreover have "no_new_pending (shared s) q"
      using no_new_pending_WaitCheck [of "shared s" pgt cap budget pw r now] wait_check(2) by simp
    ultimately show ?thesis by (intro other) simp_all
  next
    case (reclaim_owner procs c q b)
    moreover have "shrinks (shared s) q"
      using shrinks_ReclaimInactiveOwner [of "shared s" cap procs c] reclaim_owner(2) by simp
    ultimately show ?thesis by (intro shr) simp_all
  next
    case (abandon r)
    then show ?thesis by (intro shr) (simp_all add: shrinks_AbandonReservation)
  next
    case (complete n r q ok)
    moreover note Complete_inv [OF inv complete(2,3)] next_ticket_Complete [OF complete(3)]
      no_new_pending_Complete [OF complete(3)]
    ultimately show ?thesis by (intro other) simp_all
  next
    case (validate r sid rid q ok)
    moreover have "shrinks (shared s) q" using shrinks_Validate [of cap r sid rid "shared s"] validate(2) by simp
    ultimately show ?thesis by (intro shr) simp_all
  next
    case (invalidate r q)
    moreover have "shrinks (shared s) q" using shrinks_Invalidate [of cap r "shared s"] invalidate(2) by simp
    ultimately show ?thesis by (intro shr) simp_all
  next
    case (mark b r)
    then show ?thesis by (intro shr) (simp_all add: MarkNativeWriterReservationPublished_def split: if_splits)
  next
    case (xact_end ev b q l)
    show ?thesis
    proof (cases rule: QueueXactCallback_cases [of cap ev "(Some (shared s), locals s b)"])
      case (1 c)
      show ?thesis by (rule gone [OF _ xact_end(1)]) (use 1 xact_end(2) in simp)
    next
      case 2
      then show ?thesis using xact_end by (intro shr) simp_all
    qed
  next
    case (backend_exit b q l)
    show ?thesis
      by (rule gone [OF _ backend_exit(1)]) (rule backend_exit(2) [unfolded QueueBackendExit_def])
  qed
qed

lemma sys_step_inv:
  assumes inv: "sys_inv cap s" and step: "sys_step cap s t"
  shows "sys_inv cap t"
proof -
  have q: "queue_inv cap (shared s)" and h: "handles_ok s" using inv by (simp_all add: sys_inv_def)
  show ?thesis
    using q step
  proof (cases rule: sys_step_cases)
    case (reserved b a q' i)
    note R = ReserveCritical_slot [OF q reserved(1)]
    have "queue_inv cap (shared t)" using ReserveCritical_inv [OF q reserved(2)] reserved(1,4) by simp
    moreover have "handles_ok t"
      using h R(3,8) unfolding handles_ok_def reserved(4) by (auto simp: local_of_def dest: less_trans)
    ultimately show ?thesis by (simp add: sys_inv_def)
  next
    case other
    then show ?thesis using handles_ok_mono [OF h] by (simp add: sys_inv_def)
  qed
qed

lemma sys_start_inv: "sys_start cap s \<Longrightarrow> sys_inv cap s"
  by (simp add: sys_start_def sys_inv_def queue_startup_inv handles_ok_def no_local_def no_reservation_def)

interpretation native_queue: transition_system "sys_start cap" "sys_step cap" "sys_inv cap" for cap
  by unfold_locales (auto intro: sys_start_inv sys_step_inv)

abbreviation reachable :: "nat \<Rightarrow> queue_sys \<Rightarrow> bool" where
  "reachable cap \<equiv> reach (sys_start cap) (sys_step cap)"

lemma reachable_queue_inv: "reachable cap s \<Longrightarrow> queue_inv cap (shared s)"
  using native_queue.reach_inv by (simp add: sys_inv_def)

end
