(* ===== verification/Native_Writer_Queue_Props.thy ===== *)
theory Native_Writer_Queue_Props
  imports Native_Writer_Queue_System
begin

text \<open>
  What the reservation queue promises its callers: distinct predictions, disjoint row ranges,
  one publication turn per catalog, sound answers of the wait, and the effect of a commit, an
  abort and the reclaiming of a dead owner. A run of two reservations is the concrete input of
  the examples.
\<close>

section \<open>A concrete run\<close>

definition demo_catalog :: CatalogKey where
  "demo_catalog = \<lparr>database_oid = 5, snapshot_relation_oid = 16400\<rparr>"

definition demo_args :: reserve_args where
  "demo_args = \<lparr>ra_catalog = demo_catalog, ra_owner = zero_owner, ra_table_id = 1, observed_snapshot_id = 7,
     observed_next_row_id = 100, ra_owner_command_id = 0, ra_row_count_known = True, ra_row_count = 3\<rparr>"

definition demo_slot :: "u64 \<Rightarrow> u64 \<Rightarrow> u64 \<Rightarrow> ReservationSlot" where
  "demo_slot t sid rid =
     (fresh_slot demo_args t)\<lparr>candidate_snapshot_id := sid, candidate_row_id := rid, row_assigned := True\<rparr>"

definition demo1 :: queue where
  "demo1 = \<lparr>next_ticket = 2, slots = demo_slot 1 8 100 # replicate 255 zero_slot\<rparr>"

definition demo2 :: queue where
  "demo2 = \<lparr>next_ticket = 3, slots = demo_slot 1 8 100 # demo_slot 2 9 103 # replicate 254 zero_slot\<rparr>"

definition demo_start :: queue_sys where
  "demo_start = \<lparr>shared = QueueShmemStartup, locals = \<lambda>_. no_local\<rparr>"

definition demo_sys1 :: queue_sys where
  "demo_sys1 = \<lparr>shared = demo1, locals = (\<lambda>_. no_local)(0 := local_of demo1 0)\<rparr>"

definition demo_sys :: queue_sys where
  "demo_sys = \<lparr>shared = demo2, locals = (\<lambda>_. no_local)(0 := local_of demo1 0, 1 := local_of demo2 1)\<rparr>"

lemma replicate_unroll:
  "replicate 256 x = x # x # replicate 254 x" "replicate 255 x = x # replicate 254 x"
  by (simp_all add: eval_nat_numeral)

lemma upt_2: "[0..<2] = [0, 1 :: nat]"
  by (simp add: eval_nat_numeral)

lemmas demo_defs = replicate_unroll upt_2 demo_args_def demo_catalog_def demo_slot_def demo1_def demo2_def
  QueueShmemStartup_def MAX_RESERVATIONS_def fresh_slot_def zero_slot_def set_slot_def

lemmas scan_eval = map_upto_def scan_max_def scan_min_def find_index_def SameCatalog_def Let_def

lemmas reserve_eval = demo_defs scan_eval ReserveCritical_def reserve_pass_def drop_stale_def
  ReclaimInvalidSlots_def LastValidSlot_def free_slot_def snapshot_stale_def row_stale_def row_overflow_def
  fill_slot_def with_snapshot_def candidate_valid_def with_row_def LastPriorSlot_def INT64_MAX_def UINT64_MAX_def

lemma demo_first: "ReserveCritical 2 demo_args QueueShmemStartup = (demo1, Some 0)"
  by (simp add: reserve_eval)

lemma demo_second: "ReserveCritical 2 demo_args demo1 = (demo2, Some 1)"
  by (simp add: reserve_eval word_le_nat_alt word_less_nat_alt)

lemma demo_args_count: "ra_row_count demo_args \<le> INT64_MAX"
  by (simp add: demo_args_def INT64_MAX_def word_le_nat_alt)

lemma demo_reachable1: "reachable 2 demo_sys1"
proof -
  have start: "reachable 2 demo_start"
    by (rule reach_init) (simp add: sys_start_def demo_start_def MAX_RESERVATIONS_def)
  have c: "ReserveCritical 2 demo_args (shared demo_start) = (demo1, Some 0)"
    and a: "\<not> active (local_reservation (locals demo_start 0))"
    by (simp_all add: demo_start_def demo_first no_local_def no_reservation_def)
  have "demo_start\<lparr>shared := demo1, locals := (locals demo_start)(0 := local_of demo1 0)\<rparr> = demo_sys1"
    by (simp add: demo_start_def demo_sys1_def)
  with reach_step [OF start reserve [OF a demo_args_count c]] show ?thesis by (simp only:)
qed

lemma demo_reachable: "reachable 2 demo_sys"
proof -
  have c: "ReserveCritical 2 demo_args (shared demo_sys1) = (demo2, Some 1)"
    and a: "\<not> active (local_reservation (locals demo_sys1 1))"
    by (simp_all add: demo_sys1_def demo_second no_local_def no_reservation_def)
  have "demo_sys1\<lparr>shared := demo2, locals := (locals demo_sys1)(1 := local_of demo2 1)\<rparr> = demo_sys"
    by (simp add: demo_sys1_def demo_sys_def)
  with reach_step [OF demo_reachable1 reserve [OF a demo_args_count c]] show ?thesis by (simp only:)
qed

lemma demo_slots:
  "slots demo2 ! 0 = demo_slot 1 8 100" "slots demo2 ! 1 = demo_slot 2 9 103" "slots demo2 ! Suc 0 = demo_slot 2 9 103"
  "length (slots demo2) = 256" "next_ticket demo2 = 3"
  by (simp_all add: demo2_def)

lemma demo_slot_simps:
  "live (demo_slot t sid rid)" "pending (demo_slot t sid rid)" "in_use (demo_slot t sid rid)"
  "valid (demo_slot t sid rid)" "\<not> committed (demo_slot t sid rid)" "row_assigned (demo_slot t sid rid)"
  "ticket (demo_slot t sid rid) = t" "candidate_snapshot_id (demo_slot t sid rid) = sid"
  "candidate_row_id (demo_slot t sid rid) = rid" "catalog (demo_slot t sid rid) = demo_catalog"
  "slot_table_id (demo_slot t sid rid) = 1" "row_count (demo_slot t sid rid) = 3"
  "row_count_known (demo_slot t sid rid)" "owner (demo_slot t sid rid) = zero_owner"
  by (simp_all add: demo_slot_def demo_args_def fresh_slot_def zero_slot_def live_def pending_def)

lemmas demo_eval = demo_slots demo_slot_simps demo_sys_def

section \<open>Predictions\<close>

lemma live_pair:
  assumes "reachable cap s" "i < MAX_RESERVATIONS" "j < MAX_RESERVATIONS" "i \<noteq> j"
    "live (slot_at (shared s) i)" "live (slot_at (shared s) j)"
  shows "i < length (slots (shared s))" "j < length (slots (shared s))"
    "ticket (slot_at (shared s) i) \<noteq> ticket (slot_at (shared s) j)"
proof -
  note F = queue_inv_facts [OF reachable_queue_inv [OF assms(1)]]
  show il: "i < length (slots (shared s))" "j < length (slots (shared s))" using assms(2,3) F(5) by simp_all
  show "ticket (slot_at (shared s) i) \<noteq> ticket (slot_at (shared s) j)"
    using tickets_ok_unique [OF F(1) il] assms(4-6) by (auto simp: live_def)
qed

text \<open>C1: in every reachable state, two different live reservations of one catalog have
  different tickets, and the one with the smaller ticket predicts the smaller snapshot id: no
  snapshot id is handed out twice.\<close>

theorem live_candidates_ordered:
  assumes "reachable cap s" "i < MAX_RESERVATIONS" "j < MAX_RESERVATIONS" "i \<noteq> j"
    "live (slot_at (shared s) i)" "live (slot_at (shared s) j)"
    "catalog (slot_at (shared s) i) = catalog (slot_at (shared s) j)"
  shows "ticket (slot_at (shared s) i) \<noteq> ticket (slot_at (shared s) j)
    \<and> (ticket (slot_at (shared s) i) < ticket (slot_at (shared s) j) \<longleftrightarrow>
        candidate_snapshot_id (slot_at (shared s) i) < candidate_snapshot_id (slot_at (shared s) j))
    \<and> candidate_snapshot_id (slot_at (shared s) i) \<noteq> candidate_snapshot_id (slot_at (shared s) j)"
proof -
  note L = live_pair [OF assms(1-6)]
  from L(3) consider "ticket (slot_at (shared s) i) < ticket (slot_at (shared s) j)"
    | "ticket (slot_at (shared s) j) < ticket (slot_at (shared s) i)" by (meson linorder_neqE)
  then show ?thesis
  proof cases
    case 1
    then show ?thesis
      using snapshots_orderedD [OF reachable_queue_inv [OF assms(1)] L(1,2) assms(5-7) 1]
      by (simp add: order.strict_implies_not_eq)
  next
    case 2
    then show ?thesis
      using snapshots_orderedD [OF reachable_queue_inv [OF assms(1)] L(2,1) assms(6,5) assms(7) [symmetric] 2]
      by (auto dest: order.asym)
  qed
qed

theorem live_candidates_ordered_witness:
  "candidate_snapshot_id (slot_at (shared demo_sys) 0) \<noteq> candidate_snapshot_id (slot_at (shared demo_sys) 1)"
  using live_candidates_ordered [OF demo_reachable, of 0 1] by (simp add: demo_eval MAX_RESERVATIONS_def)

definition row_range :: "ReservationSlot \<Rightarrow> nat set" where
  "row_range s = {unat (candidate_row_id s) ..< unat (candidate_row_id s) + unat (row_count s)}"

text \<open>C2: in every reachable state, two different live reservations of one table whose first row
  ids are assigned own disjoint row-id ranges, and every range but the last has a known size.\<close>

theorem live_row_ranges_disjoint:
  assumes "reachable cap s" "i < MAX_RESERVATIONS" "j < MAX_RESERVATIONS" "i \<noteq> j"
    "live (slot_at (shared s) i)" "live (slot_at (shared s) j)"
    "catalog (slot_at (shared s) i) = catalog (slot_at (shared s) j)"
    "slot_table_id (slot_at (shared s) i) = slot_table_id (slot_at (shared s) j)"
    "row_assigned (slot_at (shared s) i)" "row_assigned (slot_at (shared s) j)"
  shows "row_range (slot_at (shared s) i) \<inter> row_range (slot_at (shared s) j) = {}
    \<and> (row_count_known (slot_at (shared s) i) \<or> row_count_known (slot_at (shared s) j))"
proof -
  note L = live_pair [OF assms(1-6)]
  from L(3) consider "ticket (slot_at (shared s) i) < ticket (slot_at (shared s) j)"
    | "ticket (slot_at (shared s) j) < ticket (slot_at (shared s) i)" by (meson linorder_neqE)
  then have "rows_before (slot_at (shared s) i) (slot_at (shared s) j) \<or>
      rows_before (slot_at (shared s) j) (slot_at (shared s) i)"
  proof cases
    case 1
    then show ?thesis
      using rows_orderedD [OF reachable_queue_inv [OF assms(1)] L(1,2) assms(5-8) 1 assms(10)] by simp
  next
    case 2
    then show ?thesis
      using rows_orderedD [OF reachable_queue_inv [OF assms(1)] L(2,1) assms(6,5) assms(7,8) [symmetric] 2 assms(9)]
      by simp
  qed
  then show ?thesis by (auto simp: rows_before_def row_range_def)
qed

theorem live_row_ranges_disjoint_witness:
  "row_range (slot_at (shared demo_sys) 0) \<inter> row_range (slot_at (shared demo_sys) 1) = {}"
  using live_row_ranges_disjoint [OF demo_reachable, of 0 1] by (simp add: demo_eval MAX_RESERVATIONS_def)

section \<open>Publication turns\<close>

lemma FirstPendingSlot_Some:
  assumes "FirstPendingSlot cap q cat = Some k"
  shows "k < cap" "pending (slot_at q k)" "catalog (slot_at q k) = cat"
    "\<And>j. j < cap \<Longrightarrow> pending (slot_at q j) \<Longrightarrow> catalog (slot_at q j) = cat \<Longrightarrow> ticket (slot_at q k) \<le> ticket (slot_at q j)"
  using scan_min_Some [OF assms [unfolded FirstPendingSlot_def]]
  by (auto simp: Let_def pending_def live_def SameCatalog_iff)

lemma FirstPendingSlot_ex:
  assumes "j < cap" "pending (slot_at q j)"
  obtains k where "FirstPendingSlot cap q (catalog (slot_at q j)) = Some k"
proof (cases "FirstPendingSlot cap q (catalog (slot_at q j))")
  case None
  then show ?thesis
    using assms by (auto simp: FirstPendingSlot_def scan_min_None Let_def pending_def live_def SameCatalog_iff)
qed (rule that)

lemma publication_ready_iff:
  assumes "i < cap" "pending (slot_at q i)"
  shows "publication_ready cap i q \<longleftrightarrow>
    (\<forall>j < cap. pending (slot_at q j) \<and> catalog (slot_at q j) = catalog (slot_at q i) \<longrightarrow>
       ticket (slot_at q i) \<le> ticket (slot_at q j))"
proof -
  obtain k where k: "FirstPendingSlot cap q (catalog (slot_at q i)) = Some k"
    by (rule FirstPendingSlot_ex [OF assms])
  note K = FirstPendingSlot_Some [OF k]
  show ?thesis
    using k K(1-3) K(4) [OF assms] K(4) by (auto simp: publication_ready_def intro: antisym)
qed

text \<open>C7: in every reachable state at most one pending reservation of a catalog has the publication
  turn, and some pending reservation has it whenever there is one.\<close>

theorem publication_turn_exclusive:
  assumes "reachable cap s" "i < cap" "pending (slot_at (shared s) i)"
  shows "\<exists>!k. k < cap \<and> pending (slot_at (shared s) k) \<and>
    catalog (slot_at (shared s) k) = catalog (slot_at (shared s) i) \<and> publication_ready cap k (shared s)"
proof -
  note F = queue_inv_facts [OF reachable_queue_inv [OF assms(1)]]
  let ?q = "shared s" and ?c = "catalog (slot_at (shared s) i)"
  obtain k where k: "FirstPendingSlot cap ?q ?c = Some k"
    by (rule FirstPendingSlot_ex [OF assms(2,3)])
  note K = FirstPendingSlot_Some [OF k]
  show ?thesis
  proof (rule ex1I [of _ k])
    show "k < cap \<and> pending (slot_at ?q k) \<and> catalog (slot_at ?q k) = ?c \<and> publication_ready cap k ?q"
      using K(1-3) k by (simp add: publication_ready_def)
  next
    fix m assume m: "m < cap \<and> pending (slot_at ?q m) \<and> catalog (slot_at ?q m) = ?c \<and> publication_ready cap m ?q"
    then have "ticket (slot_at ?q k) = ticket (slot_at ?q m)" using k by (auto simp: publication_ready_def)
    then show "m = k"
      using tickets_ok_unique [OF F(1), of k m] K(1,2) m F(6) by (simp add: pending_def live_def)
  qed
qed

lemma demo_ready: "publication_ready 2 0 demo2"
  by (simp add: publication_ready_def FirstPendingSlot_def scan_min_def upt_2 demo_eval Let_def SameCatalog_def
      word_less_nat_alt)

theorem publication_turn_exclusive_witness:
  "\<exists>!k. k < 2 \<and> pending (slot_at (shared demo_sys) k) \<and>
    catalog (slot_at (shared demo_sys) k) = catalog (slot_at (shared demo_sys) 1) \<and>
    publication_ready 2 k (shared demo_sys)"
  by (rule publication_turn_exclusive [OF demo_reachable]) (simp_all add: demo_eval)

text \<open>Where a pending slot comes from: it was pending before the step, or it is a new one.\<close>

lemma pending_origin:
  assumes inv: "queue_inv cap (shared s)" and step: "sys_step cap s t"
    and k: "k < length (slots (shared s))" "pending (slot_at (shared t) k)"
  shows "pending (slot_at (shared s) k) \<and> ticket (slot_at (shared t) k) = ticket (slot_at (shared s) k) \<and>
      catalog (slot_at (shared t) k) = catalog (slot_at (shared s) k)
    \<or> ticket (slot_at (shared t) k) = next_ticket (shared s)"
  using inv step
proof (cases rule: sys_step_cases)
  case (reserved b a q i)
  obtain q1 where q1: "shrinks (shared s) q1"
    "q = (set_slot i (filled_slot cap a q1) q1)\<lparr>next_ticket := next_ticket (shared s) + 1\<rparr>"
    by (rule ReserveCritical_Some [OF inv reserved(1)])
  show ?thesis
  proof (cases "k = i")
    case True
    then show ?thesis using ReserveCritical_slot(3) [OF inv reserved(1)] reserved(4) by simp
  next
    case False
    then have "slot_at (shared t) k = slot_at q1 k" using reserved(4) q1(2) by simp
    then show ?thesis using no_new_pending_shrinks [OF q1(1)] k by (simp add: no_new_pending_def)
  qed
next
  case other
  then show ?thesis using k by (simp add: no_new_pending_def)
qed

text \<open>C8: the publication turn is stable. Whatever critical section any backend runs, a reservation
  that has the turn keeps it for as long as it stays pending.\<close>

theorem publication_turn_stable:
  assumes "reachable cap s" "sys_step cap s t" "i < cap"
    "pending (slot_at (shared s) i)" "publication_ready cap i (shared s)"
    "pending (slot_at (shared t) i)" "ticket (slot_at (shared t) i) = ticket (slot_at (shared s) i)"
  shows "publication_ready cap i (shared t)"
proof -
  note inv = reachable_queue_inv [OF assms(1)]
  note F = queue_inv_facts [OF inv]
  have lt: "ticket (slot_at (shared s) i) < next_ticket (shared s)"
    using tickets_ok_in_use(2) [OF F(1), of i] assms(3,4) F(6) by (simp add: pending_def live_def)
  have ci: "catalog (slot_at (shared t) i) = catalog (slot_at (shared s) i)"
    using pending_origin [OF inv assms(2) _ assms(6)] lt assms(3,7) F(6) by auto
  have "ticket (slot_at (shared t) i) \<le> ticket (slot_at (shared t) k)"
    if k: "k < cap" "pending (slot_at (shared t) k)" "catalog (slot_at (shared t) k) = catalog (slot_at (shared t) i)" for k
    using pending_origin [OF inv assms(2) _ k(2)]
  proof
    show "k < length (slots (shared s))" using k(1) F(6) by simp
  next
    assume "pending (slot_at (shared s) k) \<and> ticket (slot_at (shared t) k) = ticket (slot_at (shared s) k) \<and>
      catalog (slot_at (shared t) k) = catalog (slot_at (shared s) k)"
    then show ?thesis
      using assms(5,7) k(1,3) ci unfolding publication_ready_iff [OF assms(3,4)] by simp
  next
    assume "ticket (slot_at (shared t) k) = next_ticket (shared s)"
    then show ?thesis using lt assms(7) by simp
  qed
  then show ?thesis unfolding publication_ready_iff [OF assms(3,6)] by simp
qed

lemma demo_abandon:
  "slot_at (AbandonReservation 2 (local_reservation (local_of demo2 1)) demo2) 0 = demo_slot 1 8 100"
  by (simp add: AbandonReservation_def FindSlot_def local_of_def demo_eval InvalidateFrom_def invalidates_def
      nth_map_upto Let_def SameCatalog_def word_le_nat_alt)

theorem publication_turn_stable_witness:
  "publication_ready 2 0 (AbandonReservation 2 (local_reservation (local_of demo2 1)) demo2)"
  using publication_turn_stable [OF demo_reachable abandon [of 2 demo_sys "local_reservation (local_of demo2 1)"], of 0]
  by (simp add: demo_ready demo_abandon demo_eval del: One_nat_def)

section \<open>A fresh reservation\<close>

lemma LastPrior_fresh:
  assumes "queue_inv cap q"
  shows "LastPriorSlot cap q (fresh_slot a (next_ticket q)) st = LastValidSlot cap q (ra_catalog a) (ra_table_id a) st"
  unfolding LastPriorSlot_def LastValidSlot_def
proof (rule scan_max_cong)
  fix i assume "i < cap"
  moreover note F = queue_inv_facts [OF assms]
  ultimately have "in_use (slot_at q i) \<Longrightarrow> ticket (slot_at q i) < next_ticket q"
    using tickets_ok_in_use(2) [OF F(1), of i] by simp
  then show "(let s = slot_at q i in \<not> (\<not> in_use s \<or> \<not> valid s \<or> \<not> SameCatalog (catalog s) (catalog (fresh_slot a (next_ticket q))) \<or>
        ticket (fresh_slot a (next_ticket q)) \<le> ticket s \<or> st \<and> slot_table_id s \<noteq> slot_table_id (fresh_slot a (next_ticket q)))) =
      (let s = slot_at q i in \<not> (\<not> in_use s \<or> \<not> valid s \<or> \<not> SameCatalog (catalog s) (ra_catalog a) \<or>
        st \<and> slot_table_id s \<noteq> ra_table_id a))"
    by (auto simp: Let_def not_le)
qed

lemma LastPrior_with_snapshot:
  "LastPriorSlot cap q (with_snapshot cap a q' s) st = LastPriorSlot cap q s st"
  by (simp add: LastPriorSlot_def)

lemma reset_catalog_None: "LastValidSlot cap (reset_catalog cap cat q) cat tid st = None" if "cap \<le> length (slots q)"
  using that
  by (auto simp: LastValidSlot_def scan_max_None reset_catalog_def InvalidateCatalog_def InvalidateFrom_def
      ReclaimInvalidSlots_def nth_map_upto Let_def invalidates_def zero_slot_def)

text \<open>What \<open>drop_stale\<close> leaves is ahead of the metadata that the caller observed.\<close>

lemma drop_stale_fresh:
  fixes a :: reserve_args
  assumes cap: "cap \<le> length (slots q)"
  defines "q' \<equiv> drop_stale cap a q"
  shows "LastValidSlot cap q' (ra_catalog a) (ra_table_id a) False = Some l \<Longrightarrow> \<not> snapshot_stale a (slot_at q' l)"
    and "LastValidSlot cap q' (ra_catalog a) (ra_table_id a) True = Some lt \<Longrightarrow> row_assigned (slot_at q' lt) \<Longrightarrow>
      row_count_known (slot_at q' lt) \<Longrightarrow> \<not> row_stale a (slot_at q' lt)"
proof -
  have c: "cap \<le> length (slots (ReclaimInvalidSlots cap q))" using cap by (simp add: ReclaimInvalidSlots_def)
  have cases: "q' = reset_catalog cap (ra_catalog a) (ReclaimInvalidSlots cap q) \<or> q' = ReclaimInvalidSlots cap q \<and>
      (\<forall>l. LastValidSlot cap q' (ra_catalog a) (ra_table_id a) False = Some l \<longrightarrow> \<not> snapshot_stale a (slot_at q' l) \<and>
      (\<forall>lt. LastValidSlot cap q' (ra_catalog a) (ra_table_id a) True = Some lt \<longrightarrow>
         \<not> (row_assigned (slot_at q' lt) \<and> row_count_known (slot_at q' lt) \<and> row_stale a (slot_at q' lt))))"
    unfolding q'_def drop_stale_def Let_def by (auto split: option.splits)
  have none: "LastValidSlot cap q' (ra_catalog a) (ra_table_id a) True = None"
    if "LastValidSlot cap q' (ra_catalog a) (ra_table_id a) False = None"
    using that by (auto simp: LastValidSlot_def scan_max_None Let_def)
  show "LastValidSlot cap q' (ra_catalog a) (ra_table_id a) False = Some l \<Longrightarrow> \<not> snapshot_stale a (slot_at q' l)"
    using cases reset_catalog_None [OF c] by auto
  show "LastValidSlot cap q' (ra_catalog a) (ra_table_id a) True = Some lt \<Longrightarrow> row_assigned (slot_at q' lt) \<Longrightarrow>
      row_count_known (slot_at q' lt) \<Longrightarrow> \<not> row_stale a (slot_at q' lt)"
    using cases reset_catalog_None [OF c] none
    by (cases "LastValidSlot cap q' (ra_catalog a) (ra_table_id a) False") auto
qed

lemma filled_slot_snapshot_ahead:
  assumes inv: "queue_inv cap q" and l: "live (filled_slot cap a q)" and obs: "observed_snapshot_id a < INT64_MAX"
    and fresh: "\<And>l. LastValidSlot cap q (ra_catalog a) (ra_table_id a) False = Some l \<Longrightarrow> \<not> snapshot_stale a (slot_at q l)"
  shows "observed_snapshot_id a < candidate_snapshot_id (filled_slot cap a q)"
proof (cases "LastValidSlot cap q (ra_catalog a) (ra_table_id a) False")
  case None
  then show ?thesis
    using less_Suc_guarded [OF obs] LastPrior_fresh [OF inv, of a False]
    by (simp add: filled_slot_def with_snapshot_def)
next
  case (Some p)
  note prior = LastPrior_fresh [OF inv, of a False, unfolded Some]
  have v: "candidate_snapshot_id (slot_at q p) < INT64_MAX" "candidate_valid cap q (fresh_slot a (next_ticket q))"
    using l prior by (auto simp: filled_slot_def live_def candidate_valid_def)
  have "observed_snapshot_id a \<le> candidate_snapshot_id (slot_at q p)"
    using fresh [OF Some] by (auto simp: snapshot_stale_def not_less not_le split: if_splits)
  also have "\<dots> < candidate_snapshot_id (slot_at q p) + 1" by (rule less_Suc_guarded [OF v(1)])
  finally show ?thesis using prior v(2) by (simp add: filled_slot_def with_snapshot_def)
qed

lemma filled_slot_row_ahead:
  assumes inv: "queue_inv cap q" and ra: "row_assigned (filled_slot cap a q)"
    and fresh: "\<And>l. LastValidSlot cap q (ra_catalog a) (ra_table_id a) True = Some l \<Longrightarrow> row_assigned (slot_at q l) \<Longrightarrow>
      row_count_known (slot_at q l) \<Longrightarrow> \<not> row_stale a (slot_at q l)"
  shows "observed_next_row_id a \<le> candidate_row_id (filled_slot cap a q)"
proof (cases "LastValidSlot cap q (ra_catalog a) (ra_table_id a) True")
  case None
  then show ?thesis
    using LastPrior_fresh [OF inv, of a True] by (simp add: filled_slot_def with_row_def LastPrior_with_snapshot)
next
  case (Some p)
  let ?p = "slot_at q p"
  note prior = LastPrior_fresh [OF inv, of a True, unfolded Some]
  note L = LastPriorSlot_Some [OF prior] and F = queue_inv_facts [OF inv]
  have p: "row_assigned ?p" "row_count_known ?p" "candidate_row_id ?p \<le> INT64_MAX - row_count ?p"
    and eq: "candidate_row_id (filled_slot cap a q) = candidate_row_id ?p + row_count ?p"
    using ra prior by (auto simp: filled_slot_def with_row_def LastPrior_with_snapshot Let_def split: if_splits)
  have "row_count ?p \<le> INT64_MAX"
    using F(4,6) L(1,2) p(2) by (simp add: counts_bounded_def prior_to_def)
  then have "candidate_row_id ?p \<le> candidate_row_id ?p + row_count ?p"
    using unat_add_guarded(1) [OF _ p(3)] by (simp add: word_le_nat_alt)
  then show ?thesis
    using fresh [OF Some p(1,2)] unfolding eq by (auto simp: row_stale_def not_less split: if_splits)
qed

text \<open>A live reservation made while the queue has room is ahead of the metadata its caller read
  (snapshot id strictly, first row id weakly, when one is assigned), and its snapshot id is above
  that of every other live reservation of the catalog.\<close>

theorem fresh_reservation_ahead:
  assumes "reachable cap s" "ReserveCritical cap a (shared s) = (q', Some i)"
    "free_slot cap (drop_stale cap a (shared s)) = Some i" "observed_snapshot_id a < INT64_MAX" "live (slot_at q' i)"
  shows "observed_snapshot_id a < candidate_snapshot_id (slot_at q' i)
    \<and> (row_assigned (slot_at q' i) \<longrightarrow> observed_next_row_id a \<le> candidate_row_id (slot_at q' i))
    \<and> (\<forall>j < MAX_RESERVATIONS. j \<noteq> i \<and> live (slot_at q' j) \<and> catalog (slot_at q' j) = ra_catalog a \<longrightarrow>
         candidate_snapshot_id (slot_at q' j) < candidate_snapshot_id (slot_at q' i))"
proof -
  note inv = reachable_queue_inv [OF assms(1)]
  let ?d = "drop_stale cap a (shared s)"
  obtain q1 where p: "reserve_pass cap a (shared s) = (q1, Some i)" and inv1: "queue_inv cap q1"
    and q': "q' = (set_slot i (filled_slot cap a q1) q1)\<lparr>next_ticket := next_ticket (shared s) + 1\<rparr>"
      "slot_at q' i = filled_slot cap a q1"
    by (rule ReserveCritical_Some [OF inv assms(2)])
  have q1: "q1 = ?d" using p assms(3) by (simp add: reserve_pass_def Let_def)
  have l: "live (filled_slot cap a q1)" using assms(5) q'(2) by simp
  note fresh = drop_stale_fresh [OF queue_inv_facts(6) [OF inv], of a, folded q1]
  have "candidate_snapshot_id (slot_at q' j) < candidate_snapshot_id (slot_at q' i)"
    if "j < MAX_RESERVATIONS" "j \<noteq> i" "live (slot_at q' j)" "catalog (slot_at q' j) = ra_catalog a" for j
    using filled_slot_snapshot [OF inv1 l, of j] that q' queue_inv_facts(5) [OF inv1] by simp
  then show ?thesis
    using filled_slot_snapshot_ahead [OF inv1 l assms(4) fresh(1)] filled_slot_row_ahead [OF inv1 _ fresh(2)]
    unfolding q'(2) by simp
qed

theorem fresh_reservation_ahead_witness:
  "observed_snapshot_id demo_args < candidate_snapshot_id (slot_at demo2 1)
    \<and> observed_next_row_id demo_args \<le> candidate_row_id (slot_at demo2 1)
    \<and> candidate_snapshot_id (slot_at demo2 0) < candidate_snapshot_id (slot_at demo2 1)"
proof -
  have "free_slot 2 (drop_stale 2 demo_args (shared demo_sys1)) = Some 1"
    by (simp add: reserve_eval demo_sys1_def word_le_nat_alt word_less_nat_alt)
  moreover have "ReserveCritical 2 demo_args (shared demo_sys1) = (demo2, Some 1)"
    by (simp add: demo_sys1_def demo_second)
  moreover have "observed_snapshot_id demo_args < INT64_MAX" "ra_catalog demo_args = demo_catalog"
    by (simp_all add: demo_args_def INT64_MAX_def word_less_nat_alt)
  ultimately show ?thesis
    using fresh_reservation_ahead [OF demo_reachable1, of demo_args demo2 1]
    by (simp add: demo_eval MAX_RESERVATIONS_def del: One_nat_def)
qed

section \<open>Waiting\<close>

text \<open>The other backends, seen from a waiting one: whatever they do keeps the queue invariant.\<close>

definition env_ok :: "nat \<Rightarrow> wait_turn \<Rightarrow> bool" where
  "env_ok cap t \<longleftrightarrow> (\<forall>q. queue_inv cap q \<longrightarrow> queue_inv cap (others_before t q) \<and>
     queue_inv cap (others_between t q) \<and> queue_inv cap (others_at_end t q))"

lemma AbandonReservation_gone:
  assumes "cap \<le> length (slots q)"
  shows "FindSlot cap (AbandonReservation cap r q) r = None"
proof (cases "FindSlot cap q r")
  case (Some i)
  then have "i < length (slots q)" "i = unat (slot_no r)" using FindSlot_Some [OF Some] assms by simp_all
  then show ?thesis using Some by (simp add: AbandonReservation_def FindSlot_def InvalidateFrom_def)
qed (simp add: AbandonReservation_def)

definition answers :: "nat \<Rightarrow> bool \<Rightarrow> NativeWriterReservation \<Rightarrow> queue \<Rightarrow> bool \<Rightarrow> bool" where
  "answers cap publication_wait r q ok \<longleftrightarrow>
     (case FindSlot cap q r of
        None \<Rightarrow> \<not> ok
      | Some i \<Rightarrow> if ok then valid (slot_at q i) \<and>
                         (if publication_wait then publication_ready cap i q else row_assigned (slot_at q i))
                 else \<not> valid (slot_at q i))"

lemma assign_row_ready:
  assumes "assign_row cap i q = (q1, True)" "i < length (slots q)" "valid (slot_at q i)"
  shows "row_assigned (slot_at q1 i)" "valid (slot_at q1 i)" "in_use (slot_at q1 i) = in_use (slot_at q i)"
    "ticket (slot_at q1 i) = ticket (slot_at q i)"
  using assms by (auto simp: assign_row_def Let_def split: option.splits if_splits)

lemma WaitCheck_answers:
  assumes inv: "queue_inv cap q"
  shows "WaitCheck pgt cap budget pw r now q = (q1, WaitReady) \<Longrightarrow> answers cap pw r q1 True"
    and "WaitCheck pgt cap budget pw r now q = (q1, WaitGone) \<Longrightarrow> answers cap pw r q1 False"
proof -
  assume w: "WaitCheck pgt cap budget pw r now q = (q1, WaitReady)"
  then obtain i where i: "FindSlot cap q r = Some i" "valid (slot_at q i)"
    by (auto simp: WaitCheck_def split: option.splits if_splits)
  note S = FindSlot_Some [OF i(1)]
  have il: "i < length (slots q)" using S(1) queue_inv_facts(6) [OF inv] by simp
  have "(if pw then (q, publication_ready cap i q) else assign_row cap i q) = (q1, True)"
    using w i by (auto simp: WaitCheck_def Let_def split: prod.splits if_splits)
  then show "answers cap pw r q1 True"
    using i S il assign_row_ready [OF _ il i(2)] by (auto simp: answers_def FindSlot_def split: if_splits)
next
  assume "WaitCheck pgt cap budget pw r now q = (q1, WaitGone)"
  then show "answers cap pw r q1 False"
    by (auto simp: WaitCheck_def answers_def Let_def split: option.splits prod.splits if_splits)
qed

lemma wait_loop_answers:
  "wait_loop pgt cap budget pw r co turns q = Some (q', ok) \<Longrightarrow> queue_inv cap q \<Longrightarrow> \<forall>t \<in> set turns. env_ok cap t \<Longrightarrow>
   queue_inv cap q' \<and> answers cap pw r q' ok"
proof (induction turns arbitrary: co q)
  case (Cons t turns)
  have inv: "queue_inv cap (others_before t q)" using Cons.prems(2,3) by (simp add: env_ok_def)
  obtain q1 v where w: "WaitCheck pgt cap budget pw r (now_locked t) (others_before t q) = (q1, v)"
    by (cases "WaitCheck pgt cap budget pw r (now_locked t) (others_before t q)")
  have inv1: "queue_inv cap q1" using WaitCheck_inv [OF inv, of pgt budget pw r "now_locked t"] w by simp
  show ?case
  proof (cases v)
    case (WaitBlocked b d)
    obtain q2 rec where q2: "(if co then ReclaimInactiveOwner cap (procs_seen t) b (others_between t q1) else (q1, False)) = (q2, rec)"
      by (cases "if co then ReclaimInactiveOwner cap (procs_seen t) b (others_between t q1) else (q1, False)")
    have inv2: "queue_inv cap q2"
      using q2 inv1 Cons.prems(3) queue_inv_shrinks [OF _ shrinks_ReclaimInactiveOwner, of cap "others_between t q1" cap "procs_seen t" b]
      by (auto simp: env_ok_def split: if_splits)
    then have inv3: "queue_inv cap (others_at_end t q2)" using Cons.prems(3) by (simp add: env_ok_def)
    have "answers cap pw r (AbandonReservation cap r (others_at_end t q2)) False"
      using AbandonReservation_gone [OF queue_inv_facts(6) [OF inv3]] by (simp add: answers_def)
    then show ?thesis
      using Cons.prems Cons.IH [OF _ inv2] w WaitBlocked q2 queue_inv_shrinks [OF inv3 shrinks_AbandonReservation]
      by (auto split: if_splits)
  qed (use Cons.prems w inv1 WaitCheck_answers [OF inv] in auto)
qed simp

text \<open>C10: the answer of a wait is true of the queue it leaves. Whatever the other backends do between
  the turns, an affirmative answer means that the reservation is valid and first in line (or, for
  a row wait, has its first row id), and a negative answer means that it is gone or invalid, so
  that nothing waits on it; the queue invariant holds in both cases.\<close>

theorem wait_answer_sound:
  assumes "queue_inv (QueueCapacity g) q" "\<forall>t \<in> set turns. env_ok (QueueCapacity g) t"
    "WaitUntilReady pgt g publication_wait r turns q = Some (q', ok)"
  shows "queue_inv (QueueCapacity g) q' \<and> answers (QueueCapacity g) publication_wait r q' ok"
proof (cases "QueueWaitBudgetMs g \<le> 0")
  case True
  then show ?thesis
    using assms(3) AbandonReservation_gone [OF queue_inv_facts(6) [OF assms(1)]]
      queue_inv_shrinks [OF assms(1) shrinks_AbandonReservation]
    by (auto simp: WaitUntilReady_def answers_def)
next
  case False
  then show ?thesis using assms(3) wait_loop_answers [OF _ assms(1,2)] by (simp add: WaitUntilReady_def Let_def)
qed

text \<open>A timestamp model for the examples: microseconds, with differences rounded up.\<close>

definition demo_time :: pg_time where
  "demo_time = \<lparr>ts_plus_ms = (\<lambda>t ms. t + ms * 1000), ts_diff_ms = (\<lambda>a b. if b \<le> a then 0 else (b - a + 999) div 1000)\<rparr>"

definition idle_turn :: "int \<Rightarrow> wait_turn" where
  "idle_turn t = \<lparr>others_before = id, now_locked = t, others_between = id, procs_seen = [], now_after = t + 1,
     others_at_end = id, sleep_timed_out = False\<rparr>"

definition demo_guc :: guc where
  "demo_guc = guc_boot\<lparr>native_writer_reservation_queue_capacity := 2\<rparr>"

lemma demo_guc_capacity [simp]: "QueueCapacity demo_guc = 2"
  by (simp add: QueueCapacity_def demo_guc_def)

lemma idle_turn_env_ok: "env_ok cap (idle_turn t)"
  by (simp add: env_ok_def idle_turn_def)

lemma demo_queue_inv: "queue_inv 2 demo2"
  using reachable_queue_inv [OF demo_reachable] by (simp add: demo_sys_def)

lemma demo_wait: "WaitUntilReady demo_time demo_guc True (local_reservation (local_of demo1 0)) [idle_turn 5] demo2 = Some (demo2, True)"
proof -
  have "0 < QueueWaitBudgetMs demo_guc"
    by (simp add: QueueWaitBudgetMs_def demo_guc_def guc_boot_def eval_nat_numeral)
  then show ?thesis
    by (simp add: WaitUntilReady_def WaitCheck_def idle_turn_def FindSlot_def local_of_def demo1_def demo_eval demo_ready Let_def)
qed

theorem wait_answer_sound_witness:
  "queue_inv 2 demo2 \<and> answers 2 True (local_reservation (local_of demo1 0)) demo2 True"
  using wait_answer_sound [of demo_guc demo2 "[idle_turn 5]" demo_time True "local_reservation (local_of demo1 0)" demo2 True]
  by (simp add: demo_wait demo_queue_inv idle_turn_env_ok)

lemma wait_budget_loop_bounds:
  assumes "0 < wait_cap" "1 \<le> backoff" "0 \<le> delay" "0 \<le> acc" "acc < of_int wait_cap"
  shows "0 \<le> wait_budget_loop n wait_cap backoff delay acc \<and> wait_budget_loop n wait_cap backoff delay acc \<le> wait_cap
    \<and> acc \<le> of_int (wait_budget_loop n wait_cap backoff delay acc)"
  using assms
proof (induction n arbitrary: delay acc)
  case 0
  then show ?case by (simp add: ceiling_le_iff le_of_int_ceiling)
next
  case (Suc n)
  show ?case
  proof (cases "acc + delay \<ge> of_int wait_cap")
    case False
    let ?d = "if delay \<ge> of_int wait_cap / backoff then of_int wait_cap else delay * backoff"
    have "0 \<le> ?d" using Suc.prems by simp
    from Suc.IH [OF Suc.prems(1,2) this, of "acc + delay"] False Suc.prems show ?thesis by simp
  qed (use Suc.prems in simp)
qed

text \<open>The time budget of a wait is between zero and the configured cap; it is positive exactly
  when the cap, the retry count and the retry delay all are, and then it covers at least one retry
  delay or reaches the cap.\<close>

theorem wait_budget_bounds:
  assumes "guc_in_range g"
  shows "0 \<le> QueueWaitBudgetMs g \<and> QueueWaitBudgetMs g \<le> native_writer_reservation_queue_wait_ms g
    \<and> (0 < QueueWaitBudgetMs g \<longleftrightarrow> 0 < native_writer_reservation_queue_wait_ms g \<and>
         0 < native_writer_max_retry_count g \<and> 0 < native_writer_retry_wait_ms g)
    \<and> (0 < QueueWaitBudgetMs g \<longrightarrow>
         min (native_writer_retry_wait_ms g) (native_writer_reservation_queue_wait_ms g) \<le> QueueWaitBudgetMs g)"
proof (cases "native_writer_reservation_queue_wait_ms g \<le> 0 \<or> native_writer_max_retry_count g \<le> 0 \<or>
    native_writer_retry_wait_ms g \<le> 0")
  case True
  then show ?thesis using assms by (auto simp: QueueWaitBudgetMs_def Let_def guc_in_range_def)
next
  case False
  let ?cap = "native_writer_reservation_queue_wait_ms g" and ?d = "rat_of_int (native_writer_retry_wait_ms g)"
    and ?b = "native_writer_retry_backoff g"
  obtain n where n: "nat (native_writer_max_retry_count g) = Suc n" using False by (cases "nat (native_writer_max_retry_count g)") auto
  have eq: "QueueWaitBudgetMs g = wait_budget_loop (Suc n) ?cap ?b ?d 0" using False n by (simp add: QueueWaitBudgetMs_def Let_def)
  have bk: "1 \<le> ?b" using assms by (simp add: guc_in_range_def)
  show ?thesis
  proof (cases "?d \<ge> of_int ?cap")
    case True
    then show ?thesis using False eq by simp
  next
    case lt: False
    have "0 \<le> (if ?d \<ge> of_int ?cap / ?b then of_int ?cap else ?d * ?b)" using False bk by simp
    from wait_budget_loop_bounds [OF _ bk this, of ?cap ?d n] show ?thesis
      using False lt eq by (auto simp: min_def)
  qed
qed

theorem wait_budget_bounds_witness:
  "0 < QueueWaitBudgetMs guc_boot \<and> QueueWaitBudgetMs guc_boot \<le> 10"
  using wait_budget_bounds [OF guc_boot_in_range] by (simp add: guc_boot_def)

text \<open>A wait whose blocker does not move: the deadline that the first turn stores stays.\<close>

lemma refresh_deadline_simps [simp]:
  "in_use (refresh_deadline pgt b now blk s) = in_use s" "valid (refresh_deadline pgt b now blk s) = valid s"
  "committed (refresh_deadline pgt b now blk s) = committed s" "catalog (refresh_deadline pgt b now blk s) = catalog s"
  "ticket (refresh_deadline pgt b now blk s) = ticket s" "owner (refresh_deadline pgt b now blk s) = owner s"
  "slot_table_id (refresh_deadline pgt b now blk s) = slot_table_id s"
  by (simp_all add: refresh_deadline_def)

lemma refresh_deadline_settled:
  assumes "queue_wait_deadline (refresh_deadline pgt b now (Some blk) s) \<noteq> 0"
  shows "refresh_deadline pgt b now' (Some blk) (refresh_deadline pgt b now (Some blk) s) = refresh_deadline pgt b now (Some blk) s"
  using assms by (simp add: refresh_deadline_def)

lemma scans_refresh:
  fixes pgt :: pg_time and b now :: int and blk :: "BlockingReservation option"
  assumes "i < length (slots q)" "cap \<le> length (slots q)"
  defines "q' \<equiv> set_slot i (refresh_deadline pgt b now blk (slot_at q i)) q"
  shows "FindBlocker cap q' (slot_at q' i) pw = FindBlocker cap q (slot_at q i) pw"
    and "publication_ready cap i q' = publication_ready cap i q"
proof -
  let ?r = "refresh_deadline pgt b now blk (slot_at q i)"
  have at: "slot_at q' j = (if i = j then ?r else slot_at q j)" if "j < length (slots q)" for j
    using that by (simp add: q'_def nth_update_in)
  have same: "in_use (slot_at q' j) = in_use (slot_at q j)" "valid (slot_at q' j) = valid (slot_at q j)"
    "committed (slot_at q' j) = committed (slot_at q j)" "catalog (slot_at q' j) = catalog (slot_at q j)"
    "ticket (slot_at q' j) = ticket (slot_at q j)" "owner (slot_at q' j) = owner (slot_at q j)"
    "slot_table_id (slot_at q' j) = slot_table_id (slot_at q j)" "row_count_known (slot_at q' j) = row_count_known (slot_at q j)"
    if "j < length (slots q)" for j
    using that by (simp_all add: at refresh_deadline_def)
  have fb: "scan_min (\<lambda>j. ticket (slot_at q' j)) P cap = scan_min (\<lambda>j. ticket (slot_at q j)) Q cap"
    if "\<And>j. j < cap \<Longrightarrow> P j = Q j" for P Q
    using that assms(2) by (intro scan_min_cong) (auto simp: same)
  show "publication_ready cap i q' = publication_ready cap i q"
    unfolding publication_ready_def FirstPendingSlot_def
    by (subst fb [where Q = "\<lambda>j. let s = slot_at q j in in_use s \<and> valid s \<and> \<not> committed s \<and> SameCatalog (catalog s) (catalog (slot_at q i))"])
       (use assms(1,2) in \<open>auto simp: same Let_def dest!: scan_min_Some split: option.splits\<close>)
  show "FindBlocker cap q' (slot_at q' i) pw = FindBlocker cap q (slot_at q i) pw"
    unfolding FindBlocker_def
    by (subst fb [where Q = "\<lambda>j. let s = slot_at q j in
           \<not> (\<not> in_use s \<or> \<not> valid s \<or> committed s \<or> \<not> SameCatalog (catalog s) (catalog (slot_at q i)) \<or>
              ticket (slot_at q i) \<le> ticket s) \<and>
           \<not> (\<not> pw \<and> (slot_table_id s \<noteq> slot_table_id (slot_at q i) \<or> row_count_known s))"])
       (use assms(1,2) in \<open>auto simp: same Let_def dest!: scan_min_Some split: option.splits\<close>)
qed

lemma WaitCheck_settled:
  assumes cap: "cap \<le> length (slots q)"
    and w: "WaitCheck pgt cap budget True r now q = (q1, WaitBlocked (Some b) d)" and d: "d \<noteq> 0"
  shows "WaitCheck pgt cap budget True r now' q1 = (q1, WaitBlocked (Some b) d)"
proof -
  obtain i where i: "FindSlot cap q r = Some i" "valid (slot_at q i)" "\<not> publication_ready cap i q"
    and b: "FindBlocker cap q (slot_at q i) True = Some b"
    and q1: "q1 = set_slot i (refresh_deadline pgt budget now (Some b) (slot_at q i)) q"
    and dl: "d = queue_wait_deadline (refresh_deadline pgt budget now (Some b) (slot_at q i))"
    using w by (auto simp: WaitCheck_def Let_def split: option.splits if_splits)
  note S = FindSlot_Some [OF i(1)]
  have il: "i < length (slots q)" using S(1) cap by simp
  have at: "slot_at q1 i = refresh_deadline pgt budget now (Some b) (slot_at q i)" using il q1 by simp
  have f: "FindSlot cap q1 r = Some i" using i(1) S il at by (auto simp: FindSlot_def Let_def)
  note scans = scans_refresh [OF il cap, where pgt = pgt and b = budget and now = now and blk = "Some b", folded q1]
  have "set_slot i (refresh_deadline pgt budget now' (Some b) (slot_at q1 i)) q1 = q1"
    using refresh_deadline_settled [of pgt budget now b "slot_at q i" now'] d dl at q1
    by (simp add: set_slot_def)
  then show ?thesis
    using f i(2,3) b scans at dl d refresh_deadline_settled [of pgt budget now b "slot_at q i" now']
    by (simp add: WaitCheck_def Let_def)
qed

definition quiet_turn :: "BlockingReservation \<Rightarrow> wait_turn \<Rightarrow> bool" where
  "quiet_turn b t \<longleftrightarrow> others_before t = id \<and> others_between t = id \<and> others_at_end t = id \<and>
     OwnerTransactionIsActive (procs_seen t) (blk_owner b)"

lemma wait_loop_stalled:
  assumes "\<And>now. WaitCheck pgt cap budget True r now q = (q, WaitBlocked (Some b) d)"
  shows "\<forall>t \<in> set turns. quiet_turn b t \<Longrightarrow> \<exists>t \<in> set turns. ts_diff_ms pgt (now_after t) d \<le> 0 \<Longrightarrow>
    wait_loop pgt cap budget True r co turns q = Some (AbandonReservation cap r q, False)"
  by (induction turns arbitrary: co) (auto simp: assms quiet_turn_def ReclaimInactiveOwner_def)

text \<open>C24: a stalled blocker cannot extend a wait. If nobody else changes the queue and the owner of the
  blocker is alive, the wait for the turn ends as soon as one turn reads a clock past the deadline
  that the first turn stored: the loop returns, the answer is negative and the reservation is
  gone.\<close>

theorem stalled_wait_ends:
  assumes "queue_inv cap q" "WaitCheck pgt cap budget True r (now_locked t) q = (q1, WaitBlocked (Some b) d)" "d \<noteq> 0"
    "\<forall>u \<in> set (t # turns). quiet_turn b u" "\<exists>u \<in> set (t # turns). ts_diff_ms pgt (now_after u) d \<le> 0"
  shows "wait_loop pgt cap budget True r check_owner (t # turns) q = Some (AbandonReservation cap r q1, False)
    \<and> FindSlot cap (AbandonReservation cap r q1) r = None"
proof -
  note F = queue_inv_facts [OF assms(1)]
  have "wait_loop pgt cap budget True r co turns q1 = Some (AbandonReservation cap r q1, False)"
    if "\<exists>u \<in> set turns. ts_diff_ms pgt (now_after u) d \<le> 0" for co
    using wait_loop_stalled [OF WaitCheck_settled [OF F(6) assms(2,3)] _ that] assms(4) by simp
  then have "wait_loop pgt cap budget True r check_owner (t # turns) q = Some (AbandonReservation cap r q1, False)"
    using assms(2,4,5) by (auto simp: quiet_turn_def ReclaimInactiveOwner_def)
  moreover have "queue_inv cap q1"
    using WaitCheck_inv [OF assms(1), of pgt budget True r "now_locked t"] assms(2) by simp
  ultimately show ?thesis using AbandonReservation_gone queue_inv_facts(6) by simp
qed

definition demo_blocker :: BlockingReservation where
  "demo_blocker = \<lparr>blk_catalog = demo_catalog, blk_ticket = 1, blk_owner = zero_owner\<rparr>"

definition demo_turn :: "int \<Rightarrow> int \<Rightarrow> wait_turn" where
  "demo_turn locked after = (idle_turn locked)\<lparr>procs_seen := [\<lparr>proc_pid = 0, proc_vxid = 0, proc_lxid = 0\<rparr>],
     now_after := after\<rparr>"

definition demo_blocked :: queue where
  "demo_blocked = set_slot 1 ((demo_slot 2 9 103)\<lparr>queue_wait_blocker_ticket := 1, queue_wait_deadline := 10005\<rparr>) demo2"

lemma demo_blocked_check:
  "WaitCheck demo_time 2 10 True (local_reservation (local_of demo2 1)) 5 demo2 =
     (demo_blocked, WaitBlocked (Some demo_blocker) 10005)"
  by (simp add: WaitCheck_def FindSlot_def local_of_def publication_ready_def FirstPendingSlot_def FindBlocker_def
      scan_min_def upt_2 demo_eval Let_def SameCatalog_def word_less_nat_alt word_le_nat_alt refresh_deadline_def
      demo_blocked_def demo_blocker_def demo_time_def)
     (simp add: demo_slot_def fresh_slot_def zero_slot_def)

theorem stalled_wait_ends_witness:
  "\<exists>q. wait_loop demo_time 2 10 True (local_reservation (local_of demo2 1)) False [demo_turn 5 6, demo_turn 7 20000] demo2
     = Some (q, False) \<and> FindSlot 2 q (local_reservation (local_of demo2 1)) = None"
proof -
  have c: "WaitCheck demo_time 2 10 True (local_reservation (local_of demo2 1)) (now_locked (demo_turn 5 6)) demo2 =
      (demo_blocked, WaitBlocked (Some demo_blocker) 10005)"
    using demo_blocked_check by (simp add: demo_turn_def idle_turn_def)
  have q: "\<forall>u \<in> set [demo_turn 5 6, demo_turn 7 20000]. quiet_turn demo_blocker u"
    by (simp add: demo_turn_def idle_turn_def quiet_turn_def OwnerTransactionIsActive_def demo_blocker_def zero_owner_def)
  have e: "\<exists>u \<in> set [demo_turn 5 6, demo_turn 7 20000]. ts_diff_ms demo_time (now_after u) 10005 \<le> 0"
    by (simp add: demo_turn_def demo_time_def)
  have "10005 \<noteq> (0 :: int)" by simp
  from stalled_wait_ends [OF demo_queue_inv c this q e] show ?thesis by blast
qed

section \<open>Ends of transactions\<close>

text \<open>C22: an abort, a commit without publication and a backend exit release the reservation and
  invalidate exactly the reservations that were predicted on top of it: every live one of the
  catalog with a larger ticket. All other slots keep their contents.\<close>

theorem abort_invalidates_dependents:
  assumes "reachable cap s" "FindSlot cap (shared s) (local_reservation (locals s b)) = Some i"
    "\<not> (is_commit \<and> published (locals s b) \<and> valid (slot_at (shared s) i))" "j < MAX_RESERVATIONS"
  shows "\<exists>q'. RemoveLocalReservation cap is_commit (Some (shared s), locals s b) = (Some q', no_local) \<and>
    slot_at q' j =
      (if j = i then zero_slot
       else if live (slot_at (shared s) j) \<and> catalog (slot_at (shared s) j) = catalog (slot_at (shared s) i) \<and>
          ticket (slot_at (shared s) i) < ticket (slot_at (shared s) j)
       then (slot_at (shared s) j)\<lparr>valid := False\<rparr> else slot_at (shared s) j)"
proof -
  note F = queue_inv_facts [OF reachable_queue_inv [OF assms(1)]] and S = FindSlot_Some [OF assms(2)]
  have len: "i < length (slots (shared s))" "j < length (slots (shared s))" using S(1) F(5,6) assms(4) by simp_all
  have "j = i" if "in_use (slot_at (shared s) j)" "ticket (slot_at (shared s) j) = ticket (slot_at (shared s) i)"
    using tickets_ok_unique [OF F(1) len(2,1) that(1) S(2)] that(2) by simp
  moreover have "in_use (slot_at (shared s) j) \<Longrightarrow> j < cap" using tickets_ok_in_use(1) [OF F(1) len(2)] .
  ultimately show ?thesis
    using assms(2,3) S(4) len
    by (auto simp: RemoveLocalReservation_def InvalidateFrom_def invalidates_def nth_map_upto nth_update_in
        live_def SameCatalog_iff order.order_iff_strict)
qed

theorem abort_invalidates_dependents_witness:
  "\<exists>q'. RemoveLocalReservation 2 False (Some demo2, local_of demo1 0) = (Some q', no_local) \<and>
    slot_at q' 1 = (demo_slot 2 9 103)\<lparr>valid := False\<rparr>"
proof -
  have "FindSlot 2 (shared demo_sys) (local_reservation (locals demo_sys 0)) = Some 0"
    by (simp add: demo_sys_def FindSlot_def local_of_def demo1_def demo_eval)
  from abort_invalidates_dependents [OF demo_reachable this, of False 1] show ?thesis
    by (simp add: demo_eval MAX_RESERVATIONS_def word_less_nat_alt del: One_nat_def)
qed

text \<open>The last earlier reservation is determined by its ticket.\<close>

lemma LastPriorSlot_eqI:
  assumes ok: "tickets_ok cap q" and p: "p < cap" "prior_to q s st p"
    and max: "\<And>j. j < cap \<Longrightarrow> prior_to q s st j \<Longrightarrow> ticket (slot_at q j) \<le> ticket (slot_at q p)"
  shows "LastPriorSlot cap q s st = Some p"
proof (cases "LastPriorSlot cap q s st")
  case None
  then show ?thesis using LastPriorSlot_None p by blast
next
  case (Some k)
  note L = LastPriorSlot_Some [OF Some]
  have "ticket (slot_at q k) = ticket (slot_at q p)" using L(3) [OF p] max [OF L(1,2)] by simp
  then have "k = p"
    using tickets_ok_unique [OF ok, of k p] L(1,2) p ok by (auto simp: tickets_ok_def prior_to_def live_def)
  then show ?thesis using Some by simp
qed


definition demo_marked :: queue_sys where
  "demo_marked = demo_sys\<lparr>locals := (locals demo_sys)(0 :=
     MarkNativeWriterReservationPublished (local_reservation (local_of demo1 0)) (locals demo_sys 0))\<rparr>"

lemma demo_marked_reachable: "reachable 2 demo_marked"
  using reach_step [OF demo_reachable mark] by (simp only: demo_marked_def)


text \<open>No two backends hold the same slot. In every reachable state the handles of different
  backends resolve to different slots.\<close>

theorem handles_resolve_apart:
  assumes "reachable cap s" "b \<noteq> c" "FindSlot cap (shared s) (local_reservation (locals s b)) = Some i"
    "FindSlot cap (shared s) (local_reservation (locals s c)) = Some j"
  shows "i \<noteq> j"
proof -
  have "handles_ok s" using native_queue.reach_inv [OF assms(1)] by (simp add: sys_inv_def)
  then have "res_ticket (local_reservation (locals s b)) \<noteq> res_ticket (local_reservation (locals s c))"
    using assms(2) FindSlot_Some(4) [OF assms(3)] FindSlot_Some(4) [OF assms(4)] by (simp add: handles_ok_def)
  then show ?thesis using FindSlot_Some(3) [OF assms(3)] FindSlot_Some(3) [OF assms(4)] by auto
qed

theorem handles_resolve_apart_witness:
  "FindSlot 2 demo2 (local_reservation (local_of demo1 0)) \<noteq> FindSlot 2 demo2 (local_reservation (local_of demo2 1))"
proof -
  have "FindSlot 2 (shared demo_sys) (local_reservation (locals demo_sys 0)) = Some 0"
    "FindSlot 2 (shared demo_sys) (local_reservation (locals demo_sys 1)) = Some 1"
    by (simp_all add: demo_sys_def FindSlot_def local_of_def demo1_def demo_eval)
  from handles_resolve_apart [OF demo_reachable _ this] this show ?thesis by (simp add: demo_sys_def)
qed

section \<open>A reservation call\<close>

text \<open>Nothing becomes live, and what stays live keeps its ticket and its snapshot prediction.\<close>

definition keeps_candidates :: "queue \<Rightarrow> queue \<Rightarrow> bool" where
  "keeps_candidates q q' \<longleftrightarrow> length (slots q') = length (slots q) \<and>
     (\<forall>j < length (slots q). live (slot_at q' j) \<longrightarrow> live (slot_at q j) \<and> ticket (slot_at q' j) = ticket (slot_at q j) \<and>
        candidate_snapshot_id (slot_at q' j) = candidate_snapshot_id (slot_at q j))"

lemma keeps_candidates_shrinks: "shrinks q q' \<Longrightarrow> keeps_candidates q q'"
  unfolding keeps_candidates_def shrinks_def using core_eqD(2,4) by blast

lemma keeps_candidates_trans: "keeps_candidates q1 q2 \<Longrightarrow> keeps_candidates q2 q3 \<Longrightarrow> keeps_candidates q1 q3"
  by (simp add: keeps_candidates_def)

lemma keeps_candidates_assign_row: "keeps_candidates q (fst (assign_row cap i q))"
proof -
  have "keeps_candidates q (set_slot i ((slot_at q i)\<lparr>candidate_row_id := r, row_assigned := True\<rparr>) q)" for r
    by (auto simp: keeps_candidates_def nth_update_in live_def)
  then show ?thesis
    by (auto simp: assign_row_def Let_def keeps_candidates_shrinks shrinks_InvalidateFrom split: option.splits)
qed

lemma keeps_candidates_WaitCheck: "keeps_candidates q (fst (WaitCheck pgt cap budget pw r now q))"
proof (cases "FindSlot cap q r")
  case (Some i)
  obtain q1 rd where q1: "(if pw then (q, publication_ready cap i q) else assign_row cap i q) = (q1, rd)"
    by (cases "if pw then (q, publication_ready cap i q) else assign_row cap i q")
  then have "keeps_candidates q q1"
    using keeps_candidates_assign_row [of q cap i] keeps_candidates_shrinks [of q q] by (auto split: if_splits)
  moreover from this have "keeps_candidates q (set_slot i (refresh_deadline pgt budget now b (slot_at q1 i)) q1)" for b
    by (rule keeps_candidates_trans) (rule keeps_candidates_shrinks [OF shrinks_refresh_deadline])
  ultimately show ?thesis using Some q1 keeps_candidates_shrinks [of q q] by (simp add: WaitCheck_def Let_def)
qed (simp add: WaitCheck_def keeps_candidates_shrinks)

text \<open>The prediction a reservation was given still stands in the queue.\<close>

definition predicts :: "nat \<Rightarrow> NativeWriterReservation \<Rightarrow> u64 \<Rightarrow> queue \<Rightarrow> bool" where
  "predicts cap r sid q \<longleftrightarrow> queue_inv cap q \<and>
     (case FindSlot cap q r of None \<Rightarrow> True
      | Some i \<Rightarrow> valid (slot_at q i) \<longrightarrow> candidate_snapshot_id (slot_at q i) = sid)"

lemma predicts_keeps:
  assumes "predicts cap r sid q" "keeps_candidates q q'" "queue_inv cap q'"
  shows "predicts cap r sid q'"
proof (cases "FindSlot cap q' r")
  case (Some i)
  note S = FindSlot_Some [OF Some]
  have il: "i < length (slots q)" using S(1) queue_inv_facts(6) [OF assms(3)] assms(2) by (simp add: keeps_candidates_def)
  then have "valid (slot_at q' i) \<Longrightarrow> live (slot_at q i) \<and> ticket (slot_at q i) = res_ticket r \<and>
      candidate_snapshot_id (slot_at q' i) = candidate_snapshot_id (slot_at q i)"
    using assms(2) S(2,3) by (auto simp: keeps_candidates_def live_def)
  moreover have "FindSlot cap q r = Some i" if "in_use (slot_at q i)" "ticket (slot_at q i) = res_ticket r"
    using that S by (simp add: FindSlot_def)
  ultimately show ?thesis using Some assms(1,3) by (auto simp: predicts_def live_def)
qed (use assms(3) in \<open>simp add: predicts_def\<close>)

lemma predicts_shrinks: "predicts cap r sid q \<Longrightarrow> shrinks q q' \<Longrightarrow> predicts cap r sid q'"
  using predicts_keeps keeps_candidates_shrinks queue_inv_shrinks by (auto simp: predicts_def)

lemma predicts_WaitCheck:
  "predicts cap r sid q \<Longrightarrow> predicts cap r sid (fst (WaitCheck pgt cap budget pw r' now q))"
  by (rule predicts_keeps [OF _ keeps_candidates_WaitCheck WaitCheck_inv]) (simp_all add: predicts_def)

text \<open>The other backends around a reservation call: they keep the invariant, and the prediction of
  the reservation while it is valid.\<close>

definition env_keeps :: "nat \<Rightarrow> NativeWriterReservation \<Rightarrow> u64 \<Rightarrow> (queue \<Rightarrow> queue) \<Rightarrow> bool" where
  "env_keeps cap r sid f \<longleftrightarrow> (\<forall>q. predicts cap r sid q \<longrightarrow> predicts cap r sid (f q))"

definition turn_keeps :: "nat \<Rightarrow> NativeWriterReservation \<Rightarrow> u64 \<Rightarrow> wait_turn \<Rightarrow> bool" where
  "turn_keeps cap r sid t \<longleftrightarrow> env_keeps cap r sid (others_before t) \<and> env_keeps cap r sid (others_between t) \<and>
     env_keeps cap r sid (others_at_end t)"

lemma wait_loop_predicts:
  "wait_loop pgt cap budget pw r co turns q = Some (q', ok) \<Longrightarrow> predicts cap r sid q \<Longrightarrow>
   \<forall>t \<in> set turns. turn_keeps cap r sid t \<Longrightarrow> predicts cap r sid q'"
proof (induction turns arbitrary: co q)
  case (Cons t turns)
  have E: "env_keeps cap r sid (others_before t)" "env_keeps cap r sid (others_between t)" "env_keeps cap r sid (others_at_end t)"
    using Cons.prems(3) by (simp_all add: turn_keeps_def)
  obtain q1 v where w: "WaitCheck pgt cap budget pw r (now_locked t) (others_before t q) = (q1, v)"
    by (cases "WaitCheck pgt cap budget pw r (now_locked t) (others_before t q)")
  have "predicts cap r sid (others_before t q)" using E(1) Cons.prems(2) by (simp add: env_keeps_def)
  then have p1: "predicts cap r sid q1"
    using predicts_WaitCheck [of cap r sid "others_before t q" pgt budget pw r "now_locked t"] w by simp
  show ?case
  proof (cases v)
    case (WaitBlocked b d)
    obtain q2 rc where q2: "(if co then ReclaimInactiveOwner cap (procs_seen t) b (others_between t q1) else (q1, False)) = (q2, rc)"
      by (cases "if co then ReclaimInactiveOwner cap (procs_seen t) b (others_between t q1) else (q1, False)")
    have "predicts cap r sid (others_between t q1)" using E(2) p1 by (simp add: env_keeps_def)
    then have p2: "predicts cap r sid q2"
      using q2 p1 predicts_shrinks [OF _ shrinks_ReclaimInactiveOwner, of cap r sid "others_between t q1" cap "procs_seen t" b]
      by (auto split: if_splits)
    then have "predicts cap r sid (AbandonReservation cap r (others_at_end t q2))"
      using E(3) predicts_shrinks [OF _ shrinks_AbandonReservation] by (simp add: env_keeps_def)
    then show ?thesis
      using Cons.prems(1,3) Cons.IH [OF _ p2] w WaitBlocked q2 by (auto split: if_splits)
  qed (use Cons.prems(1) w p1 in auto)
qed simp

lemma FindSlot_local_of:
  assumes "queue_inv cap q" "i < cap" "in_use (slot_at q i)"
  shows "FindSlot cap q (local_reservation (local_of q i)) = Some i"
proof -
  have "i < 4294967296" using assms(1,2) by (simp add: queue_inv_def tickets_ok_def MAX_RESERVATIONS_def)
  then have "unat (of_nat i :: u32) = i" by (simp add: unat_of_nat take_bit_eq_mod)
  then show ?thesis using assms(2,3) by (simp add: FindSlot_def local_of_def)
qed

lemma finish_reserve_validates:
  assumes inv: "queue_inv (QueueCapacity g) q" and i: "i < QueueCapacity g" "in_use (slot_at q i)"
    and f: "finish_reserve pgt g turns others_read i q = Some (q', l', res, True)"
    and t: "\<forall>t \<in> set turns. turn_keeps (QueueCapacity g) (reservation res) (result_snapshot_id res) t"
    and rd: "env_keeps (QueueCapacity g) (reservation res) (result_snapshot_id res) others_read"
  shows "queue_inv (QueueCapacity g) q' \<and> l' = local_of q i \<and> reservation res = local_reservation l' \<and>
    ValidateNativeWriterReservation (QueueCapacity g) (reservation res) (result_snapshot_id res) (result_row_id res) (Some q')
      = (Some q', True)"
proof -
  let ?cap = "QueueCapacity g" and ?r = "local_reservation (local_of q i)" and ?s = "slot_at q i"
  note F = FindSlot_local_of [OF inv i]
  have act: "active ?r" by (simp add: local_of_def)
  show ?thesis
  proof (cases "row_assigned ?s")
    case True
    then have "valid ?s" "q' = q" "l' = local_of q i" "res = \<lparr>reservation = ?r, result_snapshot_id = candidate_snapshot_id ?s,
        result_row_id = candidate_row_id ?s\<rparr>"
      using f by (auto simp: finish_reserve_def Let_def split: if_splits)
    then show ?thesis using True F act inv by (simp add: ValidateNativeWriterReservation_def)
  next
    case False
    then obtain q1 j where w: "WaitUntilReady pgt g False ?r turns q = Some (q1, True)" and q': "q' = others_read q1"
      and j: "FindSlot ?cap q' ?r = Some j" "valid (slot_at q' j)" "row_assigned (slot_at q' j)"
      and l: "l' = local_of q i" and res: "reservation res = ?r" "result_snapshot_id res = candidate_snapshot_id ?s"
        "result_row_id res = candidate_row_id (slot_at q' j)"
      using f by (auto simp: finish_reserve_def Let_def split: if_splits option.splits bool.splits)
    have "predicts ?cap ?r (candidate_snapshot_id ?s) q" using inv F by (simp add: predicts_def)
    then have "predicts ?cap ?r (candidate_snapshot_id ?s) q1"
      using w wait_loop_predicts t res(1,2) by (auto simp: WaitUntilReady_def Let_def split: if_splits)
    then have "predicts ?cap ?r (candidate_snapshot_id ?s) q'" using rd res(1,2) q' by (simp add: env_keeps_def)
    then show ?thesis
      using j l res act by (simp add: predicts_def ValidateNativeWriterReservation_def)
  qed
qed

lemma reserve_success:
  assumes "queue_inv (QueueCapacity g) q" "ra_row_count a \<le> INT64_MAX"
    "\<forall>q. queue_inv (QueueCapacity g) q \<longrightarrow> queue_inv (QueueCapacity g) (others_gap q)"
    "ReserveNativeWriterPublication pgt g procs others_gap turns others_read a (Some q, lcl) = Some (Some q', l', res, True)"
  obtains q0 q1 i where "queue_inv (QueueCapacity g) q0" "ReserveCritical (QueueCapacity g) a q0 = (q1, Some i)"
    "finish_reserve pgt g turns others_read i q1 = Some (q', l', res, True)"
proof -
  let ?cap = "QueueCapacity g"
  obtain p r where pr: "ReserveCritical ?cap a q = (p, r)" by (cases "ReserveCritical ?cap a q")
  show ?thesis
  proof (cases r)
    case (Some i)
    then show ?thesis using that [OF assms(1)] pr assms(4)
      by (auto simp: ReserveNativeWriterPublication_def Let_def split: if_splits)
  next
    case None
    let ?q2 = "ReclaimInactiveOwners ?cap procs (others_gap p)"
    have "queue_inv ?cap p" using ReserveCritical_inv [OF assms(1,2)] pr by simp
    then have "queue_inv ?cap ?q2" using assms(3) queue_inv_shrinks [OF _ shrinks_ReclaimInactiveOwners] by simp
    then show ?thesis using that None pr assms(4)
      by (auto simp: ReserveNativeWriterPublication_def Let_def split: if_splits prod.splits option.splits)
  qed
qed

text \<open>A reserved snapshot id fits a \<^verbatim>\<open>bigint\<close>.\<close>

lemma filled_slot_fits:
  assumes "valid (filled_slot cap a q)" "observed_snapshot_id a < INT64_MAX"
  shows "candidate_snapshot_id (filled_slot cap a q) \<le> INT64_MAX"
  using assms inc_le
  by (auto simp: filled_slot_def with_snapshot_def candidate_valid_def split: option.splits)

lemma reserved_snapshot_fits:
  assumes "queue_inv (QueueCapacity g) q" "ra_row_count a \<le> INT64_MAX"
    "\<forall>q. queue_inv (QueueCapacity g) q \<longrightarrow> queue_inv (QueueCapacity g) (others_gap q)"
    "ReserveNativeWriterPublication pgt g procs others_gap turns others_read a (Some q, lcl) = Some (Some q', l', res, True)"
    "observed_snapshot_id a < INT64_MAX"
  shows "result_snapshot_id res \<le> INT64_MAX"
proof -
  let ?cap = "QueueCapacity g"
  obtain q0 q1 i where inv0: "queue_inv ?cap q0" and c: "ReserveCritical ?cap a q0 = (q1, Some i)"
    and f: "finish_reserve pgt g turns others_read i q1 = Some (q', l', res, True)"
    by (rule reserve_success [OF assms(1-4)])
  obtain q2 where "slot_at q1 i = filled_slot ?cap a q2" by (rule ReserveCritical_Some [OF inv0 c])
  moreover have "valid (slot_at q1 i)" "result_snapshot_id res = candidate_snapshot_id (slot_at q1 i)"
    using f by (auto simp: finish_reserve_def Let_def split: if_splits option.splits bool.splits)
  ultimately show ?thesis using filled_slot_fits assms(5) by metis
qed

text \<open>C9: a successful reservation call gives what validation later asks for. When
  \<^verbatim>\<open>ReserveNativeWriterPublication\<close> returns true, the backend holds the returned handle, unpublished,
  and \<^verbatim>\<open>ValidateNativeWriterReservation\<close> on the returned handle, snapshot id and first row id
  accepts and leaves the queue alone, also when the call had to wait for its row id.\<close>

theorem reserve_then_validate:
  assumes "queue_inv (QueueCapacity g) q" "ra_row_count a \<le> INT64_MAX"
    "\<forall>q. queue_inv (QueueCapacity g) q \<longrightarrow> queue_inv (QueueCapacity g) (others_gap q)"
    "\<forall>t \<in> set turns. turn_keeps (QueueCapacity g) (reservation res) (result_snapshot_id res) t"
    "env_keeps (QueueCapacity g) (reservation res) (result_snapshot_id res) others_read"
    "ReserveNativeWriterPublication pgt g procs others_gap turns others_read a (Some q, lcl) = Some (Some q', l', res, True)"
  shows "queue_inv (QueueCapacity g) q' \<and> local_reservation l' = reservation res \<and> active (reservation res) \<and> \<not> published l' \<and>
    ValidateNativeWriterReservation (QueueCapacity g) (reservation res) (result_snapshot_id res) (result_row_id res) (Some q')
      = (Some q', True)"
proof -
  let ?cap = "QueueCapacity g"
  obtain q0 q1 i where inv0: "queue_inv ?cap q0" and c: "ReserveCritical ?cap a q0 = (q1, Some i)"
    and f: "finish_reserve pgt g turns others_read i q1 = Some (q', l', res, True)"
    by (rule reserve_success [OF assms(1-3,6)])
  have inv1: "queue_inv ?cap q1" using ReserveCritical_inv [OF inv0 assms(2)] c by simp
  note R = ReserveCritical_slot [OF inv0 c]
  from finish_reserve_validates [OF inv1 R(1,2) f assms(4,5)] show ?thesis by (auto simp: local_of_def)
qed

theorem reserve_then_validate_witness:
  "ValidateNativeWriterReservation 2 (local_reservation (local_of demo1 0)) 8 100 (Some demo1) = (Some demo1, True)"
proof -
  let ?res = "\<lparr>reservation = local_reservation (local_of demo1 0), result_snapshot_id = 8, result_row_id = 100\<rparr>"
  have "OidIsValid (snapshot_relation_oid (ra_catalog demo_args))" "slot_at demo1 0 = demo_slot 1 8 100"
    by (simp_all add: demo_args_def demo_catalog_def OidIsValid_def InvalidOid_def demo1_def)
  then have "ReserveNativeWriterPublication demo_time demo_guc [] id [] id demo_args (Some QueueShmemStartup, no_local) =
      Some (Some demo1, local_of demo1 0, ?res, True)"
    by (simp add: ReserveNativeWriterPublication_def demo_first finish_reserve_def no_local_def no_reservation_def
        demo_slot_simps Let_def)
  from reserve_then_validate [OF _ demo_args_count _ _ _ this] show ?thesis
    by (simp add: queue_startup_inv MAX_RESERVATIONS_def env_keeps_def)
qed

end
