(* ===== verification/Direct_Insert_Props.thy ===== *)
theory Direct_Insert_Props
  imports Direct_Insert_Exec Copy_From Inline_Producer_Props Native_Writer_Queue_Props
begin

text \<open>
  The producers from the plan to the published rows: what the plan of a direct insert carries through
  the executor's list encoding, which rows an \<^verbatim>\<open>UNNEST\<close> produces, and that a successful direct insert
  or \<^verbatim>\<open>COPY\<close> has published exactly the rows of its source.
\<close>

section \<open>The encoding of a plan\<close>

lemma next_int_PInt [simp]: "next_int (PInt i # ps) = Some (i, ps)"
  by simp

lemma next_u32_priv [simp]: "next_u32 (priv_u32 w # ps) = Some (w, ps)"
  by (simp add: next_u32_def priv_u32_def)

lemma word_halves: "or (push_bit 32 (ucast (ucast (drop_bit 32 w) :: u32))) (ucast (ucast w :: u32)) = (w :: u64)"
  by (rule bit_word_eqI) (auto simp: bit_or_iff bit_push_bit_iff bit_ucast_iff bit_drop_bit_eq)

lemma next_u64_priv [simp]: "next_u64 (priv_u64 w @ ps) = Some (w, ps)"
  by (simp add: next_u64_def priv_u64_def word_halves)

text \<open>A reader that undoes a writer reads back a counted list of what it wrote.\<close>

lemma next_many_append:
  assumes "\<And>x ps. rd (wr x @ ps) = Some (f x, ps)"
  shows "next_many rd (length xs) (concat (map wr xs) @ ps) = Some (map f xs, ps)"
  by (induction xs arbitrary: ps) (simp_all add: assms)

lemma next_counted_append:
  assumes "\<And>x ps. rd (wr x @ ps) = Some (f x, ps)"
  shows "next_counted rd (priv_count xs # concat (map wr xs) @ ps) = Some (map f xs, ps)"
  using next_many_append [of rd wr f xs ps] assms by (simp add: next_counted_def priv_count_def)

lemma next_counted_str [simp]: "next_counted next_str (priv_count xs # map PStr xs @ ps) = Some (xs, ps)"
  using next_counted_append [of next_str "\<lambda>x. [PStr x]" id xs ps] by (simp add: concat_map_singleton)

lemma next_counted_u32 [simp]: "next_counted next_u32 (priv_count xs # map priv_u32 xs @ ps) = Some (xs, ps)"
  using next_counted_append [of next_u32 "\<lambda>x. [priv_u32 x]" id xs ps] by (simp add: concat_map_singleton)

lemma next_counted_param [simp]:
  "next_counted next_param (priv_count xs # concat (map (\<lambda>p. [PInt (param_id p), priv_u32 (element_type p)]) xs) @ ps) =
     Some (map (\<lambda>p. (param_id p, element_type p)) xs, ps)"
  by (rule next_counted_append) (simp add: next_param_def)

lemma next_many_expr [simp]: "next_many next_expr (length es) (map PExpr es @ ps) = Some (es, ps)"
  using next_many_append [of next_expr "\<lambda>x. [PExpr x]" id es ps] by (simp add: concat_map_singleton)

lemmas decode_simps = DirectInsert_CreateCustomScanState_def MakeDirectInsertPlannedStmt_def DIRECT_INSERT_UNNEST_def
  DIRECT_INSERT_VALUES_def empty_scan_state_def

lemma unnest_plan_decodes:
  "DirectInsert_CreateCustomScanState (custom_private (CreateDirectInsertPlan parse c)) =
     Some (empty_scan_state\<lparr>ss_mode := DIRECT_INSERT_UNNEST, ss_target := dx_target c, ss_table_id := dx_table_id c,
       ss_schema_version := dx_schema_version c, ss_expected_row_count := - 1, ss_param_ids := map param_id (param_infos c),
       ss_element_types := map element_type (param_infos c), ss_column_names := dx_col_names c, ss_column_types := dx_col_types c\<rparr>)"
  by (simp add: decode_simps CreateDirectInsertPlan_def comp_def)

text \<open>C30: a plan for \<^verbatim>\<open>UNNEST\<close> survives its encoding. The executor state that
  \<^verbatim>\<open>DirectInsert_CreateCustomScanState\<close> decodes from the plan that \<^verbatim>\<open>CreateDirectInsertPlan\<close> has built holds the
  matched target, table id and schema version, both 64 bits wide, and the parameters and columns in
  their order.\<close>

theorem unnest_plan_roundtrip:
  "DirectInsert_CreateCustomScanState (custom_private (CreateDirectInsertPlan parse c)) =
     Some (empty_scan_state\<lparr>ss_mode := DIRECT_INSERT_UNNEST, ss_target := dx_target c, ss_table_id := dx_table_id c,
       ss_schema_version := dx_schema_version c, ss_expected_row_count := - 1, ss_param_ids := map param_id (param_infos c),
       ss_element_types := map element_type (param_infos c), ss_column_names := dx_col_names c, ss_column_types := dx_col_types c\<rparr>)"
  by (rule unnest_plan_decodes)

lemma values_target_length: "values_target n vn t (srcs, k) = Some (srcs', k') \<Longrightarrow> length srcs' = length srcs"
  by (auto simp: values_target_def Let_def split: if_splits option.splits)

lemma values_targets_length: "values_targets n vn ts (srcs, k) = Some (srcs', k') \<Longrightarrow> length srcs' = length srcs"
  by (induction ts arbitrary: srcs k) (auto split: option.splits dest: values_target_length)

lemma all_some_Some: "all_some xs = Some ys \<longleftrightarrow> xs = map Some ys"
  by (induction xs arbitrary: ys rule: all_some.induct) (auto simp: Cons_eq_map_conv)

text \<open>What a match of \<^verbatim>\<open>VALUES\<close> gives: for every row the resolved expression of every column.\<close>

lemma TryMatchValues_Inr:
  assumes "TryMatchValues dc parse precond s = (s', Inr c)"
  obtains rows srcs cells where "vx_num_rows c = length rows" "rows \<noteq> []" "vx_num_cols c = length (tupdesc (ip_target_rel precond))"
    "length srcs = vx_num_cols c" "vx_exprs c = concat cells" "vx_src_types c = map atttypid (tupdesc (ip_target_rel precond))"
    "map (resolve_row (dc_catalog dc) (tupdesc (ip_target_rel precond)) srcs) rows = map Some cells"
    "\<forall>cs \<in> set cells. length cs = vx_num_cols c"
    "ip_row_limit precond > 0 \<longrightarrow> int (vx_num_rows c) \<le> ip_row_limit precond"
proof -
  let ?attrs = "tupdesc (ip_target_rel precond)"
  define vk where "vk = values_rte_index parse"
  define rows where "rows = (case vk of Some k \<Rightarrow> values_lists (rtable parse ! k)
    | None \<Rightarrow> [map te_expr (filter (\<lambda>t. \<not> resjunk t) (targetList parse))])"
  obtain srcs k cells where f: "vx_num_rows c = length rows" "rows \<noteq> []" "vx_num_cols c = length ?attrs"
    "vx_exprs c = concat cells" "vx_src_types c = map atttypid ?attrs"
    "values_targets (length ?attrs) (map_option (\<lambda>k. int k + 1) vk) (targetList parse) (replicate (length ?attrs) (None, None), 0) = Some (srcs, k)"
    "all_some (map (resolve_row (dc_catalog dc) ?attrs srcs) rows) = Some cells"
    "\<not> (ip_row_limit precond > 0 \<and> int (length rows) > ip_row_limit precond)"
    using assms unfolding TryMatchValues_def Let_def vk_def [symmetric] rows_def [symmetric]
    by (auto split: if_splits option.splits prod.splits)
  have len: "length srcs = length ?attrs" using values_targets_length [OF f(6)] by simp
  have cells: "map (resolve_row (dc_catalog dc) ?attrs srcs) rows = map Some cells" using f(7) by (simp add: all_some_Some)
  have "length cs = length ?attrs" if "cs \<in> set cells" for cs
  proof -
    have "Some cs \<in> resolve_row (dc_catalog dc) ?attrs srcs ` set rows" using that cells by (metis image_eqI list.set_map)
    then obtain row where "resolve_row (dc_catalog dc) ?attrs srcs row = Some cs" by auto
    then have "length (map2 (\<lambda>a s. resolve_cell (dc_catalog dc) a row s) ?attrs srcs) = length cs"
      by (metis resolve_row_def all_some_Some length_map)
    then show ?thesis using len by simp
  qed
  with f len cells show ?thesis by (intro that) auto
qed

lemma concat_length: "\<forall>x \<in> set xs. length x = n \<Longrightarrow> length (concat xs) = length xs * n"
  by (induction xs) auto

lemma values_plan_decodes:
  assumes "TryMatchValues dc parse precond s = (s', Inr c)"
  shows "DirectInsert_CreateCustomScanState (custom_private (CreateValuesInsertPlan parse c)) =
     Some (empty_scan_state\<lparr>ss_mode := DIRECT_INSERT_VALUES, ss_target := vx_target c, ss_table_id := vx_table_id c,
       ss_schema_version := vx_schema_version c, ss_values_num_rows := int (vx_num_rows c), ss_values_num_cols := int (vx_num_cols c),
       ss_column_names := vx_col_names c, ss_column_types := vx_col_types c, ss_values_src_types := vx_src_types c,
       ss_values_exprs := vx_exprs c\<rparr>)"
proof -
  obtain rows srcs cells where "vx_num_rows c = length rows" "vx_exprs c = concat cells"
    "map (resolve_row (dc_catalog dc) (tupdesc (ip_target_rel precond)) srcs) rows = map Some cells"
    "\<forall>cs \<in> set cells. length cs = vx_num_cols c"
    using assms by (rule TryMatchValues_Inr)
  then have len: "length (vx_exprs c) = vx_num_rows c * vx_num_cols c"
    using concat_length map_eq_imp_length_eq by metis
  then have "nat (int (vx_num_rows c) * int (vx_num_cols c)) = length (vx_exprs c)" by (simp add: nat_mult_distrib)
  then show ?thesis using len next_many_expr [of "vx_exprs c" "[PQuery parse]"] by (simp add: decode_simps CreateValuesInsertPlan_def)
qed

text \<open>C31: a plan for \<^verbatim>\<open>VALUES\<close> survives its encoding. For every match that \<^verbatim>\<open>TryMatchValues\<close> reports, the
  executor decodes the target, the ids, the shape of the rows and all their expressions in row order.\<close>

theorem values_plan_roundtrip:
  assumes "TryMatchValues dc parse precond s = (s', Inr c)"
  shows "DirectInsert_CreateCustomScanState (custom_private (CreateValuesInsertPlan parse c)) =
     Some (empty_scan_state\<lparr>ss_mode := DIRECT_INSERT_VALUES, ss_target := vx_target c, ss_table_id := vx_table_id c,
       ss_schema_version := vx_schema_version c, ss_values_num_rows := int (vx_num_rows c), ss_values_num_cols := int (vx_num_cols c),
       ss_column_names := vx_col_names c, ss_column_types := vx_col_types c, ss_values_src_types := vx_src_types c,
       ss_values_exprs := vx_exprs c\<rparr>)"
  by (rule values_plan_decodes [OF assms])

section \<open>The rows of a source\<close>

text \<open>The rows that \<^verbatim>\<open>UNNEST\<close> of several arrays has in SQL: as many as the longest array, with nulls where an
  array has ended.\<close>

definition unnest_row :: "'d cell list list \<Rightarrow> nat \<Rightarrow> 'd cell list" where
  "unnest_row arrays i = map (\<lambda>es. if i < length es then es ! i else CNull) arrays"

lemma unnest_cells_row:
  "unnest_cells i (map length arrays) (map (drop i) arrays) = Inr (unnest_row arrays i, map (drop (Suc i)) arrays)"
proof (induction arrays)
  case (Cons es arrays)
  then show ?case by (cases "i < length es") (simp_all add: unnest_row_def flip: Cons_nth_drop_Suc)
qed (simp add: unnest_row_def)

lemma unnest_rows_from:
  "unnest_rows i n (map length arrays) (map (drop i) arrays) = Inr (map (unnest_row arrays) [i..<i + n])"
proof (induction n arbitrary: i)
  case (Suc n)
  have "[i..<i + Suc n] = i # [Suc i..<Suc i + n]" by (simp add: upt_rec)
  then show ?case using Suc [of "Suc i"] by (simp add: unnest_cells_row)
qed simp

lemma unnest_rows_eq: "unnest_rows 0 n (map length arrays) arrays = Inr (map (unnest_row arrays) [0..<n])"
  using unnest_rows_from [of 0 n arrays] by simp

text \<open>A null array counts as an empty one.\<close>

definition array_elements :: "'d cell list option \<Rightarrow> 'd cell list" where
  "array_elements a = (case a of None \<Rightarrow> [] | Some es \<Rightarrow> es)"

definition unnest_source :: "'d cell list option list \<Rightarrow> 'd cell list list" where
  "unnest_source arrays = (let elems = map array_elements arrays in map (unnest_row elems) [0..<fold max (map length elems) 0])"

lemma expected_rows:
  "fold (\<lambda>a m. max m (case a of None \<Rightarrow> 0 | Some es \<Rightarrow> int (length es))) arrays (int m) =
     int (fold max (map length (map array_elements arrays)) m)"
proof (induction arrays arbitrary: m)
  case (Cons a arrays)
  have "max (int m) (case a of None \<Rightarrow> 0 | Some es \<Rightarrow> int (length es)) = int (max (length (array_elements a)) m)"
    by (cases a) (auto simp: array_elements_def)
  then show ?case using Cons by simp
qed simp

lemma fold_max_less: "\<forall>x \<in> set xs. x < (b :: nat) \<Longrightarrow> m < b \<Longrightarrow> fold max xs m < b"
  by (induction xs arbitrary: m) auto

lemma bind_all_Inr: "bind_all f xs = Inr ys \<longleftrightarrow> list_all2 (\<lambda>x y. f x = Inr y) xs ys"
  by (induction xs arbitrary: ys) (auto simp: andthen_Inr_iff list_all2_Cons1)

lemma bind_parameter_length:
  assumes "bind_parameter pc ps p = Inr a" "\<forall>p \<in> set ps. length (arr_elements p) < b" "0 < b"
  shows "length (array_elements a) < b"
  using assms by (auto simp: bind_parameter_def array_elements_def Let_def split: prod.splits if_splits)

lemma unnest_source_length:
  assumes "bind_all (bind_parameter pc ps) xs = Inr arrays" "\<forall>p \<in> set ps. length (arr_elements p) < b" "0 < b"
  shows "length (unnest_source arrays) < b"
proof -
  have "length (array_elements a) < b" if a: "a \<in> set arrays" for a
  proof -
    obtain x where "bind_parameter pc ps x = Inr a"
      using list_all2_members(1) [OF assms(1) [unfolded bind_all_Inr] a] by blast
    then show ?thesis using assms(2,3) by (rule bind_parameter_length)
  qed
  then show ?thesis using fold_max_less [of "map length (map array_elements arrays)" b 0] assms(3)
    by (simp add: unnest_source_def Let_def)
qed

lemma unnest_rows_source:
  "unnest_rows 0 (length (unnest_source arrays)) (map length (map array_elements arrays)) (map array_elements arrays) = Inr (unnest_source arrays)"
  by (simp only: unnest_rows_eq) (simp add: unnest_source_def Let_def)

section \<open>From the source to the published rows\<close>

text \<open>What the producers rely on: new tuples have addresses of their own and carry the ids of the statement,
  the relation cache returns the relation it is asked for, the other transactions follow the publication
  protocol, and the other backends keep the reservation queue well-formed.\<close>

definition exec_env_ok :: "('ty, 'd) exec_env \<Rightarrow> bool" where
  "exec_env_ok xe \<longleftrightarrow> fresh_tids (xe_prewrite xe) \<and> pe_xid (xe_prewrite xe) = sc_xid (xe_statement xe) \<and>
     pe_cid (xe_prewrite xe) = sc_command_id (xe_statement xe) \<and> (\<forall>r. rel_oid (cx_relation (xe_writer xe) r) = r) \<and>
     (\<forall>batch k. batch_owner_xid batch = sc_xid (xe_statement xe) \<and> batch_owner_command_id batch = sc_command_id (xe_statement xe) \<longrightarrow>
        attempt_follows batch (xe_attempts xe k)) \<and>
     (\<forall>q. queue_inv (QueueCapacity (cx_guc (xe_writer xe))) q \<longrightarrow>
        queue_inv (QueueCapacity (cx_guc (xe_writer xe))) (re_gap (xe_reserve xe) q))"

text \<open>The state the statement starts in: \<^verbatim>\<open>bigint\<close> values, nothing written by the command yet, and a
  well-formed queue. The heaps have room for \<open>n\<close> tuples more.\<close>

definition start_ok :: "('ty, 'd) exec_env \<Rightarrow> nat \<Rightarrow> 'd stored list writer_state \<Rightarrow> bool" where
  "start_ok xe n w \<longleftrightarrow> db_bigint (ws_db w) \<and>
     (\<forall>r. first_write (xe_prewrite xe) (db_heap (ws_db w) r) \<and> length (db_heap (ws_db w) r) + n \<le> heap_limit) \<and>
     (\<forall>q. ws_queue w = Some q \<longrightarrow> queue_inv (QueueCapacity (cx_guc (xe_writer xe))) q)"

text \<open>What a producer promises: one publication of the batch, in which the tuples of the batch are the source
  rows in their order, numbered from the table's next row id.\<close>

definition rows_published ::
  "('ty, 'd) exec_env \<Rightarrow> NativeInlineWriteBatch \<Rightarrow> producer_column list \<Rightarrow> 'd cell list list \<Rightarrow> 'd stored list lake_db \<Rightarrow> bool" where
  "rows_published xe batch cols rows db' \<longleftrightarrow> (\<exists>db state fs fr. db_bigint db \<and>
     ReadPublicationState (cx_inline_oid (xe_writer xe)) batch (start_snapshot_id batch) db = Inr state \<and>
     check_state (xe_writer xe) batch state = Inr () \<and> fs = ps_snapshot_id state + 1 \<and> fr = ps_next_row_id state \<and>
     publishes batch state fs fr db db' \<and>
     map (retagged batch fs fr) (filter (own_row batch) (db_heap db (inline_table_oid batch))) =
       source_rows (xe_prewrite xe) cols fs fr rows)"

lemma retagged_source_rows:
  assumes "map content own = source_rows env cols (batch_snapshot_id batch) (batch_row_id batch) rows" "\<forall>r \<in> set own. own_row batch r"
  shows "map (retagged batch fs fr) own = source_rows env cols fs fr rows"
proof -
  let ?g = "\<lambda>c :: int option \<times> int option \<times> int option \<times> 'a stored list.
    (map_option (\<lambda>i. i - uint (batch_row_id batch) + uint fr) (fst c), Some (uint fs), snd (snd c))"
  have "map (retagged batch fs fr) own = map ?g (map content own)"
    using assms(2) by (simp add: retagged_def content_def)
  also have "\<dots> = source_rows env cols fs fr rows"
    unfolding assms(1) by (simp add: source_rows_def comp_def case_prod_unfold add.commute)
  finally show ?thesis .
qed

lemma published_from_rows:
  assumes "published_from (xe_writer xe) batch own db'" "\<forall>r \<in> set own. own_row batch r"
    "map content own = source_rows (xe_prewrite xe) cols (batch_snapshot_id batch) (batch_row_id batch) rows"
  shows "rows_published xe batch cols rows db'"
  using assms(1) retagged_source_rows [OF assms(3,2)] unfolding published_from_def rows_published_def by blast

lemma ReserveNativeWriterPublication_Some:
  assumes "ReserveNativeWriterPublication pgt g procs gap turns rd a (shm, lcl) = Some (q', l', res, True)"
  obtains q r where "shm = Some q" "q' = Some r"
  using assms that
  by (auto simp: ReserveNativeWriterPublication_def Let_def split: option.splits if_splits prod.splits)

lemma le_INT64_MAX: "w \<le> INT64_MAX \<longleftrightarrow> uint w < 2 ^ 63"
  by (simp add: INT64_MAX_def word_le_def) linarith

lemma writer_error_Inr: "writer_error r = Inr x \<longleftrightarrow> r = Inr x"
  by (cases r) (simp_all add: writer_error_def)

definition prepared :: "statement_context \<Rightarrow> oid \<Rightarrow> u64 \<Rightarrow> u64 \<Rightarrow> PublicationState \<Rightarrow> NativeInlineWriteBatch" where
  "prepared sc target tbl ver state = empty_batch\<lparr>target_table_oid := target, table_id := tbl, row_pointer_tracking_enabled := True,
     schema_version := ver, start_snapshot_id := ps_snapshot_id state, batch_snapshot_id := ps_snapshot_id state + 1,
     batch_row_id := ps_next_row_id state, batch_owner_xid := sc_xid sc, batch_owner_command_id := sc_command_id sc\<rparr>"

lemma PrepareNativeInlineWrite_Inr:
  assumes "PrepareNativeInlineWrite cx sc re target tbl ver expected db qs = Some (qs', Inr b)"
  obtains state where "ps_snapshot_id state < INT64_MAX" "b = prepared sc target tbl ver state"
  | state q' l' res reserved where "ps_snapshot_id state < INT64_MAX"
    "ReserveNativeWriterPublication (re_time re) (cx_guc cx) (re_procs re) (re_gap re) (re_turns re) (re_read re)
       (reserve_args_of sc (prepared sc target tbl ver state) state expected) qs = Some (q', l', res, reserved)"
    "b = (if reserved then (prepared sc target tbl ver state)\<lparr>batch_reservation := reservation res,
            batch_snapshot_id := result_snapshot_id res, batch_row_id := result_row_id res\<rparr>
          else (prepared sc target tbl ver state)\<lparr>batch_reservation := reservation res\<rparr>)"
proof -
  let ?b0 = "empty_batch\<lparr>target_table_oid := target, table_id := tbl, row_pointer_tracking_enabled := True, schema_version := ver\<rparr>"
  let ?r = "andthen (ReadPublicationState (cx_inline_oid cx) ?b0 INT64_MAX db) (\<lambda>state. andthen (ValidateBinding ?b0 state) (\<lambda>_.
    andthen (guard_or ExhaustedIds (\<not> (ps_snapshot_id state \<ge> INT64_MAX \<or> ps_next_row_id state > INT64_MAX))) (\<lambda>_. Inr state)))"
  have g: "\<not> (sc_transaction_block sc \<or> sc_xact_snapshot sc)" "\<not> sc_nest_level sc \<noteq> 1"
    using assms by (auto simp: PrepareNativeInlineWrite_def split: if_splits)
  note eq = assms [unfolded PrepareNativeInlineWrite_def Let_def, unfolded if_not_P [OF g(1)] if_not_P [OF g(2)]]
  then obtain state where state: "?r = Inr state" by (cases ?r) auto
  have fit: "ps_snapshot_id state < INT64_MAX"
    using state by (auto simp: andthen_Inr_iff guard_or_def split: if_splits)
  note eq' = eq [unfolded state sum.case, folded prepared_def]
  show ?thesis
  proof (cases "native_writer_reservation_queue (cx_guc cx)")
    case False
    then show ?thesis using eq' that(1) [OF fit] by (simp add: prepared_def)
  next
    case True
    let ?R = "ReserveNativeWriterPublication (re_time re) (cx_guc cx) (re_procs re) (re_gap re) (re_turns re) (re_read re)
       (reserve_args_of sc (prepared sc target tbl ver state) state expected) qs"
    obtain q' l' res reserved where r: "?R = Some (q', l', res, reserved)"
      using eq' True by (cases ?R) (auto simp: prepared_def)
    show ?thesis using eq' True r by (intro that(2) [OF fit r]) (simp add: prepared_def split: if_splits)
  qed
qed

lemma prepared_fields [simp]:
  "row_pointers (prepared sc target tbl ver state) = []" "inline_table_oid (prepared sc target tbl ver state) = 0"
  "table_id (prepared sc target tbl ver state) = tbl" "schema_version (prepared sc target tbl ver state) = ver"
  "batch_owner_xid (prepared sc target tbl ver state) = sc_xid sc"
  "batch_owner_command_id (prepared sc target tbl ver state) = sc_command_id sc"
  "batch_snapshot_id (prepared sc target tbl ver state) = ps_snapshot_id state + 1"
  by (simp_all add: prepared_def empty_batch_def)

text \<open>What the writer prepares: a batch without rows, owned by the statement, whose candidate snapshot fits.\<close>

lemma prepare_batch_facts:
  assumes p: "prepare_batch xe target tbl ver expected w = Some (Inr (w1, b))" and env: "exec_env_ok xe" and st: "start_ok xe m w"
    and ex: "expected = NATIVE_WRITER_UNKNOWN_ROW_COUNT \<or> expected \<le> INT64_MAX"
  shows "ws_db w1 = ws_db w" "row_pointers b = []" "inline_table_oid b = 0" "table_id b = tbl" "schema_version b = ver"
    "batch_owner_xid b = sc_xid (xe_statement xe)" "batch_owner_command_id b = sc_command_id (xe_statement xe)"
    "uint (batch_snapshot_id b) < 2 ^ 63"
proof -
  obtain q l where w1: "w1 = w\<lparr>ws_queue := q, ws_local := l\<rparr>"
    and prep: "PrepareNativeInlineWrite (xe_writer xe) (xe_statement xe) (xe_reserve xe) target tbl ver expected (ws_db w) (ws_queue w, ws_local w)
      = Some ((q, l), Inr b)"
    using p by (auto simp: prepare_batch_def andthen_Inr_iff writer_error_Inr)
  show "ws_db w1 = ws_db w" using w1 by simp
  show "row_pointers b = []" "inline_table_oid b = 0" "table_id b = tbl" "schema_version b = ver"
    "batch_owner_xid b = sc_xid (xe_statement xe)" "batch_owner_command_id b = sc_command_id (xe_statement xe)"
    by (rule PrepareNativeInlineWrite_Inr [OF prep]; simp split: if_splits)+
  show "uint (batch_snapshot_id b) < 2 ^ 63"
  proof (rule PrepareNativeInlineWrite_Inr [OF prep])
    show ?thesis if "ps_snapshot_id state < INT64_MAX" "b = prepared (xe_statement xe) target tbl ver state" for state
      using that inc_le [of "ps_snapshot_id state" INT64_MAX] by (simp add: le_INT64_MAX)
  next
    fix state q' l' res reserved
    let ?a = "reserve_args_of (xe_statement xe) (prepared (xe_statement xe) target tbl ver state) state expected"
    assume s: "ps_snapshot_id state < INT64_MAX"
      and r: "ReserveNativeWriterPublication (re_time (xe_reserve xe)) (cx_guc (xe_writer xe)) (re_procs (xe_reserve xe)) (re_gap (xe_reserve xe))
         (re_turns (xe_reserve xe)) (re_read (xe_reserve xe)) ?a (ws_queue w, ws_local w) = Some (q', l', res, reserved)"
      and b: "b = (if reserved then (prepared (xe_statement xe) target tbl ver state)\<lparr>batch_reservation := reservation res,
            batch_snapshot_id := result_snapshot_id res, batch_row_id := result_row_id res\<rparr>
          else (prepared (xe_statement xe) target tbl ver state)\<lparr>batch_reservation := reservation res\<rparr>)"
    have a: "ra_row_count ?a \<le> INT64_MAX" "observed_snapshot_id ?a < INT64_MAX"
      using ex s by (auto simp: reserve_args_of_def Let_def)
    show ?thesis
    proof (cases reserved)
      case True
      obtain q0 r0 where q0: "ws_queue w = Some q0" "q' = Some r0"
        using r True by (auto elim: ReserveNativeWriterPublication_Some)
      have "result_snapshot_id res \<le> INT64_MAX"
      proof (rule reserved_snapshot_fits [OF _ a(1) _ _ a(2)])
        show "queue_inv (QueueCapacity (cx_guc (xe_writer xe))) q0" using st q0 by (simp add: start_ok_def)
      qed (use env r q0 True in \<open>auto simp: exec_env_ok_def\<close>)
      then show ?thesis using b True by (simp add: le_INT64_MAX)
    next
      case False
      then show ?thesis using b s inc_le [of "ps_snapshot_id state" INT64_MAX] by (simp add: le_INT64_MAX)
    qed
  qed
qed

lemma BindNativeInlineWriteRelation_Inr:
  assumes "BindNativeInlineWriteRelation pg18 r b0 = Inr b"
  shows "b = b0\<lparr>inline_table_oid := rel_oid r, row_pointer_tracking_enabled := row_pointer_tracking_enabled b\<rparr>"
  using assms by (auto simp: BindNativeInlineWriteRelation_def split: if_splits)

lemma publish_batch_Inr:
  assumes "publish_batch xe batch w = Some (Inr (w', n))" "rows_inserted batch \<noteq> 0"
  obtains k where "PublishNativeInlineWrite (xe_writer xe) (xe_time xe) (xe_turns xe) (xe_others xe) (xe_attempts xe) batch w =
      Some (w', Inr (PublishedAfter k))" "n = rows_inserted batch"
    "uint (batch_row_id batch) + uint (rows_inserted batch) < 2 ^ 63"
proof -
  obtain r where p: "PublishNativeInlineWrite (xe_writer xe) (xe_time xe) (xe_turns xe) (xe_others xe) (xe_attempts xe) batch w =
      Some (w', Inr r)" "n = rows_inserted batch"
    using assms(1) by (auto simp: publish_batch_def andthen_Inr_iff writer_error_Inr)
  have "r \<noteq> NothingToPublish"
  proof (cases "await_turn (cx_guc (xe_writer xe)) (xe_time xe) (xe_turns xe) (xe_others xe) batch (ws_queue w)")
    case (Some t)
    let ?l = "publish_loop (xe_writer xe) (xe_attempts xe) batch (nat (native_writer_max_retry_count (cx_guc (xe_writer xe)))) 0
      (snd t) (w\<lparr>ws_queue := fst t\<rparr>)"
    show ?thesis using p(1) assms(2) Some
      by (cases ?l; cases "snd ?l") (auto simp: PublishNativeInlineWrite_def split: if_splits sum.splits prod.splits)
  qed (use p(1) assms(2) in \<open>auto simp: PublishNativeInlineWrite_def split: if_splits sum.splits\<close>)
  then obtain k where k: "r = PublishedAfter k" by (cases r) auto
  have "\<not> batch_row_id batch + rows_inserted batch < batch_row_id batch" "\<not> batch_row_id batch + rows_inserted batch > INT64_MAX"
    using p(1) assms(2) by (auto simp: PublishNativeInlineWrite_def split: if_splits)
  from no_wrap_fits [OF this] p k show ?thesis by (intro that) auto
qed

lemma of_nat_u64_eq_0: "n < 2 ^ 63 \<Longrightarrow> (of_nat n :: u64) = 0 \<longleftrightarrow> n = 0"
  using uint_of_nat_small [of n] by (auto simp: word_uint_eq_iff)

lemma run_prewrite_count:
  assumes "fresh_tids (xe_prewrite xe)" "length (db_heap (ws_db w1) rel) + length rows \<le> heap_limit" "run_prewrite xe rel bs cols copy rows cs b w1 = (w2, b2)"
  shows "rows_inserted b2 = of_nat (length rows)" "rows = [] \<Longrightarrow> ws_db w2 = ws_db w1"
proof -
  let ?pw0 = "\<lparr>pw_heap = db_heap (ws_db w1) rel, pw_batch = b, pw_col_stats = cs, pw_counters = ws_stats w1, pw_slots = [],
    pw_row_id = batch_row_id b, pw_rows_inserted = 0\<rparr>"
  have "length (pw_heap ?pw0) + length rows \<le> heap_limit" "pw_slots ?pw0 = []" using assms(2) by simp_all
  from prewrite_rows_inv [OF assms(1) this] obtain tids where
    "prewrite_inv (xe_prewrite xe) cols (batch_snapshot_id b) ?pw0 rows (length rows) tids
       (prewrite_rows (xe_prewrite xe) bs cols (batch_snapshot_id b) copy rows ?pw0)" by blast
  then show "rows_inserted b2 = of_nat (length rows)" "rows = [] \<Longrightarrow> ws_db w2 = ws_db w1"
    using assms(3) by (auto simp: run_prewrite_def Let_def prewrite_inv_def)
qed

text \<open>Prepare, bind, write and publish, as every producer composes them.\<close>

lemma produced_published:
  assumes env: "exec_env_ok xe" and st: "start_ok xe m w"
    and prep: "prepare_batch xe target tbl ver expected w = Some (Inr (w1, b0))"
      "expected = NATIVE_WRITER_UNKNOWN_ROW_COUNT \<or> expected \<le> INT64_MAX"
    and bind: "BindNativeInlineWriteRelation pg18 (cx_relation (xe_writer xe) rel) b0 = Inr b"
    and run: "run_prewrite xe rel bs cols copy rows cs b w1 = (w2, b2)"
    and pub: "publish_batch xe b2 w2 = Some (Inr (w3, n))"
    and rows: "rows \<noteq> []" "length rows \<le> m"
  shows "n = of_nat (length rows) \<and> table_id b2 = tbl \<and> schema_version b2 = ver \<and> inline_table_oid b2 = rel \<and>
    rows_inserted b2 = of_nat (length rows) \<and> rows_published xe b2 cols rows (ws_db w3)"
proof -
  note P = prepare_batch_facts [OF prep(1) env st prep(2)]
  have rel: "rel_oid (cx_relation (xe_writer xe) rel) = rel" and f: "fresh_tids (xe_prewrite xe)"
    using env by (simp_all add: exec_env_ok_def)
  have B: "row_pointers b = []" "inline_table_oid b = rel" "table_id b = tbl" "schema_version b = ver"
    "batch_owner_xid b = pe_xid (xe_prewrite xe)" "batch_owner_command_id b = pe_cid (xe_prewrite xe)" "uint (batch_snapshot_id b) < 2 ^ 63"
    by (subst BindNativeInlineWriteRelation_Inr [OF bind], use P rel env in \<open>simp add: exec_env_ok_def\<close>)+
  define pw0 where "pw0 = \<lparr>pw_heap = db_heap (ws_db w1) rel, pw_batch = b, pw_col_stats = cs, pw_counters = ws_stats w1, pw_slots = [],
    pw_row_id = batch_row_id b, pw_rows_inserted = 0\<rparr>"
  define pw where "pw = prewrite_rows (xe_prewrite xe) bs cols (batch_snapshot_id b) copy rows pw0"
  have p0: "pw_batch pw0 = b" "pw_heap pw0 = db_heap (ws_db w) rel" "pw_slots pw0 = []" "pw_row_id pw0 = batch_row_id b" "pw_rows_inserted pw0 = 0"
    using P(1) by (simp_all add: pw0_def)
  have "length (pw_heap pw0) + m \<le> heap_limit" using st p0(2) by (simp add: start_ok_def)
  then have lim: "length (pw_heap pw0) + length rows \<le> heap_limit" using rows(2) by simp
  then have small: "length rows < 2 ^ 63" by (intro below_limit) simp
  from prewrite_rows_inv [OF f lim p0(3)] obtain tids where
    i: "prewrite_inv (xe_prewrite xe) cols (batch_snapshot_id (pw_batch pw0)) pw0 rows (length rows) tids pw"
    unfolding pw_def p0(1) by blast
  have w2: "ws_db w2 = (ws_db w)\<lparr>db_heap := (db_heap (ws_db w))(rel := pw_heap pw)\<rparr>"
    and b2: "b2 = (pw_batch pw)\<lparr>rows_inserted := pw_rows_inserted pw, column_stats := FinalizeInlineColStats (pe_types (xe_prewrite xe)) (pw_col_stats pw)\<rparr>"
    using run P(1) by (auto simp: run_prewrite_def Let_def pw_def pw0_def)
  have same: "same_batch b (pw_batch pw)" and n: "rows_inserted b2 = of_nat (length rows)"
    using i p0 b2 by (simp_all add: prewrite_inv_def Let_def)
  note S = same_batch_fields [OF same]
  have "rows_inserted b2 \<noteq> 0" using n rows of_nat_u64_eq_0 [OF small] by simp
  with pub obtain k where k: "PublishNativeInlineWrite (xe_writer xe) (xe_time xe) (xe_turns xe) (xe_others xe) (xe_attempts xe) b2 w2 =
      Some (w3, Inr (PublishedAfter k))" "n = rows_inserted b2" and fit: "uint (batch_row_id b2) + uint (rows_inserted b2) < 2 ^ 63"
    by (rule publish_batch_Inr)
  have fit': "uint (batch_row_id (pw_batch pw0)) + int (length rows) < 2 ^ 63"
    using fit n uint_of_nat_small [of "length rows"] small S b2 p0 by simp
  have heap: "first_write (xe_prewrite xe) (pw_heap pw0)" using st p0 by (simp add: start_ok_def)
  note W = prewritten_batch [OF i _ _ _ _ _ heap fit' _ b2, unfolded p0, OF B(1) refl refl B(5,6,7)]
  have h: "db_heap (ws_db w2) (inline_table_oid b2) = pw_heap pw" "db_bigint (ws_db w2)"
    using w2 b2 S B(2) st by (auto simp: start_ok_def db_bigint_def)
  have att: "attempt_follows b2 (xe_attempts xe k)" for k
    using env S b2 B(5,6) by (simp add: exec_env_ok_def)
  have "published_from (xe_writer xe) b2 (filter (own_row b2) (pw_heap pw)) (ws_db w3)"
    using PublishNativeInlineWrite_published [OF k(1) att h(2)] W(1) h(1) by simp
  then have "rows_published xe b2 cols rows (ws_db w3)" by (rule published_from_rows) (use W(3) in auto)
  then show ?thesis using k(2) n S B b2 by simp
qed

text \<open>The columns of a producer as the executor pairs them.\<close>

abbreviation unnest_columns :: "DirectInsertContext \<Rightarrow> producer_column list" where
  "unnest_columns c \<equiv> map2 (\<lambda>e i. (e, needs_text_conv_unnest e i)) (map element_type (param_infos c)) (dx_col_types c)"

lemma word_of_int_le_INT64_MAX: "0 \<le> i \<Longrightarrow> i < 2 ^ 63 \<Longrightarrow> (word_of_int i :: u64) \<le> INT64_MAX"
  unfolding le_INT64_MAX by (simp add: uint_of_bigint bigint_def)

text \<open>The stages of an execution that has rows to write.\<close>

lemma exec_stages:
  assumes run: "DirectInsert_ExecCustomScan xe sc s w = Some (Inr (sc', s', w', Some n))" "\<not> ss_finished sc"
    and bound: "(if ss_mode sc = DIRECT_INSERT_UNNEST
        then (case xe_params xe of None \<Rightarrow> Inl NoBoundParameters | Some ps \<Rightarrow> BindUnnestParameters (xe_catalog xe) ps sc)
        else Inr (sc, [])) = Inr (sc1, arrays)"
    and rows: "\<not> (ss_mode sc = DIRECT_INSERT_UNNEST \<and> ss_expected_row_count sc1 = 0)"
  obtains w1 batch w2 batch2 where
    "prepare_batch xe (ss_target sc1) (ss_table_id sc1) (ss_schema_version sc1)
       (word_of_int (if ss_mode sc = DIRECT_INSERT_UNNEST then ss_expected_row_count sc1 else ss_values_num_rows sc1)) w = Some (Inr (w1, batch))"
    "(if ss_mode sc = DIRECT_INSERT_UNNEST then DirectInsertIntoInlinedTable xe sc1 arrays batch w1
      else DirectInsertValuesIntoInlinedTable xe sc1 batch w1) = Inr (w2, batch2)"
    "publish_batch xe batch2 w2 = Some (Inr (w', n))" "ss_finished sc'" "s' = ResetDirectInsertCaches s"
proof -
  let ?p = "prepare_batch xe (ss_target sc1) (ss_table_id sc1) (ss_schema_version sc1)
       (word_of_int (if ss_mode sc = DIRECT_INSERT_UNNEST then ss_expected_row_count sc1 else ss_values_num_rows sc1)) w"
  note eq = run(1) [unfolded DirectInsert_ExecCustomScan_def Let_def bound, unfolded if_not_P [OF run(2)] sum.case prod.case, unfolded if_not_P [OF rows]]
  obtain w1 batch where p: "?p = Some (Inr (w1, batch))"
    using eq by (cases ?p; cases "the ?p") auto
  let ?i = "if ss_mode sc = DIRECT_INSERT_UNNEST then DirectInsertIntoInlinedTable xe sc1 arrays batch w1
      else DirectInsertValuesIntoInlinedTable xe sc1 batch w1"
  note eq' = eq [unfolded p option.case sum.case prod.case]
  obtain w2 batch2 where i: "?i = Inr (w2, batch2)" using eq' by (cases ?i) auto
  show ?thesis using eq' [unfolded i sum.case prod.case] by (intro that [OF p i]) (auto simp: andthen_Inr_iff)
qed

lemma open_inlined_Inr:
  assumes "open_inlined xe tbl ver batch = Inr (rel, b)"
  shows "rel = cx_inline_oid (xe_writer xe) (uint tbl, uint ver)"
    "BindNativeInlineWriteRelation (cx_pg18 (xe_writer xe)) (cx_relation (xe_writer xe) rel) batch = Inr b"
  using assms by (auto simp: open_inlined_def Let_def andthen_Inr_iff writer_error_Inr split: if_splits)

lemma unnest_insert:
  assumes env: "exec_env_ok xe" and st: "start_ok xe (2 ^ 31) w"
    and plan: "DirectInsert_CreateCustomScanState (custom_private (CreateDirectInsertPlan parse c)) = Some sc"
    and ps: "xe_params xe = Some ps" "\<forall>p \<in> set ps. length (arr_elements p) < 2 ^ 31"
    and run: "DirectInsert_ExecCustomScan xe sc s w = Some (Inr (sc', s', w', Some n))"
  shows "\<exists>arrays rows. bind_all (bind_parameter (xe_catalog xe) ps) (map (\<lambda>p. (param_id p, element_type p)) (param_infos c)) = Inr arrays \<and>
    rows = unnest_source arrays \<and> n = of_nat (length rows) \<and> ss_finished sc' \<and> s' = ResetDirectInsertCaches s \<and>
    (if rows = [] then w' = w
     else \<exists>batch. table_id batch = dx_table_id c \<and> schema_version batch = dx_schema_version c \<and>
       rows_inserted batch = of_nat (length rows) \<and> rows_published xe batch (unnest_columns c) rows (ws_db w'))"
proof -
  have sc: "sc = empty_scan_state\<lparr>ss_mode := DIRECT_INSERT_UNNEST, ss_target := dx_target c, ss_table_id := dx_table_id c,
       ss_schema_version := dx_schema_version c, ss_expected_row_count := - 1, ss_param_ids := map param_id (param_infos c),
       ss_element_types := map element_type (param_infos c), ss_column_names := dx_col_names c, ss_column_types := dx_col_types c\<rparr>"
    using plan unnest_plan_decodes [of parse c] by simp
  have zip: "zip (ss_param_ids sc) (ss_element_types sc) = map (\<lambda>p. (param_id p, element_type p)) (param_infos c)"
    unfolding sc by (simp add: zip_map1 zip_map2 zip_same_conv_map)
  have f: "ss_mode sc = DIRECT_INSERT_UNNEST" "\<not> ss_finished sc" unfolding sc by (simp_all add: empty_scan_state_def)
  obtain arrays where arrays: "bind_all (bind_parameter (xe_catalog xe) ps) (zip (ss_param_ids sc) (ss_element_types sc)) = Inr arrays"
    using run f ps(1)
    by (cases "bind_all (bind_parameter (xe_catalog xe) ps) (zip (ss_param_ids sc) (ss_element_types sc))")
      (simp_all add: DirectInsert_ExecCustomScan_def BindUnnestParameters_def)
  let ?rows = "unnest_source arrays"
  have len: "length ?rows < 2 ^ 31" using unnest_source_length [OF arrays ps(2)] by simp
  define sc1 where "sc1 = sc\<lparr>ss_expected_row_count := int (length ?rows)\<rparr>"
  have bound: "BindUnnestParameters (xe_catalog xe) ps sc = Inr (sc1, arrays)"
    using expected_rows [of arrays 0] by (simp add: BindUnnestParameters_def arrays sc1_def unnest_source_def Let_def)
  show ?thesis
  proof (cases "?rows = []")
    case True
    then have "n = 0 \<and> ss_finished sc' \<and> s' = ResetDirectInsertCaches s \<and> w' = w"
      using run f ps(1) by (auto simp: DirectInsert_ExecCustomScan_def Let_def bound sc1_def)
    then show ?thesis using True arrays zip by auto
  next
    case False
    have m: "ss_mode sc = DIRECT_INSERT_UNNEST" "xe_params xe = Some ps" "ss_expected_row_count sc1 = int (length ?rows)"
      "ss_table_id sc1 = dx_table_id c" "ss_schema_version sc1 = dx_schema_version c" "ss_element_types sc1 = map element_type (param_infos c)"
      "ss_column_types sc1 = dx_col_types c"
      using ps(1) by (simp_all add: sc1_def sc)
    obtain w1 batch w2 b2 where
      p: "prepare_batch xe (ss_target sc1) (dx_table_id c) (dx_schema_version c) (word_of_int (int (length ?rows))) w = Some (Inr (w1, batch))"
      and i: "DirectInsertIntoInlinedTable xe sc1 arrays batch w1 = Inr (w2, b2)"
      and pub: "publish_batch xe b2 w2 = Some (Inr (w', n))" "ss_finished sc'" "s' = ResetDirectInsertCaches s"
      by (rule exec_stages [OF run f(2), of sc1 arrays]) (use m bound False in simp_all)
    obtain rel b cs bs where bind: "BindNativeInlineWriteRelation (cx_pg18 (xe_writer xe)) (cx_relation (xe_writer xe) rel) batch = Inr b"
      and rp: "run_prewrite xe rel bs (unnest_columns c) False ?rows cs b w1 = (w2, b2)"
      using i unnest_rows_source [of arrays]
      by (auto simp: DirectInsertIntoInlinedTable_def Let_def andthen_Inr_iff m array_elements_def [abs_def] split: if_splits dest: open_inlined_Inr)
    have ex: "(word_of_int (int (length ?rows)) :: u64) \<le> INT64_MAX" using len by (intro word_of_int_le_INT64_MAX) simp_all
    have "n = of_nat (length ?rows) \<and> table_id b2 = dx_table_id c \<and> schema_version b2 = dx_schema_version c \<and> inline_table_oid b2 = rel \<and>
      rows_inserted b2 = of_nat (length ?rows) \<and> rows_published xe b2 (unnest_columns c) ?rows (ws_db w')"
      by (rule produced_published [OF env st p _ bind rp pub(1) False]) (use ex len in auto)
    then show ?thesis using False arrays zip pub(2,3) by auto
  qed
qed


text \<open>The cells of a matched \<^verbatim>\<open>VALUES\<close>, evaluated row by row.\<close>

lemma values_rows_concat:
  "\<forall>cs \<in> set cells. length cs = ncols \<Longrightarrow> values_rows xe (length cells) ncols (concat cells) = map (map (xe_eval xe)) cells"
  by (induction cells) auto

abbreviation values_columns :: "ValuesInsertContext \<Rightarrow> producer_column list" where
  "values_columns c \<equiv> map2 (\<lambda>e i. (e, needs_text_conv e i)) (vx_src_types c) (vx_col_types c)"

lemma values_insert:
  assumes env: "exec_env_ok xe" and st: "start_ok xe (2 ^ 31) w"
    and match: "TryMatchValues dc parse precond s0 = (s1, Inr c)" "vx_num_rows c < 2 ^ 31"
    and plan: "DirectInsert_CreateCustomScanState (custom_private (CreateValuesInsertPlan parse c)) = Some sc"
    and run: "DirectInsert_ExecCustomScan xe sc s w = Some (Inr (sc', s', w', Some n))"
  shows "\<exists>cells batch. vx_exprs c = concat cells \<and> length cells = vx_num_rows c \<and> (\<forall>cs \<in> set cells. length cs = vx_num_cols c) \<and>
    n = of_nat (vx_num_rows c) \<and> ss_finished sc' \<and> s' = ResetDirectInsertCaches s \<and>
    table_id batch = vx_table_id c \<and> schema_version batch = vx_schema_version c \<and> rows_inserted batch = of_nat (vx_num_rows c) \<and>
    rows_published xe batch (values_columns c) (map (map (xe_eval xe)) cells) (ws_db w')"
proof -
  obtain rows srcs cells where M: "vx_num_rows c = length rows" "rows \<noteq> []" "vx_exprs c = concat cells"
    "map (resolve_row (dc_catalog dc) (tupdesc (ip_target_rel precond)) srcs) rows = map Some cells"
    "\<forall>cs \<in> set cells. length cs = vx_num_cols c"
    using match(1) by (rule TryMatchValues_Inr)
  have len: "length cells = vx_num_rows c" "cells \<noteq> []" using M(1,2) map_eq_imp_length_eq [OF M(4)] by auto
  note sc = values_plan_decodes [OF match(1), unfolded plan option.inject]
  have m: "ss_mode sc \<noteq> DIRECT_INSERT_UNNEST" "\<not> ss_finished sc" "ss_values_num_rows sc = int (vx_num_rows c)"
    "ss_values_num_cols sc = int (vx_num_cols c)" "ss_table_id sc = vx_table_id c" "ss_schema_version sc = vx_schema_version c"
    "ss_values_src_types sc = vx_src_types c" "ss_column_types sc = vx_col_types c" "ss_values_exprs sc = vx_exprs c"
    unfolding sc by (simp_all add: empty_scan_state_def DIRECT_INSERT_VALUES_def DIRECT_INSERT_UNNEST_def)
  obtain w1 batch w2 b2 where
    p: "prepare_batch xe (ss_target sc) (vx_table_id c) (vx_schema_version c) (word_of_int (int (vx_num_rows c))) w = Some (Inr (w1, batch))"
    and i: "DirectInsertValuesIntoInlinedTable xe sc batch w1 = Inr (w2, b2)"
    and pub: "publish_batch xe b2 w2 = Some (Inr (w', n))" "ss_finished sc'" "s' = ResetDirectInsertCaches s"
    by (rule exec_stages [OF run m(2), of sc "[]"]) (use m in simp_all)
  let ?rows = "map (map (xe_eval xe)) cells"
  have vr: "values_rows xe (vx_num_rows c) (vx_num_cols c) (vx_exprs c) = ?rows"
    using values_rows_concat [OF M(5), of xe] len(1) M(3) by simp
  obtain rel b cs bs where bind: "BindNativeInlineWriteRelation (cx_pg18 (xe_writer xe)) (cx_relation (xe_writer xe) rel) batch = Inr b"
    and rp: "run_prewrite xe rel bs (values_columns c) False ?rows cs b w1 = (w2, b2)"
    using i by (auto simp: DirectInsertValuesIntoInlinedTable_def Let_def andthen_Inr_iff m vr dest: open_inlined_Inr)
  have ex: "(word_of_int (int (vx_num_rows c)) :: u64) \<le> INT64_MAX" using match(2) by (intro word_of_int_le_INT64_MAX) simp_all
  have "n = of_nat (length ?rows) \<and> table_id b2 = vx_table_id c \<and> schema_version b2 = vx_schema_version c \<and> inline_table_oid b2 = rel \<and>
    rows_inserted b2 = of_nat (length ?rows) \<and> rows_published xe b2 (values_columns c) ?rows (ws_db w')"
    by (rule produced_published [OF env st p _ bind rp pub(1)]) (use ex len match(2) in auto)
  then show ?thesis using M(3,5) len(1) pub(2,3) by auto
qed

lemma exec_result_Inr: "exec_result r = Inr x \<longleftrightarrow> r = Inr x"
  by (cases r) (simp_all add: exec_result_def)

lemma copy_stages:
  assumes "DucklakeCopyFromStdin xe ic cs desc user_relid stmt stream w = Some (Inr (w', n))"
  obtains tbl ver col_stats w1 batch0 batch w2 batch2 where
    "CheckNativeCopySemantics (xe_catalog xe) cs (pc_relation (xe_catalog xe) user_relid) stmt = Inr ()"
    "GetTableInliningInfo ic user_relid = Some (tbl, ver)"
    "prepare_batch xe user_relid tbl ver NATIVE_WRITER_UNKNOWN_ROW_COUNT w = Some (Inr (w1, batch0))"
    "BindNativeInlineWriteRelation (cx_pg18 (xe_writer xe)) (cx_relation (xe_writer xe) (cx_inline_oid (xe_writer xe) (uint tbl, uint ver))) batch0 = Inr batch"
    "run_prewrite xe (cx_inline_oid (xe_writer xe) (uint tbl, uint ver)) MAX_BUFFERED_TUPLES
       (BuildColumnConvInfo (tupdesc (pc_relation (xe_catalog xe) user_relid)) (desc (cx_inline_oid (xe_writer xe) (uint tbl, uint ver)))) True
       (map (live_cells (tupdesc (pc_relation (xe_catalog xe) user_relid))) stream) col_stats batch w1 = (w2, batch2)"
    "if rows_inserted batch2 > 0 then publish_batch xe batch2 w2 = Some (Inr (w', n)) else w' = w2 \<and> n = 0"
proof -
  let ?pc = "xe_catalog xe" and ?rel = "pc_relation (xe_catalog xe) user_relid"
  let ?live = "filter (\<lambda>a. \<not> attisdropped a) (tupdesc ?rel)"
  let ?chk = "andthen (guard_or CopyReadOnly (\<not> (cs_read_only cs \<and> \<not> cs_local_temp cs))) (\<lambda>_.
              andthen (CheckNativeCopySemantics ?pc cs ?rel stmt) (\<lambda>_.
                case GetTableInliningInfo ic user_relid of
                  None \<Rightarrow> Inl CopyNeedsInlinedTable
                | Some (tbl, ver) \<Rightarrow>
                    andthen (exec_result (OpenInlinedDataTable xe tbl ver)) (\<lambda>inl.
                    andthen (exec_result (guard_or (ColumnCountMismatch (length ?live + INLINED_SYSTEM_COLS) (length (desc inl)))
                               (length (desc inl) = length ?live + INLINED_SYSTEM_COLS))) (\<lambda>_.
                    andthen (exec_result (open_col_stats xe tbl (map atttypid ?live) (ws_db w))) (\<lambda>col_stats.
                      Inr (tbl, ver, inl, col_stats))))))"
  note eq = assms [unfolded DucklakeCopyFromStdin_def Let_def]
  obtain tbl ver inl col_stats where chk: "?chk = Inr (tbl, ver, inl, col_stats)" using eq by (cases ?chk) auto
  have c: "CheckNativeCopySemantics ?pc cs ?rel stmt = Inr ()" "GetTableInliningInfo ic user_relid = Some (tbl, ver)"
    "inl = cx_inline_oid (xe_writer xe) (uint tbl, uint ver)"
    using chk by (auto simp: andthen_Inr_iff exec_result_Inr OpenInlinedDataTable_def Let_def split: option.splits if_splits)
  note eq1 = eq [unfolded chk sum.case prod.case]
  let ?p = "prepare_batch xe user_relid tbl ver NATIVE_WRITER_UNKNOWN_ROW_COUNT w"
  obtain w1 batch0 where p: "?p = Some (Inr (w1, batch0))" using eq1 by (cases ?p; cases "the ?p") auto
  note eq2 = eq1 [unfolded p option.case sum.case prod.case]
  let ?b = "BindNativeInlineWriteRelation (cx_pg18 (xe_writer xe)) (cx_relation (xe_writer xe) inl) batch0"
  obtain batch where b: "?b = Inr batch" using eq2 by (cases ?b) auto
  let ?r = "run_prewrite xe inl MAX_BUFFERED_TUPLES (BuildColumnConvInfo (tupdesc ?rel) (desc inl)) True
       (map (live_cells (tupdesc ?rel)) stream) col_stats batch w1"
  obtain w2 batch2 where r: "?r = (w2, batch2)" by (cases ?r)
  have "if rows_inserted batch2 > 0 then publish_batch xe batch2 w2 = Some (Inr (w', n)) else w' = w2 \<and> n = 0"
    using eq2 [unfolded b sum.case r prod.case] by (auto simp: exec_result_Inr split: if_splits)
  then show ?thesis using c p b r by (intro that) auto
qed

lemma copy_insert:
  assumes env: "exec_env_ok xe" and st: "start_ok xe (length stream) w"
    and run: "DucklakeCopyFromStdin xe ic cs desc user_relid stmt stream w = Some (Inr (w', n))"
  shows "n = of_nat (length stream) \<and> (if stream = [] then ws_db w' = ws_db w
    else \<exists>tbl ver batch. GetTableInliningInfo ic user_relid = Some (tbl, ver) \<and> table_id batch = tbl \<and> schema_version batch = ver \<and>
      inline_table_oid batch = cx_inline_oid (xe_writer xe) (uint tbl, uint ver) \<and> rows_inserted batch = of_nat (length stream) \<and>
      rows_published xe batch (BuildColumnConvInfo (tupdesc (pc_relation (xe_catalog xe) user_relid)) (desc (inline_table_oid batch)))
        (map (live_cells (tupdesc (pc_relation (xe_catalog xe) user_relid))) stream) (ws_db w'))"
proof -
  let ?rows = "map (live_cells (tupdesc (pc_relation (xe_catalog xe) user_relid))) stream"
  obtain tbl ver col_stats w1 batch0 batch w2 b2 where
    i: "GetTableInliningInfo ic user_relid = Some (tbl, ver)"
    and p: "prepare_batch xe user_relid tbl ver NATIVE_WRITER_UNKNOWN_ROW_COUNT w = Some (Inr (w1, batch0))"
    and b: "BindNativeInlineWriteRelation (cx_pg18 (xe_writer xe)) (cx_relation (xe_writer xe) (cx_inline_oid (xe_writer xe) (uint tbl, uint ver))) batch0 = Inr batch"
    and r: "run_prewrite xe (cx_inline_oid (xe_writer xe) (uint tbl, uint ver)) MAX_BUFFERED_TUPLES
       (BuildColumnConvInfo (tupdesc (pc_relation (xe_catalog xe) user_relid)) (desc (cx_inline_oid (xe_writer xe) (uint tbl, uint ver)))) True
       ?rows col_stats batch w1 = (w2, b2)"
    and pub: "if rows_inserted b2 > 0 then publish_batch xe b2 w2 = Some (Inr (w', n)) else w' = w2 \<and> n = 0"
    using run by (rule copy_stages)
  note P = prepare_batch_facts [OF p env st]
  have f: "fresh_tids (xe_prewrite xe)" using env by (simp add: exec_env_ok_def)
  have len: "length (db_heap (ws_db w1) rel) + length ?rows \<le> heap_limit" for rel using st P(1) by (simp add: start_ok_def)
  have n: "length stream < 2 ^ 63" using len [of 0] by (intro below_limit) simp
  note c = run_prewrite_count [OF f len r]
  show ?thesis
  proof (cases "stream = []")
    case True
    then show ?thesis using c pub P(1) by simp
  next
    case False
    then have "rows_inserted b2 \<noteq> 0" using c(1) of_nat_u64_eq_0 [OF n] by simp
    then have pb: "publish_batch xe b2 w2 = Some (Inr (w', n))" using pub by (simp add: word_neq_0_conv)
    from produced_published [OF env st p _ b r pb] False i show ?thesis by auto
  qed
qed

end
