(* ===== verification/Insert_End_To_End.thy ===== *)
theory Insert_End_To_End
  imports Direct_Insert_Props
begin

text \<open>
  Direct inserts and \<^verbatim>\<open>COPY\<close> from end to end, on the model of the planner, the executor and the writer
  together, with a concrete table of two \<^verbatim>\<open>VARCHAR\<close> columns that all of them run on.
\<close>

section \<open>A heap with room\<close>

text \<open>An allocator of tuple addresses: the first ones that are not in use.\<close>

definition tid_no :: "nat \<Rightarrow> tid" where
  "tid_no k = (of_nat (k div 256), of_nat (k mod 256) + 1)"

definition free_tids :: "'p heap_row list \<Rightarrow> nat \<Rightarrow> tid list" where
  "free_tids heap n = take n (filter (\<lambda>t. t \<notin> h_tid ` set heap) (map tid_no [0..<length heap + n]))"

lemma of_nat_word_inj:
  assumes "(of_nat x :: 'a :: len word) = of_nat y" "x < 2 ^ LENGTH('a)" "y < 2 ^ LENGTH('a)"
  shows "x = y"
  using assms by (simp add: word_of_nat_eq_iff take_bit_nat_eq_self)

lemma tid_no_inj: "inj_on tid_no {..<2 ^ 40}"
proof (rule inj_onI)
  fix a b assume ab: "a \<in> {..<2 ^ 40 :: nat}" "b \<in> {..<2 ^ 40 :: nat}" "tid_no a = tid_no b"
  have d: "k div 256 < 2 ^ 32" if "k < 2 ^ 40" for k :: nat using that by (simp add: less_mult_imp_div_less)
  have w: "(of_nat (a div 256) :: u32) = of_nat (b div 256)" "(of_nat (a mod 256) :: u16) = of_nat (b mod 256)"
    using ab(3) by (simp_all add: tid_no_def)
  have "a div 256 = b div 256" using ab(1,2) d by (intro of_nat_word_inj [OF w(1)]) simp_all
  moreover have "k mod 256 < 2 ^ 16" for k :: nat by (rule less_trans [OF mod_less_divisor]) simp_all
  then have "a mod 256 = b mod 256" by (intro of_nat_word_inj [OF w(2)]) simp_all
  ultimately show "a = b" by (metis div_mult_mod_eq)
qed

lemma length_filter_notin:
  assumes "distinct xs" "finite S"
  shows "length xs \<le> length (filter (\<lambda>x. x \<notin> S) xs) + card S"
proof -
  have "length (filter (\<lambda>x. x \<in> S) xs) = card (set (filter (\<lambda>x. x \<in> S) xs))"
    using assms(1) by (intro distinct_card [symmetric]) simp
  also have "\<dots> \<le> card S" using assms(2) by (intro card_mono) auto
  finally show ?thesis using sum_length_filter_compl [of "\<lambda>x. x \<in> S" xs] by simp
qed

lemma free_tids_fresh:
  assumes "length heap + n \<le> heap_limit"
  shows "length (free_tids heap n) = n \<and> distinct (free_tids heap n) \<and> set (free_tids heap n) \<inter> h_tid ` set heap = {}"
proof -
  let ?ts = "map tid_no [0..<length heap + n]" and ?S = "h_tid ` set heap"
  have "{0..<length heap + n} \<subseteq> {..<2 ^ 40}"
    using assms unfolding heap_limit_def by (auto intro: less_le_trans)
  from inj_on_subset [OF tid_no_inj this] have d: "distinct ?ts" by (simp add: distinct_map)
  have "card ?S \<le> length heap" by (metis card_image_le card_length finite_set le_trans)
  then have "n \<le> length (filter (\<lambda>t. t \<notin> ?S) ?ts)" using length_filter_notin [OF d, of ?S] by simp
  then show ?thesis using d by (auto simp: free_tids_def simp del: filter_map dest: in_set_takeD)
qed

section \<open>A concrete table\<close>

text \<open>Table 1, with the columns \<^verbatim>\<open>a\<close> and \<^verbatim>\<open>b\<close>, at snapshot 7 with the next row id 103.\<close>

definition shop_db :: "string stored list lake_db" where
  "shop_db = \<lparr>db_metadata = [(''version'', Some ''1.0'')],
     db_snapshots = [\<lparr>sr_id = 7, sr_schema_version = Some 0, sr_next_catalog_id = Some 2, sr_next_file_id = Some 4\<rparr>],
     db_changes = [], db_tables = [\<lparr>tr_table = 1, tr_end = None\<rparr>], db_inlined = [\<lparr>ir_table = 1, ir_schema = Some 0\<rparr>],
     db_stats = [\<lparr>st_table = 1, st_record_count = Some 3, st_next_row_id = Some 103, st_file_size = 0\<rparr>],
     db_columns = [\<lparr>co_table = 1, co_column = Some 1, co_end = None, co_type = Some ''varchar'', co_parent = None, co_order = Some 1\<rparr>,
       \<lparr>co_table = 1, co_column = Some 2, co_end = None, co_type = Some ''varchar'', co_parent = None, co_order = Some 2\<rparr>],
     db_colstats = [varchar_row, varchar_row\<lparr>cs_column := Some 2\<rparr>], db_heap = (\<lambda>_. [])\<rparr>"

definition shop_attribute :: "string \<Rightarrow> pg_attribute" where
  "shop_attribute n = \<lparr>attname = n, atttypid = TEXTOID, attisdropped = False, attgenerated_set = False, attidentity_set = False\<rparr>"

definition shop_relation :: target_relation where
  "shop_relation = \<lparr>relam = 77, relkind_relation = True, has_trigdesc = False, has_rd_rules = False, has_relrowsecurity = False,
     has_not_null = False, num_check = 0, constr_generated_stored = False, constr_generated_virtual = False,
     tupdesc = [shop_attribute ''a'', shop_attribute ''b'']\<rparr>"

text \<open>\<^verbatim>\<open>text[]\<close> is type 1009.\<close>

definition shop_catalog :: pg_catalog where
  "shop_catalog = \<lparr>pc_pg18 = True, pc_ducklake_am = 77, pc_relation = (\<lambda>_. shop_relation),
     pc_element_type = (\<lambda>t. if t = 1009 then TEXTOID else 0), pc_exprType = (\<lambda>_. 1009), pc_volatile = (\<lambda>_. False),
     pc_eval_const = id, pc_permitted = (\<lambda>_. True)\<rparr>"

definition shop_writer :: "(unit, string stored list) writer_context" where
  "shop_writer = \<lparr>cx_inline_oid = (\<lambda>_. 500), cx_relation = (\<lambda>r. demo_relation\<lparr>rel_oid := r\<rparr>), cx_pg18 = True,
     cx_parse = (\<lambda>_. Inr \<lparr>dropped_tables = {}, altered_tables = {}, tables_deleted_from = {}, tables_deleted_inlined = {}\<rparr>),
     cx_api = varchar_api, cx_memory = \<lparr>malloc_ok = (\<lambda>_. True), context_alloc_ok = (\<lambda>_. True)\<rparr>,
     cx_stamp = \<lparr>stamp_tid = h_tid, stamp_xmin = 91, stamp_cmin = 1\<rparr>, cx_guc = guc_boot\<rparr>"

definition shop_arrays :: "string ext_param list" where
  "shop_arrays = [\<lparr>ptype = 1009, isnull = False, arr_elemtype = TEXTOID, arr_elements = [CDatum ''k'', CDatum ''a'']\<rparr>,
     \<lparr>ptype = 1009, isnull = False, arr_elemtype = TEXTOID, arr_elements = [CDatum ''x'']\<rparr>]"

fun const_cell :: "expr \<Rightarrow> string cell" where
  "const_cell (Const _ (Some v)) = CDatum v"
| "const_cell _ = CNull"

definition shop_xe :: "(unit, string) exec_env" where
  "shop_xe = \<lparr>xe_catalog = shop_catalog, xe_writer = shop_writer,
     xe_statement = \<lparr>sc_transaction_block = False, sc_xact_snapshot = False, sc_nest_level = 1, sc_xid = 90, sc_command_id = 0,
       sc_catalog = demo_catalog, sc_owner = ra_owner demo_args\<rparr>,
     xe_reserve = \<lparr>re_time = demo_time, re_procs = [], re_gap = id, re_turns = [], re_read = id\<rparr>,
     xe_types = varchar_types, xe_prewrite = \<lparr>pe_types = varchar_pg, pe_tids = free_tids, pe_xid = 90, pe_cid = 0\<rparr>,
     xe_natts = (\<lambda>_. 5), xe_params = Some shop_arrays, xe_eval = const_cell, xe_time = demo_clock, xe_turns = [], xe_others = id,
     xe_attempts = (\<lambda>_. quiet_env)\<rparr>"

definition shop_state :: "string stored list writer_state" where
  "shop_state = \<lparr>ws_db = shop_db, ws_stats = Some (\<lambda>_. 0), ws_queue = None, ws_local = no_local\<rparr>"

definition shop_session :: di_session where
  "shop_session = \<lparr>inlining_info_cache = Map.empty, inlined_col_types_cache = Map.empty, di_counters = Some ShmemStartup\<rparr>"

lemma quiet_follows: "attempt_follows batch quiet_env"
  by (simp add: attempt_follows_def env_follows_id)

lemma shop_env_ok: "exec_env_ok shop_xe"
  by (simp add: exec_env_ok_def shop_xe_def shop_writer_def fresh_tids_def free_tids_fresh quiet_follows)

lemma shop_start_ok: "n \<le> heap_limit \<Longrightarrow> start_ok shop_xe n shop_state"
  by (simp add: start_ok_def shop_state_def shop_db_def first_write_def db_bigint_def bigint_def)

definition shop_context :: DirectInsertContext where
  "shop_context = \<lparr>dx_target = 300, dx_table_id = 1, dx_schema_version = 0,
     param_infos = [\<lparr>param_id = 1, param_type = 1009, element_type = TEXTOID\<rparr>, \<lparr>param_id = 2, param_type = 1009, element_type = TEXTOID\<rparr>],
     dx_col_names = [''a'', ''b''], dx_col_types = [BYTEAOID, BYTEAOID]\<rparr>"

definition shop_query :: query where
  "shop_query = Query \<lparr>commandType = CMD_INSERT, resultRelation = 1, utilityStmt = False, hasAggs = False, hasWindowFuncs = False,
     hasTargetSRFs = False, hasSubLinks = False, hasDistinctOn = False, hasRecursive = False, hasModifyingCTE = False,
     hasForUpdate = False, hasRowSecurity = False, isReturn = False, override_set = False, onConflict = False, returningList = False,
     groupClause = False, groupDistinct = False, groupingSets = False, havingQual = False, windowClause = False,
     distinctClause = False, sortClause = False, limitOffset = False, limitCount = False, rowMarks = False, setOperations = False,
     withCheckOptions = False\<rparr> []
     [RangeTblEntry \<lparr>rtekind = RTE_RELATION, relid = 300, inh = False\<rparr> [] [] None,
      RangeTblEntry \<lparr>rtekind = RTE_VALUES, relid = 0, inh = False\<rparr> [[Const TEXTOID (Some ''k''), Const TEXTOID (Some ''x'')], [Const TEXTOID (Some ''a''), Const TEXTOID None]] [] None]
     (Some (FromExpr [RangeTblRef 2] None))
     [TargetEntry (Var 2 1) 1 False, TargetEntry (Var 2 2) 2 False] []"

definition shop_scan :: DirectInsertScanState where
  "shop_scan = the (DirectInsert_CreateCustomScanState (custom_private (CreateDirectInsertPlan shop_query shop_context)))"

definition exec_count :: "(exec_error + DirectInsertScanState \<times> di_session \<times> 'p writer_state \<times> u64 option) option \<Rightarrow> u64 option" where
  "exec_count r = (case r of Some (Inr (_, _, _, n)) \<Rightarrow> n | _ \<Rightarrow> None)"

lemma shop_count: "exec_count (DirectInsert_ExecCustomScan shop_xe shop_scan shop_session shop_state) = Some 2"
  by code_simp

lemma shop_scan: "DirectInsert_CreateCustomScanState (custom_private (CreateDirectInsertPlan shop_query shop_context)) = Some shop_scan"
  by (simp add: shop_scan_def unnest_plan_decodes)

lemma exec_count_Some:
  assumes "exec_count r = Some n"
  obtains sc s w where "r = Some (Inr (sc, s, w, Some n))"
  using assms that by (auto simp: exec_count_def split: option.splits sum.splits prod.splits)

section \<open>Direct insert\<close>




definition shop_inlining :: inlining_catalog where
  "shop_inlining = \<lparr>ic_names = (\<lambda>_. Some (''shop'', ''public'')),
     ic_tables = [\<lparr>lt_table_id = Some 1, lt_schema_id = 0, lt_table_name = ''shop'', lt_end = None\<rparr>],
     ic_schemas = [\<lparr>ls_schema_id = 0, ls_schema_name = ''public'', ls_end = None\<rparr>],
     ic_inlined = [\<lparr>ir_table = 1, ir_schema = Some 0\<rparr>], ic_row_limit = Some 10\<rparr>"

definition shop_planner :: di_context where
  "shop_planner = \<lparr>dc_catalog = shop_catalog, dc_inlining = shop_inlining, dc_columns = Some (db_columns shop_db),
     dc_transaction_block = False, dc_xact_snapshot = False, dc_enabled = True\<rparr>"

definition shop_precond :: InsertPreconditionResult where
  "shop_precond = \<lparr>ip_target_oid = 300, ip_table_id = 1, ip_schema_version = 0, ip_row_limit = 10, ip_target_rel = shop_relation\<rparr>"

definition shop_values :: ValuesInsertContext where
  "shop_values = \<lparr>vx_target = 300, vx_table_id = 1, vx_schema_version = 0, vx_num_rows = 2, vx_num_cols = 2,
     vx_col_names = [''a'', ''b''], vx_col_types = [BYTEAOID, BYTEAOID], vx_src_types = [TEXTOID, TEXTOID],
     vx_exprs = [Const TEXTOID (Some ''k''), Const TEXTOID (Some ''x''), Const TEXTOID (Some ''a''), Const TEXTOID None]\<rparr>"

lemma shop_values_match: "snd (TryMatchValues shop_planner shop_query shop_precond shop_session) = Inr shop_values"
  by code_simp

definition shop_values_scan :: DirectInsertScanState where
  "shop_values_scan = the (DirectInsert_CreateCustomScanState (custom_private (CreateValuesInsertPlan shop_query shop_values)))"

lemma shop_match: "TryMatchValues shop_planner shop_query shop_precond shop_session =
    (fst (TryMatchValues shop_planner shop_query shop_precond shop_session), Inr shop_values)"
  using shop_values_match by (simp add: prod_eq_iff)

lemma shop_values_scan: "DirectInsert_CreateCustomScanState (custom_private (CreateValuesInsertPlan shop_query shop_values)) = Some shop_values_scan"
  using values_plan_decodes [OF shop_match] by (simp add: shop_values_scan_def)

lemma shop_values_count: "exec_count (DirectInsert_ExecCustomScan shop_xe shop_values_scan shop_session shop_state) = Some 2"
  by code_simp

lemma shop_cells:
  assumes "vx_exprs shop_values = concat cells" "length cells = 2" "\<forall>cs \<in> set cells. length cs = 2"
  shows "map (map (xe_eval shop_xe)) cells = [[CDatum ''k'', CDatum ''x''], [CDatum ''a'', CNull]]"
  using assms
  by (auto simp: shop_values_def shop_xe_def numeral_2_eq_2 length_Suc_conv)


theorem values_plan_roundtrip_witness:
  "map_option ss_values_exprs (DirectInsert_CreateCustomScanState (custom_private (CreateValuesInsertPlan shop_query shop_values))) =
     Some [Const TEXTOID (Some ''k''), Const TEXTOID (Some ''x''), Const TEXTOID (Some ''a''), Const TEXTOID None]"
  using values_plan_roundtrip [OF shop_match] by (simp add: shop_values_def)

section \<open>COPY\<close>


definition shop_copy_session :: copy_session where
  "shop_copy_session = \<lparr>cs_table_insert = True, cs_column_insert = (\<lambda>_. False), cs_transaction_block = False, cs_xact_snapshot = False,
     cs_read_only = False, cs_local_temp = False\<rparr>"

definition shop_copy_stmt :: copy_stmt where
  "shop_copy_stmt = \<lparr>copy_attnums = [1, 2], copy_options = [(''format'', True)], copy_where = False\<rparr>"

definition shop_stream :: "string cell list list" where
  "shop_stream = [[CDatum ''k'', CDatum ''x''], [CDatum ''a'', CNull]]"

definition shop_copy :: "(copy_error + string stored list writer_state \<times> u64) option" where
  "shop_copy = DucklakeCopyFromStdin shop_xe shop_inlining shop_copy_session (\<lambda>_. [20, 20, 20, BYTEAOID, BYTEAOID]) 300 shop_copy_stmt
     shop_stream shop_state"

lemma shop_copy_count: "(case shop_copy of Some (Inr (_, n)) \<Rightarrow> n | _ \<Rightarrow> 0) = 2"
  by code_simp

lemma shop_copy_result:
  obtains w where "shop_copy = Some (Inr (w, 2))"
  using shop_copy_count by (auto split: option.splits sum.splits)


end
