(* ===== verification/Direct_Insert_Match_Props.thy ===== *)
theory Direct_Insert_Match_Props
  imports Insert_End_To_End
begin

text \<open>
  What the planner side of a direct insert promises: the permission and row-security checks reach every
  nested query, a match gives every column its source, only expressions that are independent of rows,
  parameters and volatile functions are accepted in \<^verbatim>\<open>VALUES\<close>, and every outcome is counted once.
\<close>

section \<open>Permissions and row security\<close>

text \<open>The queries that a node contains, at any depth: in sub-links, range-table entries and common table
  expressions, wherever an expression of a query holds them.\<close>

inductive contains_query :: "expr + query \<Rightarrow> query \<Rightarrow> bool" where
  self: "contains_query (Inr q) q"
| child: "c \<in> set (children e) \<Longrightarrow> contains_query (Inl c) r \<Longrightarrow> contains_query (Inl e) r"
| sublink: "q \<in> set (sub_query e) \<Longrightarrow> contains_query (Inr q) r \<Longrightarrow> contains_query (Inl e) r"
| in_expr: "c \<in> set (query_exprs q) \<Longrightarrow> contains_query (Inl c) r \<Longrightarrow> contains_query (Inr q) r"
| nested: "p \<in> set (query_queries q) \<Longrightarrow> contains_query (Inr p) r \<Longrightarrow> contains_query (Inr q) r"

text \<open>A relation among the range-table entries that the checks look at, on which row security is on.\<close>

definition guarded_rte :: "pg_catalog \<Rightarrow> rte \<Rightarrow> bool" where
  "guarded_rte pc r \<longleftrightarrow> rtekind (r_head r) = RTE_RELATION \<and> has_relrowsecurity (pc_relation pc (relid (r_head r)))"

fun walker_node :: "expr + query \<Rightarrow> expr + bool \<times> query" where
  "walker_node (Inl e) = Inl e"
| "walker_node (Inr q) = Inr (False, q)"

lemma check_source_rte_Inr:
  "check_source_rte pc q skip (i, r) = Inr () \<longleftrightarrow> \<not> guarded_rte pc r \<or> (skip \<and> int i + 1 = resultRelation (q_head q))"
  by (auto simp: check_source_rte_def guarded_rte_def guard_or_def)

lemma checked_rtable:
  assumes "check_all (check_source_rte pc q skip) (enumerate 0 (rtable q)) = Inr ()" "i < length (rtable q)"
    "\<not> (skip \<and> int i + 1 = resultRelation (q_head q))"
  shows "\<not> guarded_rte pc (rtable q ! i)"
proof -
  have "(i, rtable q ! i) \<in> set (enumerate 0 (rtable q))" using assms(2) by (simp add: in_set_enumerate_eq)
  then have "check_source_rte pc q skip (i, rtable q ! i) = Inr ()" using assms(1) by (auto simp: check_all_Inr)
  then show ?thesis using assms(3) by (simp add: check_source_rte_Inr)
qed

declare CheckNestedQueryWalker.simps [simp del]

lemma walker_expr:
  "CheckNestedQueryWalker pc (Inl e) = Inr () \<longleftrightarrow>
     (\<forall>c \<in> set (children e). CheckNestedQueryWalker pc (Inl c) = Inr ()) \<and>
     (\<forall>q \<in> set (sub_query e). CheckNestedQueryWalker pc (Inr (False, q)) = Inr ())"
  unfolding CheckNestedQueryWalker.simps(1) [of pc e] by (simp add: andthen_Inr_iff check_all_Inr)

lemma walker_query:
  "CheckNestedQueryWalker pc (Inr (skip, q)) = Inr () \<longleftrightarrow>
     pc_permitted pc q \<and> check_all (check_source_rte pc q skip) (enumerate 0 (rtable q)) = Inr () \<and>
     (\<forall>c \<in> set (query_exprs q). CheckNestedQueryWalker pc (Inl c) = Inr ()) \<and>
     (\<forall>r \<in> set (query_queries q). CheckNestedQueryWalker pc (Inr (False, r)) = Inr ())"
  unfolding CheckNestedQueryWalker.simps(2) [of pc skip q] by (auto simp: andthen_Inr_iff check_all_Inr guard_or_def)

lemmas walker_exprD = walker_expr [THEN iffD1] and walker_queryD = walker_query [THEN iffD1]

lemma walker_checks:
  assumes "contains_query n q" "CheckNestedQueryWalker pc (walker_node n) = Inr ()"
  shows "pc_permitted pc q \<and> (\<forall>r \<in> set (rtable q). \<not> guarded_rte pc r)"
  using assms
proof (induction rule: contains_query.induct)
  case (self q)
  then have "check_all (check_source_rte pc q False) (enumerate 0 (rtable q)) = Inr ()" "pc_permitted pc q"
    by (auto dest: walker_queryD)
  then show ?case using checked_rtable [of pc q False] by (auto simp: in_set_conv_nth)
qed (auto dest: walker_exprD walker_queryD)


text \<open>An insert from a query that reads table 301 and, in a sub-link, table 302.\<close>

definition plain_head :: query_head where
  "plain_head = (q_head shop_query)\<lparr>commandType := CMD_SELECT, resultRelation := 0\<rparr>"

definition table_rte :: "oid \<Rightarrow> rte" where
  "table_rte r = RangeTblEntry \<lparr>rtekind = RTE_RELATION, relid = r, inh = True\<rparr> [] [] None"

definition sublink_query :: query where
  "sublink_query = Query plain_head [] [table_rte 302] (Some (FromExpr [RangeTblRef 1] None)) [TargetEntry (Var 1 1) 1 False] []"

definition source_query :: query where
  "source_query = Query plain_head [] [table_rte 301] (Some (FromExpr [RangeTblRef 1] (Some (SubLink [] sublink_query))))
     [TargetEntry (Var 1 1) 1 False] []"

definition nested_insert :: query where
  "nested_insert = Query (q_head shop_query) []
     [table_rte 300, RangeTblEntry \<lparr>rtekind = RTE_SUBQUERY, relid = 0, inh = False\<rparr> [] [] (Some source_query)]
     (Some (FromExpr [RangeTblRef 2] None)) [TargetEntry (Var 2 1) 1 False] []"

lemma nested_insert_contains: "contains_query (Inr nested_insert) sublink_query"
proof -
  have "contains_query (Inl (SubLink [] sublink_query)) sublink_query"
    by (rule sublink [of sublink_query]) (simp_all add: self)
  then have "contains_query (Inr source_query) sublink_query"
    by (rule in_expr [rotated]) (simp add: source_query_def)
  then show ?thesis by (rule nested [rotated]) (simp add: nested_insert_def table_rte_def)
qed

lemma nested_insert_safe: "CheckDucklakeInsertSafety shop_catalog nested_insert = Inr True"
proof -
  let ?W = "CheckNestedQueryWalker shop_catalog"
  have rte: "check_source_rte shop_catalog q skip (i, table_rte r) = Inr ()" for q skip i r
    by (simp add: check_source_rte_Inr guarded_rte_def shop_catalog_def shop_relation_def)
  have p: "pc_permitted shop_catalog q" for q by (simp add: shop_catalog_def)
  have var: "?W (Inl (Var a b)) = Inr ()" for a b unfolding walker_expr [of _ "Var a b"] by simp
  have sub: "?W (Inr (False, sublink_query)) = Inr ()"
    unfolding walker_query [of _ False sublink_query] using rte p var by (simp add: sublink_query_def) (simp add: table_rte_def)
  have "?W (Inl (SubLink [] sublink_query)) = Inr ()"
    unfolding walker_expr [of _ "SubLink [] sublink_query"] using sub by simp
  then have src: "?W (Inr (False, source_query)) = Inr ()"
    unfolding walker_query [of _ False source_query] using rte p var by (simp add: source_query_def) (simp add: table_rte_def)
  have "?W (Inr (True, nested_insert)) = Inr ()"
    unfolding walker_query [of _ True nested_insert] using rte p var src
    by (simp add: nested_insert_def) (simp add: table_rte_def check_source_rte_def)
  then show ?thesis
    by (simp add: CheckDucklakeInsertSafety_def CheckQueryPermissionsAndRls_def Let_def nested_insert_def shop_query_def table_rte_def
        shop_catalog_def shop_relation_def OidIsValid_def InvalidOid_def guard_or_def)
qed


section \<open>Outcome counters\<close>

text \<open>An \<^verbatim>\<open>INSERT\<close> into a DuckLake table that the extension may look at.\<close>

definition ducklake_insert :: "di_context \<Rightarrow> query \<Rightarrow> bool" where
  "ducklake_insert dc parse \<longleftrightarrow>
     (let h = q_head parse; target = r_head (rtable parse ! nat (resultRelation h - 1)) in
      commandType h = CMD_INSERT \<and> \<not> dc_transaction_block dc \<and> \<not> dc_xact_snapshot dc \<and> dc_enabled dc \<and> resultRelation h \<noteq> 0 \<and>
      resultRelation h \<le> int (length (rtable parse)) \<and> rtekind target = RTE_RELATION \<and> OidIsValid (pc_ducklake_am (dc_catalog dc)) \<and>
      relam (pc_relation (dc_catalog dc) (relid target)) = pc_ducklake_am (dc_catalog dc))"

definition counted :: "DirectInsertPattern \<Rightarrow> DirectInsertReason \<Rightarrow> di_session \<Rightarrow> di_session \<Rightarrow> bool" where
  "counted p r s s' \<longleftrightarrow> di_counters s' = map_option (\<lambda>c. c(p := (c p)(r := c p r + 1))) (di_counters s)"

lemma GetCachedInlinedColumnTypes_counters:
  "GetCachedInlinedColumnTypes cols tbl ver ts s = (s', r) \<Longrightarrow> di_counters s' = di_counters s"
  by (auto simp: GetCachedInlinedColumnTypes_def split: option.splits)

lemma TryMatchUnnest_counters:
  "TryMatchUnnest dc parse precond s = (s', r) \<Longrightarrow> di_counters s' = di_counters s \<and> r \<noteq> Inl DI_R_OK"
  by (auto simp: TryMatchUnnest_def Let_def split: option.splits if_splits list.splits from_item.splits prod.splits
      dest: GetCachedInlinedColumnTypes_counters)

lemma TryMatchValues_counters:
  "TryMatchValues dc parse precond s = (s', r) \<Longrightarrow> di_counters s' = di_counters s \<and> r \<noteq> Inl DI_R_OK"
  by (auto simp: TryMatchValues_def Let_def split: option.splits if_splits prod.splits dest: GetCachedInlinedColumnTypes_counters)

lemma PickMoreSpecific_cases: "PickMoreSpecific a b = a \<or> PickMoreSpecific a b = b"
  by (simp add: PickMoreSpecific_def)

lemma CheckInsertPreconditions_counters:
  assumes "CheckInsertPreconditions dc parse s = (s', r)"
  shows "di_counters s' = di_counters s" "r \<noteq> Rejected DI_R_OK"
  using assms
  by (auto simp: CheckInsertPreconditions_def Let_def split: option.splits if_splits prod.splits TableInliningState.splits)

lemma CheckInsertPreconditions_gate:
  assumes "commandType (q_head parse) = CMD_INSERT" "\<not> (dc_transaction_block dc \<or> dc_xact_snapshot dc)" "dc_enabled dc"
    "CheckInsertPreconditions dc parse s = (s', r)"
  shows "r = Gated \<longleftrightarrow> \<not> ducklake_insert dc parse" "r = Gated \<Longrightarrow> s' = s"
  using assms
  by (auto simp: CheckInsertPreconditions_def ducklake_insert_def Let_def not_less
      split: option.splits if_splits prod.splits TableInliningState.splits)

lemma counted_bump: "di_counters s1 = di_counters s \<Longrightarrow> counted p r s (DirectInsertStatsBump p r s1)"
  by (simp add: counted_def DirectInsertStatsBump_def)

text \<open>Every outcome of a direct insert is counted exactly once. For an \<^verbatim>\<open>INSERT\<close> into a DuckLake table outside
  a transaction block exactly one counter goes up by one: a matched pattern with reason \<^verbatim>\<open>ok\<close> when
  there is a plan, the unmatched pattern with another reason when there is none. For any other
  statement there is no plan, and neither counters nor caches change.\<close>

theorem every_outcome_counted:
  "case TryCreateDirectInsertPlan dc parse s of (s', plan) \<Rightarrow>
     if ducklake_insert dc parse
     then \<exists>p r. counted p r s s' \<and> (p = DI_PAT_UNMATCHED \<longleftrightarrow> plan = None) \<and> (r = DI_R_OK \<longleftrightarrow> plan \<noteq> None)
     else plan = None \<and> s' = s"
proof (cases "commandType (q_head parse) = CMD_INSERT \<and> \<not> (dc_transaction_block dc \<or> dc_xact_snapshot dc) \<and> dc_enabled dc")
  case False
  then show ?thesis by (auto simp: TryCreateDirectInsertPlan_def ducklake_insert_def Let_def)
next
  case True
  obtain s1 pre where pre: "CheckInsertPreconditions dc parse s = (s1, pre)" by (cases "CheckInsertPreconditions dc parse s")
  note C = CheckInsertPreconditions_counters [OF pre]
  have G: "pre = Gated \<longleftrightarrow> \<not> ducklake_insert dc parse" "pre = Gated \<Longrightarrow> s1 = s"
    using CheckInsertPreconditions_gate [OF _ _ _ pre] True by blast+
  obtain s2 u where u: "TryMatchUnnest dc parse (case pre of Passed p \<Rightarrow> p) s1 = (s2, u)"
    by (cases "TryMatchUnnest dc parse (case pre of Passed p \<Rightarrow> p) s1")
  obtain s3 v where v: "TryMatchValues dc parse (case pre of Passed p \<Rightarrow> p) s2 = (s3, v)"
    by (cases "TryMatchValues dc parse (case pre of Passed p \<Rightarrow> p) s2")
  note U = TryMatchUnnest_counters [OF u] and V = TryMatchValues_counters [OF v]
  have bump: "counted p r s (DirectInsertStatsBump p r x)" if "di_counters x = di_counters s1" for p r x
    using that C(1) by (intro counted_bump) simp
  show ?thesis
  proof (cases pre)
    case Gated
    then show ?thesis using True pre G by (simp add: TryCreateDirectInsertPlan_def)
  next
    case (Rejected r)
    then show ?thesis using True pre G(1) C(2) bump [of s1 DI_PAT_UNMATCHED r]
      by (auto simp: TryCreateDirectInsertPlan_def intro!: exI [of _ DI_PAT_UNMATCHED] exI [of _ r])
  next
    case (Passed p)
    show ?thesis
    proof (cases u)
      case (Inr c)
      then show ?thesis using True pre Passed G(1) u U bump [of s2 DI_PAT_MATCHED_UNNEST DI_R_OK]
        by (auto simp: TryCreateDirectInsertPlan_def intro!: exI [of _ DI_PAT_MATCHED_UNNEST] exI [of _ DI_R_OK])
    next
      case ul: (Inl a)
      show ?thesis
      proof (cases v)
        case (Inr c)
        then show ?thesis using True pre Passed G(1) u v U V ul bump [of s3 DI_PAT_MATCHED_VALUES DI_R_OK]
          by (auto simp: TryCreateDirectInsertPlan_def intro!: exI [of _ DI_PAT_MATCHED_VALUES] exI [of _ DI_R_OK])
      next
        case (Inl b)
        have "PickMoreSpecific a b \<noteq> DI_R_OK" using PickMoreSpecific_cases [of a b] ul Inl U V by auto
        then show ?thesis using True pre Passed G(1) u v U V ul Inl bump [of s3 DI_PAT_UNMATCHED "PickMoreSpecific a b"]
          by (auto simp: TryCreateDirectInsertPlan_def intro!: exI [of _ DI_PAT_UNMATCHED] exI [of _ "PickMoreSpecific a b"])
      qed
    qed
  qed
qed

section \<open>Accepted VALUES expressions\<close>

text \<open>Evaluation bottom up, in an environment: the current row, the parameters, and whatever volatile
  functions depend on. \<open>ev\<close> says what one node makes of the values of its arguments.\<close>

function eval_expr :: "(expr \<Rightarrow> 'v list \<Rightarrow> 'env \<Rightarrow> 'v) \<Rightarrow> 'env \<Rightarrow> expr \<Rightarrow> 'v" where
  "eval_expr ev env e = ev e (map (eval_expr ev env) (children e)) env"
  by pat_completeness auto
termination by (relation "measure (size \<circ> snd \<circ> snd)") (auto dest: size_children)

declare eval_expr.simps [simp del]

text \<open>What PostgreSQL documents of its nodes: only row, parameter, aggregate, window, sub-query and cursor
  references and volatile functions look at the environment.\<close>

definition nodes_documented :: "pg_catalog \<Rightarrow> (expr \<Rightarrow> 'v list \<Rightarrow> 'env \<Rightarrow> 'v) \<Rightarrow> bool" where
  "nodes_documented pc ev \<longleftrightarrow> (\<forall>e vs env env'. \<not> values_node_unsafe pc e \<longrightarrow> ev e vs env = ev e vs env')"

lemma accepted_below: "IsAcceptableValuesExpr pc e \<longleftrightarrow> (\<forall>d. below d e \<longrightarrow> \<not> values_node_unsafe pc d)"
  by (auto simp: IsAcceptableValuesExpr_def ValuesExprUnsafeWalker_def tree_ex_iff)

lemma accepted_eval:
  assumes "nodes_documented pc ev" "\<forall>d. below d e \<longrightarrow> \<not> values_node_unsafe pc d"
  shows "eval_expr ev env e = eval_expr ev env' e"
  using assms(2)
proof (induction e rule: measure_induct_rule [of size])
  case (less e)
  have "eval_expr ev env c = eval_expr ev env' c" if "c \<in> set (children e)" for c
    using that less.prems below.intros(2) [OF that] by (intro less.IH size_children) auto
  then have "map (eval_expr ev env) (children e) = map (eval_expr ev env') (children e)" by simp
  moreover have "ev e vs env = ev e vs env'" for vs
    using assms(1) less.prems below.intros(1) [of e] by (auto simp: nodes_documented_def)
  ultimately show ?case unfolding eval_expr.simps [of ev env e] eval_expr.simps [of ev env' e] by metis
qed

lemma resolve_cell_accepted:
  assumes "resolve_cell pc a row src = Some e"
  shows "IsAcceptableValuesExpr pc e"
proof (cases "src = (None, None)")
  case True
  then have "e = Const (atttypid a) None" using assms by (simp add: resolve_cell_def Let_def)
  moreover have "d = Const t v" if "below d (Const t v)" for d t v using that by (cases rule: below.cases) auto
  ultimately show ?thesis by (metis accepted_below values_node_unsafe.simps(14))
next
  case False
  then show ?thesis using assms by (auto simp: resolve_cell_def Let_def split: prod.splits option.splits if_splits)
qed

lemma resolve_row_accepted:
  assumes "resolve_row pc attrs srcs row = Some es" "e \<in> set es"
  shows "IsAcceptableValuesExpr pc e"
proof -
  have "Some e \<in> set (map2 (\<lambda>a s. resolve_cell pc a row s) attrs srcs)"
    using assms by (auto simp: resolve_row_def all_some_Some)
  then show ?thesis by (auto dest: resolve_cell_accepted [OF sym])
qed


text \<open>Constants denote their text; everything else reads the environment.\<close>

fun const_or_env :: "expr \<Rightarrow> string list \<Rightarrow> string \<Rightarrow> string" where
  "const_or_env (Const _ (Some v)) vs env = v"
| "const_or_env e vs env = (if values_node_unsafe shop_catalog e then env else ''null'')"


text \<open>The walker tests the volatility of functions and binary operators only: \<^verbatim>\<open>x = ANY (...)\<close> over a volatile
  operator passes.\<close>

lemma volatile_array_operator_accepted: "IsAcceptableValuesExpr pc (ScalarArrayOpExpr opno [Const t v, Const t' v'])"
  by (simp add: IsAcceptableValuesExpr_def ValuesExprUnsafeWalker_def tree_ex.simps)

text \<open>No inlining state of a table is a version mismatch: that reason is never counted.\<close>

lemma no_version_mismatch: "fst (GetTableInliningState ic t) \<noteq> TI_SCHEMA_VERSION_MISMATCH"
  by (auto simp: GetTableInliningState_def split: option.splits list.splits prod.splits)

end
