(* ===== verification/Ducklake_Fdw_Props.thy ===== *)
theory Ducklake_Fdw_Props
  imports Ducklake_Fdw
begin

text \<open>
  What the walk over a query guarantees: every DuckLake foreign table it reaches has its database attached under the
  alias that the deparsed query uses, and no query it reaches writes a read-only table. The last section has the
  cases in which aliases, options or identities go wrong.
\<close>

section \<open>The walk\<close>

text \<open>The queries that \<^verbatim>\<open>RegisterForeignTablesInQuery\<close> reaches: through sub-queries in \<^verbatim>\<open>FROM\<close> and \<^verbatim>\<open>WITH\<close>, as long as
  the range table is not empty.\<close>

inductive visited :: "query \<Rightarrow> query \<Rightarrow> bool" where
  self: "rtable q \<noteq> [] \<Longrightarrow> visited q q"
| sub: "r \<in> set (rtable q) \<Longrightarrow> rte_subquery r = Some s \<Longrightarrow> visited s t \<Longrightarrow> visited q t"
| cte: "rtable q \<noteq> [] \<Longrightarrow> s \<in> set (cteList q) \<Longrightarrow> visited s t \<Longrightarrow> visited q t"

inductive_cases visited_cases: "visited q t"

definition keeps_attached :: "(attached \<Rightarrow> fdw_error + attached) \<Rightarrow> bool" where
  "keeps_attached f \<longleftrightarrow> (\<forall>a b. f a = Inr b \<longrightarrow> (\<forall>x q. map_of a x = Some q \<longrightarrow> map_of b x = Some q))"

lemma keeps_attached_fold: "(\<And>x. x \<in> set xs \<Longrightarrow> keeps_attached (f x)) \<Longrightarrow> keeps_attached (fold_err f xs)"
  by (induction xs) (fastforce simp: keeps_attached_def andthen_Inr_iff)+

lemma keeps_attached_andthen: "keeps_attached f \<Longrightarrow> keeps_attached g \<Longrightarrow> keeps_attached (\<lambda>a. andthen (f a) g)"
  by (auto simp: keeps_attached_def andthen_Inr_iff)

lemma keeps_attached_attach: "keeps_attached (attach_rte fc ok r)"
  by (auto simp: keeps_attached_def attach_rte_def AttachDucklakeDatabase_def Let_def map_add_def split: if_splits option.splits)

lemma fold_err_member:
  assumes "fold_err f xs a = Inr b" and "x \<in> set xs" and "\<And>y. y \<in> set xs \<Longrightarrow> keeps_attached (f y)"
  obtains a' b' where "f x a' = Inr b'" and "\<And>z q. map_of b' z = Some q \<Longrightarrow> map_of b z = Some q"
proof -
  obtain ys zs where xs: "xs = ys @ x # zs" using assms(2) by (auto dest: split_list)
  obtain a' b' where s: "f x a' = Inr b'" "fold_err f zs b' = Inr b"
    using assms(1) unfolding xs by (auto simp: fold_err_append andthen_Inr_iff)
  have "keeps_attached (fold_err f zs)" using assms(3) xs by (intro keeps_attached_fold) auto
  then show ?thesis using that s by (auto simp: keeps_attached_def)
qed

lemma keeps_attached_register: "keeps_attached (RegisterForeignTablesInQuery fc ok q)"
proof (induction "size q" arbitrary: q rule: less_induct)
  case less
  let ?f = "\<lambda>r a. andthen (case rte_subquery r of None \<Rightarrow> Inr a | Some s \<Rightarrow> RegisterForeignTablesInQuery fc ok s a) (attach_rte fc ok r)"
  have sub: "keeps_attached (\<lambda>a. case rte_subquery r of None \<Rightarrow> Inr a | Some s \<Rightarrow> RegisterForeignTablesInQuery fc ok s a)"
    if "r \<in> set (rtable q)" for r
    using less size_rte_subquery [OF that] by (cases "rte_subquery r") (auto simp: keeps_attached_def)
  have f: "keeps_attached (fold_err ?f (rtable q))"
    by (intro keeps_attached_fold keeps_attached_andthen sub keeps_attached_attach)
  have c: "keeps_attached (fold_err (RegisterForeignTablesInQuery fc ok) (cteList q))"
    by (rule keeps_attached_fold, rule less, rule size_cte)
  show ?case unfolding keeps_attached_def
  proof (intro allI impI)
    fix a b x s
    assume r: "RegisterForeignTablesInQuery fc ok q a = Inr b" and m: "map_of a x = Some s"
    from r consider "b = a"
      | a1 where "fold_err ?f (rtable q) a = Inr a1" "fold_err (RegisterForeignTablesInQuery fc ok) (cteList q) a1 = Inr b"
      unfolding RegisterForeignTablesInQuery.simps [of fc ok q a] andthen_Inr_iff by (fastforce split: if_splits simp: andthen_Inr_iff)
    then show "map_of b x = Some s"
    proof cases
      case 1
      then show ?thesis using m by simp
    next
      case (2 a1)
      from f 2(1) m have "map_of a1 x = Some s" unfolding keeps_attached_def by blast
      with c 2(2) show ?thesis unfolding keeps_attached_def by blast
    qed
  qed
qed

lemma keeps_attached_entry:
  "keeps_attached (\<lambda>a. andthen (case rte_subquery r of None \<Rightarrow> Inr a | Some s \<Rightarrow> RegisterForeignTablesInQuery fc ok s a) (attach_rte fc ok r))"
proof (rule keeps_attached_andthen)
  show "keeps_attached (\<lambda>a. case rte_subquery r of None \<Rightarrow> Inr a | Some s \<Rightarrow> RegisterForeignTablesInQuery fc ok s a)"
    using keeps_attached_register by (cases "rte_subquery r") (auto simp: keeps_attached_def)
qed (rule keeps_attached_attach)

text \<open>The parts of a successful walk.\<close>

lemma register_parts:
  assumes "RegisterForeignTablesInQuery fc ok q att = Inr att'" and "GetDucklakeFdwOid fc \<noteq> InvalidOid" and "rtable q \<noteq> []"
  shows "check_result_relation fc q = Inr ()"
    and "r \<in> set (rtable q) \<Longrightarrow> \<exists>a b. attach_rte fc ok r a = Inr b \<and> (\<forall>x s. map_of b x = Some s \<longrightarrow> map_of att' x = Some s)"
    and "r \<in> set (rtable q) \<Longrightarrow> rte_subquery r = Some s \<Longrightarrow>
      \<exists>a b. RegisterForeignTablesInQuery fc ok s a = Inr b \<and> (\<forall>x s. map_of b x = Some s \<longrightarrow> map_of att' x = Some s)"
    and "s \<in> set (cteList q) \<Longrightarrow>
      \<exists>a b. RegisterForeignTablesInQuery fc ok s a = Inr b \<and> (\<forall>x s. map_of b x = Some s \<longrightarrow> map_of att' x = Some s)"
proof -
  let ?f = "\<lambda>r a. andthen (case rte_subquery r of None \<Rightarrow> Inr a | Some s \<Rightarrow> RegisterForeignTablesInQuery fc ok s a) (attach_rte fc ok r)"
  obtain att1 where f: "fold_err ?f (rtable q) att = Inr att1"
    and c: "fold_err (RegisterForeignTablesInQuery fc ok) (cteList q) att1 = Inr att'"
    and k: "check_result_relation fc q = Inr ()"
    using assms unfolding RegisterForeignTablesInQuery.simps [of fc ok q] by (auto simp: andthen_Inr_iff)
  show "check_result_relation fc q = Inr ()" by (rule k)
  have "keeps_attached (fold_err (RegisterForeignTablesInQuery fc ok) (cteList q))"
    by (intro keeps_attached_fold keeps_attached_register)
  then have later: "map_of att1 x = Some s \<Longrightarrow> map_of att' x = Some s" for x s using c by (simp add: keeps_attached_def)
  have entry: "\<exists>a b. ?f r a = Inr b \<and> (\<forall>x s. map_of b x = Some s \<longrightarrow> map_of att' x = Some s)" if "r \<in> set (rtable q)" for r
    by (rule fold_err_member [OF f that keeps_attached_entry]) (use later in blast)
  show "\<exists>a b. attach_rte fc ok r a = Inr b \<and> (\<forall>x s. map_of b x = Some s \<longrightarrow> map_of att' x = Some s)" if "r \<in> set (rtable q)" for r
    using entry [OF that] by (auto simp: andthen_Inr_iff)
  show "\<exists>a b. RegisterForeignTablesInQuery fc ok s a = Inr b \<and> (\<forall>x s. map_of b x = Some s \<longrightarrow> map_of att' x = Some s)"
    if "r \<in> set (rtable q)" "rte_subquery r = Some s" for r s
    using entry [OF that(1)] that(2) keeps_attached_attach [of fc ok r] by (force simp: andthen_Inr_iff keeps_attached_def)
  show "\<exists>a b. RegisterForeignTablesInQuery fc ok s a = Inr b \<and> (\<forall>x s. map_of b x = Some s \<longrightarrow> map_of att' x = Some s)"
    if "s \<in> set (cteList q)" for s
    by (rule fold_err_member [OF c that keeps_attached_register]) blast
qed

lemma attach_rte_attaches:
  assumes "attach_rte fc ok r a = Inr b" and "relid (r_head r) \<noteq> InvalidOid" and "IsDucklakeForeignTable fc (relid (r_head r))"
  shows "map_of b (GetDatabaseAlias fc (server_of fc (relid (r_head r)))) \<noteq> None"
  using assms by (auto simp: attach_rte_def AttachDucklakeDatabase_def Let_def map_add_def split: if_splits option.splits)

lemma visited_registered:
  assumes "visited q t" and "RegisterForeignTablesInQuery fc ok q att = Inr att'" and "GetDucklakeFdwOid fc \<noteq> InvalidOid"
  shows "check_result_relation fc t = Inr () \<and> (\<forall>r \<in> set (rtable t). relid (r_head r) \<noteq> InvalidOid \<and>
      IsDucklakeForeignTable fc (relid (r_head r)) \<longrightarrow> map_of att' (GetDatabaseAlias fc (server_of fc (relid (r_head r)))) \<noteq> None)"
  using assms(1,2)
proof (induction arbitrary: att att' rule: visited.induct)
  case (self q)
  note P = register_parts [OF self(2) assms(3) self(1)]
  show ?case using P(1) P(2) attach_rte_attaches by (metis not_None_eq)
next
  case (sub r q s t)
  then have "rtable q \<noteq> []" by auto
  from register_parts(3) [OF sub(5) assms(3) this sub(1,2)] sub(4) show ?case by (metis not_None_eq)
next
  case (cte q s t)
  from register_parts(4) [OF cte(5) assms(3) cte(1,2)] cte(4) show ?case by (metis not_None_eq)
qed

text \<open>C35: once the walk has succeeded, every DuckLake foreign table in a query that it reaches is deparsed under an alias
  that is attached in DuckDB, and no such query writes a table that the options make read-only.\<close>

theorem foreign_tables_attached:
  assumes "RegisterForeignTablesInQuery fc ok q att = Inr att'" and "GetDucklakeFdwOid fc \<noteq> InvalidOid" and "visited q t"
  shows "(\<forall>r \<in> set (rtable t). relid (r_head r) \<noteq> InvalidOid \<and> IsDucklakeForeignTable fc (relid (r_head r)) \<longrightarrow>
      (\<exists>a name. GetDucklakeForeignTableName fc (relid (r_head r)) = Some (quote_identifier fc a @ ''.'' @ name) \<and> map_of att' a \<noteq> None)) \<and>
    (let target = relid (r_head (rtable t ! nat (resultRelation (q_head t) - 1))) in
     commandType (q_head t) \<noteq> CMD_SELECT \<and> resultRelation (q_head t) > 0 \<and> target \<noteq> InvalidOid \<and> IsDucklakeForeignTable fc target \<longrightarrow>
     IsUpdatable (GetForeignTable fc target) (server_of fc target))"
proof -
  note V = visited_registered [OF assms(3,1,2)]
  have "GetDucklakeForeignTableName fc rel = Some (quote_identifier fc (GetDatabaseAlias fc (server_of fc rel)) @ ''.'' @
      quote_identifier fc (option_or (table_options (GetForeignTable fc rel)) ''schema_name'' ''public'') @ ''.'' @
      quote_identifier fc (option_or (table_options (GetForeignTable fc rel)) ''table_name'' (get_rel_name fc rel)))"
    if "IsDucklakeForeignTable fc rel" for rel using that by (simp add: GetDucklakeForeignTableName_def Let_def)
  then show ?thesis using V by (fastforce simp: check_result_relation_def Let_def)
qed

definition lake_server :: ForeignServer where
  "lake_server = \<lparr>servername = ''lake'', fdwid = 77, server_options = [(''dbname'', ''sales''), (''metadata_schema'', ''eu'')]\<rparr>"

definition other_server :: ForeignServer where
  "other_server = \<lparr>servername = ''lake_us'', fdwid = 77, server_options = [(''dbname'', ''sales''), (''metadata_schema'', ''us'')]\<rparr>"

definition lake_catalog :: fdw_catalog where
  "lake_catalog = \<lparr>cached_oid = 77, wrapper_oid = 77, is_foreign_table = (\<lambda>r. r = 500 \<or> r = 501),
     GetForeignTable = (\<lambda>r. \<lparr>serverid = (if r = 500 then 1 else 2), table_options = (if r = 501 then [(''updatable'', ''false'')] else [])\<rparr>),
     GetForeignServer = (\<lambda>s. if s = 1 then lake_server else other_server), get_rel_name = (\<lambda>_. ''orders''),
     MyDatabase = ''app'', user_name = ''ann'', quote_identifier = (\<lambda>s. dq @ s @ dq)\<rparr>"

definition select_head :: query_head where
  "select_head = \<lparr>commandType = CMD_SELECT, resultRelation = 0, utilityStmt = False, hasAggs = False, hasWindowFuncs = False,
     hasTargetSRFs = False, hasSubLinks = False, hasDistinctOn = False, hasRecursive = False, hasModifyingCTE = False,
     hasForUpdate = False, hasRowSecurity = False, isReturn = False, override_set = False, onConflict = False,
     returningList = False, groupClause = False, groupDistinct = False, groupingSets = False, havingQual = False,
     windowClause = False, distinctClause = False, sortClause = False, limitOffset = False, limitCount = False,
     rowMarks = False, setOperations = False, withCheckOptions = False\<rparr>"

definition foreign_rte :: "oid \<Rightarrow> rte" where
  "foreign_rte r = RangeTblEntry \<lparr>rtekind = RTE_RELATION, relid = r, inh = True\<rparr> [] [] None"

definition foreign_select :: query where
  "foreign_select = Query select_head [] [foreign_rte 500] (Some (FromExpr [RangeTblRef 1] None)) [] []"

lemma foreign_select_registered:
  "RegisterForeignTablesInQuery lake_catalog (\<lambda>_. True) foreign_select [] =
    Inr [(''fdw_db_sales'', BuildAttachQuery lake_catalog lake_server ''fdw_db_sales'' True)]"
  unfolding RegisterForeignTablesInQuery.simps [of lake_catalog _ foreign_select]
  by (simp add: foreign_select_def foreign_rte_def attach_rte_def AttachDucklakeDatabase_def check_result_relation_def Let_def
      rte_subquery_def IsDucklakeForeignTable_def server_of_def lake_catalog_def lake_server_def GetDucklakeFdwOid_def
      InvalidOid_def GetDatabaseAlias_def IsFrozenServer_def GetOptionValue_def server_database_def select_head_def guard_or_def)

theorem foreign_tables_attached_witness:
  "\<exists>a name. GetDucklakeForeignTableName lake_catalog 500 = Some (quote_identifier lake_catalog a @ ''.'' @ name) \<and>
    map_of [(''fdw_db_sales'', BuildAttachQuery lake_catalog lake_server ''fdw_db_sales'' True)] a \<noteq> None"
proof -
  have "GetDucklakeFdwOid lake_catalog \<noteq> InvalidOid" by (simp add: lake_catalog_def GetDucklakeFdwOid_def InvalidOid_def)
  moreover have "visited foreign_select foreign_select" by (rule visited.self) (simp add: foreign_select_def)
  ultimately show ?thesis
    using foreign_tables_attached [OF foreign_select_registered, of foreign_select]
    by (auto simp: foreign_select_def foreign_rte_def InvalidOid_def IsDucklakeForeignTable_def server_of_def lake_catalog_def
        lake_server_def GetDucklakeFdwOid_def)
qed

section \<open>Where names and identities collide\<close>

text \<open>Two servers on one database with different metadata schemas have one alias: attaching the second does nothing,
  and its tables are looked up in the catalog of the first.\<close>

lemma second_schema_not_attached:
  "GetDatabaseAlias lake_catalog other_server = GetDatabaseAlias lake_catalog lake_server \<and>
   BuildAttachQuery lake_catalog other_server a True \<noteq> BuildAttachQuery lake_catalog lake_server a True \<and>
   AttachDucklakeDatabase lake_catalog (\<lambda>_. True) other_server [(''fdw_db_sales'', BuildAttachQuery lake_catalog lake_server ''fdw_db_sales'' True)] =
     Inr [(''fdw_db_sales'', BuildAttachQuery lake_catalog lake_server ''fdw_db_sales'' True)]"
  by (simp add: AttachDucklakeDatabase_def Let_def lake_catalog_def lake_server_def other_server_def GetDatabaseAlias_def
      IsFrozenServer_def GetOptionValue_def server_database_def BuildAttachQuery_def)

text \<open>The validator refuses an updatable frozen server, but a table option makes the table of a frozen server writable.\<close>

lemma frozen_table_writable:
  "ducklake_fdw_validator [(''frozen_url'', u), (''updatable'', ''true'')] ForeignServerRelationId = Inl (MutuallyExclusive ''frozen_url'' ''updatable'') \<and>
   ducklake_fdw_validator [(''frozen_url'', u)] ForeignServerRelationId = Inr () \<and>
   ducklake_fdw_validator [(''updatable'', ''true'')] ForeignTableRelationId = Inr () \<and>
   IsUpdatable \<lparr>serverid = s, table_options = [(''updatable'', ''true'')]\<rparr> \<lparr>servername = n, fdwid = f, server_options = [(''frozen_url'', u)]\<rparr>"
  by (simp add: ducklake_fdw_validator_def IsValidOption_def valid_server_options_def valid_table_options_def guard_or_def
      exclusive_def has_option_def GetOptionValue_def updatable_ok_def IsUpdatable_def pg_strcasecmp_eq_0)

text \<open>A query without a \<^verbatim>\<open>FROM\<close> list is not entered: a \<^verbatim>\<open>WITH\<close> query that writes a read-only foreign table passes, and
  the query is still sent to DuckDB.\<close>

definition readonly_insert :: query where
  "readonly_insert = Query (select_head\<lparr>commandType := CMD_INSERT, resultRelation := 1\<rparr>) [] [foreign_rte 501] None [] []"

lemma with_insert_not_checked:
  "RegisterForeignTablesInQuery lake_catalog ok (Query select_head [readonly_insert] [] None [] []) att = Inr att"
  "QueryReferencesDucklakeForeignTable lake_catalog (Query select_head [readonly_insert] [] None [] [])"
  "RegisterForeignTablesInQuery lake_catalog (\<lambda>_. True) readonly_insert [] = Inl NotUpdatable"
proof -
  have oid: "GetDucklakeFdwOid lake_catalog = 77" by (simp add: lake_catalog_def GetDucklakeFdwOid_def InvalidOid_def)
  have table: "IsDucklakeForeignTable lake_catalog 501"
    by (simp add: IsDucklakeForeignTable_def oid server_of_def) (simp add: lake_catalog_def other_server_def)
  have readonly: "\<not> IsUpdatable (GetForeignTable lake_catalog 501) (server_of lake_catalog 501)"
    by (simp add: IsUpdatable_def lake_catalog_def GetOptionValue_def pg_strcasecmp_eq_0)
  show "RegisterForeignTablesInQuery lake_catalog ok (Query select_head [readonly_insert] [] None [] []) att = Inr att"
    by (simp add: RegisterForeignTablesInQuery.simps)
  have "QueryReferencesDucklakeForeignTable lake_catalog readonly_insert"
    unfolding QueryReferencesDucklakeForeignTable.simps [of lake_catalog readonly_insert] using table
    by (simp add: oid readonly_insert_def foreign_rte_def rte_subquery_def InvalidOid_def)
  then show "QueryReferencesDucklakeForeignTable lake_catalog (Query select_head [readonly_insert] [] None [] [])"
    unfolding QueryReferencesDucklakeForeignTable.simps [of lake_catalog "Query select_head [readonly_insert] [] None [] []"]
    by (simp add: oid InvalidOid_def)
  show "RegisterForeignTablesInQuery lake_catalog (\<lambda>_. True) readonly_insert [] = Inl NotUpdatable"
    unfolding RegisterForeignTablesInQuery.simps [of lake_catalog _ readonly_insert] using table readonly
    by (simp add: oid readonly_insert_def foreign_rte_def rte_subquery_def attach_rte_def AttachDucklakeDatabase_def Let_def
        InvalidOid_def check_result_relation_def guard_or_def)
qed

text \<open>The cached object id of the wrapper outlives the wrapper: after it has been dropped and created again, its
  tables are not recognised.\<close>

lemma recreated_wrapper_not_recognised:
  assumes "GetDucklakeFdwOid fc \<noteq> InvalidOid" and "w \<noteq> GetDucklakeFdwOid fc" and "fdwid (server_of fc rel) = w"
  shows "\<not> IsDucklakeForeignTable ((remember_fdw_oid fc)\<lparr>wrapper_oid := w\<rparr>) rel"
  using assms by (simp add: IsDucklakeForeignTable_def remember_fdw_oid_def GetDucklakeFdwOid_def server_of_def)

text \<open>The listing of \<^verbatim>\<open>IMPORT FOREIGN SCHEMA\<close> compares with the quoted form of the schema's name: a name that needs quotes
  is compared with its quotes.\<close>

lemma quoted_schema_compared:
  assumes "WriteOptionallyQuoted con sch = dq @ sch @ dq"
  shows "\<exists>pre. list_tables_query con db sch = pre @ '' AND schema_name = '' @ sq @ dq @ sch @ dq @ sq @ '' ORDER BY table_name''"
  using assms by (simp add: list_tables_query_def)

end
