(* ===== verification/Hooks_Props.thy ===== *)
theory Hooks_Props
  imports Hooks Direct_Insert_Match_Props Ducklake_Fdw_Props
begin

text \<open>
  An insert into a DuckLake table is checked when it is planned and again whenever its plan starts, whichever planner
  made the plan. The last section has what the rewrites and the caches leave out.
\<close>

section \<open>Plans of an insert\<close>

declare ParameterizedUnnestWalker.simps [simp del] CheckNestedQueryWalker.simps [simp del]

lemma rewritten_keeps:
  assumes "rewritten hc parse = Inr parse'"
  shows "q_head parse' = q_head parse" and "map r_head (rtable parse') = map r_head (rtable parse)"
proof -
  obtain p where v: "RewriteVariantOperators (dc_catalog (hc_context hc)) (hc_env hc) parse = (Inr p :: hook_error + query)"
    and r: "RewriteRegclassFunctions (dc_catalog (hc_context hc)) (hc_env hc) p = Inr parse'"
    using assms by (auto simp: rewritten_def andthen_Inr_iff)
  have "q_head p = q_head parse" "map r_head (rtable p) = map r_head (rtable parse)"
    using v by (auto simp: RewriteVariantOperators_def map_query_nodes_head map_query_nodes_rtable split: if_splits)
  then show "q_head parse' = q_head parse" "map r_head (rtable parse') = map r_head (rtable parse)"
    using r by (simp_all add: RewriteRegclassFunctions_def map_query_nodes_head map_query_nodes_rtable)
qed

lemma direct_plan_query:
  assumes "TryCreateDirectInsertPlan dc parse s = (s', Some p)"
  shows "direct_query DuckLakeDirectInsert (custom_private p) = Some parse"
  using assms
  by (auto simp: TryCreateDirectInsertPlan_def direct_query_def CreateDirectInsertPlan_def CreateValuesInsertPlan_def
      MakeDirectInsertPlannedStmt_def split: if_splits prod.splits precond.splits sum.splits)

lemma duckdb_plan_query:
  assumes "PlanNode dp scroll throw parse cache = (cache', Inr (Some s))" and "commandType (q_head parse) = CMD_INSERT"
  shows "FindDucklakeInsertQuery (planTree s) = Some (parse, False)"
proof -
  obtain tlist where t: "planTree s = (let p = CustomScan duckdb_scan_methods [PQuery parse] tlist [] None None in
      if scroll then OtherPlan (Some p) None else p)"
    by (rule PlanNode_tree [OF assms(1)])
  show ?thesis unfolding t using assms(2) by (simp add: Let_def direct_query_def duckdb_insert_query_def or_else_def)
qed

text \<open>The table that a query writes, and what is documented of the registry of access methods.\<close>

definition target_of :: "query \<Rightarrow> oid" where
  "target_of q = relid (r_head (rtable q ! nat (resultRelation (q_head q) - 1)))"

definition lake_am_registered :: "pg_catalog \<Rightarrow> duck_planner \<Rightarrow> bool" where
  "lake_am_registered pc dp \<longleftrightarrow>
     (\<forall>r. r \<noteq> InvalidOid \<and> relam (pc_relation pc r) = pc_ducklake_am pc \<longrightarrow> TableAmGetName dp r \<noteq> None)"

lemma safety_target:
  assumes "CheckDucklakeInsertSafety pc parse = Inr True" and "0 \<le> resultRelation (q_head parse)"
  shows "commandType (q_head parse) = CMD_INSERT" and "relam (pc_relation pc (target_of parse)) = pc_ducklake_am pc"
    and "nat (resultRelation (q_head parse) - 1) < length (rtable parse)"
  using assms by (auto simp: CheckDucklakeInsertSafety_def target_of_def Let_def split: if_splits)

lemma same_target:
  assumes "q_head q = q_head parse" and "map r_head (rtable q) = map r_head (rtable parse)"
    and "nat (resultRelation (q_head parse) - 1) < length (rtable parse)"
  shows "target_of q = target_of parse" and "length (rtable q) = length (rtable parse)"
proof -
  show len: "length (rtable q) = length (rtable parse)" using assms(2) by (metis length_map)
  have "r_head (rtable q ! i) = r_head (rtable parse ! i)" if "i < length (rtable parse)" for i
    using assms(2) that len by (metis nth_map)
  then show "target_of q = target_of parse" using assms(1,3) by (simp add: target_of_def)
qed

lemma references_target:
  assumes "lake_am_registered pc dp" and "relam (pc_relation pc (target_of q)) = pc_ducklake_am pc" and "target_of q \<noteq> InvalidOid"
    and "nat (resultRelation (q_head q) - 1) < length (rtable q)"
  shows "QueryReferencesRegisteredTableAm dp q"
proof -
  let ?r = "rtable q ! nat (resultRelation (q_head q) - 1)"
  have "?r \<in> set (rtable q)" "relid (r_head ?r) \<noteq> InvalidOid" "TableAmGetName dp (relid (r_head ?r)) \<noteq> None"
    using assms by (auto simp: lake_am_registered_def target_of_def)
  then show ?thesis
    unfolding QueryReferencesRegisteredTableAm_def node_ex.simps(2) [of _ _ q] by (auto simp: list_ex_iff)
qed

text \<open>What the planner hook returns for an insert into a DuckLake table.\<close>

lemma planned_insert:
  assumes "DucklakePlannerHook hc parse st = (st', Inr plan)"
    and "CheckDucklakeInsertSafety (dc_catalog (hc_context hc)) parse = Inr True" and "0 \<le> resultRelation (q_head parse)"
    and "lake_am_registered (dc_catalog (hc_context hc)) (hc_planner hc)" and "plan \<noteq> NullPlan" and "target_of parse \<noteq> InvalidOid"
  obtains tree q native where "plan_tree plan = Some tree" and "FindDucklakeInsertQuery tree = Some (q, native)"
    and "q_head q = q_head parse" and "map r_head (rtable q) = map r_head (rtable parse)"
    and "native \<Longrightarrow> q = parse" and "\<not> native \<Longrightarrow> \<not> ParameterizedUnnestWalker (dc_catalog (hc_context hc)) (Inr parse)"
proof -
  note T = safety_target [OF assms(2,3)]
  let ?dc = "hc_context hc"
  obtain t d where d: "(if dc_enabled ?dc then TryCreateDirectInsertPlan ?dc parse (hs_session st) else (hs_session st, None)) = (t, d)"
    by fastforce
  note hook = assms(1) [unfolded DucklakePlannerHook_def Let_def assms(2) d]
  consider (direct) p where "plan = DirectInsertPlan p" "direct_query DuckLakeDirectInsert (custom_private p) = Some parse"
  | (rewritten) parse' st1 where "rewritten hc parse = Inr parse'" "plan_rewritten hc parse' st1 = (st', Inr plan)"
      "\<not> ParameterizedUnnestWalker (dc_catalog ?dc) (Inr parse)"
  proof (cases d)
    case (Some p)
    then have c: "TryCreateDirectInsertPlan ?dc parse (hs_session st) = (t, Some p)" using d by (simp split: if_splits)
    have "plan = DirectInsertPlan p" using hook Some by (simp only: sum.case prod.case option.case if_True simp_thms prod.inject sum.inject)
    then show thesis using direct_plan_query [OF c] by (rule direct)
  next
    case None
    have r: "RejectParameterizedUnnestFallback (dc_catalog ?dc) parse = Inr ()"
      using hook None by (cases "RejectParameterizedUnnestFallback (dc_catalog ?dc) parse") simp_all
    then have "\<not> ParameterizedUnnestWalker (dc_catalog ?dc) (Inr parse)"
      unfolding RejectParameterizedUnnestFallback_def guard_or_simps .
    then show thesis using rewritten hook None r by (cases "rewritten hc parse") simp_all
  qed
  then show thesis
  proof cases
    case direct
    then show thesis using that [of "CustomScan DuckLakeDirectInsert (custom_private p) [] [] None None" parse True] by (simp add: or_else_def)
  next
    case rewritten
    note K = rewritten_keeps [OF rewritten(1)]
    note S = same_target [OF K T(3)]
    have refs: "QueryReferencesRegisteredTableAm (hc_planner hc) parse'"
      using T S K(1) assms(6) by (intro references_target [OF assms(4)]) simp_all
    obtain cache cache' s where n: "PlanNode (hc_planner hc) (hc_scroll hc) True parse' cache = (cache', Inr (Some s))" "plan = DuckDBPlan s"
      using rewritten(2) refs assms(5) by (auto simp: plan_rewritten_def Let_def split: sum.splits prod.splits option.splits if_splits)
    have "FindDucklakeInsertQuery (planTree s) = Some (parse', False)"
      using duckdb_plan_query [OF n(1)] K(1) T(1) by simp
    then show thesis using that [of "planTree s" parse' False] n(2) K rewritten(3) by simp
  qed
qed

lemma started_insert:
  assumes "DucklakeExecutorStartHook dc dp tree cache = (cache', Inr run)" and "FindDucklakeInsertQuery tree = Some (q, native)"
    and "commandType (q_head q) = CMD_INSERT"
  shows "\<exists>b native'. CheckDucklakeInsertSafety (dc_catalog dc) q = Inr b \<and> FindDucklakeInsertQuery run = Some (q, native') \<and>
    (native' \<longrightarrow> dc_enabled dc \<and> \<not> dc_transaction_block dc \<and> \<not> dc_xact_snapshot dc)"
  using assms duckdb_plan_query [OF _ assms(3)]
  by (auto simp: DucklakeExecutorStartHook_def split: sum.splits if_splits prod.splits option.splits)

text \<open>C34: no insert into a DuckLake table runs unchecked. Whatever plan the planner hook chooses for it, native or DuckDB's,
  the executor hook finds the insert in the plan and, in whatever state the catalogs and the session are when the plan
  starts, lets it run only if the safety check passes for that state (while the table is a DuckLake table), and as a
  native plan only if the native writer is enabled, outside a transaction block and under read committed.\<close>

theorem cached_insert_rechecked:
  assumes "DucklakePlannerHook hc parse st = (st', Inr plan)"
    and "CheckDucklakeInsertSafety (dc_catalog (hc_context hc)) parse = Inr True" and "0 \<le> resultRelation (q_head parse)"
    and "lake_am_registered (dc_catalog (hc_context hc)) (hc_planner hc)" and "plan \<noteq> NullPlan" and "target_of parse \<noteq> InvalidOid"
  shows "\<exists>tree q. plan_tree plan = Some tree \<and> target_of q = target_of parse \<and>
    (\<forall>dc dp cache cache' run. DucklakeExecutorStartHook dc dp tree cache = (cache', Inr run) \<longrightarrow>
      (\<exists>native. FindDucklakeInsertQuery run = Some (q, native) \<and>
        (native \<longrightarrow> dc_enabled dc \<and> \<not> dc_transaction_block dc \<and> \<not> dc_xact_snapshot dc)) \<and>
      (OidIsValid (pc_ducklake_am (dc_catalog dc)) \<and> relam (pc_relation (dc_catalog dc) (target_of parse)) = pc_ducklake_am (dc_catalog dc) \<longrightarrow>
       CheckDucklakeInsertSafety (dc_catalog dc) q = Inr True))"
proof -
  obtain tree q native where p: "plan_tree plan = Some tree" "FindDucklakeInsertQuery tree = Some (q, native)"
    "q_head q = q_head parse" "map r_head (rtable q) = map r_head (rtable parse)"
    by (rule planned_insert [OF assms])
  note T = safety_target [OF assms(2,3)]
  note S = same_target [OF p(3,4) T(3)]
  have kind: "rtekind (r_head (rtable q ! nat (resultRelation (q_head q) - 1))) = RTE_RELATION"
    using assms(2) p(3,4) T(3) S(2) nth_map [of _ "rtable q" r_head] nth_map [of _ "rtable parse" r_head]
    by (auto simp: CheckDucklakeInsertSafety_def Let_def split: if_splits)
  have "CheckDucklakeInsertSafety (dc_catalog dc) q = Inr True"
    if "CheckDucklakeInsertSafety (dc_catalog dc) q = Inr b" "OidIsValid (pc_ducklake_am (dc_catalog dc))"
      "relam (pc_relation (dc_catalog dc) (target_of parse)) = pc_ducklake_am (dc_catalog dc)" for dc b
  proof -
    have "resultRelation (q_head q) \<noteq> 0" "\<not> int (length (rtable q)) < resultRelation (q_head q)"
      using assms(2) p(3) S(2) by (auto simp: CheckDucklakeInsertSafety_def Let_def split: if_splits)
    then show ?thesis using that kind p(3) T(1) S(1)
      by (auto simp: CheckDucklakeInsertSafety_def Let_def target_of_def andthen_Inr_iff split: if_splits)
  qed
  moreover have "commandType (q_head q) = CMD_INSERT" using p(3) T(1) by simp
  ultimately show ?thesis using p(1) S(1) started_insert [OF _ p(2)] by blast
qed

definition shop_hook_call :: hook_call where
  "shop_hook_call = \<lparr>hc_env = \<lparr>nsp_cached = 0, nsp_catalog = 0, pg_proc = (\<lambda>_. None), VariantOid = 0, LookupVariantFunc = (\<lambda>_ _. 0),
       variant_funcoids = [], text_overload = (\<lambda>_ _. 0), const_relid = (\<lambda>_. 0), rel_schema_name = (\<lambda>_. []), rel_table_name = (\<lambda>_. [])\<rparr>,
     hc_planner = \<lparr>Prepare = (\<lambda>_. Some []), planner_hooks = [], planner_array_hooks = [], is_view = (\<lambda>_. False),
       view_permitted = (\<lambda>_ _. True), TableAmGetName = (\<lambda>_. Some ''ducklake'')\<rparr>,
     hc_fdw = lake_catalog, hc_attach_ok = (\<lambda>_. True), hc_context = shop_planner\<lparr>dc_enabled := False\<rparr>,
     hc_initialized = False, hc_scroll = True\<rparr>"

definition shop_tree :: plan where
  "shop_tree = OtherPlan (Some (CustomScan duckdb_scan_methods [PQuery nested_insert] [] [] None None)) None"

lemma shop_not_parameterized: "\<not> ParameterizedUnnestWalker shop_catalog (Inr nested_insert)"
  by code_simp

lemma shop_rewritten: "rewritten shop_hook_call nested_insert = Inr nested_insert"
proof -
  have "RewriteRegclassFunctions shop_catalog (hc_env shop_hook_call) nested_insert = Inr nested_insert" by code_simp
  then show ?thesis
    by (simp add: rewritten_def RewriteVariantOperators_def shop_hook_call_def shop_planner_def OidIsValid_def InvalidOid_def)
qed

definition shop_hook_state :: hook_state where
  "shop_hook_state = \<lparr>hs_session = \<lparr>inlining_info_cache = (\<lambda>_. None), inlined_col_types_cache = (\<lambda>_. None), di_counters = None\<rparr>,
     hs_attached = [], force_scan_transaction = False, hs_types = (\<lambda>_. None)\<rparr>"

definition shop_stmt :: duck_stmt where
  "shop_stmt = \<lparr>ds_commandType = CMD_INSERT, ds_hasReturning = False, ds_hasModifyingCTE = False, ds_dependsOnRole = False, planTree = shop_tree\<rparr>"

lemma node_ex_False: "(\<And>e. \<not> P e) \<Longrightarrow> (\<And>q. \<not> Q q) \<Longrightarrow> \<not> node_ex P Q n"
proof (induction P Q n rule: node_ex.induct)
  case (1 P Q e)
  then show ?case unfolding node_ex.simps(1) [of P Q e] list_ex_iff by blast
next
  case (2 P Q q)
  then show ?case unfolding node_ex.simps(2) [of P Q q] list_ex_iff by blast
qed

lemma no_ducklake_call: "\<not> OidIsValid (DucklakeNamespaceOid env) \<Longrightarrow> \<not> is_ducklake_call env e"
  by (cases e) (simp_all add: IsDucklakeOnlyFunction_def)

lemma shop_planned: "DucklakePlannerHook shop_hook_call nested_insert shop_hook_state = (shop_hook_state, Inr (DuckDBPlan shop_stmt))"
proof -
  have refs: "QueryReferencesRegisteredTableAm (hc_planner shop_hook_call) nested_insert" by code_simp
  have func: "\<not> QueryReferencesDucklakeOnlyFunc (hc_env shop_hook_call) nested_insert"
    unfolding QueryReferencesDucklakeOnlyFunc_def
    by (intro node_ex_False no_ducklake_call) (simp_all add: shop_hook_call_def DucklakeNamespaceOid_def OidIsValid_def InvalidOid_def)
  have "\<not> is_view (hc_planner shop_hook_call) r" for r by (simp add: shop_hook_call_def)
  note ok = this guard_or_def rte_subquery_def table_rte_def
  have "check_view_perms_recursive (hc_planner shop_hook_call) source_query = Inr ()"
    unfolding check_view_perms_recursive.simps [of _ source_query] by (simp add: ok source_query_def)
  then have view: "check_view_perms_recursive (hc_planner shop_hook_call) nested_insert = Inr ()"
    unfolding check_view_perms_recursive.simps [of _ nested_insert] by (simp add: ok nested_insert_def)
  have head: "commandType (q_head nested_insert) = CMD_INSERT" "\<not> returningList (q_head nested_insert)" "\<not> hasModifyingCTE (q_head nested_insert)"
    by (simp_all add: nested_insert_def shop_query_def)
  have plan: "PlanNode (hc_planner shop_hook_call) True True nested_insert c = (c, Inr (Some shop_stmt))" for c
    using head by (simp add: PlanNode_def view CreatePlan_def shop_stmt_def shop_tree_def materialize_finished_plan_def)
      (simp add: shop_hook_call_def)
  have "plan_rewritten shop_hook_call nested_insert shop_hook_state = (shop_hook_state, Inr (DuckDBPlan shop_stmt))"
    using refs func plan by (simp add: plan_rewritten_def Let_def) (simp add: shop_hook_call_def shop_hook_state_def)
  moreover have "hc_context shop_hook_call = shop_planner\<lparr>dc_enabled := False\<rparr>" by (simp add: shop_hook_call_def)
  moreover have "shop_hook_state\<lparr>hs_session := hs_session shop_hook_state\<rparr> = shop_hook_state" by simp
  ultimately show ?thesis
    using nested_insert_safe shop_not_parameterized shop_rewritten
    by (simp add: DucklakePlannerHook_def shop_planner_def RejectParameterizedUnnestFallback_def guard_or_def)
qed

theorem cached_insert_rechecked_witness:
  "\<exists>q native. FindDucklakeInsertQuery shop_tree = Some (q, native) \<and> target_of q = target_of nested_insert \<and>
    CheckDucklakeInsertSafety shop_catalog q = Inr True"
proof -
  have tree: "plan_tree (DuckDBPlan shop_stmt) = Some shop_tree" by (simp add: shop_stmt_def)
  have cat: "dc_catalog (hc_context shop_hook_call) = shop_catalog" "dc_catalog shop_planner = shop_catalog"
    by (simp_all add: shop_hook_call_def shop_planner_def)
  have t: "target_of nested_insert = 300" "0 \<le> resultRelation (q_head nested_insert)"
    by (simp_all add: target_of_def nested_insert_def table_rte_def shop_query_def)
  have am: "lake_am_registered shop_catalog (hc_planner shop_hook_call)" by (simp add: lake_am_registered_def shop_hook_call_def)
  have start: "DucklakeExecutorStartHook shop_planner (hc_planner shop_hook_call) shop_tree (\<lambda>_. None) = ((\<lambda>_. None), Inr shop_tree)"
    using nested_insert_safe
    by (simp add: DucklakeExecutorStartHook_def shop_tree_def direct_query_def duckdb_insert_query_def or_else_def cat)
  have rel: "OidIsValid (pc_ducklake_am shop_catalog)" "relam (pc_relation shop_catalog 300) = pc_ducklake_am shop_catalog"
    by (simp_all add: shop_catalog_def shop_relation_def OidIsValid_def InvalidOid_def)
  from cached_insert_rechecked [OF shop_planned] nested_insert_safe am t tree start rel show ?thesis
    by (auto simp: cat InvalidOid_def) (metis cat(2))
qed

section \<open>What the rewrites and the caches leave out\<close>

text \<open>In a chain of operators every second one stays: the arguments of a rewritten operator are not rewritten
  themselves, only what is below them.\<close>

lemma chained_operator_not_rewritten:
  assumes "variant_target pc env t (OpExpr g t' [Var i j, Const text_oid k]) (Const text_oid k') = Some (target, rt)"
  shows "RewriteVariantOpMutator pc env (OpExpr f t [OpExpr g t' [Var i j, Const text_oid k], Const text_oid k']) =
    Inr (FuncExpr target False rt [OpExpr g t' [Var i j, Const text_oid k], Const text_oid k'])"
  using assms by (simp add: RewriteVariantOpMutator.simps)

text \<open>A native plan that is replaced when it starts is planned from the query as it was parsed, without the rewrites
  that the planner hook makes before it calls the same planner.\<close>

lemma fallback_not_rewritten:
  assumes "DucklakeExecutorStartHook dc dp (CustomScan DuckLakeDirectInsert private tlist [] None None) cache = (cache', Inr run)"
    and "direct_query DuckLakeDirectInsert private = Some parse" and "commandType (q_head parse) = CMD_INSERT" and "dc_transaction_block dc"
  shows "FindDucklakeInsertQuery run = Some (parse, False)"
  using assms duckdb_plan_query [OF _ assms(3)]
  by (auto simp: DucklakeExecutorStartHook_def or_else_def split: sum.splits if_splits prod.splits option.splits)

text \<open>The cached schema outlives the extension: after it has been dropped and created again, its functions are not
  recognised.\<close>

lemma recreated_schema_not_recognised:
  assumes "OidIsValid (DucklakeNamespaceOid env)" and "pg_proc env f = Some (n, src)" and "n \<noteq> DucklakeNamespaceOid env"
  shows "\<not> IsDucklakeOnlyFunction ((remember_namespace env)\<lparr>nsp_catalog := n\<rparr>) f"
  using assms by (simp add: IsDucklakeOnlyFunction_def remember_namespace_def DucklakeNamespaceOid_def)

end
