(* ===== verification/Sorted_By.thy ===== *)
theory Sorted_By
  imports Lake_Db C_Strings
begin

text \<open>
  Sort and partition keys: \<^verbatim>\<open>sorted_by.cpp\<close> and \<^verbatim>\<open>partitioned_by.cpp\<close>. A sort order is set with a
  procedure or with a \<^verbatim>\<open>CREATE INDEX ... USING ducklake_sorted\<close>, which becomes an \<^verbatim>\<open>ALTER TABLE ... SET SORTED BY\<close> in DuckDB; in the
  other direction the trigger on the snapshot table reads new sort keys from the metadata and replaces the table's marker
  index.

  State are the marker indexes in \<^verbatim>\<open>pg_class\<close>, and the two flags of the process. What is DuckDB's or PostgreSQL's is a
  parameter: whether DuckDB accepts a statement, how a name is found on the search path, which object id and name a
  new index gets and whether \<^verbatim>\<open>CREATE INDEX\<close> accepts its keys.
\<close>

datatype sort_error = NullTable | NullKeys | EmptyKeys | NullKey | NotALakeTable oid | DuckDBError string | NoSuchIndex string
  | CreateIndexFailed string | UnsupportedExpression | NotSupported string | BadIndexKey | NoSuchTable

record sort_flags =
  sort_synced_from_pg :: bool
  syncing_from_metadata :: bool

record sorted_index =
  idx_oid :: oid
  idx_name :: string
  idx_rel :: oid
  idx_am :: oid
  idx_spec :: string

record sort_catalog =
  sorted_am :: oid
  is_lake_table :: "oid \<Rightarrow> bool"
  pgddb_relation_name :: "oid \<Rightarrow> string"
  duck_accepts :: "string \<Rightarrow> bool"
  find_index_name :: "string \<Rightarrow> sorted_index list \<Rightarrow> oid option"
  new_index :: "sorted_index list \<Rightarrow> oid \<times> string"
  index_keys_ok :: "string \<Rightarrow> bool"
  namespace_oid :: "string \<Rightarrow> oid"
  relname_relid :: "string \<Rightarrow> oid \<Rightarrow> oid"

section \<open>The marker indexes\<close>

definition sorted_on :: "sort_catalog \<Rightarrow> oid \<Rightarrow> sorted_index \<Rightarrow> bool" where
  "sorted_on sc rel ix \<longleftrightarrow> idx_rel ix = rel \<and> idx_am ix = sorted_am sc"

text \<open>\<^verbatim>\<open>DROP INDEX\<close> with the bare name of an index.\<close>

definition drop_by_name :: "sort_catalog \<Rightarrow> oid \<Rightarrow> sorted_index list \<Rightarrow> sort_error + sorted_index list" where
  "drop_by_name sc oid ixs =
     (case find (\<lambda>ix. idx_oid ix = oid) ixs of
        None \<Rightarrow> Inl (NoSuchIndex '''')
      | Some ix \<Rightarrow>
          (case find_index_name sc (idx_name ix) ixs of
             None \<Rightarrow> Inl (NoSuchIndex (idx_name ix))
           | Some found \<Rightarrow> Inr (filter (\<lambda>x. idx_oid x \<noteq> found) ixs)))"

definition drop_indexes :: "sort_catalog \<Rightarrow> oid \<Rightarrow> sorted_index list \<Rightarrow> sort_error + sorted_index list" where
  "drop_indexes sc rel ixs = fold_err (drop_by_name sc) (map idx_oid (filter (sorted_on sc rel) ixs)) ixs"

definition create_index :: "sort_catalog \<Rightarrow> oid \<times> string \<Rightarrow> sorted_index list \<Rightarrow> sort_error + sorted_index list" where
  "create_index sc action ixs = (case action of (rel, spec) \<Rightarrow>
     if \<not> index_keys_ok sc spec then Inl (CreateIndexFailed spec)
     else Inr (ixs @ [\<lparr>idx_oid = fst (new_index sc ixs), idx_name = snd (new_index sc ixs), idx_rel = rel, idx_am = sorted_am sc, idx_spec = spec\<rparr>]))"

definition SyncSortedIndexes :: "sort_catalog \<Rightarrow> (oid \<times> string) list \<Rightarrow> oid list \<Rightarrow> sorted_index list \<Rightarrow> sort_error + sorted_index list" where
  "SyncSortedIndexes sc creates resets ixs =
     (if \<not> OidIsValid (sorted_am sc) then Inr ixs
      else andthen (fold_err (\<lambda>action xs. andthen (drop_indexes sc (fst action) xs) (create_index sc action)) creates ixs)
             (fold_err (drop_indexes sc) resets))"

definition CreateSortedIndexForTable :: "sort_catalog \<Rightarrow> oid \<Rightarrow> string \<Rightarrow> sorted_index list \<Rightarrow> sort_error + sorted_index list" where
  "CreateSortedIndexForTable sc rel spec = SyncSortedIndexes sc [(rel, spec)] []"

definition DropSortedIndexForTable :: "sort_catalog \<Rightarrow> oid \<Rightarrow> sorted_index list \<Rightarrow> sort_error + sorted_index list" where
  "DropSortedIndexForTable sc rel = SyncSortedIndexes sc [] [rel]"

section \<open>The procedures\<close>

text \<open>The elements of the text array argument, \<open>None\<close> for a null array.\<close>

definition key_spec :: "string option list option \<Rightarrow> sort_error + string" where
  "key_spec keys =
     (case keys of
        None \<Rightarrow> Inl NullKeys
      | Some ks \<Rightarrow>
          if ks = [] then Inl EmptyKeys
          else andthen (map_err (\<lambda>k. case k of None \<Rightarrow> Inl NullKey | Some s \<Rightarrow> Inr s) ks) (\<lambda>ss. Inr (join_with '', '' ss)))"

definition table_arg :: "sort_catalog \<Rightarrow> oid option \<Rightarrow> sort_error + oid" where
  "table_arg sc rel = (case rel of None \<Rightarrow> Inl NullTable | Some r \<Rightarrow> Inr r)"

definition EnsureDuckLakeTable :: "sort_catalog \<Rightarrow> oid \<Rightarrow> sort_error + unit" where
  "EnsureDuckLakeTable sc rel = guard_or (NotALakeTable rel) (is_lake_table sc rel)"

definition DuckDBQueryOrThrow :: "sort_catalog \<Rightarrow> string \<Rightarrow> sort_error + unit" where
  "DuckDBQueryOrThrow sc query = guard_or (DuckDBError query) (duck_accepts sc query)"

definition set_sorted_by :: "sort_catalog \<Rightarrow> oid \<Rightarrow> string \<Rightarrow> string" where
  "set_sorted_by sc rel spec = ''ALTER TABLE '' @ pgddb_relation_name sc rel @ '' SET SORTED BY ('' @ spec @ '')''"

definition reset_sorted_by :: "sort_catalog \<Rightarrow> oid \<Rightarrow> string" where
  "reset_sorted_by sc rel = ''ALTER TABLE '' @ pgddb_relation_name sc rel @ '' RESET SORTED BY''"

text \<open>The flags after the call, next to its result: \<^verbatim>\<open>sort_synced_from_pg\<close> is reset on both paths, \<^verbatim>\<open>syncing_from_metadata\<close> only
  when the index was written.\<close>

definition apply_sort ::
  "sort_catalog \<Rightarrow> string \<Rightarrow> (sorted_index list \<Rightarrow> sort_error + sorted_index list) \<Rightarrow> sorted_index list \<times> sort_flags \<Rightarrow>
   (sorted_index list \<times> sort_flags) \<times> (sort_error + unit)" where
  "apply_sort sc query sync st = (case st of (ixs, f) \<Rightarrow>
     (case DuckDBQueryOrThrow sc query of
        Inl e \<Rightarrow> ((ixs, f\<lparr>sort_synced_from_pg := False\<rparr>), Inl e)
      | Inr _ \<Rightarrow>
          (case sync ixs of
             Inl e \<Rightarrow> ((ixs, f\<lparr>sort_synced_from_pg := False, syncing_from_metadata := True\<rparr>), Inl e)
           | Inr ixs' \<Rightarrow> ((ixs', f\<lparr>sort_synced_from_pg := False, syncing_from_metadata := False\<rparr>), Inr ()))))"

definition ducklake_set_sort ::
  "sort_catalog \<Rightarrow> oid option \<Rightarrow> string option list option \<Rightarrow> sorted_index list \<times> sort_flags \<Rightarrow>
   (sorted_index list \<times> sort_flags) \<times> (sort_error + unit)" where
  "ducklake_set_sort sc arg keys st =
     (case andthen (table_arg sc arg) (\<lambda>rel. andthen (guard_or NullKeys (keys \<noteq> None)) (\<lambda>_. andthen (EnsureDuckLakeTable sc rel) (\<lambda>_.
            andthen (key_spec keys) (\<lambda>spec. Inr (rel, spec))))) of
        Inl e \<Rightarrow> (st, Inl e)
      | Inr (rel, spec) \<Rightarrow> apply_sort sc (set_sorted_by sc rel spec) (CreateSortedIndexForTable sc rel spec) st)"

definition ducklake_reset_sort ::
  "sort_catalog \<Rightarrow> oid option \<Rightarrow> sorted_index list \<times> sort_flags \<Rightarrow> (sorted_index list \<times> sort_flags) \<times> (sort_error + unit)" where
  "ducklake_reset_sort sc arg st =
     (case andthen (table_arg sc arg) (\<lambda>rel. andthen (EnsureDuckLakeTable sc rel) (\<lambda>_. Inr rel)) of
        Inl e \<Rightarrow> (st, Inl e)
      | Inr rel \<Rightarrow> apply_sort sc (reset_sorted_by sc rel) (DropSortedIndexForTable sc rel) st)"

definition ducklake_set_partition :: "sort_catalog \<Rightarrow> oid option \<Rightarrow> string option list option \<Rightarrow> sort_error + unit" where
  "ducklake_set_partition sc arg keys =
     andthen (table_arg sc arg) (\<lambda>rel. andthen (guard_or NullKeys (keys \<noteq> None)) (\<lambda>_. andthen (EnsureDuckLakeTable sc rel) (\<lambda>_.
     andthen (key_spec keys) (\<lambda>spec.
       DuckDBQueryOrThrow sc (''ALTER TABLE '' @ pgddb_relation_name sc rel @ '' SET PARTITIONED BY ('' @ spec @ '')'')))))"

definition ducklake_reset_partition :: "sort_catalog \<Rightarrow> oid option \<Rightarrow> sort_error + unit" where
  "ducklake_reset_partition sc arg =
     andthen (table_arg sc arg) (\<lambda>rel. andthen (EnsureDuckLakeTable sc rel) (\<lambda>_.
       DuckDBQueryOrThrow sc (''ALTER TABLE '' @ pgddb_relation_name sc rel @ '' RESET PARTITIONED BY'')))"

section \<open>CREATE INDEX and DROP INDEX\<close>

definition squote :: char where "squote = CHR 0x27"

definition EscapeSQLString :: "string \<Rightarrow> string" where
  "EscapeSQLString str = [squote] @ concat (map (\<lambda>p. if p = squote then [squote, squote] else [p]) str) @ [squote]"

text \<open>Raw parse nodes. A field of a column reference or a part of a type name that is not a string is \<open>None\<close>.\<close>

datatype a_const = ConstInteger int | ConstFloat string | ConstString string | ConstBoolean bool | ConstBitString string | ConstNull

datatype raw_node =
    NoNode
  | ColumnRef "string option list"
  | FuncCall "string list" "raw_node list"
  | A_Const a_const
  | TypeCast raw_node "string option list"
  | OtherNode

fun const_sql :: "a_const \<Rightarrow> string" where
  "const_sql (ConstInteger i) = dec_of_int i"
| "const_sql (ConstFloat f) = f"
| "const_sql (ConstString s) = EscapeSQLString s"
| "const_sql _ = ''NULL''"

fun NodeToSQL :: "raw_node \<Rightarrow> sort_error + string" where
  "NodeToSQL NoNode = Inr ''''"
| "NodeToSQL (ColumnRef fs) = Inr (join_with ''.'' (map (\<lambda>f. case f of Some s \<Rightarrow> s | None \<Rightarrow> '''') fs))"
| "NodeToSQL (FuncCall funcname args) =
     andthen (map_err NodeToSQL args) (\<lambda>as. Inr (join_with ''.'' funcname @ ''('' @ join_with '', '' as @ '')''))"
| "NodeToSQL (A_Const c) = Inr (const_sql c)"
| "NodeToSQL (TypeCast arg names) =
     andthen (NodeToSQL arg) (\<lambda>a. Inr (a @ ''::'' @ join_with ''.'' (filter (\<lambda>n. n \<noteq> ''pg_catalog'') (somes names))))"
| "NodeToSQL OtherNode = Inl UnsupportedExpression"

datatype sort_ordering = SORTBY_DEFAULT | SORTBY_ASC | SORTBY_DESC

datatype nulls_ordering = SORTBY_NULLS_DEFAULT | SORTBY_NULLS_FIRST | SORTBY_NULLS_LAST

record index_elem =
  elem_name :: "string option"
  elem_expr :: "raw_node option"
  elem_collation :: bool
  elem_opclass :: "string list"
  elem_ordering :: sort_ordering
  elem_nulls :: nulls_ordering

record index_stmt =
  is_concurrent :: bool
  is_unique :: bool
  has_where :: bool
  has_including :: bool
  has_tablespace :: bool
  stmt_relation :: "oid option"
  indexParams :: "index_elem list"

definition sort_key_sql :: "index_elem \<Rightarrow> sort_error + string" where
  "sort_key_sql elem =
     andthen (guard_or (NotSupported ''COLLATE'') (\<not> elem_collation elem)) (\<lambda>_.
     andthen (guard_or (NotSupported ''opclass'') (elem_opclass elem = [] \<or> length (elem_opclass elem) = 2 \<and> hd (elem_opclass elem) = ''ducklake'')) (\<lambda>_.
     andthen (case elem_name elem of Some n \<Rightarrow> Inr n | None \<Rightarrow> (case elem_expr elem of Some e \<Rightarrow> NodeToSQL e | None \<Rightarrow> Inl BadIndexKey)) (\<lambda>key.
       Inr (key @ (if elem_ordering elem = SORTBY_DESC then '' DESC'' else '' ASC'') @
            (case elem_nulls elem of SORTBY_NULLS_FIRST \<Rightarrow> '' NULLS FIRST'' | SORTBY_NULLS_LAST \<Rightarrow> '' NULLS LAST'' | SORTBY_NULLS_DEFAULT \<Rightarrow> '''')))))"

definition get_create_sorted_index_def :: "sort_catalog \<Rightarrow> index_stmt \<Rightarrow> sort_error + string" where
  "get_create_sorted_index_def sc stmt =
     andthen (guard_or (NotSupported ''CONCURRENTLY'') (\<not> is_concurrent stmt)) (\<lambda>_.
     andthen (guard_or (NotSupported ''UNIQUE'') (\<not> is_unique stmt)) (\<lambda>_.
     andthen (guard_or (NotSupported ''WHERE'') (\<not> has_where stmt)) (\<lambda>_.
     andthen (guard_or (NotSupported ''INCLUDE'') (\<not> has_including stmt)) (\<lambda>_.
     andthen (guard_or (NotSupported ''TABLESPACE'') (\<not> has_tablespace stmt)) (\<lambda>_.
     andthen (case stmt_relation stmt of None \<Rightarrow> Inl NoSuchTable | Some r \<Rightarrow> Inr r) (\<lambda>rel.
     andthen (guard_or (NotALakeTable rel) (is_lake_table sc rel)) (\<lambda>_.
     andthen (map_err sort_key_sql (indexParams stmt)) (\<lambda>keys.
       Inr (set_sorted_by sc rel (join_with '', '' keys))))))))))"

definition ApplyCreateSortedIndex :: "sort_catalog \<Rightarrow> sort_flags \<Rightarrow> string \<Rightarrow> sort_error + unit" where
  "ApplyCreateSortedIndex sc f query = (if syncing_from_metadata f then Inr () else DuckDBQueryOrThrow sc query)"

text \<open>The sorted indexes among the objects of a \<^verbatim>\<open>DROP\<close>; \<open>find_rangevar\<close> is the lookup of a possibly qualified name. The
  result is each index and its table.\<close>

record drop_stmt =
  drop_index :: bool
  missing_ok :: bool
  drop_objects :: "string list list"

definition FindSortedIndexDrops ::
  "sort_catalog \<Rightarrow> (string list \<Rightarrow> sorted_index list \<Rightarrow> oid option) \<Rightarrow> drop_stmt \<Rightarrow> sorted_index list \<Rightarrow> sort_error + (oid \<times> oid) list" where
  "FindSortedIndexDrops sc find_rangevar dstmt ixs =
     (if \<not> drop_index dstmt \<or> \<not> OidIsValid (sorted_am sc) then Inr []
      else fold_err (\<lambda>name result.
             case find_rangevar name ixs of
               None \<Rightarrow> if missing_ok dstmt then Inr result else Inl (NoSuchIndex (join_with ''.'' name))
             | Some index_oid \<Rightarrow>
                 (case find (\<lambda>ix. idx_oid ix = index_oid) ixs of
                    None \<Rightarrow> Inr result
                  | Some ix \<Rightarrow> Inr (if idx_am ix \<noteq> sorted_am sc then result else result @ [(index_oid, idx_rel ix)])))
             (drop_objects dstmt) [])"

definition HandleDropSortedIndex :: "sort_catalog \<Rightarrow> sort_flags \<Rightarrow> (oid \<times> oid) list \<Rightarrow> sort_error + unit" where
  "HandleDropSortedIndex sc f drops =
     (if drops = [] \<or> syncing_from_metadata f then Inr ()
      else fold_err (\<lambda>(i, t) _. DuckDBQueryOrThrow sc (reset_sorted_by sc t)) drops ())"

section \<open>From the metadata to the indexes\<close>

record sort_info_row =
  si_sort_id :: int
  si_table_id :: int
  si_begin :: int
  si_end :: "int option"

record sort_expression_row =
  se_sort_id :: int
  se_key_index :: int
  se_expression :: "string option"
  se_direction :: "string option"
  se_null_order :: "string option"

record sort_table_row =
  t_table_id :: int
  t_schema_id :: int
  t_name :: "string option"
  t_begin :: int
  t_end :: "int option"

record sort_schema_row =
  s_schema_id :: int
  s_name :: "string option"
  s_end :: "int option"

record sort_metadata =
  sort_infos :: "sort_info_row list"
  sort_expressions :: "sort_expression_row list"
  md_tables :: "sort_table_row list"
  md_schemas :: "sort_schema_row list"

record SortKeyInfo =
  schema_name :: string
  table_name :: string
  expression :: string
  direction :: string
  null_order :: string

definition or_string :: "string option \<Rightarrow> string \<Rightarrow> string" where
  "or_string v d = (case v of Some s \<Rightarrow> s | None \<Rightarrow> d)"

text \<open>The join of the first query, with the keys it is ordered by.\<close>

definition live_tables :: "sort_metadata \<Rightarrow> int \<Rightarrow> (sort_table_row \<times> sort_schema_row) list" where
  "live_tables md tid = [(t, s). t \<leftarrow> md_tables md, t_table_id t = tid, t_end t = None, s \<leftarrow> md_schemas md, s_schema_id s = t_schema_id t, s_end s = None]"

definition new_sort_keys :: "sort_metadata \<Rightarrow> int \<Rightarrow> SortKeyInfo list" where
  "new_sort_keys md sid =
     map (\<lambda>(tid, k, row). row) (sort_key (\<lambda>(tid, k, row). tid) (sort_key (\<lambda>(tid, k, row). k)
       [(t_table_id t, se_key_index se,
         \<lparr>schema_name = or_string (s_name s) '''', table_name = or_string (t_name t) '''', expression = or_string (se_expression se) '''',
          direction = or_string (se_direction se) ''ASC'', null_order = or_string (se_null_order se) ''''\<rparr>).
         si \<leftarrow> sort_infos md, si_begin si = sid, se \<leftarrow> sort_expressions md, se_sort_id se = si_sort_id si, (t, s) \<leftarrow> live_tables md (si_table_id si)]))"

definition reset_tables :: "sort_metadata \<Rightarrow> int \<Rightarrow> (string option \<times> string option) list" where
  "reset_tables md sid = remdups
     [(s_name s, t_name t). si \<leftarrow> sort_infos md, si_end si = Some sid,
        \<not> list_ex (\<lambda>si2. si_table_id si2 = si_table_id si \<and> si_begin si2 = sid) (sort_infos md), (t, s) \<leftarrow> live_tables md (si_table_id si)]"

definition resolve :: "sort_catalog \<Rightarrow> string \<Rightarrow> string \<Rightarrow> oid option" where
  "resolve sc schema table =
     (if \<not> OidIsValid (namespace_oid sc schema) then None
      else if \<not> OidIsValid (relname_relid sc table (namespace_oid sc schema)) then None
      else Some (relname_relid sc table (namespace_oid sc schema)))"

text \<open>The loop over the sorted rows with its variables \<^verbatim>\<open>prev_schema\<close>, \<^verbatim>\<open>prev_table\<close>, \<^verbatim>\<open>idx_cols\<close> and \<^verbatim>\<open>sort_creates\<close>.\<close>

record sync_loop =
  prev_table :: "string \<times> string"
  idx_cols :: string
  sort_creates :: "(oid \<times> string) list"

definition flush_cols :: "sort_catalog \<Rightarrow> sync_loop \<Rightarrow> sync_loop" where
  "flush_cols sc l =
     (if idx_cols l = '''' then l
      else case resolve sc (fst (prev_table l)) (snd (prev_table l)) of
             None \<Rightarrow> l
           | Some rel \<Rightarrow> l\<lparr>sort_creates := sort_creates l @ [(rel, idx_cols l)], idx_cols := ''''\<rparr>)"

definition key_text :: "SortKeyInfo \<Rightarrow> string" where
  "key_text sk = expression sk @ '' '' @ direction sk @
     (if null_order sk = ''NULLS_FIRST'' then '' NULLS FIRST'' else if null_order sk = ''NULLS_LAST'' then '' NULLS LAST'' else '''')"

definition sync_step :: "sort_catalog \<Rightarrow> SortKeyInfo \<Rightarrow> sync_loop \<Rightarrow> sync_loop" where
  "sync_step sc sk l =
     (let l1 = (if (schema_name sk, table_name sk) \<noteq> prev_table l then (flush_cols sc l)\<lparr>prev_table := (schema_name sk, table_name sk)\<rparr> else l)
      in l1\<lparr>idx_cols := (if idx_cols l1 = '''' then '''' else idx_cols l1 @ '', '') @ key_text sk\<rparr>)"

definition sort_creates_of :: "sort_catalog \<Rightarrow> SortKeyInfo list \<Rightarrow> (oid \<times> string) list" where
  "sort_creates_of sc keys =
     sort_creates (flush_cols sc (fold (sync_step sc) keys \<lparr>prev_table = ('''', ''''), idx_cols = '''', sort_creates = []\<rparr>))"

definition sort_resets_of :: "sort_catalog \<Rightarrow> (string option \<times> string option) list \<Rightarrow> oid list" where
  "sort_resets_of sc rows = somes (map (\<lambda>(s, t). case (s, t) of (Some s', Some t') \<Rightarrow> resolve sc s' t' | _ \<Rightarrow> None) rows)"

definition SyncSortKeys :: "sort_catalog \<Rightarrow> sort_flags \<Rightarrow> sort_metadata \<Rightarrow> int \<Rightarrow> sorted_index list \<Rightarrow> sort_error + sorted_index list" where
  "SyncSortKeys sc f md sid ixs =
     (if sort_synced_from_pg f then Inr ixs
      else SyncSortedIndexes sc (sort_creates_of sc (new_sort_keys md sid)) (sort_resets_of sc (reset_tables md sid)) ixs)"

end
