(* ===== verification/Row_Groups.thy ===== *)
theory Row_Groups
  imports Main
begin

text \<open>
  Rows that a query returns ordered by a key are read in one pass that starts a new group whenever the key changes. This theory
  has the reference for such loops: the runs of rows with one key, and that for rows in which every key is contiguous they
  are exactly the groups of rows by key.
\<close>

fun contiguous :: "'k list \<Rightarrow> bool" where
  "contiguous [] = True"
| "contiguous (x # xs) = (contiguous xs \<and> (x \<in> set xs \<longrightarrow> hd xs = x))"

lemma sorted_contiguous: "sorted (xs :: 'a :: linorder list) \<Longrightarrow> contiguous xs"
proof (induction xs)
  case (Cons x xs)
  then show ?case by (cases xs) (auto simp: antisym)
qed simp

lemma contiguous_iff:
  "contiguous (map h xs) \<Longrightarrow> (\<And>x y. x \<in> set xs \<Longrightarrow> y \<in> set xs \<Longrightarrow> h x = h y \<longleftrightarrow> g x = g y) \<Longrightarrow> contiguous (map g xs)"
proof (induction xs)
  case (Cons x xs)
  have "g x \<in> g ` set xs \<Longrightarrow> h x \<in> h ` set xs" using Cons.prems(2) by force
  moreover have "contiguous (map g xs)" using Cons by simp
  ultimately show ?case using Cons.prems by (cases xs) auto
qed simp

text \<open>The runs of a list of rows, from an open run on.\<close>

fun runs :: "('r \<Rightarrow> 'k) \<Rightarrow> ('r \<Rightarrow> 'v list) \<Rightarrow> ('k \<times> 'v list) option \<Rightarrow> 'r list \<Rightarrow> ('k \<times> 'v list) list" where
  "runs key vals None [] = []"
| "runs key vals (Some g) [] = [g]"
| "runs key vals None (r # rs) = runs key vals (Some (key r, vals r)) rs"
| "runs key vals (Some (k, vs)) (r # rs) =
     (if key r = k then runs key vals (Some (k, vs @ vals r)) rs else (k, vs) # runs key vals (Some (key r, vals r)) rs)"

lemma runs_keys: "fst ` set (runs key vals (Some (k, vs)) rs) = insert k (key ` set rs)"
  by (induction rs arbitrary: k vs) (simp_all add: insert_commute)

lemma contiguous_drop: "contiguous (k # k # xs) \<Longrightarrow> contiguous (k # xs)"
  by simp

lemma contiguous_new: "contiguous (k # j # xs) \<Longrightarrow> j \<noteq> k \<Longrightarrow> k \<notin> set xs \<and> contiguous (j # xs)"
  by auto

lemma runs_distinct_open: "contiguous (k # map key rs) \<Longrightarrow> distinct (map fst (runs key vals (Some (k, vs)) rs))"
proof (induction rs arbitrary: k vs)
  case (Cons r rs)
  show ?case
  proof (cases "key r = k")
    case True
    then show ?thesis using Cons.IH Cons.prems contiguous_drop [of k "map key rs"] by simp
  next
    case False
    from contiguous_new [of k "key r" "map key rs"] Cons.prems False
    have "k \<notin> key ` set rs" "contiguous (key r # map key rs)" by auto
    then show ?thesis using Cons.IH [of "key r" "vals r"] False by (simp add: runs_keys)
  qed
qed simp

lemma runs_values_open:
  "contiguous (k # map key rs) \<Longrightarrow> (j, ws) \<in> set (runs key vals (Some (k, vs)) rs) \<Longrightarrow>
   ws = (if j = k then vs else []) @ concat (map vals (filter (\<lambda>r. key r = j) rs))"
proof (induction rs arbitrary: k vs)
  case (Cons r rs)
  show ?case
  proof (cases "key r = k")
    case True
    have "contiguous (k # map key rs)" using Cons.prems(1) True contiguous_drop [of k "map key rs"] by simp
    then show ?thesis using Cons.IH [of k "vs @ vals r"] Cons.prems(2) True by simp
  next
    case False
    from contiguous_new [of k "key r" "map key rs"] Cons.prems(1) False
    have n: "k \<notin> key ` set rs" "contiguous (key r # map key rs)" by auto
    have e: "filter (\<lambda>r. key r = k) rs = []" using n(1) by (auto simp: filter_empty_conv)
    from Cons.prems(2) False consider "j = k" "ws = vs" | "(j, ws) \<in> set (runs key vals (Some (key r, vals r)) rs)" by auto
    then show ?thesis
    proof cases
      case 1
      then show ?thesis using False e by simp
    next
      case 2
      have "j \<in> fst ` set (runs key vals (Some (key r, vals r)) rs)" using 2 by (rule image_eqI [rotated]) simp
      then have "j \<noteq> k" using n(1) False by (auto simp: runs_keys)
      then show ?thesis using Cons.IH [OF n(2) 2] by auto
    qed
  qed
qed simp

lemma length_runs_open: "length (runs key vals (Some g) rs) \<le> Suc (length rs)"
proof (induction rs arbitrary: g)
  case (Cons r rs)
  then show ?case by (cases g) (simp add: le_SucI)
qed simp

definition group_of :: "('r \<Rightarrow> 'k) \<Rightarrow> ('r \<Rightarrow> 'v list) \<Rightarrow> 'r list \<Rightarrow> 'k \<Rightarrow> 'v list" where
  "group_of key vals rs k = concat (map vals (filter (\<lambda>r. key r = k) rs))"

lemma runs_distinct: "contiguous (map key rs) \<Longrightarrow> distinct (map fst (runs key vals None rs))"
  by (cases rs) (simp_all add: runs_distinct_open)

lemma runs_all_keys: "fst ` set (runs key vals None rs) = key ` set rs"
  by (cases rs) (simp_all add: runs_keys)

lemma runs_groups:
  assumes "contiguous (map key rs)"
  shows "set (runs key vals None rs) = (\<lambda>k. (k, group_of key vals rs k)) ` key ` set rs"
proof -
  have g: "ws = group_of key vals rs j" if "(j, ws) \<in> set (runs key vals None rs)" for j ws
  proof (cases rs)
    case (Cons r rs')
    then have "ws = (if j = key r then vals r else []) @ concat (map vals (filter (\<lambda>r. key r = j) rs'))"
      using that assms by (intro runs_values_open [where vals = vals]) (simp_all only: runs.simps list.map)
    then show ?thesis using Cons by (simp add: group_of_def)
  qed (use that in simp)
  then have "x \<in> set (runs key vals None rs) \<Longrightarrow> x = (fst x, group_of key vals rs (fst x))" for x by (cases x) simp
  then have "set (runs key vals None rs) = (\<lambda>x. (fst x, group_of key vals rs (fst x))) ` set (runs key vals None rs)" by force
  also have "\<dots> = (\<lambda>k. (k, group_of key vals rs k)) ` fst ` set (runs key vals None rs)" by (simp add: image_image)
  finally show ?thesis by (simp only: runs_all_keys)
qed

lemma length_runs: "length (runs key vals None rs) \<le> length rs"
  by (cases rs) (simp_all add: length_runs_open)

end
