(* ===== verification/Sorted_By_Props.thy ===== *)
theory Sorted_By_Props
  imports Sorted_By Row_Groups
begin

text \<open>
  Facts about sort keys. The marker indexes after a sync are those of the metadata: one index for each table with new
  sort keys, carrying them in order, none for a table whose keys were reset, and everything else as it was. The lemmas at
  the end show where the code departs from this.
\<close>

section \<open>Rows grouped by table\<close>

definition tab :: "SortKeyInfo \<Rightarrow> string \<times> string" where
  "tab r = (schema_name r, table_name r)"

definition rel_of :: "sort_catalog \<Rightarrow> string \<times> string \<Rightarrow> oid option" where
  "rel_of sc T = resolve sc (fst T) (snd T)"

lemma key_text_nonempty: "key_text r \<noteq> ''''"
  by (simp add: key_text_def)

lemma join_nonempty: "cs \<noteq> [] \<Longrightarrow> '''' \<notin> set cs \<Longrightarrow> join_with sep cs \<noteq> ''''"
  by (induction sep cs rule: join_with.induct) auto

text \<open>The keys collected for a table, and what becomes of them.\<close>

abbreviation key_runs :: "((string \<times> string) \<times> string list) option \<Rightarrow> SortKeyInfo list \<Rightarrow> ((string \<times> string) \<times> string list) list" where
  "key_runs \<equiv> runs tab (\<lambda>r. [key_text r])"

definition create_for :: "sort_catalog \<Rightarrow> (string \<times> string) \<times> string list \<Rightarrow> oid \<times> string" where
  "create_for sc g = (the (rel_of sc (fst g)), join_with '', '' (snd g))"

definition collected :: "((string \<times> string) \<times> string list) option \<Rightarrow> sync_loop \<Rightarrow> bool" where
  "collected og l = (case og of None \<Rightarrow> idx_cols l = '''' |
     Some (T, cs) \<Rightarrow> prev_table l = T \<and> cs \<noteq> [] \<and> '''' \<notin> set cs \<and> idx_cols l = join_with '', '' cs)"

lemma collected_empty: "collected og l \<Longrightarrow> idx_cols l = '''' \<longleftrightarrow> og = None"
  by (cases og) (auto simp: collected_def dest: join_nonempty [of _ "'', ''"])

lemma flush_collected:
  assumes "collected og l" "\<And>T cs. og = Some (T, cs) \<Longrightarrow> rel_of sc T \<noteq> None"
  shows "idx_cols (flush_cols sc l) = ''''" "sort_creates (flush_cols sc l) = sort_creates l @ map (create_for sc) (key_runs og [])"
  using assms collected_empty [OF assms(1)]
  by (auto simp: flush_cols_def rel_of_def collected_def create_for_def split: option.splits)

lemma loop_runs:
  assumes "\<forall>T \<in> tab ` set rs. rel_of sc T \<noteq> None" "\<And>T cs. og = Some (T, cs) \<Longrightarrow> rel_of sc T \<noteq> None" "collected og l"
  shows "sort_creates (flush_cols sc (fold (sync_step sc) rs l)) = sort_creates l @ map (create_for sc) (key_runs og rs)"
  using assms
proof (induction rs arbitrary: l og)
  case Nil
  then show ?case by (simp add: flush_collected)
next
  case (Cons r rs)
  have t: "rel_of sc (tab r) \<noteq> None" "\<forall>T \<in> tab ` set rs. rel_of sc T \<noteq> None" using Cons.prems(1) by auto
  show ?case
  proof (cases "\<exists>cs. og = Some (tab r, cs)")
    case True
    then obtain cs where o: "og = Some (tab r, cs)" by blast
    with Cons.prems(3) have l: "prev_table l = tab r" "cs \<noteq> []" "'''' \<notin> set cs" "idx_cols l = join_with '', '' cs" by (simp_all add: collected_def)
    then have "collected (Some (tab r, cs @ [key_text r])) (sync_step sc r l)"
      using key_text_nonempty [of r] by (simp add: collected_def sync_step_def tab_def Let_def join_with_snoc join_nonempty)
    moreover have "sort_creates (sync_step sc r l) = sort_creates l" using l(1) by (simp add: sync_step_def tab_def Let_def)
    ultimately show ?thesis using Cons.IH [of "Some (tab r, cs @ [key_text r])" "sync_step sc r l"] t o by simp
  next
    case False
    note f = flush_collected [OF Cons.prems(3) Cons.prems(2)]
    have "collected (Some (tab r, [key_text r])) (sync_step sc r l) \<and> sort_creates (sync_step sc r l) = sort_creates l @ map (create_for sc) (key_runs og [])"
    proof (cases "tab r = prev_table l")
      case True
      then have "og = None" using False Cons.prems(3) by (auto simp: collected_def split: option.splits)
      then show ?thesis using True Cons.prems(3) key_text_nonempty [of r] by (simp add: collected_def sync_step_def tab_def Let_def)
    next
      case n: False
      then show ?thesis using f key_text_nonempty [of r] by (simp add: collected_def sync_step_def tab_def Let_def)
    qed
    then have "sort_creates (flush_cols sc (fold (sync_step sc) (r # rs) l)) =
        sort_creates l @ map (create_for sc) (key_runs og [] @ key_runs (Some (tab r, [key_text r])) rs)"
      using Cons.IH [of "Some (tab r, [key_text r])" "sync_step sc r l"] t by simp
    also have "key_runs og [] @ key_runs (Some (tab r, [key_text r])) rs = key_runs og (r # rs)"
      using False by (cases og) auto
    finally show ?thesis .
  qed
qed

lemma creates_runs:
  assumes "\<forall>r \<in> set rs. rel_of sc (tab r) \<noteq> None"
  shows "sort_creates_of sc rs = map (create_for sc) (key_runs None rs)"
  using loop_runs [of rs sc None "\<lparr>prev_table = ('''', ''''), idx_cols = '''', sort_creates = []\<rparr>"] assms
  by (simp add: sort_creates_of_def collected_def)

section \<open>The indexes of a table\<close>

definition indexes_ok :: "sorted_index list \<Rightarrow> bool" where
  "indexes_ok ixs \<longleftrightarrow> distinct (map idx_oid ixs) \<and> distinct (map idx_name ixs)"

text \<open>What PostgreSQL promises while index names are unique and found on the search path, and an object id is free.\<close>

definition index_laws :: "sort_catalog \<Rightarrow> bool" where
  "index_laws sc \<longleftrightarrow> OidIsValid (sorted_am sc) \<and> (\<forall>ixs. indexes_ok ixs \<longrightarrow>
     (\<forall>ix \<in> set ixs. find_index_name sc (idx_name ix) ixs = Some (idx_oid ix)) \<and>
     (length ixs < 2 ^ 32 \<longrightarrow> fst (new_index sc ixs) \<notin> idx_oid ` set ixs \<and> snd (new_index sc ixs) \<notin> idx_name ` set ixs))"

definition table_specs :: "sort_catalog \<Rightarrow> oid \<Rightarrow> sorted_index list \<Rightarrow> string list" where
  "table_specs sc rel ixs = map idx_spec (filter (sorted_on sc rel) ixs)"

lemma indexes_ok_filter: "indexes_ok ixs \<Longrightarrow> indexes_ok (filter P ixs)"
  by (simp add: indexes_ok_def distinct_map_filter)

lemma find_oid: "indexes_ok ixs \<Longrightarrow> ix \<in> set ixs \<Longrightarrow> find (\<lambda>x. idx_oid x = idx_oid ix) ixs = Some ix"
  by (induction ixs) (auto simp: indexes_ok_def)

lemma drop_by_name_eq:
  assumes "index_laws sc" "indexes_ok ixs" "ix \<in> set ixs"
  shows "drop_by_name sc (idx_oid ix) ixs = Inr (filter (\<lambda>x. idx_oid x \<noteq> idx_oid ix) ixs)"
  using assms find_oid [OF assms(2,3)] by (simp add: drop_by_name_def index_laws_def)

lemma drop_each:
  assumes "index_laws sc" "indexes_ok ixs" "set ys \<subseteq> set ixs" "distinct (map idx_oid ys)"
  shows "fold_err (drop_by_name sc) (map idx_oid ys) ixs = Inr (filter (\<lambda>x. idx_oid x \<notin> idx_oid ` set ys) ixs)"
  using assms
proof (induction ys arbitrary: ixs)
  case (Cons y ys)
  have "set ys \<subseteq> set (filter (\<lambda>x. idx_oid x \<noteq> idx_oid y) ixs)" using Cons.prems(3,4) by (auto simp: image_iff)
  then show ?case using Cons.prems Cons.IH [of "filter (\<lambda>x. idx_oid x \<noteq> idx_oid y) ixs"]
    by (simp add: drop_by_name_eq indexes_ok_filter conj_commute)
qed simp

lemma drop_indexes_eq:
  assumes "index_laws sc" "indexes_ok ixs"
  shows "drop_indexes sc rel ixs = Inr (filter (\<lambda>x. \<not> sorted_on sc rel x) ixs)"
proof -
  have "inj_on idx_oid (set ixs)" using assms(2) by (simp add: indexes_ok_def distinct_map)
  then have "x \<in> set ixs \<Longrightarrow> idx_oid x \<notin> idx_oid ` set (filter (sorted_on sc rel) ixs) \<longleftrightarrow> \<not> sorted_on sc rel x" for x
    by (auto dest: inj_onD)
  then show ?thesis using assms drop_each [of sc ixs "filter (sorted_on sc rel) ixs"]
    by (simp add: drop_indexes_def indexes_ok_def distinct_map_filter cong: filter_cong)
qed

lemma create_step:
  assumes "index_laws sc" "indexes_ok ixs" "index_keys_ok sc (snd a)" "length ixs < 2 ^ 32"
  obtains ixs' where "andthen (drop_indexes sc (fst a) ixs) (create_index sc a) = Inr ixs'" "indexes_ok ixs'" "length ixs' \<le> Suc (length ixs)"
    "table_specs sc (fst a) ixs' = [snd a]" "\<And>rel. rel \<noteq> fst a \<Longrightarrow> table_specs sc rel ixs' = table_specs sc rel ixs"
proof -
  define kept where "kept = filter (\<lambda>x. \<not> sorted_on sc (fst a) x) ixs"
  define n where "n = \<lparr>idx_oid = fst (new_index sc kept), idx_name = snd (new_index sc kept), idx_rel = fst a, idx_am = sorted_am sc, idx_spec = snd a\<rparr>"
  have k: "indexes_ok kept" "length kept \<le> length ixs" using assms(2) by (simp_all add: kept_def indexes_ok_filter)
  then have "fst (new_index sc kept) \<notin> idx_oid ` set kept" "snd (new_index sc kept) \<notin> idx_name ` set kept"
    using assms(1,4) unfolding index_laws_def by force+
  then have "indexes_ok (kept @ [n])" using k by (simp add: indexes_ok_def n_def)
  moreover have "andthen (drop_indexes sc (fst a) ixs) (create_index sc a) = Inr (kept @ [n])"
    using assms by (cases a) (simp add: drop_indexes_eq create_index_def n_def kept_def)
  moreover have "table_specs sc rel kept = (if rel = fst a then [] else table_specs sc rel ixs)" for rel
    by (auto simp: table_specs_def kept_def sorted_on_def filter_empty_conv intro!: arg_cong [where f = "map idx_spec"] filter_cong)
  then have "table_specs sc (fst a) (kept @ [n]) = [snd a]"
    "\<And>rel. rel \<noteq> fst a \<Longrightarrow> table_specs sc rel (kept @ [n]) = table_specs sc rel ixs"
    by (simp_all add: table_specs_def n_def sorted_on_def)
  ultimately show ?thesis using k that by fastforce
qed

lemma creates_done:
  assumes "index_laws sc" "indexes_ok ixs" "distinct (map fst creates)" "\<forall>a \<in> set creates. index_keys_ok sc (snd a)"
    "length ixs + length creates < 2 ^ 32"
  shows "\<exists>ixs'. fold_err (\<lambda>a xs. andthen (drop_indexes sc (fst a) xs) (create_index sc a)) creates ixs = Inr ixs' \<and> indexes_ok ixs' \<and>
    (\<forall>a \<in> set creates. table_specs sc (fst a) ixs' = [snd a]) \<and>
    (\<forall>rel. rel \<notin> fst ` set creates \<longrightarrow> table_specs sc rel ixs' = table_specs sc rel ixs)"
  using assms
proof (induction creates arbitrary: ixs)
  case (Cons a creates)
  from Cons.prems obtain ixs1 where s: "andthen (drop_indexes sc (fst a) ixs) (create_index sc a) = Inr ixs1" "indexes_ok ixs1"
    "length ixs1 \<le> Suc (length ixs)" "table_specs sc (fst a) ixs1 = [snd a]"
    "\<And>rel. rel \<noteq> fst a \<Longrightarrow> table_specs sc rel ixs1 = table_specs sc rel ixs"
    by (elim create_step [of sc ixs a]) auto
  obtain ixs2 where r: "fold_err (\<lambda>a xs. andthen (drop_indexes sc (fst a) xs) (create_index sc a)) creates ixs1 = Inr ixs2" "indexes_ok ixs2"
    "\<forall>a \<in> set creates. table_specs sc (fst a) ixs2 = [snd a]"
    "\<forall>rel. rel \<notin> fst ` set creates \<longrightarrow> table_specs sc rel ixs2 = table_specs sc rel ixs1"
    using Cons.IH [of ixs1] Cons.prems s by auto
  have "fst a \<notin> fst ` set creates" using Cons.prems(3) by simp
  then show ?case using s r by (intro exI [of _ ixs2]) auto
qed simp

lemma resets_done:
  assumes "index_laws sc" "indexes_ok ixs"
  shows "\<exists>ixs'. fold_err (drop_indexes sc) resets ixs = Inr ixs' \<and>
    (\<forall>rel. table_specs sc rel ixs' = (if rel \<in> set resets then [] else table_specs sc rel ixs))"
  using assms
proof (induction resets arbitrary: ixs)
  case (Cons r resets)
  have t: "table_specs sc rel (filter (\<lambda>x. \<not> sorted_on sc r x) ixs) = (if rel = r then [] else table_specs sc rel ixs)" for rel
    by (auto simp: table_specs_def sorted_on_def filter_empty_conv intro!: arg_cong [where f = "map idx_spec"] filter_cong)
  from Cons.IH [OF Cons.prems(1) indexes_ok_filter [OF Cons.prems(2)], of "\<lambda>x. \<not> sorted_on sc r x"] show ?case
    using Cons.prems by (auto simp: drop_indexes_eq t)
qed simp

lemma sync_done:
  assumes "index_laws sc" "indexes_ok ixs" "distinct (map fst creates)" "\<forall>a \<in> set creates. index_keys_ok sc (snd a)"
    "length ixs + length creates < 2 ^ 32" "set resets \<inter> fst ` set creates = {}"
  shows "\<exists>ixs'. SyncSortedIndexes sc creates resets ixs = Inr ixs' \<and> (\<forall>a \<in> set creates. table_specs sc (fst a) ixs' = [snd a]) \<and>
    (\<forall>rel \<in> set resets. table_specs sc rel ixs' = []) \<and>
    (\<forall>rel. rel \<notin> fst ` set creates \<union> set resets \<longrightarrow> table_specs sc rel ixs' = table_specs sc rel ixs)"
proof -
  from creates_done [OF assms(1-5)] obtain ixs1 where
    c: "fold_err (\<lambda>a xs. andthen (drop_indexes sc (fst a) xs) (create_index sc a)) creates ixs = Inr ixs1" "indexes_ok ixs1"
    "\<forall>a \<in> set creates. table_specs sc (fst a) ixs1 = [snd a]"
    "\<forall>rel. rel \<notin> fst ` set creates \<longrightarrow> table_specs sc rel ixs1 = table_specs sc rel ixs" by blast
  from resets_done [OF assms(1) c(2), of resets] obtain ixs2 where
    r: "fold_err (drop_indexes sc) resets ixs1 = Inr ixs2"
    "\<forall>rel. table_specs sc rel ixs2 = (if rel \<in> set resets then [] else table_specs sc rel ixs1)" by blast
  have "fst a \<notin> set resets" if "a \<in> set creates" for a using assms(6) that by auto
  then show ?thesis using c r assms(1) by (intro exI [of _ ixs2]) (auto simp: SyncSortedIndexes_def index_laws_def)
qed

section \<open>From the metadata\<close>

definition live_list :: "sort_metadata \<Rightarrow> (sort_table_row \<times> sort_schema_row) list" where
  "live_list md = [(t, s). t \<leftarrow> md_tables md, t_end t = None, s \<leftarrow> md_schemas md, s_schema_id s = t_schema_id t, s_end s = None]"

text \<open>The names of DuckLake's live tables are set, and two live tables of one name are one table.\<close>

definition md_ok :: "sort_metadata \<Rightarrow> bool" where
  "md_ok md \<longleftrightarrow> (\<forall>(t, s) \<in> set (live_list md). t_name t \<noteq> None \<and> s_name s \<noteq> None \<and>
     (\<forall>(t', s') \<in> set (live_list md). t_table_id t = t_table_id t' \<longleftrightarrow> (s_name s, t_name t) = (s_name s', t_name t')))"

text \<open>The sort order of a table in the rows of the query.\<close>

definition spec_of :: "SortKeyInfo list \<Rightarrow> string \<times> string \<Rightarrow> string" where
  "spec_of keys T = join_with '', '' (map key_text (filter (\<lambda>r. tab r = T) keys))"

lemma live_tables_iff: "p \<in> set (live_tables md tid) \<longleftrightarrow> p \<in> set (live_list md) \<and> t_table_id (fst p) = tid"
  by (auto simp: live_tables_def live_list_def)

lemma md_okD:
  assumes "md_ok md" "(t, s) \<in> set (live_list md)" "(t', s') \<in> set (live_list md)"
  shows "t_table_id t = t_table_id t' \<longleftrightarrow> (or_string (s_name s) '''', or_string (t_name t) '''') = (or_string (s_name s') '''', or_string (t_name t') '''')"
proof -
  have "t_name t \<noteq> None \<and> s_name s \<noteq> None" "t_name t' \<noteq> None \<and> s_name s' \<noteq> None"
    "t_table_id t = t_table_id t' \<longleftrightarrow> (s_name s, t_name t) = (s_name s', t_name t')"
    using assms unfolding md_ok_def by blast+
  then show ?thesis by (auto simp: or_string_def)
qed

text \<open>The rows with the table id and key index they are ordered by.\<close>

definition key_rows :: "sort_metadata \<Rightarrow> int \<Rightarrow> (int \<times> int \<times> SortKeyInfo) list" where
  "key_rows md sid = sort_key (\<lambda>(tid, k, row). tid) (sort_key (\<lambda>(tid, k, row). k)
       [(t_table_id t, se_key_index se,
         \<lparr>schema_name = or_string (s_name s) '''', table_name = or_string (t_name t) '''', expression = or_string (se_expression se) '''',
          direction = or_string (se_direction se) ''ASC'', null_order = or_string (se_null_order se) ''''\<rparr>).
         si \<leftarrow> sort_infos md, si_begin si = sid, se \<leftarrow> sort_expressions md, se_sort_id se = si_sort_id si, (t, s) \<leftarrow> live_tables md (si_table_id si)])"

lemma new_sort_keys_rows: "new_sort_keys md sid = map (\<lambda>(tid, k, row). row) (key_rows md sid)"
  by (simp add: new_sort_keys_def key_rows_def)

lemma key_row_live:
  assumes "(tid, k, row) \<in> set (key_rows md sid)"
  shows "\<exists>t s si. (t, s) \<in> set (live_list md) \<and> t_table_id t = tid \<and> tab row = (or_string (s_name s) '''', or_string (t_name t) '''') \<and>
           si \<in> set (sort_infos md) \<and> si_begin si = sid \<and> si_table_id si = tid"
  using assms by (fastforce simp: key_rows_def tab_def live_tables_iff)

lemma keys_contiguous:
  assumes "md_ok md"
  shows "contiguous (map tab (new_sort_keys md sid))"
proof -
  have "sorted (map fst (key_rows md sid))" by (simp add: key_rows_def split_def)
  then have "contiguous (map fst (key_rows md sid))" by (rule sorted_contiguous)
  then have "contiguous (map (\<lambda>x. tab (snd (snd x))) (key_rows md sid))"
  proof (rule contiguous_iff)
    fix x y assume xy: "x \<in> set (key_rows md sid)" "y \<in> set (key_rows md sid)"
    obtain t s where x: "(t, s) \<in> set (live_list md)" "t_table_id t = fst x" "tab (snd (snd x)) = (or_string (s_name s) '''', or_string (t_name t) '''')"
      using key_row_live [of "fst x" "fst (snd x)" "snd (snd x)" md sid] xy(1) by auto
    obtain t' s' where y: "(t', s') \<in> set (live_list md)" "t_table_id t' = fst y" "tab (snd (snd y)) = (or_string (s_name s') '''', or_string (t_name t') '''')"
      using key_row_live [of "fst y" "fst (snd y)" "snd (snd y)" md sid] xy(2) by auto
    show "fst x = fst y \<longleftrightarrow> tab (snd (snd x)) = tab (snd (snd y))" using md_okD [OF assms x(1) y(1)] x y by simp
  qed
  then show ?thesis by (simp add: new_sort_keys_rows comp_def split_def)
qed

lemma reset_not_new:
  assumes "md_ok md" "(Some s, Some t) \<in> set (reset_tables md sid)" "row \<in> set (new_sort_keys md sid)"
  shows "tab row \<noteq> (s, t)"
proof
  assume e: "tab row = (s, t)"
  obtain tr sr where r: "\<forall>si2 \<in> set (sort_infos md). \<not> (si_table_id si2 = t_table_id tr \<and> si_begin si2 = sid)"
    "(tr, sr) \<in> set (live_list md)" "s_name sr = Some s" "t_name tr = Some t"
    using assms(2) by (clarsimp simp: reset_tables_def live_tables_iff list_ex_iff split: if_splits) metis
  obtain tid k where "(tid, k, row) \<in> set (key_rows md sid)" using assms(3) by (auto simp: new_sort_keys_rows)
  then obtain t' s' si' where n: "(t', s') \<in> set (live_list md)" "t_table_id t' = tid" "tab row = (or_string (s_name s') '''', or_string (t_name t') '''')"
    "si' \<in> set (sort_infos md)" "si_begin si' = sid" "si_table_id si' = tid"
    by (blast dest: key_row_live)
  have "t_table_id tr = t_table_id t'" using md_okD [OF assms(1) r(2) n(1)] r(3,4) n(3) e by (simp add: or_string_def)
  then show False using r(1) n by auto
qed

lemma resets_iff: "rel \<in> set (sort_resets_of sc rows) \<longleftrightarrow> (\<exists>s t. (Some s, Some t) \<in> set rows \<and> rel_of sc (s, t) = Some rel)"
  by (force simp: sort_resets_of_def set_somes rel_of_def image_iff split: option.splits)

lemma creates_of_keys:
  assumes "contiguous (map tab rs)" "\<forall>r \<in> set rs. rel_of sc (tab r) \<noteq> None"
  shows "set (sort_creates_of sc rs) = (\<lambda>r. (the (rel_of sc (tab r)), spec_of rs (tab r))) ` set rs"
  by (simp add: creates_runs [OF assms(2)] runs_groups [OF assms(1)] image_image create_for_def group_of_def spec_of_def)

lemma creates_distinct:
  assumes "contiguous (map tab rs)" "\<forall>r \<in> set rs. rel_of sc (tab r) \<noteq> None" "\<And>S T. rel_of sc S \<noteq> None \<Longrightarrow> rel_of sc S = rel_of sc T \<Longrightarrow> S = T"
  shows "distinct (map fst (sort_creates_of sc rs))" "length (sort_creates_of sc rs) \<le> length rs"
proof -
  have "inj_on (\<lambda>T. the (rel_of sc T)) (tab ` set rs)"
  proof (rule inj_onI)
    fix S T assume "S \<in> tab ` set rs" "T \<in> tab ` set rs" and e: "the (rel_of sc S) = the (rel_of sc T)"
    then have n: "rel_of sc S \<noteq> None" "rel_of sc T \<noteq> None" using assms(2) by auto
    then show "S = T" using e by (intro assms(3)) (auto simp: option.expand)
  qed
  then have "distinct (map (\<lambda>T. the (rel_of sc T)) (map fst (key_runs None rs)))"
    using runs_distinct [OF assms(1), of "\<lambda>r. [key_text r]"] runs_all_keys [of tab "\<lambda>r. [key_text r]" rs] by (simp add: distinct_map comp_inj_on)
  then show "distinct (map fst (sort_creates_of sc rs))" by (simp add: creates_runs [OF assms(2)] comp_def create_for_def)
  show "length (sort_creates_of sc rs) \<le> length rs" by (simp add: creates_runs [OF assms(2)] length_runs)
qed


text \<open>A catalog with two tables \<open>a\<close> and \<open>b\<close> in \<open>public\<close> whose index names are found, and which numbers and names new indexes.\<close>

definition sample_catalog :: sort_catalog where
  "sample_catalog =
     \<lparr>sorted_am = 9, is_lake_table = (\<lambda>_. True), pgddb_relation_name = (\<lambda>_. ''t''), duck_accepts = (\<lambda>_. True),
      find_index_name = (\<lambda>n ixs. map_option idx_oid (find (\<lambda>ix. idx_name ix = n) ixs)),
      new_index = (\<lambda>ixs. (hd (filter (\<lambda>n. n \<notin> set (map idx_oid ixs)) (map of_nat [0..<Suc (length ixs)])), concat (map idx_name ixs) @ ''x'')),
      index_keys_ok = (\<lambda>_. True), namespace_oid = (\<lambda>s. if s = ''public'' then 1 else 0),
      relname_relid = (\<lambda>t n. if n = 1 \<and> t = ''a'' then 10 else if n = 1 \<and> t = ''b'' then 11 else 0)\<rparr>"

lemma find_name: "indexes_ok ixs \<Longrightarrow> ix \<in> set ixs \<Longrightarrow> find (\<lambda>x. idx_name x = idx_name ix) ixs = Some ix"
  by (induction ixs) (auto simp: indexes_ok_def)

lemma free_oid:
  assumes "length ixs < 2 ^ 32"
  shows "hd (filter (\<lambda>n. n \<notin> set (map idx_oid ixs)) (map of_nat [0..<Suc (length ixs)])) \<notin> set (map idx_oid ixs)" (is "hd ?xs \<notin> ?S")
proof -
  have "inj_on (of_nat :: nat \<Rightarrow> oid) {0..<Suc (length ixs)}"
  proof (rule inj_onI)
    fix i j assume "i \<in> {0..<Suc (length ixs)}" "j \<in> {0..<Suc (length ixs)}" and e: "(of_nat i :: oid) = of_nat j"
    then have "i < 2 ^ 32" "j < 2 ^ 32" using assms by auto
    then show "i = j" using e by (simp add: word_of_nat_eq_iff take_bit_nat_eq_self)
  qed
  then have "card ((of_nat :: nat \<Rightarrow> oid) ` {0..<Suc (length ixs)}) = Suc (length ixs)" by (simp add: card_image)
  moreover have "card ?S \<le> length ixs" using card_length [of "map idx_oid ixs"] by simp
  ultimately have "\<not> (of_nat :: nat \<Rightarrow> oid) ` {0..<Suc (length ixs)} \<subseteq> ?S" using card_mono [of ?S] by (metis List.finite_set Suc_n_not_le_n le_trans)
  then have "?xs \<noteq> []" by (auto simp: filter_empty_conv simp del: upt_Suc)
  then show ?thesis using hd_in_set [of ?xs] by (simp del: upt_Suc)
qed

lemma free_name: "concat (map idx_name ixs) @ ''x'' \<notin> idx_name ` set ixs"
proof
  assume "concat (map idx_name ixs) @ ''x'' \<in> idx_name ` set ixs"
  then obtain ix where i: "ix \<in> set ixs" "idx_name ix = concat (map idx_name ixs) @ ''x''" by auto
  have "length (idx_name ix) \<le> length (concat (map idx_name ixs))" using i(1) by (induction ixs) auto
  then show False using i(2) by simp
qed

lemma sample_laws: "index_laws sample_catalog"
  using free_oid free_name by (simp add: index_laws_def sample_catalog_def find_name OidIsValid_def InvalidOid_def del: upt_Suc list.map) blast

lemma sample_relations: "rel_of sample_catalog S \<noteq> None \<Longrightarrow> rel_of sample_catalog S = rel_of sample_catalog T \<Longrightarrow> S = T"
  by (cases S; cases T) (simp add: rel_of_def resolve_def sample_catalog_def OidIsValid_def InvalidOid_def split: if_splits)

definition sample_metadata :: sort_metadata where
  "sample_metadata =
     \<lparr>sort_infos = [\<lparr>si_sort_id = 1, si_table_id = 1, si_begin = 7, si_end = None\<rparr>, \<lparr>si_sort_id = 2, si_table_id = 2, si_begin = 3, si_end = Some 7\<rparr>],
      sort_expressions =
        [\<lparr>se_sort_id = 1, se_key_index = 1, se_expression = Some ''y'', se_direction = Some ''DESC'', se_null_order = Some ''NULLS_LAST''\<rparr>,
         \<lparr>se_sort_id = 1, se_key_index = 0, se_expression = Some ''x'', se_direction = None, se_null_order = None\<rparr>],
      md_tables = [\<lparr>t_table_id = 1, t_schema_id = 0, t_name = Some ''a'', t_begin = 1, t_end = None\<rparr>, \<lparr>t_table_id = 2, t_schema_id = 0, t_name = Some ''b'', t_begin = 2, t_end = None\<rparr>],
      md_schemas = [\<lparr>s_schema_id = 0, s_name = Some ''public'', s_end = None\<rparr>]\<rparr>"

definition sample_indexes :: "sorted_index list" where
  "sample_indexes = [\<lparr>idx_oid = 1, idx_name = ''a_idx'', idx_rel = 10, idx_am = 9, idx_spec = ''z ASC''\<rparr>,
     \<lparr>idx_oid = 2, idx_name = ''b_idx'', idx_rel = 11, idx_am = 9, idx_spec = ''q ASC''\<rparr>]"

lemma sample_md_ok: "md_ok sample_metadata"
  by (simp add: md_ok_def live_list_def sample_metadata_def)

lemma sample_keys: "new_sort_keys sample_metadata 7 =
  [\<lparr>schema_name = ''public'', table_name = ''a'', expression = ''x'', direction = ''ASC'', null_order = ''''\<rparr>,
   \<lparr>schema_name = ''public'', table_name = ''a'', expression = ''y'', direction = ''DESC'', null_order = ''NULLS_LAST''\<rparr>]"
  by (simp add: new_sort_keys_def live_tables_def sample_metadata_def or_string_def)

lemma sample_resets: "reset_tables sample_metadata 7 = [(Some ''public'', Some ''b'')]"
  by (simp add: reset_tables_def live_tables_def sample_metadata_def)


section \<open>Where the code departs\<close>

text \<open>The keys of a table PostgreSQL does not know are not dropped: they become the first keys of the next table.\<close>

lemma unknown_table_keys_leak:
  assumes "tab r \<noteq> tab r'" "tab r \<noteq> ('''', '''')" "rel_of sc (tab r) = None" "rel_of sc (tab r') = Some rel"
  shows "sort_creates_of sc [r, r'] = [(rel, key_text r @ '', '' @ key_text r')]"
  using assms by (auto simp: sort_creates_of_def sync_step_def flush_cols_def tab_def rel_of_def Let_def key_text_nonempty)

text \<open>When DuckDB accepted the new order and the index cannot be written, the flag stays set; from then on a \<^verbatim>\<open>CREATE INDEX\<close> in the
  session no longer reaches DuckDB.\<close>

lemma failed_index_stops_forwarding:
  assumes "is_lake_table sc rel" "key_spec keys = Inr spec" "duck_accepts sc (set_sorted_by sc rel spec)"
    "CreateSortedIndexForTable sc rel spec ixs = Inl e"
  shows "\<exists>f'. ducklake_set_sort sc (Some rel) keys (ixs, f) = ((ixs, f'), Inl e) \<and> ApplyCreateSortedIndex sc f' query = Inr ()"
  using assms by (auto simp: ducklake_set_sort_def table_arg_def EnsureDuckLakeTable_def key_spec_def apply_sort_def DuckDBQueryOrThrow_def
      ApplyCreateSortedIndex_def guard_or_def split: option.splits)

text \<open>\<^verbatim>\<open>DROP INDEX\<close> by the bare name drops the index of that name which the search path finds first.\<close>

lemma other_index_dropped:
  assumes "indexes_ok ixs" "ix \<in> set ixs" "find_index_name sc (idx_name ix) ixs = Some (idx_oid other)" "idx_oid other \<noteq> idx_oid ix"
  shows "\<exists>ixs'. drop_by_name sc (idx_oid ix) ixs = Inr ixs' \<and> ix \<in> set ixs' \<and> other \<notin> set ixs'"
  using assms by (simp add: drop_by_name_def find_oid)

text \<open>A boolean constant in a sort expression is printed as null.\<close>

lemma boolean_key_lost: "NodeToSQL (FuncCall [''f''] [A_Const (ConstBoolean b)]) = Inr ''f(NULL)''"
  by simp

end
