(* ===== verification/Catalog_Sync.thy ===== *)
theory Catalog_Sync
  imports Sorted_By Pg_Types
begin

text \<open>
  The trigger on the snapshot table, \<^verbatim>\<open>ducklake_snapshot_trigger\<close> of \<^verbatim>\<open>catalog_sync.cpp\<close>, and its handlers for tables, \<^verbatim>\<open>SyncNewTables\<close> and
  \<^verbatim>\<open>SyncDroppedTables\<close> of \<^verbatim>\<open>ducklake_table.cpp\<close>: tables that another DuckDB client has created or dropped in the lake are created or
  dropped in PostgreSQL. The third handler is in \<^verbatim>\<open>Sorted_By\<close>.

  A statement sent over SPI is a value of \<open>ddl\<close> in place of its text; \<open>ddl_ok\<close> says whether PostgreSQL executes it. DuckLake's parser of
  types and PostgreSQL's printer of types are parameters.
\<close>

section \<open>Tables of PostgreSQL\<close>

type_synonym column_def = "string \<times> string \<times> bool"

record pg_relation =
  rel_schema :: string
  rel_name :: string
  rel_oid :: oid
  rel_lake :: bool
  rel_columns :: "column_def list"

record pg_state =
  pg_schemas :: "string list"
  pg_relations :: "pg_relation list"

datatype ddl = CreateSchema string | CreateTable string string "column_def list" | DropTable string string | Garbage

datatype sync_error = DdlFailed ddl | NotFiredByTrigger | NullSnapshot | SortError sort_error

record sync_env =
  ddl_ok :: "ddl \<Rightarrow> pg_state \<Rightarrow> bool"
  new_oid :: "pg_state \<Rightarrow> oid"
  FromString :: "string \<Rightarrow> LogicalType option"
  format_type :: "Oid \<Rightarrow> u32 \<Rightarrow> string"

definition relation_exists :: "pg_state \<Rightarrow> string \<Rightarrow> string \<Rightarrow> bool" where
  "relation_exists st s t \<longleftrightarrow> s \<in> set (pg_schemas st) \<and> list_ex (\<lambda>r. rel_schema r = s \<and> rel_name r = t) (pg_relations st)"

text \<open>\<^verbatim>\<open>CREATE SCHEMA IF NOT EXISTS\<close>, \<^verbatim>\<open>CREATE TABLE ... USING ducklake\<close> and \<^verbatim>\<open>DROP TABLE\<close>.\<close>

fun apply_ddl :: "sync_env \<Rightarrow> ddl \<Rightarrow> pg_state \<Rightarrow> pg_state option" where
  "apply_ddl env (CreateSchema s) st = Some (st\<lparr>pg_schemas := List.insert s (pg_schemas st)\<rparr>)"
| "apply_ddl env (CreateTable s t cols) st =
     (if s \<notin> set (pg_schemas st) \<or> relation_exists st s t then None
      else Some (st\<lparr>pg_relations := pg_relations st @ [\<lparr>rel_schema = s, rel_name = t, rel_oid = new_oid env st, rel_lake = True, rel_columns = cols\<rparr>]\<rparr>))"
| "apply_ddl env (DropTable s t) st =
     (if \<not> relation_exists st s t then None
      else Some (st\<lparr>pg_relations := filter (\<lambda>r. \<not> (rel_schema r = s \<and> rel_name r = t)) (pg_relations st)\<rparr>))"
| "apply_ddl env Garbage st = None"

definition SPI_ddl :: "sync_env \<Rightarrow> ddl \<Rightarrow> pg_state \<Rightarrow> sync_error + pg_state" where
  "SPI_ddl env d st = (if \<not> ddl_ok env d st then Inl (DdlFailed d) else case apply_ddl env d st of None \<Rightarrow> Inl (DdlFailed d) | Some st' \<Rightarrow> Inr st')"

section \<open>Types of columns\<close>

fun lake_type_oid :: "LogicalType \<Rightarrow> Oid option" where
  "lake_type_oid BOOLEAN = Some BOOLOID"
| "lake_type_oid TINYINT = Some INT2OID"
| "lake_type_oid SMALLINT = Some INT2OID"
| "lake_type_oid UTINYINT = Some INT2OID"
| "lake_type_oid INTEGER = Some INT4OID"
| "lake_type_oid USMALLINT = Some INT4OID"
| "lake_type_oid BIGINT = Some INT8OID"
| "lake_type_oid UINTEGER = Some INT8OID"
| "lake_type_oid HUGEINT = Some NUMERICOID"
| "lake_type_oid UBIGINT = Some NUMERICOID"
| "lake_type_oid UHUGEINT = Some NUMERICOID"
| "lake_type_oid FLOAT = Some FLOAT4OID"
| "lake_type_oid (DOUBLE _) = Some FLOAT8OID"
| "lake_type_oid (DECIMAL _ _) = Some NUMERICOID"
| "lake_type_oid (VARCHAR _) = Some TEXTOID"
| "lake_type_oid BLOB = Some BYTEAOID"
| "lake_type_oid UUID = Some UUIDOID"
| "lake_type_oid DATE = Some DATEOID"
| "lake_type_oid TIME = Some TIMEOID"
| "lake_type_oid TIME_TZ = Some TIMETZOID"
| "lake_type_oid TIMESTAMP = Some TIMESTAMPOID"
| "lake_type_oid TIMESTAMP_MS = Some TIMESTAMPOID"
| "lake_type_oid TIMESTAMP_NS = Some TIMESTAMPOID"
| "lake_type_oid TIMESTAMP_SEC = Some TIMESTAMPOID"
| "lake_type_oid TIMESTAMP_TZ = Some TIMESTAMPTZOID"
| "lake_type_oid INTERVAL = Some INTERVALOID"
| "lake_type_oid _ = None"

definition lake_typemod :: "LogicalType \<Rightarrow> u32" where
  "lake_typemod t = (case t of DECIMAL width scale \<Rightarrow> make_numeric_typmod (of_nat width) (of_nat scale) | _ \<Rightarrow> - 1)"

definition DuckLakeTypeToPgType :: "sync_env \<Rightarrow> string \<Rightarrow> string" where
  "DuckLakeTypeToPgType env dl_type =
     (case FromString env dl_type of
        None \<Rightarrow> ''text''
      | Some t \<Rightarrow>
          if t = OTHER_TYPE ''VARIANT'' then ''ducklake.variant''
          else case lake_type_oid t of None \<Rightarrow> ''text'' | Some pg_type \<Rightarrow> format_type env pg_type (lake_typemod t))"

section \<open>New tables\<close>

record sync_column_row =
  c_table_id :: int
  c_name :: "string option"
  c_type :: "string option"
  c_nulls_allowed :: "bool option"
  c_parent :: "int option"
  c_order :: "int option"
  c_end :: "int option"

record lake_metadata = sort_metadata +
  md_columns :: "sync_column_row list"

record ColInfo =
  ci_table :: "string \<times> string"
  col_name :: string
  col_type :: string
  not_null :: bool
  has_col :: bool

definition col_info :: "sort_table_row \<Rightarrow> sort_schema_row \<Rightarrow> sync_column_row option \<Rightarrow> ColInfo" where
  "col_info t s c =
     \<lparr>ci_table = (or_string (s_name s) '''', or_string (t_name t) ''''),
      col_name = (case c of None \<Rightarrow> '''' | Some r \<Rightarrow> or_string (c_name r) ''''),
      col_type = (case c of None \<Rightarrow> '''' | Some r \<Rightarrow> or_string (c_type r) ''''),
      not_null = (case c of None \<Rightarrow> False | Some r \<Rightarrow> c_nulls_allowed r = Some False),
      has_col = (case c of None \<Rightarrow> False | Some r \<Rightarrow> c_name r \<noteq> None)\<rparr>"

text \<open>The left join with the columns: a table without columns has one row.\<close>

definition table_columns :: "lake_metadata \<Rightarrow> int \<Rightarrow> sync_column_row option list" where
  "table_columns md tid =
     (case filter (\<lambda>c. c_table_id c = tid \<and> c_parent c = None \<and> c_end c = None) (md_columns md) of [] \<Rightarrow> [None] | cs \<Rightarrow> map Some cs)"

definition column_order :: "sync_column_row option \<Rightarrow> bool \<times> int" where
  "column_order c = nulls_last (case c of None \<Rightarrow> None | Some r \<Rightarrow> c_order r)"

definition new_table_rows :: "lake_metadata \<Rightarrow> int \<Rightarrow> ColInfo list" where
  "new_table_rows md sid =
     map (\<lambda>(tid, k, row). row) (sort_key (\<lambda>(tid, k, row). tid) (sort_key (\<lambda>(tid, k, row). k)
       [(t_table_id t, column_order c, col_info t s c).
         t \<leftarrow> md_tables md, t_begin t = sid, s \<leftarrow> md_schemas md, s_schema_id s = t_schema_id t, s_end s = None, c \<leftarrow> table_columns md (t_table_id t)]))"

text \<open>The variables of the loop; the statement being built is its head, once \<^verbatim>\<open>CREATE TABLE\<close> is written, and the columns so far.\<close>

record new_loop =
  nl_prev :: "string \<times> string"
  ddl_head :: "(string \<times> string) option"
  ddl_columns :: "column_def list"
  skip_table :: bool

definition emit_ddl :: "sync_env \<Rightarrow> pg_state \<times> new_loop \<Rightarrow> sync_error + pg_state \<times> new_loop" where
  "emit_ddl env x = (case x of (st, l) \<Rightarrow>
     andthen (if (ddl_head l = None \<and> ddl_columns l = []) \<or> skip_table l then Inr st
              else SPI_ddl env (case ddl_head l of Some (s, t) \<Rightarrow> CreateTable s t (ddl_columns l) | None \<Rightarrow> Garbage) st)
       (\<lambda>st'. Inr (st', l\<lparr>ddl_head := None, ddl_columns := [], skip_table := False\<rparr>)))"

definition column_text :: "sync_env \<Rightarrow> ColInfo \<Rightarrow> column_def" where
  "column_text env ci = (col_name ci, DuckLakeTypeToPgType env (col_type ci), not_null ci)"

definition start_table :: "sync_env \<Rightarrow> string \<times> string \<Rightarrow> pg_state \<times> new_loop \<Rightarrow> sync_error + pg_state \<times> new_loop" where
  "start_table env T x = (case x of (st, l) \<Rightarrow>
     if relation_exists st (fst T) (snd T) then Inr (st, l\<lparr>skip_table := True, nl_prev := T\<rparr>)
     else andthen (if fst T = ''public'' then Inr st else SPI_ddl env (CreateSchema (fst T)) st)
            (\<lambda>st'. Inr (st', l\<lparr>ddl_head := Some T, ddl_columns := [], nl_prev := T\<rparr>)))"

definition add_column :: "sync_env \<Rightarrow> ColInfo \<Rightarrow> new_loop \<Rightarrow> new_loop" where
  "add_column env ci l = (if skip_table l \<or> \<not> has_col ci then l else l\<lparr>ddl_columns := ddl_columns l @ [column_text env ci]\<rparr>)"

definition new_table_step :: "sync_env \<Rightarrow> ColInfo \<Rightarrow> pg_state \<times> new_loop \<Rightarrow> sync_error + pg_state \<times> new_loop" where
  "new_table_step env ci x =
     andthen (if ci_table ci \<noteq> nl_prev (snd x) then andthen (emit_ddl env x) (start_table env (ci_table ci)) else Inr x)
       (\<lambda>(st, l). Inr (st, add_column env ci l))"

definition SyncNewTables :: "sync_env \<Rightarrow> lake_metadata \<Rightarrow> int \<Rightarrow> pg_state \<Rightarrow> sync_error + pg_state" where
  "SyncNewTables env md sid st =
     andthen (fold_err (new_table_step env) (new_table_rows md sid) (st, \<lparr>nl_prev = ('''', ''''), ddl_head = None, ddl_columns = [], skip_table = False\<rparr>))
       (\<lambda>x. andthen (emit_ddl env x) (\<lambda>(st', l). Inr st'))"

section \<open>Dropped tables\<close>

definition dropped_rows :: "lake_metadata \<Rightarrow> int \<Rightarrow> (string \<times> string) list" where
  "dropped_rows md sid =
     [(or_string (s_name s) '''', or_string (t_name t) ''''). t \<leftarrow> md_tables md, t_end t = Some sid, s \<leftarrow> md_schemas md, s_schema_id s = t_schema_id t]"

definition drop_step :: "sync_env \<Rightarrow> string \<times> string \<Rightarrow> pg_state \<Rightarrow> sync_error + pg_state" where
  "drop_step env T st = (if \<not> relation_exists st (fst T) (snd T) then Inr st else SPI_ddl env (DropTable (fst T) (snd T)) st)"

definition SyncDroppedTables :: "sync_env \<Rightarrow> lake_metadata \<Rightarrow> int \<Rightarrow> pg_state \<Rightarrow> sync_error + pg_state" where
  "SyncDroppedTables env md sid st = fold_err (drop_step env) (dropped_rows md sid) st"

section \<open>The trigger\<close>

text \<open>The state of a transaction: the relations, the sorted indexes and the flags. The catalog that the sort keys are
  looked up in is the one after the tables were synced; the indexes of a dropped table are gone with it. An error aborts
  the transaction, which leaves the state, and \<^verbatim>\<open>PG_FINALLY\<close> resets the flag.\<close>

record sync_state =
  ss_relations :: pg_state
  ss_indexes :: "sorted_index list"
  ss_flags :: sort_flags

definition remaining_indexes :: "pg_state \<Rightarrow> pg_state \<Rightarrow> sorted_index list \<Rightarrow> sorted_index list" where
  "remaining_indexes st st' ixs = filter (\<lambda>ix. idx_rel ix \<notin> rel_oid ` set (pg_relations st) \<or> idx_rel ix \<in> rel_oid ` set (pg_relations st')) ixs"

definition sort_result :: "sort_error + 'a \<Rightarrow> sync_error + 'a" where
  "sort_result r = (case r of Inl e \<Rightarrow> Inl (SortError e) | Inr x \<Rightarrow> Inr x)"

definition sync_handlers :: "sync_env \<Rightarrow> (pg_state \<Rightarrow> sort_catalog) \<Rightarrow> lake_metadata \<Rightarrow> int \<Rightarrow> sync_state \<Rightarrow> sync_error + sync_state" where
  "sync_handlers env sc md sid ss =
     andthen (SyncNewTables env md sid (ss_relations ss)) (\<lambda>st1.
     andthen (SyncDroppedTables env md sid st1) (\<lambda>st2.
     andthen (sort_result (SyncSortKeys (sc st2) (ss_flags ss) (sort_metadata.truncate md) sid (remaining_indexes st1 st2 (ss_indexes ss)))) (\<lambda>ixs.
       Inr (ss\<lparr>ss_relations := st2, ss_indexes := ixs\<rparr>))))"

definition ducklake_snapshot_trigger ::
  "sync_env \<Rightarrow> (pg_state \<Rightarrow> sort_catalog) \<Rightarrow> bool \<Rightarrow> bool \<Rightarrow> guc \<Rightarrow> lake_metadata \<Rightarrow> int option \<Rightarrow> sync_state \<Rightarrow> sync_state \<times> (sync_error + unit)" where
  "ducklake_snapshot_trigger env sc fired skip_snapshot_sync g md snapshot_id ss =
     (if \<not> fired then (ss, Inl NotFiredByTrigger)
      else if skip_snapshot_sync \<or> \<not> enable_metadata_sync g then (ss, Inr ())
      else case snapshot_id of
             None \<Rightarrow> (ss, Inl NullSnapshot)
           | Some sid \<Rightarrow>
               (case sync_handlers env sc md sid (ss\<lparr>ss_flags := (ss_flags ss)\<lparr>syncing_from_metadata := True\<rparr>\<rparr>) of
                  Inl e \<Rightarrow> (ss\<lparr>ss_flags := (ss_flags ss)\<lparr>syncing_from_metadata := False\<rparr>\<rparr>, Inl e)
                | Inr ss' \<Rightarrow> (ss'\<lparr>ss_flags := (ss_flags ss')\<lparr>syncing_from_metadata := False\<rparr>\<rparr>, Inr ())))"

end
