(* ===== verification/Catalog_Sync_Props.thy ===== *)
theory Catalog_Sync_Props
  imports Catalog_Sync Row_Groups
begin

text \<open>
  Facts about the snapshot trigger: which tables PostgreSQL has after the table handlers have run, what the trigger does to the
  flags, and two kinds of snapshots after which PostgreSQL's tables are not those of the lake.
\<close>

section \<open>Statements that PostgreSQL executes\<close>

definition columns_of :: "sync_env \<Rightarrow> ColInfo \<Rightarrow> column_def list" where
  "columns_of env ci = (if has_col ci then [column_text env ci] else [])"

definition make_table :: "sync_env \<Rightarrow> (string \<times> string) \<times> column_def list \<Rightarrow> pg_state \<Rightarrow> pg_state" where
  "make_table env g st =
     st\<lparr>pg_schemas := List.insert (fst (fst g)) (pg_schemas st),
        pg_relations := pg_relations st @
          [\<lparr>rel_schema = fst (fst g), rel_name = snd (fst g), rel_oid = new_oid env (st\<lparr>pg_schemas := List.insert (fst (fst g)) (pg_schemas st)\<rparr>),
            rel_lake = True, rel_columns = snd g\<rparr>]\<rparr>"

definition names :: "pg_state \<Rightarrow> (string \<times> string) set" where
  "names st = (\<lambda>r. (rel_schema r, rel_name r)) ` set (pg_relations st)"

lemma exists_names: "relation_exists st s t \<longleftrightarrow> s \<in> set (pg_schemas st) \<and> (s, t) \<in> names st"
  by (auto simp: relation_exists_def names_def list_ex_iff image_iff)

lemma names_make_table [simp]: "names (make_table env g st) = insert (fst g) (names st)"
  by (auto simp: names_def make_table_def)

lemma make_table_schema: "fst T \<in> set (pg_schemas st) \<Longrightarrow>
  make_table env (T, cs) st = st\<lparr>pg_relations := pg_relations st @
    [\<lparr>rel_schema = fst T, rel_name = snd T, rel_oid = new_oid env st, rel_lake = True, rel_columns = cs\<rparr>]\<rparr>"
  by (simp add: make_table_def)

lemma make_table_after_schema: "make_table env (T, cs) (st\<lparr>pg_schemas := List.insert (fst T) (pg_schemas st)\<rparr>) = make_table env (T, cs) st"
  by (simp add: make_table_def)

section \<open>The loop over the new tables\<close>

text \<open>A statement under construction, or none.\<close>

definition building :: "((string \<times> string) \<times> column_def list) option \<Rightarrow> new_loop \<Rightarrow> pg_state \<Rightarrow> bool" where
  "building og l st \<longleftrightarrow> \<not> skip_table l \<and>
     (case og of None \<Rightarrow> nl_prev l = ('''', '''') \<and> ddl_head l = None \<and> ddl_columns l = []
      | Some (T, cs) \<Rightarrow> nl_prev l = T \<and> ddl_head l = Some T \<and> ddl_columns l = cs \<and> fst T \<in> set (pg_schemas st) \<and> T \<notin> names st)"

definition emitted :: "sync_env \<Rightarrow> ((string \<times> string) \<times> column_def list) option \<Rightarrow> pg_state \<Rightarrow> pg_state" where
  "emitted env og st = (case og of None \<Rightarrow> st | Some g \<Rightarrow> make_table env g st)"

definition cleared :: "new_loop \<Rightarrow> new_loop" where
  "cleared l = l\<lparr>ddl_head := None, ddl_columns := [], skip_table := False\<rparr>"

lemma emit_building:
  assumes "\<And>d st. ddl_ok env d st" "building og l st"
  shows "emit_ddl env (st, l) = Inr (emitted env og st, cleared l)"
  using assms
  by (cases og) (auto simp: emit_ddl_def building_def emitted_def cleared_def SPI_ddl_def exists_names make_table_def)

lemma start_building:
  assumes "\<And>d st. ddl_ok env d st" "''public'' \<in> set (pg_schemas st)" "T \<notin> names st"
  shows "start_table env T (st, cleared l) =
     Inr (st\<lparr>pg_schemas := List.insert (fst T) (pg_schemas st)\<rparr>, (cleared l)\<lparr>ddl_head := Some T, nl_prev := T\<rparr>)"
  using assms by (auto simp: start_table_def exists_names SPI_ddl_def cleared_def)

lemma names_schemas [simp]: "names (st\<lparr>pg_schemas := x\<rparr>) = names st"
  by (simp add: names_def)

abbreviation table_runs :: "sync_env \<Rightarrow> ((string \<times> string) \<times> column_def list) option \<Rightarrow> ColInfo list \<Rightarrow> ((string \<times> string) \<times> column_def list) list" where
  "table_runs env \<equiv> runs ci_table (columns_of env)"

definition run_rest :: "sync_env \<Rightarrow> ColInfo list \<Rightarrow> pg_state \<times> new_loop \<Rightarrow> sync_error + pg_state" where
  "run_rest env rs x = andthen (fold_err (new_table_step env) rs x) (\<lambda>x. andthen (emit_ddl env x) (\<lambda>(st', l). Inr st'))"

lemma run_rest_Cons: "run_rest env (r # rs) x = andthen (new_table_step env r x) (run_rest env rs)"
  by (cases "new_table_step env r x") (simp_all add: run_rest_def)

lemma fold_make_schema:
  "fold (make_table env) (table_runs env (Some (T, cs)) rs) (st\<lparr>pg_schemas := List.insert (fst T) (pg_schemas st)\<rparr>) =
   fold (make_table env) (table_runs env (Some (T, cs)) rs) st"
proof (induction rs arbitrary: cs)
  case Nil
  then show ?case by (simp add: make_table_after_schema)
next
  case (Cons r rs)
  then show ?case by (simp add: make_table_after_schema)
qed

lemma loop_makes_tables:
  assumes "\<And>d st. ddl_ok env d st" "''public'' \<in> set (pg_schemas st)" "building og l st"
    and "contiguous ((case og of None \<Rightarrow> [] | Some (T, cs) \<Rightarrow> [T]) @ map ci_table rs)" "ci_table ` set rs \<inter> names st = {}" "('''', '''') \<notin> ci_table ` set rs"
  shows "run_rest env rs (st, l) = Inr (fold (make_table env) (table_runs env og rs) st)"
  using assms(2-)
proof (induction rs arbitrary: st l og)
  case Nil
  then show ?case using emit_building [OF assms(1)] by (cases og) (simp_all add: run_rest_def emitted_def)
next
  case (Cons r rs)
  have n: "ci_table r \<notin> names st" "ci_table ` set rs \<inter> names st = {}" "('''', '''') \<notin> ci_table ` set rs" "ci_table r \<noteq> ('''', '''')" using Cons.prems by auto
  show ?case
  proof (cases "\<exists>cs. og = Some (ci_table r, cs)")
    case True
    then obtain cs where o: "og = Some (ci_table r, cs)" by blast
    have "new_table_step env r (st, l) = Inr (st, add_column env r l)" using Cons.prems(2) o by (simp add: new_table_step_def building_def)
    moreover have "building (Some (ci_table r, cs @ columns_of env r)) (add_column env r l) st"
      using Cons.prems(2) o by (auto simp: building_def add_column_def columns_of_def)
    moreover have "contiguous (ci_table r # map ci_table rs)" using Cons.prems(3) o by simp
    ultimately show ?thesis
      using Cons.IH [of st "Some (ci_table r, cs @ columns_of env r)" "add_column env r l"] Cons.prems(1) n o by (simp add: run_rest_Cons)
  next
    case False
    let ?st = "emitted env og st" and ?T = "ci_table r"
    let ?st' = "?st\<lparr>pg_schemas := List.insert (fst ?T) (pg_schemas ?st)\<rparr>" and ?l = "(cleared l)\<lparr>ddl_head := Some ?T, nl_prev := ?T\<rparr>"
    have o: "\<And>S cs. og = Some (S, cs) \<Longrightarrow> S \<noteq> ?T \<and> S \<notin> ci_table ` set rs"
      using False Cons.prems(3) by auto
    have m: "''public'' \<in> set (pg_schemas ?st)" using Cons.prems(1) by (auto simp: emitted_def make_table_def split: option.splits)
    have e: "?T \<notin> names ?st" "ci_table ` set rs \<inter> names ?st = {}" using n o by (auto simp: emitted_def split: option.splits)
    have "?T \<noteq> nl_prev l" using Cons.prems(2) n(4) o by (auto simp: building_def split: option.splits)
    then have "new_table_step env r (st, l) = Inr (?st', add_column env r ?l)"
      using emit_building [OF assms(1) Cons.prems(2)] start_building [OF assms(1) m e(1)] by (simp add: new_table_step_def)
    moreover have "building (Some (?T, columns_of env r)) (add_column env r ?l) ?st'"
      using e(1) by (auto simp: building_def add_column_def columns_of_def cleared_def)
    moreover have "contiguous (?T # map ci_table rs)" using Cons.prems(3) by (cases og) auto
    ultimately have "run_rest env (r # rs) (st, l) = Inr (fold (make_table env) (table_runs env (Some (?T, columns_of env r)) rs) ?st')"
      using Cons.IH [of ?st' "Some (?T, columns_of env r)" "add_column env r ?l"] m n e by (simp add: run_rest_Cons)
    also have "\<dots> = Inr (fold (make_table env) (table_runs env og (r # rs)) st)"
      using False by (cases og) (auto simp: fold_make_schema emitted_def)
    finally show ?thesis .
  qed
qed

lemma fold_make_relations:
  "pg_relations (fold (make_table env) gs st) = pg_relations st @
     drop (length (pg_relations st)) (pg_relations (fold (make_table env) gs st)) \<and>
   map (\<lambda>r. ((rel_schema r, rel_name r), rel_columns r)) (drop (length (pg_relations st)) (pg_relations (fold (make_table env) gs st))) = gs \<and>
   list_all rel_lake (drop (length (pg_relations st)) (pg_relations (fold (make_table env) gs st))) \<and>
   set (pg_schemas st) \<union> fst ` fst ` set gs \<subseteq> set (pg_schemas (fold (make_table env) gs st))"
proof (induction gs arbitrary: st)
  case (Cons g gs)
  define st' where "st' = fold (make_table env) gs (make_table env g st)"
  note IH = Cons.IH [of "make_table env g st", folded st'_def]
  have p: "pg_relations (make_table env g st) = pg_relations st @ [\<lparr>rel_schema = fst (fst g), rel_name = snd (fst g),
      rel_oid = new_oid env (st\<lparr>pg_schemas := List.insert (fst (fst g)) (pg_schemas st)\<rparr>), rel_lake = True, rel_columns = snd g\<rparr>]"
    "set (pg_schemas (make_table env g st)) = insert (fst (fst g)) (set (pg_schemas st))" by (simp_all add: make_table_def)
  have "drop (length (pg_relations st)) (pg_relations st') =
      last (pg_relations (make_table env g st)) # drop (length (pg_relations (make_table env g st))) (pg_relations st')"
    using IH p(1) by (metis (no_types, lifting) append.assoc append_Cons append_Nil append_eq_conv_conj last_snoc)
  then show ?case using IH p by (auto simp: st'_def)
qed simp

section \<open>The tables of a snapshot\<close>

definition new_list :: "lake_metadata \<Rightarrow> int \<Rightarrow> (sort_table_row \<times> sort_schema_row) list" where
  "new_list md sid = [(t, s). t \<leftarrow> md_tables md, t_begin t = sid, s \<leftarrow> md_schemas md, s_schema_id s = t_schema_id t, s_end s = None]"

definition lake_name :: "sort_table_row \<times> sort_schema_row \<Rightarrow> string \<times> string" where
  "lake_name p = (or_string (s_name (snd p)) '''', or_string (t_name (fst p)) '''')"

text \<open>The tables that begin with the snapshot are named, and tables of one name are one table.\<close>

definition new_ok :: "lake_metadata \<Rightarrow> int \<Rightarrow> bool" where
  "new_ok md sid \<longleftrightarrow> (\<forall>p \<in> set (new_list md sid). lake_name p \<noteq> ('''', '''') \<and>
     (\<forall>q \<in> set (new_list md sid). t_table_id (fst p) = t_table_id (fst q) \<longleftrightarrow> lake_name p = lake_name q))"

definition column_rows :: "lake_metadata \<Rightarrow> int \<Rightarrow> (int \<times> (bool \<times> int) \<times> ColInfo) list" where
  "column_rows md sid = sort_key (\<lambda>(tid, k, row). tid) (sort_key (\<lambda>(tid, k, row). k)
       [(t_table_id t, column_order c, col_info t s c).
         t \<leftarrow> md_tables md, t_begin t = sid, s \<leftarrow> md_schemas md, s_schema_id s = t_schema_id t, s_end s = None, c \<leftarrow> table_columns md (t_table_id t)])"

lemma new_rows_columns: "new_table_rows md sid = map (\<lambda>(tid, k, row). row) (column_rows md sid)"
  by (simp add: new_table_rows_def column_rows_def)

lemma column_row_table:
  assumes "x \<in> set (column_rows md sid)"
  obtains p where "p \<in> set (new_list md sid)" "t_table_id (fst p) = fst x" "ci_table (snd (snd x)) = lake_name p"
  using assms by (fastforce simp: column_rows_def new_list_def lake_name_def col_info_def)

lemma table_columns_nonempty: "table_columns md tid \<noteq> []"
  by (simp add: table_columns_def split: list.splits)

lemma new_rows_tables: "ci_table ` set (new_table_rows md sid) = lake_name ` set (new_list md sid)"
proof
  show "ci_table ` set (new_table_rows md sid) \<subseteq> lake_name ` set (new_list md sid)"
    by (auto simp: new_rows_columns elim!: column_row_table)
  show "lake_name ` set (new_list md sid) \<subseteq> ci_table ` set (new_table_rows md sid)"
  proof
    fix T assume "T \<in> lake_name ` set (new_list md sid)"
    then obtain t s where p: "(t, s) \<in> set (new_list md sid)" "T = lake_name (t, s)" by auto
    obtain c where "c \<in> set (table_columns md (t_table_id t))" using table_columns_nonempty [of md "t_table_id t"] by (meson list.set_sel(1))
    then have "(t_table_id t, column_order c, col_info t s c) \<in> set (column_rows md sid)" using p(1) by (force simp: column_rows_def new_list_def)
    then have "col_info t s c \<in> set (new_table_rows md sid)" by (force simp: new_rows_columns)
    then show "T \<in> ci_table ` set (new_table_rows md sid)" using p(2) by (force simp: lake_name_def col_info_def)
  qed
qed

lemma new_rows_contiguous:
  assumes "new_ok md sid"
  shows "contiguous (map ci_table (new_table_rows md sid))"
proof -
  have "sorted (map fst (column_rows md sid))" by (simp add: column_rows_def split_def)
  then have "contiguous (map fst (column_rows md sid))" by (rule sorted_contiguous)
  then have "contiguous (map (\<lambda>x. ci_table (snd (snd x))) (column_rows md sid))"
  proof (rule contiguous_iff)
    fix x y assume "x \<in> set (column_rows md sid)" "y \<in> set (column_rows md sid)"
    then show "fst x = fst y \<longleftrightarrow> ci_table (snd (snd x)) = ci_table (snd (snd y))"
      using assms unfolding new_ok_def by (metis column_row_table)
  qed
  then show ?thesis by (simp add: new_rows_columns comp_def split_def)
qed

text \<open>The columns of a table in the rows of the query.\<close>

definition lake_columns :: "sync_env \<Rightarrow> lake_metadata \<Rightarrow> int \<Rightarrow> string \<times> string \<Rightarrow> column_def list" where
  "lake_columns env md sid T = map (column_text env) (filter (\<lambda>ci. ci_table ci = T \<and> has_col ci) (new_table_rows md sid))"

lemma group_columns: "group_of ci_table (columns_of env) rs T = map (column_text env) (filter (\<lambda>ci. ci_table ci = T \<and> has_col ci) rs)"
  by (induction rs) (auto simp: group_of_def columns_of_def)

lemma new_tables_made:
  assumes "\<And>d st. ddl_ok env d st" "''public'' \<in> set (pg_schemas st)" "new_ok md sid" "lake_name ` set (new_list md sid) \<inter> names st = {}"
  shows "\<exists>new. \<exists>st'. SyncNewTables env md sid st = Inr st' \<and> pg_relations st' = pg_relations st @ new \<and> set (pg_schemas st) \<subseteq> set (pg_schemas st') \<and>
    fst ` lake_name ` set (new_list md sid) \<subseteq> set (pg_schemas st') \<and>
    distinct (map (\<lambda>r. (rel_schema r, rel_name r)) new) \<and> list_all rel_lake new \<and>
    (\<lambda>r. ((rel_schema r, rel_name r), rel_columns r)) ` set new = (\<lambda>T. (T, lake_columns env md sid T)) ` lake_name ` set (new_list md sid)"
proof -
  let ?rs = "new_table_rows md sid" and ?l = "\<lparr>nl_prev = ('''', ''''), ddl_head = None, ddl_columns = [], skip_table = False\<rparr>"
  let ?st = "fold (make_table env) (table_runs env None ?rs) st"
  define new where "new = drop (length (pg_relations st)) (pg_relations ?st)"
  note c = new_rows_contiguous [OF assms(3)]
  have "run_rest env ?rs (st, ?l) = Inr ?st"
    using assms(2,3,4) c by (intro loop_makes_tables assms(1)) (auto simp: building_def new_rows_tables new_ok_def)
  then have r: "SyncNewTables env md sid st = Inr ?st" by (simp add: SyncNewTables_def run_rest_def)
  note f = fold_make_relations [of env "table_runs env None ?rs" st, folded new_def]
  have g: "map (\<lambda>r. ((rel_schema r, rel_name r), rel_columns r)) new = table_runs env None ?rs" using f by blast
  then have "map (\<lambda>r. (rel_schema r, rel_name r)) new = map fst (table_runs env None ?rs)" by (metis (no_types, lifting) comp_apply fst_conv list.map_comp map_cong)
  then have d: "distinct (map (\<lambda>r. (rel_schema r, rel_name r)) new)" using runs_distinct [OF c, of "columns_of env"] by simp
  have "(\<lambda>r. ((rel_schema r, rel_name r), rel_columns r)) ` set new = set (table_runs env None ?rs)" unfolding g [symmetric] by simp
  also have "\<dots> = (\<lambda>T. (T, lake_columns env md sid T)) ` ci_table ` set ?rs"
    unfolding runs_groups [OF c] group_columns lake_columns_def ..
  finally have s: "(\<lambda>r. ((rel_schema r, rel_name r), rel_columns r)) ` set new = (\<lambda>T. (T, lake_columns env md sid T)) ` lake_name ` set (new_list md sid)"
    unfolding new_rows_tables .
  have "fst ` lake_name ` set (new_list md sid) \<subseteq> set (pg_schemas ?st)"
    using f runs_all_keys [of ci_table "columns_of env" ?rs] by (simp add: new_rows_tables)
  moreover have "pg_relations ?st = pg_relations st @ new" "list_all rel_lake new" "set (pg_schemas st) \<subseteq> set (pg_schemas ?st)" using f by auto
  ultimately show ?thesis using r d s by (intro exI conjI)
qed

lemma tables_dropped:
  assumes "\<And>d st. ddl_ok env d st" "fst ` names st \<subseteq> set (pg_schemas st)"
  shows "fold_err (drop_step env) rows st = Inr (st\<lparr>pg_relations := filter (\<lambda>r. (rel_schema r, rel_name r) \<notin> set rows) (pg_relations st)\<rparr>)"
  using assms(2)
proof (induction rows arbitrary: st)
  case (Cons T rows)
  let ?st = "st\<lparr>pg_relations := filter (\<lambda>r. (rel_schema r, rel_name r) \<noteq> T) (pg_relations st)\<rparr>"
  have "drop_step env T st = Inr ?st"
  proof (cases "T \<in> names st")
    case True
    then have "relation_exists st (fst T) (snd T)" using Cons.prems by (auto simp: exists_names)
    then show ?thesis using assms(1) by (cases T) (simp add: drop_step_def SPI_ddl_def)
  next
    case False
    then have "filter (\<lambda>r. (rel_schema r, rel_name r) \<noteq> T) (pg_relations st) = pg_relations st" by (intro filter_True) (auto simp: names_def)
    then show ?thesis using False by (cases T) (simp add: drop_step_def exists_names)
  qed
  moreover have "fst ` names ?st \<subseteq> set (pg_schemas ?st)" using Cons.prems by (auto simp: names_def)
  ultimately show ?case using Cons.IH [of ?st] by (simp add: conj_commute)
qed simp

text \<open>What the trigger does when the handlers succeed.\<close>

lemma trigger_success:
  assumes "\<not> skip" "enable_metadata_sync g" "SyncNewTables env md sid (ss_relations ss) = Inr st1" "SyncDroppedTables env md sid st1 = Inr st2"
    and "\<And>st ixs. \<exists>ixs'. SyncSortKeys (sc st) ((ss_flags ss)\<lparr>syncing_from_metadata := True\<rparr>) (sort_metadata.truncate md) sid ixs = Inr ixs'"
  shows "\<exists>ss'. ducklake_snapshot_trigger env sc True skip g md (Some sid) ss = (ss', Inr ()) \<and> ss_relations ss' = st2 \<and> \<not> syncing_from_metadata (ss_flags ss')"
proof -
  obtain ixs where "SyncSortKeys (sc st2) ((ss_flags ss)\<lparr>syncing_from_metadata := True\<rparr>) (sort_metadata.truncate md) sid (remaining_indexes st1 st2 (ss_indexes ss)) = Inr ixs"
    using assms(5) by blast
  then show ?thesis using assms(1-4) by (simp add: ducklake_snapshot_trigger_def sync_handlers_def sort_result_def)
qed


definition sample_env :: sync_env where
  "sample_env = \<lparr>ddl_ok = (\<lambda>_ _. True), new_oid = (\<lambda>st. of_nat (length (pg_relations st)) + 20), FromString = (\<lambda>s. if s = ''int32'' then Some INTEGER else None),
     format_type = (\<lambda>t m. if t = INT4OID then ''integer'' else ''text'')\<rparr>"

definition no_sort :: "pg_state \<Rightarrow> sort_catalog" where
  "no_sort st = \<lparr>sorted_am = 0, is_lake_table = (\<lambda>_. True), pgddb_relation_name = (\<lambda>_. ''''), duck_accepts = (\<lambda>_. True), find_index_name = (\<lambda>_ _. None),
     new_index = (\<lambda>_. (1, '''')), index_keys_ok = (\<lambda>_. True), namespace_oid = (\<lambda>_. 0), relname_relid = (\<lambda>_ _. 0)\<rparr>"

definition sample_md :: lake_metadata where
  "sample_md =
     \<lparr>sort_infos = [], sort_expressions = [],
      md_tables = [\<lparr>t_table_id = 1, t_schema_id = 0, t_name = Some ''old'', t_begin = 1, t_end = Some 7\<rparr>, \<lparr>t_table_id = 2, t_schema_id = 0, t_name = Some ''t'', t_begin = 7, t_end = None\<rparr>],
      md_schemas = [\<lparr>s_schema_id = 0, s_name = Some ''sales'', s_end = None\<rparr>],
      md_columns = [\<lparr>c_table_id = 2, c_name = Some ''b'', c_type = Some ''struct'', c_nulls_allowed = Some True, c_parent = None, c_order = Some 2, c_end = None\<rparr>,
        \<lparr>c_table_id = 2, c_name = Some ''a'', c_type = Some ''int32'', c_nulls_allowed = Some False, c_parent = None, c_order = Some 1, c_end = None\<rparr>]\<rparr>"

definition sample_state :: sync_state where
  "sample_state =
     \<lparr>ss_relations = \<lparr>pg_schemas = [''public'', ''sales''],
        pg_relations = [\<lparr>rel_schema = ''sales'', rel_name = ''old'', rel_oid = 20, rel_lake = True, rel_columns = []\<rparr>]\<rparr>,
      ss_indexes = [], ss_flags = \<lparr>sort_synced_from_pg = False, syncing_from_metadata = False\<rparr>\<rparr>"

lemma sample_new: "new_list sample_md 7 = [(\<lparr>t_table_id = 2, t_schema_id = 0, t_name = Some ''t'', t_begin = 7, t_end = None\<rparr>, \<lparr>s_schema_id = 0, s_name = Some ''sales'', s_end = None\<rparr>)]"
  by (simp add: new_list_def sample_md_def)

lemma sample_columns: "lake_columns sample_env sample_md 7 (''sales'', ''t'') = [(''a'', ''integer'', True), (''b'', ''text'', False)]"
  by (simp add: lake_columns_def new_table_rows_def sample_md_def table_columns_def col_info_def or_string_def column_order_def nulls_last_def
      column_text_def DuckLakeTypeToPgType_def sample_env_def)


section \<open>Where the tables differ\<close>

text \<open>The drop handler goes by name: an ordinary table that has the name of a dropped table of the lake is dropped too.\<close>

lemma plain_table_dropped:
  assumes "\<And>d st. ddl_ok env d st" "fst ` names st \<subseteq> set (pg_schemas st)"
    and "r \<in> set (pg_relations st)" "\<not> rel_lake r" "(rel_schema r, rel_name r) \<in> set (dropped_rows md sid)"
  shows "\<exists>st'. SyncDroppedTables env md sid st = Inr st' \<and> r \<notin> set (pg_relations st')"
  using assms(5) by (simp add: SyncDroppedTables_def tables_dropped [OF assms(1,2)])

text \<open>A table that is replaced in one snapshot is both new and dropped: the first handler skips it because the old
  one is still there, the second drops it, and PostgreSQL is left without a table that is live in the lake.\<close>

definition replaced_md :: lake_metadata where
  "replaced_md = sample_md\<lparr>md_tables := [\<lparr>t_table_id = 1, t_schema_id = 0, t_name = Some ''old'', t_begin = 1, t_end = Some 7\<rparr>,
      \<lparr>t_table_id = 2, t_schema_id = 0, t_name = Some ''old'', t_begin = 7, t_end = None\<rparr>]\<rparr>"

lemma replaced_table_lost:
  "lake_name ` set (new_list replaced_md 7) = {(''sales'', ''old'')}"
  "SyncNewTables sample_env replaced_md 7 (ss_relations sample_state) = Inr (ss_relations sample_state)"
  "SyncDroppedTables sample_env replaced_md 7 (ss_relations sample_state) = Inr ((ss_relations sample_state)\<lparr>pg_relations := []\<rparr>)"
proof -
  show "lake_name ` set (new_list replaced_md 7) = {(''sales'', ''old'')}"
    by (simp add: new_list_def replaced_md_def sample_md_def lake_name_def or_string_def)
  show "SyncNewTables sample_env replaced_md 7 (ss_relations sample_state) = Inr (ss_relations sample_state)"
    by (simp add: SyncNewTables_def new_table_rows_def replaced_md_def sample_md_def table_columns_def col_info_def or_string_def column_order_def nulls_last_def
      new_table_step_def emit_ddl_def start_table_def relation_exists_def sample_state_def add_column_def)
  show "SyncDroppedTables sample_env replaced_md 7 (ss_relations sample_state) = Inr ((ss_relations sample_state)\<lparr>pg_relations := []\<rparr>)"
    by (simp add: replaced_md_def SyncDroppedTables_def dropped_rows_def sample_md_def or_string_def drop_step_def SPI_ddl_def relation_exists_def
      sample_env_def sample_state_def)
qed

end
