(* ===== verification/Create_Options.thy ===== *)
theory Create_Options
  imports C_Strings
begin

text \<open>
  The options of the form \<^verbatim>\<open>ducklake.name\<close> of a \<^verbatim>\<open>CREATE TABLE\<close>, \<^verbatim>\<open>create_options.cpp\<close>: they are taken out of the statement before PostgreSQL
  sees it and kept until the table is created in DuckDB. The pending options are state of the process; the path that
  overrides the default while the table is created is state of the DuckDB connection. The value of an option is
  what \<^verbatim>\<open>defGetString\<close> gives.
\<close>

datatype option_error = UnrecognizedOption string | RequiresString | EmptyPath | SpecifiedTwice

record def_elem =
  defnamespace :: "string option"
  defname :: string
  defvalue :: "string option"

record PendingCreateOptions =
  present :: bool
  has_table_path :: bool
  table_path :: string

definition no_options :: PendingCreateOptions where
  "no_options = \<lparr>present = False, has_table_path = False, table_path = ''''\<rparr>"

definition IsDucklakeNamespace :: "def_elem \<Rightarrow> bool" where
  "IsDucklakeNamespace def = (defnamespace def = Some ''ducklake'')"

definition ParseTablePath :: "def_elem \<Rightarrow> PendingCreateOptions \<Rightarrow> option_error + PendingCreateOptions" where
  "ParseTablePath def out =
     (case defvalue def of
        None \<Rightarrow> Inl RequiresString
      | Some val \<Rightarrow> if val = '''' then Inl EmptyPath else Inr (out\<lparr>has_table_path := True, table_path := val\<rparr>))"

definition strip_step :: "def_elem \<Rightarrow> def_elem list \<times> PendingCreateOptions \<Rightarrow> option_error + def_elem list \<times> PendingCreateOptions" where
  "strip_step def x = (case x of (options, parsed) \<Rightarrow>
     if \<not> IsDucklakeNamespace def then Inr (options @ [def], parsed)
     else if defname def \<noteq> ''table_path'' then Inl (UnrecognizedOption (defname def))
     else if has_table_path parsed then Inl SpecifiedTwice
     else andthen (ParseTablePath def parsed) (\<lambda>parsed'. Inr (options, parsed')))"

text \<open>The remaining options, the pending ones and the result.\<close>

definition StripDucklakeCreateOptions ::
  "def_elem list option \<Rightarrow> PendingCreateOptions \<Rightarrow> option_error + def_elem list option \<times> PendingCreateOptions \<times> bool" where
  "StripDucklakeCreateOptions options_ref g_pending =
     (case options_ref of
        None \<Rightarrow> Inr (options_ref, g_pending, False)
      | Some options \<Rightarrow>
          if options = [] then Inr (options_ref, g_pending, False)
          else andthen (fold_err strip_step options ([], no_options)) (\<lambda>(options', parsed).
                 if \<not> has_table_path parsed then Inr (Some options', g_pending, False)
                 else Inr (Some options', parsed\<lparr>present := True\<rparr>, True)))"

definition TakePendingCreateOptions :: "PendingCreateOptions \<Rightarrow> PendingCreateOptions \<times> PendingCreateOptions" where
  "TakePendingCreateOptions g_pending = (g_pending, no_options)"

definition ClearPendingCreateOptions :: "PendingCreateOptions \<Rightarrow> PendingCreateOptions" where
  "ClearPendingCreateOptions g_pending = no_options"

text \<open>The guard: the override is set while the body runs, and cleared after it however it ends.\<close>

definition with_table_path :: "PendingCreateOptions \<Rightarrow> (string option \<Rightarrow> 'e + 'a) \<Rightarrow> string option \<Rightarrow> string option \<times> ('e + 'a)" where
  "with_table_path opts body override =
     (if has_table_path opts then (None, body (Some (table_path opts))) else (override, body override))"

section \<open>What is taken out\<close>

lemma strip_steps:
  assumes "fold_err strip_step defs (options, parsed) = Inr (options', parsed')"
  shows "options' = options @ filter (\<lambda>d. \<not> IsDucklakeNamespace d) defs \<and> length (filter IsDucklakeNamespace defs) \<le> (if has_table_path parsed then 0 else 1) \<and>
    (\<forall>d \<in> set defs. IsDucklakeNamespace d \<longrightarrow> defname d = ''table_path'' \<and> defvalue d \<noteq> Some '''' \<and>
       (\<exists>v. defvalue d = Some v \<and> parsed' = parsed\<lparr>has_table_path := True, table_path := v\<rparr>)) \<and>
    (filter IsDucklakeNamespace defs = [] \<longrightarrow> parsed' = parsed)"
  using assms
proof (induction defs arbitrary: options parsed)
  case (Cons d defs)
  show ?case
  proof (cases "IsDucklakeNamespace d")
    case False
    then show ?thesis using Cons.IH [of "options @ [d]" parsed] Cons.prems by (simp add: strip_step_def)
  next
    case True
    with Cons.prems obtain v where v: "defname d = ''table_path''" "\<not> has_table_path parsed" "defvalue d = Some v" "v \<noteq> ''''"
      "fold_err strip_step defs (options, parsed\<lparr>has_table_path := True, table_path := v\<rparr>) = Inr (options', parsed')"
      by (auto simp: strip_step_def [of d] ParseTablePath_def split: if_splits option.splits)
    from Cons.IH [OF v(5)] have "filter IsDucklakeNamespace defs = []" by simp
    then show ?thesis using Cons.IH [OF v(5)] True v(1-4) by (auto simp: filter_empty_conv)
  qed
qed simp

text \<open>On success the statement keeps exactly the options of other namespaces, in order; at most one was taken out, and what
  is pending then is its value, once: after it is taken nothing is pending.\<close>

lemma strip_result:
  assumes "StripDucklakeCreateOptions (Some defs) p = Inr (options', p', stripped)"
  shows "options' = Some (filter (\<lambda>d. \<not> IsDucklakeNamespace d) defs)" "stripped \<longleftrightarrow> filter IsDucklakeNamespace defs \<noteq> []"
    "stripped \<Longrightarrow> \<exists>d v. filter IsDucklakeNamespace defs = [d] \<and> defvalue d = Some v \<and> v \<noteq> '''' \<and>
       TakePendingCreateOptions p' = (\<lparr>present = True, has_table_path = True, table_path = v\<rparr>, no_options)"
    "\<not> stripped \<Longrightarrow> p' = p"
proof -
  have "options' = Some (filter (\<lambda>d. \<not> IsDucklakeNamespace d) defs) \<and> (stripped \<longleftrightarrow> filter IsDucklakeNamespace defs \<noteq> []) \<and>
    (stripped \<longrightarrow> (\<exists>d v. filter IsDucklakeNamespace defs = [d] \<and> defvalue d = Some v \<and> v \<noteq> '''' \<and>
       TakePendingCreateOptions p' = (\<lparr>present = True, has_table_path = True, table_path = v\<rparr>, no_options))) \<and> (\<not> stripped \<longrightarrow> p' = p)"
  proof (cases "defs = []")
    case True
    then show ?thesis using assms by (auto simp: StripDucklakeCreateOptions_def)
  next
    case False
    with assms obtain options parsed where r: "fold_err strip_step defs ([], no_options) = Inr (options, parsed)"
      "options' = Some options" "stripped = has_table_path parsed" "p' = (if stripped then parsed\<lparr>present := True\<rparr> else p)"
      by (auto simp: StripDucklakeCreateOptions_def andthen_Inr_iff split: if_splits)
    note s = strip_steps [OF r(1)]
    show ?thesis
    proof (cases "filter IsDucklakeNamespace defs")
      case Nil
      then show ?thesis using s r by (simp add: no_options_def)
    next
      case (Cons d ds)
      then have "ds = []" "d \<in> set defs" "IsDucklakeNamespace d" using s by (auto simp: no_options_def dest: filter_eq_ConsD)
      then show ?thesis using s r Cons by (auto simp: TakePendingCreateOptions_def no_options_def)
    qed
  qed
  then show "options' = Some (filter (\<lambda>d. \<not> IsDucklakeNamespace d) defs)" "stripped \<longleftrightarrow> filter IsDucklakeNamespace defs \<noteq> []"
    "stripped \<Longrightarrow> \<exists>d v. filter IsDucklakeNamespace defs = [d] \<and> defvalue d = Some v \<and> v \<noteq> '''' \<and>
       TakePendingCreateOptions p' = (\<lparr>present = True, has_table_path = True, table_path = v\<rparr>, no_options)"
    "\<not> stripped \<Longrightarrow> p' = p" by blast+
qed

text \<open>The guard does not restore an override that was set before: it leaves none.\<close>

lemma override_cleared: "has_table_path opts \<Longrightarrow> fst (with_table_path opts body override) = None"
  by (simp add: with_table_path_def)

end
