(* ===== verification/Partition_Hash.thy ===== *)
theory Partition_Hash
  imports Pg_Types_Props
begin

text \<open>
  The hash of the bucket partition transform, \<^verbatim>\<open>murmur3.cpp\<close>. PostgreSQL computes it on its own representation of a value, DuckLake on
  DuckDB's: a row is found in its bucket only if both agree. The hash of 8 bytes and of a byte string is DuckLake's, a
  parameter, as are the operations on doubles; a PostgreSQL timestamp plus the offset wraps at 64 bits.
\<close>

record 'f murmur_env =
  HashValue :: "int \<Rightarrow> int"
  Hash :: "nat list \<Rightarrow> int"
  positive_zero :: 'f
  equals_zero :: "'f \<Rightarrow> bool"
  double_bits :: "'f \<Rightarrow> int"

definition PG_TO_UNIX_EPOCH_DAYS :: int where "PG_TO_UNIX_EPOCH_DAYS = 2451545 - 2440588"

definition PG_TO_UNIX_EPOCH_USECS :: int where "PG_TO_UNIX_EPOCH_USECS = PG_TO_UNIX_EPOCH_DAYS * 86400000000"

definition MurmurInt64 :: "'f murmur_env \<Rightarrow> int \<Rightarrow> int" where
  "MurmurInt64 env val = HashValue env val"

definition MurmurDouble :: "'f murmur_env \<Rightarrow> 'f \<Rightarrow> int" where
  "MurmurDouble env val = MurmurInt64 env (double_bits env (if equals_zero env val then positive_zero env else val))"

definition ducklake_murmur3_bool :: "'f murmur_env \<Rightarrow> bool \<Rightarrow> int" where
  "ducklake_murmur3_bool env b = MurmurInt64 env (if b then 1 else 0)"

text \<open>The overloads for \<^verbatim>\<open>int2\<close>, \<^verbatim>\<open>int4\<close>, \<^verbatim>\<open>int8\<close> and \<^verbatim>\<open>time\<close>, which only widen their argument.\<close>

definition ducklake_murmur3_int :: "'f murmur_env \<Rightarrow> int \<Rightarrow> int" where
  "ducklake_murmur3_int env n = MurmurInt64 env n"

text \<open>The overload for \<^verbatim>\<open>float8\<close>, and for \<^verbatim>\<open>float4\<close> once its argument is widened.\<close>

definition ducklake_murmur3_float8 :: "'f murmur_env \<Rightarrow> 'f \<Rightarrow> int" where
  "ducklake_murmur3_float8 env v = MurmurDouble env v"

definition ducklake_murmur3_text :: "'f murmur_env \<Rightarrow> nat list \<Rightarrow> int" where
  "ducklake_murmur3_text env bytes = Hash env bytes"

definition ducklake_murmur3_date :: "'f murmur_env \<Rightarrow> int \<Rightarrow> int" where
  "ducklake_murmur3_date env d = MurmurInt64 env (d + PG_TO_UNIX_EPOCH_DAYS)"

definition ducklake_murmur3_timestamp :: "'f murmur_env \<Rightarrow> int \<Rightarrow> int" where
  "ducklake_murmur3_timestamp env t = MurmurInt64 env (wrap64 (t + PG_TO_UNIX_EPOCH_USECS))"

section \<open>Agreement with the value that DuckDB reads\<close>

lemmas epoch_defs = PG_TO_UNIX_EPOCH_DAYS_def PG_TO_UNIX_EPOCH_USECS_def conv_constants

lemma date_hash_agrees:
  assumes "limits_ok L" "pg_date_ok d" "d \<noteq> DATEVAL_NOBEGIN" "d \<noteq> DATEVAL_NOEND"
  shows "ducklake_murmur3_date env d = MurmurInt64 env (AppendDate L d)"
  using assms by (auto simp: ducklake_murmur3_date_def AppendDate_def pg_date_ok_def epoch_defs wrap32_id)

lemma timestamp_hash_agrees:
  assumes "AppendTimestamp L t = Inr y" "t \<noteq> DT_NOBEGIN" "t \<noteq> DT_NOEND"
  shows "ducklake_murmur3_timestamp env t = MurmurInt64 env y"
  using assms by (auto simp: ducklake_murmur3_timestamp_def AppendTimestamp_def epoch_defs split: if_splits)

lemma zeros_hash_alike: "equals_zero env v \<Longrightarrow> equals_zero env w \<Longrightarrow> MurmurDouble env v = MurmurDouble env w"
  by (simp add: MurmurDouble_def)

text \<open>The infinities are shifted like any other value, while DuckDB reads them as its own: with a hash that tells the two
  numbers apart the rows are looked for in another bucket.\<close>

lemma infinity_hashed_apart:
  assumes "limits_ok L"
  shows "ducklake_murmur3_date env DATEVAL_NOEND = MurmurInt64 env (AppendDate L DATEVAL_NOEND + 10957)"
    "ducklake_murmur3_timestamp env DT_NOEND = MurmurInt64 env (- 9222425352054775809)" "AppendTimestamp L DT_NOEND = Inr 9223372036854775807"
  using assms by (simp_all add: ducklake_murmur3_date_def ducklake_murmur3_timestamp_def AppendDate_def AppendTimestamp_def limits_ok_def epoch_defs signed_take_bit_mod)

end
