(* ===== verification/Spec2Isabelle.thy ===== *)
theory Spec2Isabelle
  imports Maintenance_Props Pg_Arrays_Props Hooks_Props Sorted_By_Props Catalog_Sync_Props Create_Options Partition_Hash
begin

text \<open>
  Verification of pg_ducklake, a PostgreSQL extension that keeps tables in DuckLake: the rows are files read by an embedded
  DuckDB, the metadata are PostgreSQL tables, and small inserts are kept inline, as rows of PostgreSQL tables, until they are
  flushed. Paths below are under \<^verbatim>\<open>src/\<close>; \<^verbatim>\<open>libpgduckdb/\<close> is the library between PostgreSQL and DuckDB, \<^verbatim>\<open>pg_ducklake/src/\<close> the extension.

  \<^bold>\<open>The program.\<close> A statement reaches the planner hook (\<^verbatim>\<open>hooks.cpp\<close>). An \<^verbatim>\<open>INSERT\<close> that \<^verbatim>\<open>direct_insert.cpp\<close> recognises, like a \<^verbatim>\<open>COPY\<close> from the
  client (\<^verbatim>\<open>copy_from.cpp\<close>), is written by the native writer without DuckDB: it reserves a ticket (\<^verbatim>\<open>native_writer_queue.cpp\<close>), writes its
  rows under predicted ids, collects column statistics (\<^verbatim>\<open>inline_col_stats.cpp\<close>), waits for its turn and publishes a snapshot
  (\<^verbatim>\<open>native_inline_writer.cpp\<close>), with retries when another transaction was faster. Everything else that touches the lake is planned
  through DuckDB (\<^verbatim>\<open>pgddb_planner.cpp\<close>), foreign lakes being attached first (\<^verbatim>\<open>ducklake_fdw.cpp\<close>), and values are converted both ways
  (\<^verbatim>\<open>pgddb_types.cpp\<close>). A trigger on the snapshot table (\<^verbatim>\<open>catalog_sync.cpp\<close>) carries what other DuckDB clients did to PostgreSQL's
  catalog. Background workers (\<^verbatim>\<open>maintenance_worker.cpp\<close>) flush, expire and compact.

  \<^bold>\<open>Conventions.\<close> A fallible function returns \<open>'e + 'a\<close>, \<open>Inl\<close> for an \<^verbatim>\<open>ereport(ERROR)\<close> or a C++ exception. Unsigned integers and object ids
  are words of their width. Shared memory, catalogs and metadata tables are records and lists of rows; SQL statements are
  functions on them. What other backends do between two critical sections or statements is an argument. DuckDB, DuckLake
  and PostgreSQL's own functions are parameters, with what is relied on as hypotheses of the theorems.

  \<^bold>\<open>Theories.\<close> Definitions carry the names of the functions they translate.
  \<^item> \<open>Lake_Prelude\<close>, \<open>C_Strings\<close>, \<open>Row_Groups\<close>: integer types, results, index loops, transition systems, C strings and three-way
    comparisons, rows grouped by a key.
  \<^item> \<open>Guc\<close> (\<^verbatim>\<open>guc.cpp\<close>): the settings, with their ranges.
  \<^item> \<open>Native_Writer_Queue\<close>, \<open>Native_Writer_Queue_Inv\<close>, \<open>Native_Writer_Queue_System\<close>, \<open>Native_Writer_Queue_Props\<close>: the reservation queue. Each
    function that holds the spinlock is a function on \<open>queue\<close>; \<open>sys_step\<close> interleaves the backends. The invariant gives distinct
    candidates that grow with the ticket, disjoint row-id ranges, one publication turn per catalog which its holder
    keeps, sound answers of the wait, and the effect of commits and aborts.
  \<^item> \<open>Lake_Db\<close>, \<open>Native_Column_Stats\<close>, \<open>Native_Inline_Writer\<close>, \<open>Native_Inline_Writer_Props\<close>: the metadata tables and a publication. An
    attempt is all or nothing, sees the state it publishes over, adds one snapshot and the rows of the batch under fresh
    ids, keeps the history complete and row ids unique; an attempt nobody disturbs succeeds; both ways to retag rows agree.
  \<^item> \<open>Inline_Col_Stats\<close>, \<open>Column_Stats_Props\<close>, \<open>Published_Stats_Props\<close>: column statistics tell the truth about the values, from the
    accumulator over the merge to the row in the metadata.
  \<^item> \<open>Pg_Nodes\<close>, \<open>Pg_Mutators\<close>: the parse tree with PostgreSQL's walkers and mutators.
  \<^item> \<open>Direct_Insert\<close>, \<open>Direct_Insert_Exec\<close>, \<open>Inline_Producer\<close>, \<open>Copy_From\<close> and \<open>Inline_Producer_Props\<close>, \<open>Direct_Insert_Props\<close>,
    \<open>Insert_End_To_End\<close>, \<open>Direct_Insert_Match_Props\<close>: matching, plan encoding, executor and prewrite. A matched insert publishes
    exactly the rows of its source; the plan survives its encoding; the permission checks reach every nested query; accepted
    values depend on nothing that could change.
  \<^item> \<open>Ducklake_Fdw\<close>, \<open>Pg_Planner\<close>, \<open>Hooks\<close> and \<open>Ducklake_Fdw_Props\<close>, \<open>Hooks_Props\<close>: foreign lakes, DuckDB plans and the hooks. Every foreign
    table that the walk reaches is attached under the name the query uses; an insert is checked again whenever a cached plan
    starts.
  \<^item> \<open>Pg_Numeric\<close>, \<open>Pg_Types\<close>, \<open>Pg_Arrays\<close> and \<open>Pg_Numeric_Props\<close>, \<open>Pg_Types_Props\<close>, \<open>Pg_Arrays_Props\<close>: values. Decimals and scalars survive
    a round trip, timestamps are read exactly or refused, UUIDs keep their order, rectangular lists become arrays and arrays
    of up to two dimensions lists.
  \<^item> \<open>Sorted_By\<close>, \<open>Sorted_By_Props\<close>, \<open>Catalog_Sync\<close>, \<open>Catalog_Sync_Props\<close>: sort and partition keys and the snapshot trigger. Tables and
    sort keys of a new snapshot are mirrored in PostgreSQL.
  \<^item> \<open>Create_Options\<close> (\<^verbatim>\<open>create_options.cpp\<close>) and \<open>Partition_Hash\<close> (\<^verbatim>\<open>murmur3.cpp\<close>): what is taken out of a \<^verbatim>\<open>CREATE TABLE\<close>, and that the hash PostgreSQL computes
    of a finite date or timestamp is the hash of the value that DuckDB reads.
  \<^item> \<open>Maintenance\<close>, \<open>Maintenance_Props\<close>: launcher and workers. One worker per database, a failed operation leaves no trace.

  The interfaces are locales: \<open>transition_system\<close> (interpreted by the queue and the maintenance slots), \<open>three_way\<close> (by \<^verbatim>\<open>strcmp\<close>),
  \<open>exact_fit\<close> and \<open>exact_signed\<close> (by the integer types that hold decimals).

  \<^bold>\<open>Bounds.\<close> The wait of the queue takes the list of its turns as an argument and gives \<open>None\<close> when they are used up; that it ends
  once the budget has passed is proved. The retry loop of a publication is bounded by the retry setting, as in the code.
  Every other loop is structural recursion or has a termination proof. Row counts are below \<open>2^63\<close>, and there are at most \<open>2^32\<close> object
  ids, where a theorem needs it.

  \<^bold>\<open>Departures.\<close> Lemmas at the end of the \<^verbatim>\<open>_Props\<close> theories show where the code does less than it means to: decimals of full scale, \<^verbatim>\<open>NaN\<close>,
  infinite parameters and three-dimensional arrays are converted wrongly, long lists are refused, a maintenance worker that is
  terminated blocks its database, a table replaced in one snapshot is lost, sort keys of an unknown table go to the next one,
  and cached object ids outlive what they name.

  \<^bold>\<open>Not modelled.\<close>
  \<^item> \<^verbatim>\<open>libpgduckdb/vendor/pg_ruleutils_*.c\<close> and \<^verbatim>\<open>pgddb_ruleutils.cpp\<close>, the deparser: copies of PostgreSQL's code for six versions and
    the hooks in it; the text of a query is a parameter.
  \<^item> \<^verbatim>\<open>libpgduckdb/scan\<close>, \<^verbatim>\<open>catalog\<close>, \<^verbatim>\<open>pgddb_node.cpp\<close>, \<^verbatim>\<open>pgddb_duckdb.cpp\<close>, \<^verbatim>\<open>pgddb_subscript.cpp\<close>, \<^verbatim>\<open>pg\<close>: callbacks and wrappers whose work is DuckDB's or
    PostgreSQL's executor. \<^verbatim>\<open>pgddb_detoast.cpp\<close>: raw memory of toasted values.
  \<^item> The dispatch of \<^verbatim>\<open>pgddb_types.cpp\<close> over batches of rows and the table of array element types; of \<^verbatim>\<open>hooks.cpp\<close> the utility hook, which
    routes DDL text; of \<^verbatim>\<open>ducklake_table.cpp\<close> the access method, which raises errors, and the event triggers, which send deparsed DDL
    to DuckDB; of \<^verbatim>\<open>functions.cpp\<close> and \<^verbatim>\<open>ducklake_types.cpp\<close> what only hands a call to DuckDB; of
    \<^verbatim>\<open>pgducklake_metadata_manager.cpp\<close> the queries that DuckLake issues.
  \<^item> \<^verbatim>\<open>duckdb_manager.cpp\<close>, \<^verbatim>\<open>ducklake_secret.cpp\<close>, \<^verbatim>\<open>freeze.cpp\<close>, \<^verbatim>\<open>time_travel.cpp\<close>: set-up of DuckDB and single statements for it.
  \<^item> \<^verbatim>\<open>pg_duckdb\<close> and \<^verbatim>\<open>examples/pg_vortex\<close>: other extensions on the same library.
  \<^item> Memory contexts, signals, latches and reference counts, throughout.
\<close>

end
